(* ===== verification/Elkvm_Prelude.thy ===== *)
theory Elkvm_Prelude
  imports Main "HOL-Library.Word"
begin

text \<open>
  Shared vocabulary of the development.

  \<^item> the machine types of the program: 64-bit guest and host addresses, sizes and page-table
    entries, and byte-addressed host memory;
  \<^item> the result type of operations that may end the process: the library is built with
    \<^verbatim>\<open>CMAKE_BUILD_TYPE Debug\<close>, so a failed \<^verbatim>\<open>assert\<close> aborts, and it calls \<^verbatim>\<open>exit\<close> and throws;
  \<^item> little-endian 64-bit loads and stores and block operations on host memory;
  \<^item> the collections \<open>page_simps\<close> (page arithmetic), \<open>mem_simps\<close> (loads after stores)
    and \<open>res_simps\<close> (sequencing of fallible steps) that carry the component proofs.
\<close>

unbundle bit_operations_syntax

named_theorems page_simps \<open>facts about page masks and page rounding\<close>
named_theorems mem_simps \<open>loads after stores\<close>
named_theorems res_simps \<open>sequencing of fallible steps\<close>

type_synonym u64 = "64 word"
type_synonym u32 = "32 word"
type_synonym u16 = "16 word"
type_synonym u8 = "8 word"
type_synonym guestptr = "64 word"
type_synonym hostptr = "64 word"
type_synonym ptentry = "64 word"
type_synonym memory = "64 word \<Rightarrow> 8 word"


section \<open>Steps that may end the process\<close>

text \<open>
  \<open>Abort\<close> is a failed assertion, \<open>Exit\<close> a call of \<^verbatim>\<open>exit\<close> with its status, \<open>Throw\<close> an
  exception that carries an error number (0 for a plain \<^verbatim>\<open>throw\<close>), and \<open>Fault\<close> a
  dereference of a null pointer.
\<close>

datatype failure = Abort | Exit int | Throw int | Fault

type_synonym 'a res = "failure + 'a"

definition bindE :: "'a res \<Rightarrow> ('a \<Rightarrow> 'b res) \<Rightarrow> 'b res" where
  "bindE m f = (case m of Inl e \<Rightarrow> Inl e | Inr x \<Rightarrow> f x)"

definition assertE :: "bool \<Rightarrow> unit res" where
  "assertE b = (if b then Inr () else Inl Abort)"

lemma bindE_simps [simp]:
  "bindE (Inl e) f = Inl e"
  "bindE (Inr x) f = f x"
  by (simp_all add: bindE_def)

lemma assertE_True [simp]: "assertE True = Inr ()"
  by (simp add: assertE_def)

lemma assertE_False [simp]: "assertE False = Inl Abort"
  by (simp add: assertE_def)

lemma assertE_eq_Inr [simp]: "assertE b = Inr u \<longleftrightarrow> b"
  by (simp add: assertE_def)

lemma bindE_eq_Inr [res_simps]:
  "bindE m f = Inr y \<longleftrightarrow> (\<exists>x. m = Inr x \<and> f x = Inr y)"
  by (cases m) simp_all

lemma bindE_eq_Inl [res_simps]:
  "bindE m f = Inl e \<longleftrightarrow> m = Inl e \<or> (\<exists>x. m = Inr x \<and> f x = Inl e)"
  by (cases m) simp_all

lemma bindE_assertE: "bindE (assertE b) f = (if b then f () else Inl Abort)"
  by (simp add: assertE_def)

lemma bindE_InrE:
  assumes "bindE m f = Inr y"
  obtains x where "m = Inr x" and "f x = Inr y"
  using assms by (cases m) simp_all


text \<open>Sequencing of steps that may also run for ever (\<open>None\<close>).\<close>

definition bindO :: "'a res option \<Rightarrow> ('a \<Rightarrow> 'b res option) \<Rightarrow> 'b res option" where
  "bindO m f = (case m of None \<Rightarrow> None | Some r \<Rightarrow> (case r of Inl e \<Rightarrow> Some (Inl e) | Inr x \<Rightarrow> f x))"

lemma bindO_simps [simp]:
  "bindO None f = None"
  "bindO (Some (Inl e)) f = Some (Inl e)"
  "bindO (Some (Inr x)) f = f x"
  by (simp_all add: bindO_def)

lemma bindO_eq_Some [res_simps]:
  "bindO m f = Some (Inr y) \<longleftrightarrow> (\<exists>x. m = Some (Inr x) \<and> f x = Some (Inr y))"
  by (simp add: bindO_def split: option.split sum.split)

lemma bindO_mono:
  "option_ord x y \<Longrightarrow> (\<And>a. option_ord (g a) (h a)) \<Longrightarrow> option_ord (bindO x g) (bindO y h)"
  by (auto simp: bindO_def flat_ord_def split: option.splits sum.splits)

lemma bindO_mono_option [partial_function_mono]:
  assumes "mono_option f" "\<And>a. mono_option (\<lambda>F. g F a)"
  shows "mono_option (\<lambda>F. bindO (f F) (g F))"
  using assms unfolding monotone_def by (fastforce intro!: bindO_mono)


section \<open>Error numbers\<close>

definition EPERM :: int where "EPERM = 1"
definition ENOENT :: int where "ENOENT = 2"
definition EINTR :: int where "EINTR = 4"
definition EIO :: int where "EIO = 5"
definition EAGAIN :: int where "EAGAIN = 11"
definition ENOMEM :: int where "ENOMEM = 12"
definition EINVAL :: int where "EINVAL = 22"
definition ENOSYS :: int where "ENOSYS = 38"
definition ENOPROTOOPT :: int where "ENOPROTOOPT = 92"


section \<open>Masks\<close>

lemma mask_3 [page_simps]: "(7 :: 'a :: len word) = mask 3"
  by (simp add: mask_eq_exp_minus_1)

lemma mask_12 [page_simps]: "(0xFFF :: 'a :: len word) = mask 12"
  by (simp add: mask_eq_exp_minus_1)

lemma unat_less_power: "unat (w :: 'a :: len word) < 2 ^ LENGTH('a)"
  by (rule unsigned_less)

lemma unat_eq_of_nat: "unat w = k \<Longrightarrow> w = of_nat k"
  by auto

lemma find_append: "List.find P (xs @ ys) = (case List.find P xs of None \<Rightarrow> List.find P ys | Some x \<Rightarrow> Some x)"
  by (induction xs) simp_all

lemma unat_of_nat_small: "x < 2 ^ 64 \<Longrightarrow> unat (of_nat x :: u64) = x"
  by (simp add: unsigned_of_nat take_bit_nat_eq_self)

lemma sint_small:
  assumes "unat (w :: u64) < 2 ^ 63"
  shows "sint w = uint w"
proof -
  have "int (unat w) < int (2 ^ 63)"
    using assms by (simp only: of_nat_less_iff)
  moreover have "- (2 ^ 63) \<le> uint w"
    by (rule order_trans [OF _ uint_ge_0]) simp
  ultimately have "signed_take_bit 63 (uint w) = uint w"
    by (intro signed_take_bit_int_eq_self) simp_all
  then show ?thesis
    by (simp add: sint_uint)
qed

lemma unat_and_mask: "unat ((a :: 'a :: len word) AND mask n) = unat a mod 2 ^ n"
  by (simp add: unsigned_take_bit_eq take_bit_nat_def flip: take_bit_eq_mask)

lemma and_mask_plus_and_not_mask:
  "((a :: 'a :: len word) AND NOT (mask n)) + (a AND mask n) = a"
proof -
  have "(a AND NOT (mask n)) + (a AND mask n) = (a AND NOT (mask n)) OR (a AND mask n)"
    by (rule disjunctive_add) (auto simp: bit_simps)
  also have "\<dots> = a"
    by (rule bit_word_eqI) (auto simp: bit_simps)
  finally show ?thesis .
qed

lemma unat_and_not_mask:
  "unat ((a :: 'a :: len word) AND NOT (mask n)) = unat a - unat a mod 2 ^ n"
proof -
  have "a AND NOT (mask n) = a - (a AND mask n)"
    using and_mask_plus_and_not_mask [of a n] by (simp add: eq_diff_eq)
  moreover have "a AND mask n \<le> a"
    by (simp add: word_le_nat_alt unat_and_mask)
  ultimately show ?thesis
    by (simp add: unat_sub unat_and_mask)
qed

lemma and_mask_eq_0_iff:
  "(a :: 'a :: len word) AND mask n = 0 \<longleftrightarrow> 2 ^ n dvd unat a"
  by (metis mod_0_imp_dvd dvd_imp_mod_0 unat_and_mask unat_eq_zero)

lemma dvd_unat_diff:
  assumes "2 ^ n dvd unat (a :: 'a :: len word)" and "2 ^ n dvd unat b"
    and "n \<le> LENGTH('a)"
  shows "2 ^ n dvd unat (a - b)"
proof (cases "unat b \<le> unat a")
  case True
  with assms show ?thesis by (simp add: unat_sub_if' dvd_diff_nat)
next
  case False
  have "(2 :: nat) ^ n dvd 2 ^ LENGTH('a)"
    using assms(3) by (rule le_imp_power_dvd)
  with assms False show ?thesis by (simp add: unat_sub_if' dvd_diff_nat)
qed


section \<open>Decimal numbers\<close>

fun dec_nat :: "nat \<Rightarrow> string" where
  "dec_nat n = (if n < 10 then [char_of (48 + n)] else dec_nat (n div 10) @ [char_of (48 + n mod 10)])"

definition dec_int :: "int \<Rightarrow> string" where
  "dec_int i = (if i < 0 then CHR ''-'' # dec_nat (nat (- i)) else dec_nat (nat i))"


section \<open>Host memory\<close>

definition read64 :: "memory \<Rightarrow> hostptr \<Rightarrow> u64" where
  "read64 m p = ucast (m p) OR push_bit 8 (ucast (m (p + 1)))
     OR push_bit 16 (ucast (m (p + 2))) OR push_bit 24 (ucast (m (p + 3)))
     OR push_bit 32 (ucast (m (p + 4))) OR push_bit 40 (ucast (m (p + 5)))
     OR push_bit 48 (ucast (m (p + 6))) OR push_bit 56 (ucast (m (p + 7)))"

definition write64 :: "memory \<Rightarrow> hostptr \<Rightarrow> u64 \<Rightarrow> memory" where
  "write64 m p v = m(p := ucast v, p + 1 := ucast (drop_bit 8 v),
     p + 2 := ucast (drop_bit 16 v), p + 3 := ucast (drop_bit 24 v),
     p + 4 := ucast (drop_bit 32 v), p + 5 := ucast (drop_bit 40 v),
     p + 6 := ucast (drop_bit 48 v), p + 7 := ucast (drop_bit 56 v))"

text \<open>\<open>memset m p v n\<close>: \<^verbatim>\<open>memset(p, v, n)\<close>; a block is addressed modulo \<open>2 ^ 64\<close>.\<close>

definition memset :: "memory \<Rightarrow> hostptr \<Rightarrow> u8 \<Rightarrow> u64 \<Rightarrow> memory" where
  "memset m p v n = (\<lambda>a. if a - p < n then v else m a)"

primrec write_bytes :: "memory \<Rightarrow> hostptr \<Rightarrow> u8 list \<Rightarrow> memory" where
  "write_bytes m p [] = m"
| "write_bytes m p (b # bs) = write_bytes (m(p := b)) (p + 1) bs"

text \<open>\<^verbatim>\<open>memcpy(dst, src, n)\<close> on blocks that do not overlap.\<close>

definition memcpy :: "memory \<Rightarrow> hostptr \<Rightarrow> hostptr \<Rightarrow> u64 \<Rightarrow> memory" where
  "memcpy m dst src n = (\<lambda>a. if a - dst < n then m (src + (a - dst)) else m a)"

definition read_bytes :: "memory \<Rightarrow> hostptr \<Rightarrow> nat \<Rightarrow> u8 list" where
  "read_bytes m p n = map (\<lambda>i. m (p + of_nat i)) [0..<n]"

text \<open>Two- and four-byte accesses.\<close>

definition read16 :: "memory \<Rightarrow> hostptr \<Rightarrow> u16" where
  "read16 m p = ucast (m p) OR push_bit 8 (ucast (m (p + 1)))"

definition write16 :: "memory \<Rightarrow> hostptr \<Rightarrow> u16 \<Rightarrow> memory" where
  "write16 m p v = write_bytes m p [ucast v, ucast (drop_bit 8 v)]"

definition read32 :: "memory \<Rightarrow> hostptr \<Rightarrow> u32" where
  "read32 m p = ucast (m p) OR push_bit 8 (ucast (m (p + 1))) OR push_bit 16 (ucast (m (p + 2))) OR push_bit 24 (ucast (m (p + 3)))"

definition write32 :: "memory \<Rightarrow> hostptr \<Rightarrow> u32 \<Rightarrow> memory" where
  "write32 m p v = write_bytes m p [ucast v, ucast (drop_bit 8 v), ucast (drop_bit 16 v), ucast (drop_bit 24 v)]"

lemma bit_byte_of:
  "bit (ucast (ucast v :: u8) :: u64) n \<longleftrightarrow> n < 8 \<and> bit (v :: u64) n"
  "bit (push_bit k (ucast (ucast (drop_bit k v) :: u8)) :: u64) n \<longleftrightarrow>
     k \<le> n \<and> n < k + 8 \<and> n < 64 \<and> bit (v :: u64) n"
  by (auto simp: bit_simps)

lemma read64_write64_same [simp, mem_simps]: "read64 (write64 m p v) p = v"
proof (rule bit_word_eqI)
  fix n assume "n < LENGTH(64)"
  then consider "n < 8" | "8 \<le> n \<and> n < 16" | "16 \<le> n \<and> n < 24" | "24 \<le> n \<and> n < 32"
    | "32 \<le> n \<and> n < 40" | "40 \<le> n \<and> n < 48" | "48 \<le> n \<and> n < 56" | "56 \<le> n \<and> n < 64"
    by fastforce
  moreover have "read64 (write64 m p v) p = ucast (ucast v :: u8)
     OR push_bit 8 (ucast (ucast (drop_bit 8 v) :: u8))
     OR push_bit 16 (ucast (ucast (drop_bit 16 v) :: u8))
     OR push_bit 24 (ucast (ucast (drop_bit 24 v) :: u8))
     OR push_bit 32 (ucast (ucast (drop_bit 32 v) :: u8))
     OR push_bit 40 (ucast (ucast (drop_bit 40 v) :: u8))
     OR push_bit 48 (ucast (ucast (drop_bit 48 v) :: u8))
     OR push_bit 56 (ucast (ucast (drop_bit 56 v) :: u8))"
    by (simp add: read64_def write64_def)
  ultimately show "bit (read64 (write64 m p v) p) n \<longleftrightarrow> bit v n"
    by cases (simp_all add: bit_or_iff bit_byte_of)
qed

lemma write64_outside:
  assumes "8 \<le> a - p"
  shows "write64 m p v a = m a"
proof -
  have "a \<noteq> p + k" if "k < 8" for k
    using assms that by (auto simp: not_less [symmetric])
  from this [of 0] this [of 1] this [of 2] this [of 3] this [of 4] this [of 5] this [of 6] this [of 7]
  show ?thesis by (simp add: write64_def)
qed

lemma read64_cong:
  assumes "\<And>k. k < 8 \<Longrightarrow> m (p + k) = m' (p + k)"
  shows "read64 m p = read64 m' p"
  using assms [of 0] assms [of 1] assms [of 2] assms [of 3] assms [of 4] assms [of 5]
    assms [of 6] assms [of 7]
  by (simp add: read64_def)

text \<open>Two 8-byte cells that do not overlap, in either direction around the address space.\<close>

definition cells_apart :: "u64 \<Rightarrow> u64 \<Rightarrow> bool" where
  "cells_apart a b \<longleftrightarrow> 8 \<le> a - b \<and> 8 \<le> b - a"

lemma word_plus_ge:
  assumes "c \<le> (d :: 'a :: len word)" and "c \<le> - d" and "k < c"
  shows "c \<le> d + k"
proof -
  have "unat (- d) = 2 ^ LENGTH('a) - unat d" if "d \<noteq> 0"
    using that unat_sub_if' [of 0 d] by (simp add: unat_gt_0)
  moreover have "d \<noteq> 0"
    using assms by auto
  ultimately have "unat d + unat k < 2 ^ LENGTH('a)"
    using assms unat_less_power [of d] by (simp add: word_le_nat_alt word_less_nat_alt)
  then show ?thesis
    using assms(1) by (simp add: word_le_nat_alt unat_plus_if')
qed

lemma read64_write64_apart [mem_simps]:
  assumes "cells_apart a b"
  shows "read64 (write64 m a v) b = read64 m b"
proof (rule read64_cong)
  fix k :: u64
  assume k: "k < 8"
  have "8 \<le> (b - a) + k"
    using assms k unfolding cells_apart_def by (intro word_plus_ge) (simp_all add: minus_diff_eq)
  then have "8 \<le> b + k - a"
    by (simp add: algebra_simps)
  then show "write64 m a v (b + k) = m (b + k)"
    by (rule write64_outside)
qed

lemma aligned_cells_apart:
  assumes "8 dvd unat a" and "8 dvd unat b" and "a \<noteq> b"
  shows "cells_apart a b"
proof -
  have "8 \<le> unat (x - y)" if "8 dvd unat x" "8 dvd unat y" "x \<noteq> y" for x y :: u64
  proof -
    have "2 ^ 3 dvd unat (x - y)"
      by (rule dvd_unat_diff) (use that in simp_all)
    moreover have "unat (x - y) \<noteq> 0"
      using that(3) by (simp add: unat_eq_0)
    ultimately show ?thesis
      by (auto dest: dvd_imp_le)
  qed
  from this [OF assms] this [OF assms(2,1) assms(3) [symmetric]]
  show ?thesis by (simp add: cells_apart_def word_le_nat_alt)
qed

lemma memset_zero_read64:
  assumes "unat (a - p) + 8 \<le> unat n"
  shows "read64 (memset m p 0 n) a = 0"
proof -
  have "a + k - p < n" if "k < 8" for k :: u64
  proof -
    have "unat ((a - p) + k) \<le> unat (a - p) + unat k"
      by (simp add: unat_plus_if')
    also have "\<dots> < unat n"
      using assms that by (simp add: word_less_nat_alt)
    finally show ?thesis
      by (simp add: word_less_nat_alt algebra_simps)
  qed
  then have "memset m p 0 n (a + k) = 0" if "k < 8" for k
    using that by (simp add: memset_def)
  from this [of 0] this [of 1] this [of 2] this [of 3] this [of 4] this [of 5] this [of 6] this [of 7]
  show ?thesis by (simp add: read64_def)
qed

lemma write64_write64 [simp]: "write64 (write64 m p v) p w = write64 m p w"
  by (rule ext) (simp add: write64_def)

lemma byte_of_read64:
  "ucast (read64 m p) = m p"
  "ucast (drop_bit 8 (read64 m p)) = m (p + 1)"
  "ucast (drop_bit 16 (read64 m p)) = m (p + 2)"
  "ucast (drop_bit 24 (read64 m p)) = m (p + 3)"
  "ucast (drop_bit 32 (read64 m p)) = m (p + 4)"
  "ucast (drop_bit 40 (read64 m p)) = m (p + 5)"
  "ucast (drop_bit 48 (read64 m p)) = m (p + 6)"
  "ucast (drop_bit 56 (read64 m p)) = m (p + 7)"
  by (rule bit_word_eqI; simp add: read64_def bit_simps; fastforce dest: bit_imp_le_length)+

lemma write64_read64 [simp]: "write64 m p (read64 m p) = m"
  by (simp add: write64_def byte_of_read64)

lemma memset_outside_read64:
  assumes "\<And>k. k < 8 \<Longrightarrow> n \<le> a + k - p"
  shows "read64 (memset m p v n) a = read64 m a"
  by (rule read64_cong) (simp add: memset_def assms [THEN leD])

end
