(* ===== verification/Page_Arith.thy ===== *)
theory Page_Arith
  imports Elkvm_Prelude
begin

text \<open>
  Page arithmetic (the free functions at the end of \<^verbatim>\<open>src/src/pager.cc\<close> and the constants of
  \<^verbatim>\<open>include/elkvm/pager.h\<close>).  Addresses and sizes are 64-bit words, so rounding up wraps at the
  top of the address space; functions declared \<^verbatim>\<open>int\<close> or \<^verbatim>\<open>unsigned int\<close> return the low 32 bits.
\<close>

section \<open>Definitions\<close>

definition ELKVM_PAGESIZE :: u64 where "ELKVM_PAGESIZE = 0x1000"
definition ELKVM_PAGE_MASK :: u64 where "ELKVM_PAGE_MASK = 0xFFF"
definition ELKVM_PAGER_MEMSIZE :: u64 where "ELKVM_PAGER_MEMSIZE = 16 * 1024 * 1024"
definition ELKVM_SYSTEM_MEMSIZE :: u64 where "ELKVM_SYSTEM_MEMSIZE = 16 * 1024 * 1024"
definition ELKVM_SYSTEM_MEMGROW :: u64 where "ELKVM_SYSTEM_MEMGROW = 128 * 1024 * 1024"

definition page_begin :: "guestptr \<Rightarrow> guestptr" where
  "page_begin addr = addr AND NOT 0xFFF"

definition page_aligned :: "u64 \<Rightarrow> bool" where
  "page_aligned addr \<longleftrightarrow> addr AND NOT 0xFFF = addr"

definition next_page :: "guestptr \<Rightarrow> guestptr" where
  "next_page addr = (addr AND NOT 0xFFF) + ELKVM_PAGESIZE"

definition pages_from_size :: "u64 \<Rightarrow> u32" where
  "pages_from_size sz =
     (if sz AND ELKVM_PAGE_MASK \<noteq> 0 then ucast (sz div ELKVM_PAGESIZE + 1)
      else ucast (sz div ELKVM_PAGESIZE))"

definition page_remain :: "guestptr \<Rightarrow> u32" where
  "page_remain addr = ucast (ELKVM_PAGESIZE - (addr AND 0xFFF))"

definition offset_in_page :: "guestptr \<Rightarrow> u32" where
  "offset_in_page addr = ucast (addr AND 0xFFF)"

definition pagesize_align :: "u64 \<Rightarrow> u64" where
  "pagesize_align sz =
     (if sz AND ELKVM_PAGE_MASK \<noteq> 0 then (sz AND NOT 0xFFF) + ELKVM_PAGESIZE else sz)"

lemmas page_const_defs = ELKVM_PAGESIZE_def ELKVM_PAGE_MASK_def
lemmas page_fun_defs = page_begin_def page_aligned_def next_page_def pages_from_size_def
  page_remain_def offset_in_page_def pagesize_align_def


section \<open>Page rounding in the natural numbers\<close>

lemma unat_page_offset: "unat ((a :: u64) AND 0xFFF) = unat a mod 4096"
  by (simp add: mask_12 unat_and_mask)

lemma unat_page_begin: "unat (page_begin a) = unat a - unat a mod 4096"
  by (simp add: page_begin_def mask_12 unat_and_not_mask)

lemma page_begin_le: "page_begin a \<le> a"
  by (simp add: word_le_nat_alt unat_page_begin)

lemma page_begin_plus_offset: "page_begin a + (a AND 0xFFF) = a"
  unfolding page_begin_def mask_12 by (rule and_mask_plus_and_not_mask)

lemma page_aligned_iff: "page_aligned a \<longleftrightarrow> 4096 dvd unat a"
proof -
  have "page_aligned a \<longleftrightarrow> unat (page_begin a) = unat a"
    unfolding page_aligned_def page_begin_def by (simp only: word_unat_eq_iff)
  also have "\<dots> \<longleftrightarrow> unat a mod 4096 = 0"
    using mod_less_eq_dividend [of "unat a" 4096] unfolding unat_page_begin by linarith
  finally show ?thesis by (simp add: dvd_eq_mod_eq_0)
qed

lemma page_aligned_iff_offset: "page_aligned a \<longleftrightarrow> a AND 0xFFF = 0"
  by (metis page_aligned_iff unat_page_offset dvd_eq_mod_eq_0 unat_eq_zero)

lemma page_aligned_page_begin [simp, intro]: "page_aligned (page_begin a)"
  by (simp add: page_aligned_iff unat_page_begin minus_mod_eq_mult_div)

lemma page_begin_of_aligned [simp]: "page_aligned a \<Longrightarrow> page_begin a = a"
  by (simp add: page_aligned_def page_begin_def)

lemma page_aligned_0 [simp]: "page_aligned 0"
  by (simp add: page_aligned_iff)

lemma page_aligned_diff:
  "page_aligned a \<Longrightarrow> page_aligned b \<Longrightarrow> page_aligned (a - b)"
  using dvd_unat_diff [of 12 a b] by (simp add: page_aligned_iff)

lemma page_aligned_add:
  assumes "page_aligned a" and "page_aligned b"
  shows "page_aligned (a + b)"
proof -
  have "page_aligned (a - (0 - b))"
    using assms by (intro page_aligned_diff) simp_all
  then show ?thesis by simp
qed

lemma page_aligned_diff_offset:
  assumes "page_aligned (a - b)"
  shows "a AND 0xFFF = b AND 0xFFF"
proof -
  obtain k where k: "unat (a - b) = 4096 * k"
    using assms by (auto simp: page_aligned_iff)
  have "unat a = unat (b + (a - b))"
    by simp
  also have "\<dots> = (unat b + 4096 * k) mod 2 ^ 64"
    unfolding unat_word_ariths k by simp
  finally have "unat a mod 4096 = (unat b + 4096 * k) mod 2 ^ 64 mod 4096"
    by simp
  also have "\<dots> = unat b mod 4096"
    by (subst mod_mod_cancel) simp_all
  finally show ?thesis
    by (simp add: word_unat_eq_iff unat_page_offset)
qed

lemma page_aligned_le_gap:
  assumes "page_aligned a" and "page_aligned b" and "a < b"
  shows "unat a + 4096 \<le> unat b"
  using assms unfolding page_aligned_iff word_less_nat_alt by (auto elim!: dvdE)

lemma page_begin_mono: "a \<le> b \<Longrightarrow> page_begin a \<le> page_begin b"
  by (simp add: word_le_nat_alt unat_page_begin minus_mod_eq_mult_div div_le_mono)

lemma unat_div_page: "unat (sz div (0x1000 :: u64)) = unat sz div 4096"
  by (simp add: unat_div)

text \<open>Rounding up, away from the top page of the address space.\<close>

lemma unat_pagesize_align:
  assumes "unat sz \<le> 2 ^ 64 - 4096"
  shows "unat (pagesize_align sz) = (unat sz + 4095) div 4096 * 4096"
proof (cases "unat sz mod 4096 = 0")
  case True
  then have "sz AND 0xFFF = 0"
    by (simp add: unat_page_offset flip: unat_eq_zero)
  moreover from True obtain k where "unat sz = 4096 * k"
    by (auto simp: mod_eq_0_iff_dvd)
  ultimately show ?thesis
    by (simp add: pagesize_align_def page_const_defs)
next
  case False
  define q r where "q = unat sz div 4096" and "r = unat sz mod 4096"
  have sz: "unat sz = 4096 * q + r" and r: "0 < r" "r < 4096"
    using False by (simp_all add: q_def r_def)
  from False have *: "sz AND 0xFFF \<noteq> 0"
    by (simp add: unat_page_offset flip: unat_eq_zero)
  have "unat (page_begin sz) = 4096 * q"
    unfolding unat_page_begin using sz r by simp
  moreover have "4096 * q + 4096 < 2 ^ 64"
    using assms sz r by simp
  ultimately have "unat (page_begin sz + 0x1000) = 4096 * q + 4096"
    by (simp add: unat_plus_if')
  moreover have "(unat sz + 4095) div 4096 = q + 1"
    using r unfolding sz by simp
  ultimately show ?thesis
    using * by (simp add: pagesize_align_def page_const_defs page_begin_def)
qed

lemma page_aligned_pagesize_align [simp]: "page_aligned (pagesize_align sz)"
proof (cases "sz AND 0xFFF = 0")
  case True
  then show ?thesis by (simp add: pagesize_align_def page_const_defs page_aligned_iff_offset)
next
  case False
  have "page_aligned (0x1000 :: u64)"
    by (simp add: page_aligned_iff)
  then have "page_aligned (page_begin sz + 0x1000)"
    by (intro page_aligned_add page_aligned_page_begin)
  with False show ?thesis
    by (simp add: pagesize_align_def page_const_defs page_begin_def)
qed

lemma pagesize_align_of_aligned [simp]: "page_aligned a \<Longrightarrow> pagesize_align a = a"
  by (simp add: pagesize_align_def page_const_defs page_aligned_iff_offset)

lemma le_pagesize_align:
  "unat sz \<le> 2 ^ 64 - 4096 \<Longrightarrow> sz \<le> pagesize_align sz"
  by (simp add: word_le_nat_alt unat_pagesize_align)

lemma pagesize_align_pos:
  "unat sz \<le> 2 ^ 64 - 4096 \<Longrightarrow> 0 < sz \<Longrightarrow> 0 < pagesize_align sz"
  using le_pagesize_align [of sz] by (auto dest: order_less_le_trans)

lemma unat_pages_from_size:
  assumes "unat sz \<le> 4096 * 2 ^ 31"
  shows "unat (pages_from_size sz) = (unat sz + 4095) div 4096"
proof -
  have q: "unat (sz div 0x1000) = unat sz div 4096" "unat sz div 4096 \<le> 2 ^ 31"
    using assms by (simp_all add: unat_div_page)
  then have q1: "unat (sz div 0x1000 + 1) = unat sz div 4096 + 1"
    by (simp add: unat_plus_if')
  have cast: "unat (ucast w :: u32) = unat (w :: u64)" if "unat w < 2 ^ 32" for w
    using that by (simp add: unsigned_ucast_eq take_bit_nat_eq_self)
  show ?thesis
  proof (cases "unat sz mod 4096 = 0")
    case True
    then have "sz AND 0xFFF = 0"
      by (simp add: unat_page_offset flip: unat_eq_zero)
    moreover have "(unat sz + 4095) div 4096 = unat sz div 4096"
    proof -
      obtain k where "unat sz = 4096 * k"
        using True by (auto simp: mod_eq_0_iff_dvd)
      then show ?thesis by simp
    qed
    ultimately show ?thesis
      using cast [of "sz div 0x1000"] q by (simp add: pages_from_size_def page_const_defs)
  next
    case False
    then have "sz AND 0xFFF \<noteq> 0"
      by (simp add: unat_page_offset flip: unat_eq_zero)
    moreover have "(unat sz + 4095) div 4096 = unat sz div 4096 + 1"
    proof -
      define q r where "q = unat sz div 4096" and "r = unat sz mod 4096"
      have "unat sz = 4096 * q + r" "0 < r" "r < 4096"
        using False by (simp_all add: q_def r_def)
      then show ?thesis by simp
    qed
    ultimately show ?thesis
      using cast [of "sz div 0x1000 + 1"] q q1 by (simp add: pages_from_size_def page_const_defs)
  qed
qed

end
