(* ===== verification/Region.thy ===== *)
theory Region
  imports Page_Arith
begin

text \<open>
  Host memory regions, class \<^verbatim>\<open>Region\<close> of \<^verbatim>\<open>src/src/region.cc\<close> and \<^verbatim>\<open>include/elkvm/region.h\<close>: a
  range of host memory with the guest address it is mapped at (0 for none) and a free flag.  Slicing
  mutates the region and returns new ones, so the operations return the new regions and the changed region.
\<close>

section \<open>Definitions\<close>

record region =
  reg_host_p :: hostptr
  reg_addr :: guestptr
  reg_size :: u64
  reg_free :: bool
  reg_name :: string

definition Region :: "hostptr \<Rightarrow> u64 \<Rightarrow> string \<Rightarrow> region" where
  "Region chunk_p sz title =
     \<lparr>reg_host_p = chunk_p, reg_addr = 0, reg_size = sz, reg_free = True, reg_name = title\<rparr>"

definition region_eq :: "region \<Rightarrow> region \<Rightarrow> bool" where
  "region_eq r1 r2 \<longleftrightarrow> reg_host_p r1 = reg_host_p r2 \<and> reg_addr r1 = reg_addr r2
     \<and> reg_size r1 = reg_size r2 \<and> reg_free r1 = reg_free r2"

definition region_contains :: "region \<Rightarrow> hostptr \<Rightarrow> bool" where
  "region_contains r p \<longleftrightarrow> reg_host_p r \<le> p \<and> p < reg_host_p r + reg_size r"

definition region_contains_guest :: "region \<Rightarrow> guestptr \<Rightarrow> bool" where
  "region_contains_guest r guest_addr \<longleftrightarrow> reg_addr r \<le> guest_addr \<and> guest_addr < reg_addr r + reg_size r"

definition offset_in_region :: "region \<Rightarrow> guestptr \<Rightarrow> u64 res" where
  "offset_in_region r guest_addr =
     bindE (assertE (region_contains_guest r (reg_addr r))) (\<lambda>_. Inr (guest_addr - reg_addr r))"

definition space_after_address :: "region \<Rightarrow> hostptr \<Rightarrow> u64 res" where
  "space_after_address r p =
     bindE (assertE (region_contains r p)) (\<lambda>_. Inr (reg_host_p r + reg_size r - p))"

definition last_valid_address :: "region \<Rightarrow> hostptr" where
  "last_valid_address r = reg_host_p r + reg_size r"

definition last_valid_guest_address :: "region \<Rightarrow> guestptr" where
  "last_valid_guest_address r = reg_addr r + reg_size r - 1"

definition set_free :: "region \<Rightarrow> region" where
  "set_free r = r\<lparr>reg_free := True, reg_addr := 0\<rparr>"

definition set_used :: "region \<Rightarrow> region" where
  "set_used r = r\<lparr>reg_free := False\<rparr>"

definition set_guest_addr :: "guestptr \<Rightarrow> region \<Rightarrow> region" where
  "set_guest_addr a r = r\<lparr>reg_addr := a\<rparr>"

text \<open>The result is the new region (the first \<open>sz\<close> bytes, rounded up to pages) and what is left.\<close>

definition slice_begin :: "region \<Rightarrow> u64 \<Rightarrow> string \<Rightarrow> (region \<times> region) res" where
  "slice_begin this sz purpose =
     bindE (assertE (0 < sz)) (\<lambda>_.
     bindE (assertE (pagesize_align sz < reg_size this)) (\<lambda>_.
     let r = Region (reg_host_p this) (pagesize_align sz) purpose;
         this1 = this\<lparr>reg_host_p := reg_host_p this + reg_size r, reg_size := reg_size this - reg_size r\<rparr>;
         this2 = (if reg_addr this \<noteq> 0 then this1\<lparr>reg_addr := reg_addr this + reg_size r\<rparr> else this1)
     in bindE (assertE (0 < reg_size this2)) (\<lambda>_.
        bindE (assertE (0 < reg_size r)) (\<lambda>_. Inr (r, this2)))))"

text \<open>\<open>off\<close> is a signed offset; the third assertion compares only its low 32 bits.  The result is the tail,
  the freed middle and what is left of the region.\<close>

definition slice_center :: "region \<Rightarrow> u64 \<Rightarrow> u64 \<Rightarrow> (region \<times> region \<times> region) res" where
  "slice_center this off len =
     bindE (assertE (region_contains this (reg_host_p this + off + len))) (\<lambda>_.
     bindE (assertE (0 < sint off)) (\<lambda>_.
     bindE (assertE (ucast (ucast off :: u32) \<le> reg_size this)) (\<lambda>_.
     let r = set_guest_addr (reg_addr this + off)
               (Region (reg_host_p this + off + len) (reg_size this - off - len) ''anon region'');
         this1 = this\<lparr>reg_size := off\<rparr>;
         free_region = Region (reg_host_p this + off) len ''anon region''
     in Inr (r, free_region, this1))))"


section \<open>Well-formed regions\<close>

definition region_wf :: "region \<Rightarrow> bool" where
  "region_wf r \<longleftrightarrow> page_aligned (reg_host_p r) \<and> page_aligned (reg_size r) \<and> 0 < reg_size r
     \<and> unat (reg_host_p r) + unat (reg_size r) < 2 ^ 64"

text \<open>The host bytes of a region, as an interval of natural numbers.\<close>

definition reg_bytes :: "region \<Rightarrow> nat set" where
  "reg_bytes r = {unat (reg_host_p r)..<unat (reg_host_p r) + unat (reg_size r)}"

lemma region_contains_iff:
  "region_wf r \<Longrightarrow> region_contains r p \<longleftrightarrow> unat p \<in> reg_bytes r"
  by (simp add: region_wf_def region_contains_def reg_bytes_def word_le_nat_alt word_less_nat_alt unat_plus_if')

lemma region_simps [simp]:
  "reg_host_p (Region h s n) = h" "reg_size (Region h s n) = s" "reg_addr (Region h s n) = 0"
  "reg_free (Region h s n)" "reg_name (Region h s n) = n"
  "reg_host_p (set_free r) = reg_host_p r" "reg_size (set_free r) = reg_size r" "reg_addr (set_free r) = 0"
  "reg_free (set_free r)" "reg_host_p (set_used r) = reg_host_p r" "reg_size (set_used r) = reg_size r"
  "reg_addr (set_used r) = reg_addr r" "\<not> reg_free (set_used r)"
  "reg_host_p (set_guest_addr a r) = reg_host_p r" "reg_size (set_guest_addr a r) = reg_size r"
  "reg_addr (set_guest_addr a r) = a" "reg_free (set_guest_addr a r) = reg_free r"
  by (simp_all add: Region_def set_free_def set_used_def set_guest_addr_def)

lemma reg_bytes_flags [simp]:
  "reg_bytes (set_free r) = reg_bytes r" "reg_bytes (set_used r) = reg_bytes r"
  "reg_bytes (set_guest_addr a r) = reg_bytes r"
  by (simp_all add: reg_bytes_def)

lemma region_wf_flags [simp]:
  "region_wf (set_free r) = region_wf r" "region_wf (set_used r) = region_wf r"
  "region_wf (set_guest_addr a r) = region_wf r"
  by (simp_all add: region_wf_def)

lemma card_reg_bytes: "card (reg_bytes r) = unat (reg_size r)"
  by (simp add: reg_bytes_def)

lemma finite_reg_bytes [simp]: "finite (reg_bytes r)"
  by (simp add: reg_bytes_def)

lemma reg_bytes_ne: "region_wf r \<Longrightarrow> reg_bytes r \<noteq> {}"
  by (simp add: region_wf_def reg_bytes_def word_less_nat_alt)


section \<open>Slicing\<close>

lemma slice_begin_ok:
  assumes wf: "region_wf r" and sz: "0 < sz" "pagesize_align sz < reg_size r" "unat sz \<le> 2 ^ 64 - 4096"
  obtains new rest where "slice_begin r sz purpose = Inr (new, rest)"
    "new = Region (reg_host_p r) (pagesize_align sz) purpose"
    "reg_host_p rest = reg_host_p r + pagesize_align sz" "reg_size rest = reg_size r - pagesize_align sz"
    "reg_free rest = reg_free r" "reg_addr rest = (if reg_addr r = 0 then 0 else reg_addr r + pagesize_align sz)"
    "region_wf new" "region_wf rest"
    "reg_bytes new \<union> reg_bytes rest = reg_bytes r" "reg_bytes new \<inter> reg_bytes rest = {}"
proof -
  define a where "a = pagesize_align sz"
  define new where "new = Region (reg_host_p r) a purpose"
  define rest where "rest = (let t = r\<lparr>reg_host_p := reg_host_p r + a, reg_size := reg_size r - a\<rparr>
     in if reg_addr r \<noteq> 0 then t\<lparr>reg_addr := reg_addr r + a\<rparr> else t)"
  have a: "0 < a" "a < reg_size r" "page_aligned a"
    using pagesize_align_pos [OF sz(3,1)] sz(2) by (simp_all add: a_def)
  have fields: "reg_host_p rest = reg_host_p r + a" "reg_size rest = reg_size r - a"
    "reg_free rest = reg_free r" "reg_addr rest = (if reg_addr r = 0 then 0 else reg_addr r + a)"
    by (simp_all add: rest_def Let_def)
  have sub: "unat (reg_size r - a) = unat (reg_size r) - unat a"
    using a(2) by (simp add: unat_sub)
  then have pos: "0 < reg_size r - a"
    using a(2) by (simp add: word_less_nat_alt)
  have host: "unat (reg_host_p r + a) = unat (reg_host_p r) + unat a"
    using wf a(2) by (simp add: region_wf_def unat_plus_if' word_less_nat_alt)
  have "slice_begin r sz purpose = Inr (new, rest)"
    using sz a pos by (simp add: slice_begin_def new_def rest_def Let_def flip: a_def)
  moreover have "region_wf new"
    using wf a by (simp add: region_wf_def new_def word_less_nat_alt)
  moreover have "region_wf rest"
    using wf a pos host sub
    by (simp add: region_wf_def fields page_aligned_add page_aligned_diff word_less_nat_alt)
  moreover have "reg_bytes new \<union> reg_bytes rest = reg_bytes r" "reg_bytes new \<inter> reg_bytes rest = {}"
    using a(2) by (auto simp: reg_bytes_def new_def fields host sub word_less_nat_alt)
  ultimately show ?thesis
    using that [of new rest] fields by (simp add: new_def flip: a_def)
qed

lemma slice_center_ok:
  assumes wf: "region_wf r" and off: "page_aligned off" "0 < off" "page_aligned len" "0 < len"
    and fits: "unat off + unat len < unat (reg_size r)" and small: "unat (reg_size r) < 2 ^ 63"
  obtains tail mid rest where "slice_center r off len = Inr (tail, mid, rest)"
    "reg_host_p tail = reg_host_p r + off + len" "reg_addr tail = reg_addr r + off" "reg_free tail" "reg_free mid"
    "reg_addr mid = 0" "reg_host_p mid = reg_host_p r + off" "reg_size mid = len" "reg_size tail = reg_size r - off - len"
    "rest = r\<lparr>reg_size := off\<rparr>" "region_wf tail" "region_wf mid" "region_wf rest"
    "reg_bytes rest \<union> reg_bytes mid \<union> reg_bytes tail = reg_bytes r"
    "reg_bytes rest \<inter> reg_bytes mid = {}" "reg_bytes mid \<inter> reg_bytes tail = {}" "reg_bytes rest \<inter> reg_bytes tail = {}"
proof -
  define tail where "tail = set_guest_addr (reg_addr r + off)
     (Region (reg_host_p r + off + len) (reg_size r - off - len) ''anon region'')"
  define mid where "mid = Region (reg_host_p r + off) len ''anon region''"
  define rest where "rest = r\<lparr>reg_size := off\<rparr>"
  have top: "unat (reg_host_p r) + unat (reg_size r) < 2 ^ 64"
    using wf by (simp add: region_wf_def)
  have h1: "unat (reg_host_p r + off) = unat (reg_host_p r) + unat off"
    using top fits by (simp add: unat_plus_if')
  have h2: "unat (reg_host_p r + off + len) = unat (reg_host_p r) + unat off + unat len"
    using top fits h1 by (simp add: unat_plus_if')
  have s1: "unat (reg_size r - off) = unat (reg_size r) - unat off"
    using fits by (simp add: unat_sub word_le_nat_alt)
  have s2: "unat (reg_size r - off - len) = unat (reg_size r) - unat off - unat len"
    using fits s1 by (simp add: unat_sub word_le_nat_alt)
  have c1: "region_contains r (reg_host_p r + off + len)"
    unfolding region_contains_iff [OF wf] reg_bytes_def h2 using fits by simp
  have "unat off < 2 ^ 63"
    using fits small by simp
  then have c2: "0 < sint off"
    using off(2) by (simp add: sint_small word_less_def)
  have c3: "ucast (ucast off :: u32) \<le> reg_size r"
  proof -
    have "unat (ucast (ucast off :: u32) :: u64) \<le> unat off"
      by (simp add: unsigned_ucast_eq unsigned_take_bit_eq take_bit_nat_def)
    then show ?thesis
      using fits by (simp add: word_le_nat_alt)
  qed
  have run: "slice_center r off len = Inr (tail, mid, rest)"
    using c1 c2 c3 by (simp add: slice_center_def tail_def mid_def rest_def Let_def)
  have wfs: "region_wf tail" "region_wf mid" "region_wf rest"
    using wf off fits top h1 h2 s2
    by (simp_all add: region_wf_def tail_def mid_def rest_def page_aligned_add page_aligned_diff word_less_nat_alt)
  have "reg_bytes rest \<union> reg_bytes mid \<union> reg_bytes tail = reg_bytes r"
    "reg_bytes rest \<inter> reg_bytes mid = {}" "reg_bytes mid \<inter> reg_bytes tail = {}" "reg_bytes rest \<inter> reg_bytes tail = {}"
    using fits by (auto simp: reg_bytes_def tail_def mid_def rest_def h1 h2 s2)
  with run wfs show ?thesis
    using that [of tail mid rest] by (simp add: tail_def mid_def rest_def)
qed

end
