(* ===== verification/Tlb.thy ===== *)
theory Tlb
  imports Page_Arith
begin

text \<open>
  The software translation caches of \<^verbatim>\<open>src/src/pager.cc\<close>: the unbounded \<^verbatim>\<open>MappedTLB\<close> and the
  fixed-size, direct-mapped \<^verbatim>\<open>TLB\<close> that \<^verbatim>\<open>PagerX86_64::get_host_p\<close> consults.  Both map the page of
  a guest address to a host page and answer 0 for a miss.  The locale \<open>translation_cache\<close> states
  what the pager relies on; it is interpreted on both caches, and the lemma
  \<open>cached_translation\<close> (a cached translation agrees with the translation it caches) is proved once.
\<close>

section \<open>Definitions\<close>

record mapped_tlb =
  mt_entries :: "guestptr \<rightharpoonup> guestptr"
  mt_stat_hit :: u32
  mt_stat_miss :: u32

definition MappedTLB :: mapped_tlb where
  "MappedTLB = \<lparr>mt_entries = Map.empty, mt_stat_hit = 0, mt_stat_miss = 0\<rparr>"

definition MappedTLB_find :: "mapped_tlb \<Rightarrow> guestptr \<Rightarrow> guestptr \<times> mapped_tlb" where
  "MappedTLB_find c entry =
     (case mt_entries c (entry AND NOT ELKVM_PAGE_MASK) of
        Some v \<Rightarrow> (v + (entry AND ELKVM_PAGE_MASK), c\<lparr>mt_stat_hit := mt_stat_hit c + 1\<rparr>)
      | None \<Rightarrow> (0, c\<lparr>mt_stat_miss := mt_stat_miss c + 1\<rparr>))"

definition MappedTLB_set :: "mapped_tlb \<Rightarrow> guestptr \<Rightarrow> guestptr \<Rightarrow> mapped_tlb" where
  "MappedTLB_set c entry v =
     c\<lparr>mt_entries := (mt_entries c)(entry AND NOT ELKVM_PAGE_MASK \<mapsto> v AND NOT ELKVM_PAGE_MASK)\<rparr>"

text \<open>The array of the fixed-size cache is a function of the slot index; \<^verbatim>\<open>new std::pair[...]\<close>
  value-initialises every pair to \<open>(0, 0)\<close>.\<close>

record tlb =
  tlb_entries :: "guestptr \<Rightarrow> guestptr \<times> guestptr"
  stat_hit :: u32
  stat_miss :: u32
  stat_evict :: u32
  stat_enter :: u32

definition NUM_ENTRIES :: u64 where "NUM_ENTRIES = 0x1000"

definition TLB_hash :: "guestptr \<Rightarrow> guestptr" where
  "TLB_hash entry = drop_bit 12 (entry AND 0xFFF000)"

definition TLB :: tlb where
  "TLB = \<lparr>tlb_entries = (\<lambda>_. (0, 0)), stat_hit = 0, stat_miss = 0, stat_evict = 0, stat_enter = 0\<rparr>"

definition TLB_find :: "tlb \<Rightarrow> guestptr \<Rightarrow> guestptr \<times> tlb" where
  "TLB_find c entry =
     (let lookup = tlb_entries c (TLB_hash entry) in
      if fst lookup = entry AND NOT ELKVM_PAGE_MASK
      then (snd lookup OR (entry AND ELKVM_PAGE_MASK), c\<lparr>stat_hit := stat_hit c + 1\<rparr>)
      else (0, c\<lparr>stat_miss := stat_miss c + 1\<rparr>))"

definition TLB_set :: "tlb \<Rightarrow> guestptr \<Rightarrow> guestptr \<Rightarrow> tlb" where
  "TLB_set c entry v =
     (let h = TLB_hash entry;
          c1 = c\<lparr>stat_enter := stat_enter c + 1\<rparr>;
          c2 = (if fst (tlb_entries c h) \<noteq> 0 then c1\<lparr>stat_evict := stat_evict c1 + 1\<rparr> else c1)
      in c2\<lparr>tlb_entries := (tlb_entries c2)
             (h := (entry AND NOT ELKVM_PAGE_MASK, v AND NOT ELKVM_PAGE_MASK))\<rparr>)"


section \<open>What the pager relies on\<close>

locale translation_cache =
  fixes lookup_c :: "'c \<Rightarrow> guestptr \<Rightarrow> guestptr \<times> 'c"
    and enter_c :: "'c \<Rightarrow> guestptr \<Rightarrow> guestptr \<Rightarrow> 'c"
    and empty_c :: 'c
  assumes lookup_frame: "fst (lookup_c (snd (lookup_c c a)) b) = fst (lookup_c c b)"
    and lookup_enter_same:
      "page_begin a = page_begin b \<Longrightarrow>
       fst (lookup_c (enter_c c a v) b) = page_begin v OR (b AND 0xFFF)"
    and lookup_enter_other:
      "page_begin a \<noteq> page_begin b \<Longrightarrow>
       fst (lookup_c (enter_c c a v) b) = 0 \<or> fst (lookup_c (enter_c c a v) b) = fst (lookup_c c b)"
    and lookup_empty: "page_begin a \<noteq> 0 \<Longrightarrow> fst (lookup_c empty_c a) = 0"
begin

text \<open>A translation maps guest to host addresses page by page; 0 stands for no translation.
  A cache is coherent with it when every hit outside guest page 0 is the translation.\<close>

definition paged :: "(guestptr \<Rightarrow> hostptr) \<Rightarrow> bool" where
  "paged tr \<longleftrightarrow> (\<forall>a b. page_begin a \<noteq> 0 \<longrightarrow> page_begin a = page_begin b \<longrightarrow> tr a \<noteq> 0 \<longrightarrow>
     tr b = page_begin (tr a) OR (b AND 0xFFF))"

definition coherent :: "(guestptr \<Rightarrow> hostptr) \<Rightarrow> 'c \<Rightarrow> bool" where
  "coherent tr c \<longleftrightarrow> (\<forall>a. page_begin a \<noteq> 0 \<longrightarrow> fst (lookup_c c a) \<noteq> 0 \<longrightarrow>
     fst (lookup_c c a) = tr a)"

definition cached :: "(guestptr \<Rightarrow> hostptr) \<Rightarrow> 'c \<Rightarrow> guestptr \<Rightarrow> hostptr \<times> 'c" where
  "cached tr c a =
     (let (t, c1) = lookup_c c a in
      if t \<noteq> 0 then (t, c1)
      else if tr a = 0 then (0, c1)
      else (tr a, enter_c c1 a (tr a)))"

lemma coherent_empty: "coherent tr empty_c"
  by (simp add: coherent_def lookup_empty)

lemma coherent_lookup: "coherent tr c \<Longrightarrow> coherent tr (snd (lookup_c c a))"
  by (simp add: coherent_def lookup_frame)

lemma coherent_enter:
  assumes "paged tr" and "coherent tr c" and "tr a \<noteq> 0"
  shows "coherent tr (enter_c c a (tr a))"
  unfolding coherent_def
proof (intro allI impI)
  fix b
  assume b: "page_begin b \<noteq> 0" and hit: "fst (lookup_c (enter_c c a (tr a)) b) \<noteq> 0"
  show "fst (lookup_c (enter_c c a (tr a)) b) = tr b"
  proof (cases "page_begin a = page_begin b")
    case True
    with assms(1,3) b have "tr b = page_begin (tr a) OR (b AND 0xFFF)"
      unfolding paged_def by metis
    with True show ?thesis
      by (simp only: lookup_enter_same)
  next
    case False
    with hit have "fst (lookup_c (enter_c c a (tr a)) b) = fst (lookup_c c b)"
      using lookup_enter_other by blast
    with hit b assms(2) show ?thesis
      by (simp add: coherent_def)
  qed
qed

lemma cached_translation:
  assumes "paged tr" and "coherent tr c" and "page_begin a \<noteq> 0"
  shows "fst (cached tr c a) = tr a \<and> coherent tr (snd (cached tr c a))"
proof (cases "fst (lookup_c c a) = 0")
  case True
  with assms show ?thesis
    using coherent_lookup [of tr c a] coherent_enter [of tr "snd (lookup_c c a)" a]
    by (simp add: cached_def split_beta Let_def)
next
  case False
  with assms show ?thesis
    using coherent_lookup [of tr c a] by (simp add: cached_def split_beta Let_def coherent_def)
qed

text \<open>A change of the translation that only adds pages keeps a cache coherent; the cache holds no
  entry for a page whose translation was missing when it was entered.\<close>

lemma coherent_extend:
  assumes "coherent tr c" and "\<And>a. tr a \<noteq> 0 \<Longrightarrow> tr' a = tr a"
  shows "coherent tr' c"
  unfolding coherent_def
proof (intro allI impI)
  fix a
  assume "page_begin a \<noteq> 0" and "fst (lookup_c c a) \<noteq> 0"
  with assms(1) have "fst (lookup_c c a) = tr a" and "tr a \<noteq> 0"
    by (simp_all add: coherent_def)
  with assms(2) show "fst (lookup_c c a) = tr' a"
    by simp
qed

end


section \<open>Both caches meet the contract\<close>

lemmas tlb_defs = TLB_def TLB_find_def TLB_set_def Let_def ELKVM_PAGE_MASK_def
lemmas mapped_tlb_defs = MappedTLB_def MappedTLB_find_def MappedTLB_set_def ELKVM_PAGE_MASK_def

lemma page_begin_fold: "a AND NOT 0xFFF = page_begin a"
  by (simp add: page_begin_def)

lemma TLB_hash_page_begin: "TLB_hash a = TLB_hash (page_begin a)"
  by (simp add: TLB_hash_def page_begin_def and.assoc)

lemma TLB_hash_cong: "page_begin a = page_begin b \<Longrightarrow> TLB_hash a = TLB_hash b"
  using TLB_hash_page_begin [of a] TLB_hash_page_begin [of b] by simp

lemma TLB_hash_bound: "TLB_hash a < NUM_ENTRIES"
proof -
  have "unat (TLB_hash a) \<le> unat (0xFFF000 :: u64) div 2 ^ 12"
    unfolding TLB_hash_def unat_drop_bit_eq drop_bit_nat_def
    by (intro div_le_mono word_and_le1 [THEN word_le_nat_alt [THEN iffD1]])
  then show ?thesis
    by (simp add: word_less_nat_alt NUM_ENTRIES_def)
qed

interpretation tlbc: translation_cache TLB_find TLB_set TLB
proof unfold_locales
  fix c a b
  show "fst (TLB_find (snd (TLB_find c a)) b) = fst (TLB_find c b)"
    by (simp add: TLB_find_def Let_def)
next
  fix a b c v
  assume eq: "page_begin a = page_begin b"
  then show "fst (TLB_find (TLB_set c a v) b) = page_begin v OR (b AND 0xFFF)"
    using TLB_hash_cong [OF eq] unfolding TLB_find_def TLB_set_def Let_def ELKVM_PAGE_MASK_def page_begin_fold
    by simp
next
  fix a b c v
  assume "page_begin a \<noteq> page_begin b"
  then show "fst (TLB_find (TLB_set c a v) b) = 0
      \<or> fst (TLB_find (TLB_set c a v) b) = fst (TLB_find c b)"
    unfolding TLB_find_def TLB_set_def Let_def ELKVM_PAGE_MASK_def page_begin_fold by simp
next
  fix a :: u64
  assume "page_begin a \<noteq> 0"
  then show "fst (TLB_find TLB a) = 0"
    unfolding TLB_find_def TLB_def Let_def ELKVM_PAGE_MASK_def page_begin_fold by simp
qed

lemma page_or_offset: "page_begin v + (b AND 0xFFF) = page_begin v OR (b AND 0xFFF)"
  unfolding page_begin_def mask_12
  by (rule disjunctive_add) (simp add: bit_simps)

interpretation mtlbc: translation_cache MappedTLB_find MappedTLB_set MappedTLB
proof unfold_locales
  fix c a b
  show "fst (MappedTLB_find (snd (MappedTLB_find c a)) b) = fst (MappedTLB_find c b)"
    by (simp add: MappedTLB_find_def split: option.split)
next
  fix a b c v
  assume "page_begin a = page_begin b"
  then show "fst (MappedTLB_find (MappedTLB_set c a v) b) = page_begin v OR (b AND 0xFFF)"
    unfolding MappedTLB_find_def MappedTLB_set_def ELKVM_PAGE_MASK_def page_begin_fold
    by (simp add: page_or_offset)
next
  fix a b c v
  assume "page_begin a \<noteq> page_begin b"
  then show "fst (MappedTLB_find (MappedTLB_set c a v) b) = 0
      \<or> fst (MappedTLB_find (MappedTLB_set c a v) b) = fst (MappedTLB_find c b)"
    unfolding MappedTLB_find_def MappedTLB_set_def ELKVM_PAGE_MASK_def page_begin_fold
    by (auto split: option.split)
next
  fix a :: u64
  show "fst (MappedTLB_find MappedTLB a) = 0"
    by (simp add: MappedTLB_find_def MappedTLB_def)
qed

end
