(* ===== verification/Pager.thy ===== *)
theory Pager
  imports Tlb
begin

text \<open>
  The guest-memory pager, class \<^verbatim>\<open>PagerX86_64\<close> of \<^verbatim>\<open>src/src/pager.cc\<close>: the list of host memory
  chunks given to KVM and the four-level x86-64 page tables it keeps in the first of them.

  The object is the record \<open>pager\<close>.  Host memory, which the object only points into, is its field
  \<open>pg_mem\<close>; the function-local \<^verbatim>\<open>static TLB\<close> of \<^verbatim>\<open>get_host_p\<close> is its field \<open>pg_tlb\<close>.  A null pointer is
  the address 0.  A \<^verbatim>\<open>shared_ptr\<close> to a chunk is the chunk's position in \<open>chunks\<close>.
  \<^verbatim>\<open>posix_memalign\<close> and the \<^verbatim>\<open>KVM_SET_USER_MEMORY_REGION\<close> ioctl are parameters: the allocator sees
  the chunks that are live, the ioctl the chunk, and it answers 0 or the error number.
\<close>

section \<open>Data\<close>

record chunk =
  slot :: u32
  chunk_flags :: u32
  guest_phys_addr :: u64
  memory_size :: u64
  userspace_addr :: hostptr

record pager =
  vmfd :: int
  chunks :: "chunk list"
  host_pml4_p :: hostptr
  host_next_free_tbl_p :: hostptr
  guest_next_free :: guestptr
  total_memsz :: u64
  free_slots :: "u32 list"
  pg_mem :: memory
  pg_tlb :: tlb

type_synonym ptopt = u32
type_synonym memalign = "chunk list \<Rightarrow> u64 \<Rightarrow> int + hostptr"
type_synonym kvm_set_region = "chunk \<Rightarrow> int"

definition KERNEL_SPACE_BOTTOM :: u64 where "KERNEL_SPACE_BOTTOM = 0xFFFF800000000000"
definition KVM_MEMORY_SLOTS :: u32 where "KVM_MEMORY_SLOTS = 125"

definition PT_BIT_PRESENT :: u64 where "PT_BIT_PRESENT = 0x1"
definition PT_BIT_WRITEABLE :: u64 where "PT_BIT_WRITEABLE = 0x2"
definition PT_BIT_USER :: u64 where "PT_BIT_USER = 0x4"
definition PT_BIT_NXE :: u64 where "PT_BIT_NXE = 0x8000000000000000"
definition PT_OPT_WRITE :: ptopt where "PT_OPT_WRITE = 0x1"
definition PT_OPT_EXEC :: ptopt where "PT_OPT_EXEC = 0x2"


section \<open>Chunks\<close>

definition PagerX86_64 :: "int \<Rightarrow> memory \<Rightarrow> tlb \<Rightarrow> pager res" where
  "PagerX86_64 fd m t =
     (if fd < 1 then Inl (Throw 0)
      else Inr \<lparr>vmfd = fd, chunks = [], host_pml4_p = 0, host_next_free_tbl_p = 0,
             guest_next_free = NOT 0, total_memsz = 0, free_slots = [], pg_mem = m, pg_tlb = t\<rparr>)"

definition contains_address :: "chunk \<Rightarrow> hostptr \<Rightarrow> bool" where
  "contains_address c addr \<longleftrightarrow>
     userspace_addr c \<le> addr \<and> addr < userspace_addr c + memory_size c"

definition contains_phys_address :: "chunk \<Rightarrow> guestptr \<Rightarrow> bool" where
  "contains_phys_address c addr \<longleftrightarrow>
     guest_phys_addr c \<le> addr \<and> addr < guest_phys_addr c + memory_size c"

definition find_chunk_for_host_p :: "pager \<Rightarrow> hostptr \<Rightarrow> chunk option" where
  "find_chunk_for_host_p p host_mem_p = List.find (\<lambda>c. contains_address c host_mem_p) (chunks p)"

definition host_to_guest_physical :: "pager \<Rightarrow> hostptr \<Rightarrow> guestptr" where
  "host_to_guest_physical p host_p =
     (case find_chunk_for_host_p p host_p of
        None \<Rightarrow> 0
      | Some c \<Rightarrow> host_p - userspace_addr c + guest_phys_addr c)"

text \<open>\<^verbatim>\<open>chunks.at(chunk)\<close> throws for an index out of range.\<close>

definition get_chunk :: "pager \<Rightarrow> nat \<Rightarrow> chunk res" where
  "get_chunk p i = (if i < length (chunks p) then Inr (chunks p ! i) else Inl (Throw 0))"

definition chunk_count :: "pager \<Rightarrow> nat" where
  "chunk_count p = length (chunks p)"

text \<open>\<^verbatim>\<open>std::make_shared\<close> never returns a null pointer, so neither does \<open>alloc_chunk\<close>; it returns
  the position of the new chunk.\<close>

definition alloc_chunk :: "pager \<Rightarrow> hostptr \<Rightarrow> u64 \<Rightarrow> u32 \<Rightarrow> nat \<times> pager" where
  "alloc_chunk p addr chunk_size fl =
     (let c = \<lparr>slot = of_nat (length (chunks p)), chunk_flags = fl,
               guest_phys_addr = total_memsz p, memory_size = chunk_size, userspace_addr = addr\<rparr>;
          p1 = p\<lparr>total_memsz := total_memsz p + chunk_size\<rparr>
      in (length (chunks p),
          if free_slots p \<noteq> []
          then p1\<lparr>chunks := chunks p @ [c\<lparr>slot := last (free_slots p)\<rparr>],
                  free_slots := butlast (free_slots p)\<rparr>
          else p1\<lparr>chunks := chunks p @ [c]\<rparr>))"

definition erase_at :: "nat \<Rightarrow> 'a list \<Rightarrow> 'a list" where
  "erase_at i xs = take i xs @ drop (Suc i) xs"

definition map_chunk_to_kvm :: "kvm_set_region \<Rightarrow> pager \<Rightarrow> nat \<Rightarrow> (int \<times> pager) res" where
  "map_chunk_to_kvm ioctl p i =
     (let c = chunks p ! i;
          p1 = (if memory_size c = 0
                then p\<lparr>free_slots := free_slots p @ [slot c], chunks := erase_at i (chunks p)\<rparr>
                else p)
      in bindE (assertE (slot c < KVM_MEMORY_SLOTS)) (\<lambda>_.
         Inr (if ioctl c \<noteq> 0 then - ioctl c else 0, p1)))"

text \<open>The result is the error code and the host pointer (0 when none was allocated).\<close>

definition create_mem_chunk ::
  "memalign \<Rightarrow> kvm_set_region \<Rightarrow> pager \<Rightarrow> u64 \<Rightarrow> (int \<times> hostptr \<times> pager) res" where
  "create_mem_chunk memalign ioctl p chunk_size =
     (if \<not> page_aligned chunk_size then Inr (- EIO, 0, p)
      else case memalign (chunks p) chunk_size of
        Inl err \<Rightarrow> Inr (err, 0, p)
      | Inr host_p \<Rightarrow>
          (let (i, p1) = alloc_chunk p host_p chunk_size 0 in
           bindE (map_chunk_to_kvm ioctl p1 i) (\<lambda>(err, p2). Inr (err, host_p, p2))))"


section \<open>Page-table entries\<close>

definition entry_exists :: "pager \<Rightarrow> hostptr \<Rightarrow> bool" where
  "entry_exists p e \<longleftrightarrow> read64 (pg_mem p) e AND 0x1 \<noteq> 0"

definition entry_value :: "guestptr \<Rightarrow> ptopt \<Rightarrow> ptentry" where
  "entry_value guest_next opts =
     (let e = page_begin guest_next;
          e = e OR PT_BIT_USER;
          e = (if opts AND PT_OPT_WRITE \<noteq> 0 then e OR PT_BIT_WRITEABLE else e);
          e = (if opts AND PT_OPT_EXEC = 0 then e OR PT_BIT_NXE else e)
      in e OR PT_BIT_PRESENT)"

definition create_entry :: "pager \<Rightarrow> hostptr \<Rightarrow> guestptr \<Rightarrow> ptopt \<Rightarrow> pager" where
  "create_entry p host_entry_p guest_next opts =
     p\<lparr>pg_mem := write64 (pg_mem p) host_entry_p (entry_value guest_next opts)\<rparr>"

definition create_page_tables :: "pager \<Rightarrow> (int \<times> pager) res" where
  "create_page_tables p =
     bindE (assertE (host_pml4_p p \<noteq> 0)) (\<lambda>_.
     case chunks p of
       [] \<Rightarrow> Inl Fault
     | c # _ \<Rightarrow>
         bindE (assertE (ELKVM_SYSTEM_MEMSIZE \<le> memory_size c)) (\<lambda>_.
         Inr (0, p\<lparr>pg_mem := memset (pg_mem p) (host_pml4_p p) 0 ELKVM_SYSTEM_MEMSIZE,
                   host_next_free_tbl_p := host_pml4_p p + ELKVM_PAGESIZE\<rparr>)))"

text \<open>\<^verbatim>\<open>set_pml4\<close> takes the base address of the region; it returns the guest physical address as an
  \<^verbatim>\<open>int\<close>.\<close>

definition set_pml4 :: "pager \<Rightarrow> hostptr \<Rightarrow> (u32 \<times> pager) res" where
  "set_pml4 p base =
     (let p1 = p\<lparr>host_pml4_p := base\<rparr>;
          pml4_guest_physical = host_to_guest_physical p1 base;
          p2 = p1\<lparr>guest_next_free := KERNEL_SPACE_BOTTOM\<rparr>
      in bindE (create_page_tables p2) (\<lambda>(err, p3).
         bindE (assertE (err = 0)) (\<lambda>_.
         Inr (ucast pml4_guest_physical, p3))))"

definition create_table :: "pager \<Rightarrow> hostptr \<Rightarrow> ptopt \<Rightarrow> (int \<times> pager) res" where
  "create_table p host_entry_p opts =
     (let guest_next_tbl = host_to_guest_physical p (host_next_free_tbl_p p) in
      bindE (assertE (guest_next_tbl \<noteq> 0)) (\<lambda>_.
      let p1 = p\<lparr>pg_mem := memset (pg_mem p) (host_next_free_tbl_p p) 0 ELKVM_PAGESIZE,
                 host_next_free_tbl_p := host_next_free_tbl_p p + ELKVM_PAGESIZE\<rparr>
      in Inr (0, create_entry p1 host_entry_p guest_next_tbl opts)))"

definition find_next_table :: "pager \<Rightarrow> hostptr \<Rightarrow> hostptr res" where
  "find_next_table p tbl_entry_p =
     (if \<not> entry_exists p tbl_entry_p then Inr 0
      else case chunks p of
        [] \<Rightarrow> Inl Fault
      | c # _ \<Rightarrow> Inr (userspace_addr c + (read64 (pg_mem p) tbl_entry_p AND 0x000FFFFFFFFFF000)))"

definition find_table_entry :: "hostptr \<Rightarrow> guestptr \<Rightarrow> nat \<Rightarrow> nat \<Rightarrow> hostptr" where
  "find_table_entry tbl_base_p addr off_low off_high =
     tbl_base_p + 8 * drop_bit ((63 - off_high) + off_low) (push_bit (63 - off_high) addr)"

definition update_entry :: "pager \<Rightarrow> hostptr \<Rightarrow> ptopt \<Rightarrow> (int \<times> pager) res" where
  "update_entry p e opts =
     bindE (if \<not> entry_exists p e then create_table p e opts else Inr (0, p)) (\<lambda>(err, p1).
     if err \<noteq> 0 then Inr (err, p1)
     else
       let p2 = (if opts AND PT_OPT_WRITE \<noteq> 0
                 then p1\<lparr>pg_mem := write64 (pg_mem p1) e (read64 (pg_mem p1) e OR PT_BIT_WRITEABLE)\<rparr>
                 else p1);
           p3 = (if opts AND PT_OPT_EXEC \<noteq> 0
                 then p2\<lparr>pg_mem := write64 (pg_mem p2) e (read64 (pg_mem p2) e AND NOT PT_BIT_NXE)\<rparr>
                 else p2)
       in Inr (0, p3))"


section \<open>Walks\<close>

text \<open>The three iterations over PML4, PDPT and PD; \<open>addr_low\<close> drops by 9 each time and
  \<open>addr_high = addr_low + 8\<close> throughout.  \<open>None\<close> is the early \<^verbatim>\<open>return NULL\<close>.\<close>

primrec walk_levels :: "nat \<Rightarrow> nat \<Rightarrow> pager \<Rightarrow> hostptr \<Rightarrow> guestptr \<Rightarrow> hostptr option res" where
  "walk_levels 0 addr_low p table_base gv = Inr (Some table_base)"
| "walk_levels (Suc n) addr_low p table_base gv =
     (let e = find_table_entry table_base gv addr_low (addr_low + 8) in
      if \<not> entry_exists p e then Inr None
      else bindE (find_next_table p e) (\<lambda>tb. walk_levels n (addr_low - 9) p tb gv))"

definition page_table_walk :: "pager \<Rightarrow> guestptr \<Rightarrow> hostptr res" where
  "page_table_walk p gv =
     bindE (assertE (gv \<noteq> 0)) (\<lambda>_.
     bindE (assertE (host_pml4_p p \<noteq> 0)) (\<lambda>_.
     bindE (walk_levels 3 39 p (host_pml4_p p) gv) (\<lambda>tb.
     case tb of
       None \<Rightarrow> Inr 0
     | Some tb \<Rightarrow>
         (let e = find_table_entry tb gv 12 20 in
          Inr (if entry_exists p e then e else 0)))))"

primrec walk_create_levels ::
  "nat \<Rightarrow> nat \<Rightarrow> pager \<Rightarrow> hostptr \<Rightarrow> guestptr \<Rightarrow> ptopt \<Rightarrow> (hostptr option \<times> pager) res" where
  "walk_create_levels 0 addr_low p table_base gv opts = Inr (Some table_base, p)"
| "walk_create_levels (Suc n) addr_low p table_base gv opts =
     (let e = find_table_entry table_base gv addr_low (addr_low + 8) in
      bindE (update_entry p e opts) (\<lambda>(err, p1).
      if err \<noteq> 0 then Inr (None, p1)
      else bindE (find_next_table p1 e) (\<lambda>tb.
           walk_create_levels n (addr_low - 9) p1 tb gv opts)))"

definition page_table_walk_create :: "pager \<Rightarrow> guestptr \<Rightarrow> ptopt \<Rightarrow> (hostptr \<times> pager) res" where
  "page_table_walk_create p gv opts =
     bindE (assertE (gv \<noteq> 0)) (\<lambda>_.
     bindE (assertE (host_pml4_p p \<noteq> 0)) (\<lambda>_.
     bindE (walk_create_levels 3 39 p (host_pml4_p p) gv opts) (\<lambda>(tb, p1).
     case tb of
       None \<Rightarrow> Inr (0, p1)
     | Some tb \<Rightarrow> Inr (find_table_entry tb gv 12 20, p1))))"


section \<open>Mapping and unmapping\<close>

definition map_user_page :: "pager \<Rightarrow> hostptr \<Rightarrow> guestptr \<Rightarrow> ptopt \<Rightarrow> (int \<times> pager) res" where
  "map_user_page p host_mem_p gv opts =
     bindE (assertE (gv \<noteq> 0)) (\<lambda>_.
     bindE (assertE (host_mem_p < host_pml4_p p
                     \<or> host_pml4_p p + ELKVM_SYSTEM_MEMSIZE \<le> host_mem_p)) (\<lambda>_.
     if host_mem_p AND ELKVM_PAGE_MASK \<noteq> gv AND ELKVM_PAGE_MASK then Inr (- EIO, p)
     else
       let guest_physical = host_to_guest_physical p host_mem_p in
       bindE (assertE (guest_physical \<noteq> 0)) (\<lambda>_.
       bindE (page_table_walk_create p gv opts) (\<lambda>(pt_entry, p1).
       bindE (assertE (pt_entry \<noteq> 0)) (\<lambda>_.
       if entry_exists p1 pt_entry
          \<and> read64 (pg_mem p1) pt_entry AND 0x000FFFFFFFFFF000 \<noteq> guest_physical AND NOT 0xFFF
       then Inr (-1, p1)
       else Inr (0, create_entry p1 pt_entry guest_physical opts))))))"

primrec map_region_loop ::
  "nat \<Rightarrow> pager \<Rightarrow> hostptr \<Rightarrow> guestptr \<Rightarrow> ptopt \<Rightarrow> (int \<times> pager) res" where
  "map_region_loop 0 p current_p current_addr opts = Inr (0, p)"
| "map_region_loop (Suc n) p current_p current_addr opts =
     bindE (map_user_page p current_p current_addr opts) (\<lambda>(err, p1).
     if err \<noteq> 0 then Inr (err, p1)
     else map_region_loop n p1 (current_p + ELKVM_PAGESIZE) (current_addr + ELKVM_PAGESIZE) opts)"

definition map_region ::
  "pager \<Rightarrow> hostptr \<Rightarrow> guestptr \<Rightarrow> u32 \<Rightarrow> ptopt \<Rightarrow> (int \<times> pager) res" where
  "map_region p start_p start_addr pages opts =
     map_region_loop (unat pages) p start_p start_addr opts"

definition free_page :: "pager \<Rightarrow> guestptr \<Rightarrow> (int \<times> pager) res" where
  "free_page p gv =
     bindE (page_table_walk p gv) (\<lambda>pt_entry.
     if pt_entry = 0 then Inr (-1, p)
     else Inr (0, p\<lparr>pg_mem := write64 (pg_mem p) pt_entry 0\<rparr>))"

primrec unmap_region_loop :: "nat \<Rightarrow> pager \<Rightarrow> guestptr \<Rightarrow> (int \<times> pager) res" where
  "unmap_region_loop 0 p current_addr = Inr (0, p)"
| "unmap_region_loop (Suc n) p current_addr =
     bindE (free_page p current_addr) (\<lambda>(err, p1).
     if err \<noteq> 0 then Inr (err, p1)
     else unmap_region_loop n p1 (current_addr + ELKVM_PAGESIZE))"

definition unmap_region :: "pager \<Rightarrow> guestptr \<Rightarrow> u32 \<Rightarrow> (int \<times> pager) res" where
  "unmap_region p start_addr pages = unmap_region_loop (unat pages) p start_addr"

text \<open>The chunk search and the translation \<^verbatim>\<open>get_host_p\<close> computes after a cache miss, and
  \<^verbatim>\<open>get_host_p\<close> itself.\<close>

definition phys_to_host :: "pager \<Rightarrow> guestptr \<Rightarrow> hostptr" where
  "phys_to_host p guest_physical =
     (case List.find (\<lambda>c. contains_phys_address c guest_physical) (chunks p) of
        None \<Rightarrow> 0
      | Some c \<Rightarrow> (guest_physical - guest_phys_addr c) + userspace_addr c)"

definition walk_host_p :: "pager \<Rightarrow> guestptr \<Rightarrow> hostptr res" where
  "walk_host_p p gv =
     bindE (page_table_walk p gv) (\<lambda>e.
     if e = 0 then Inr 0
     else Inr (phys_to_host p ((read64 (pg_mem p) e AND 0x000FFFFFFFFFF000) OR (gv AND 0xFFF))))"

definition get_host_p :: "pager \<Rightarrow> guestptr \<Rightarrow> (hostptr \<times> pager) res" where
  "get_host_p p gv =
     (if gv = 0 then Inr (0, p)
      else
        let (t, tlb1) = TLB_find (pg_tlb p) gv; p1 = p\<lparr>pg_tlb := tlb1\<rparr> in
        if t \<noteq> 0 then Inr (t, p1)
        else bindE (walk_host_p p1 gv) (\<lambda>h.
             if h = 0 then Inr (0, p1)
             else Inr (h, p1\<lparr>pg_tlb := TLB_set tlb1 gv h\<rparr>)))"

text \<open>The search for a free kernel page: \<^verbatim>\<open>pt_entry\<close> moves to the next entry and the address to the
  next page; at the end of a table the address moves on by another MiB and the tables are walked
  again.  The loop need not end, so not returning is \<open>None\<close>.\<close>

partial_function (option) kernel_page_loop ::
  "pager \<Rightarrow> hostptr \<Rightarrow> guestptr \<Rightarrow> ptopt \<Rightarrow> (hostptr \<times> guestptr \<times> pager) res option" where
  "kernel_page_loop p pt_entry gv opts =
     (if \<not> entry_exists p pt_entry then Some (Inr (pt_entry, gv, p))
      else
        let pt1 = pt_entry + 8; gv1 = gv + ELKVM_PAGESIZE in
        if pt1 AND NOT 0xFFF = pt1 then
          (let gv2 = gv1 + 0x100000 in
           if gv2 = 0 then Some (Inl Abort)
           else case page_table_walk_create p gv2 opts of
             Inl e \<Rightarrow> Some (Inl e)
           | Inr (pt2, p1) \<Rightarrow> kernel_page_loop p1 pt2 gv2 opts)
        else kernel_page_loop p pt1 gv1 opts)"

definition map_kernel_page :: "pager \<Rightarrow> hostptr \<Rightarrow> ptopt \<Rightarrow> (guestptr \<times> pager) res option" where
  "map_kernel_page p host_mem_p opts =
     (let guest_physical = host_to_guest_physical p host_mem_p;
          gv = (guest_next_free p AND NOT 0xFFF) OR (guest_physical AND 0xFFF)
      in if gv = 0 then Some (Inl Abort)
         else case page_table_walk_create p gv opts of
           Inl e \<Rightarrow> Some (Inl e)
         | Inr (pt_entry, p1) \<Rightarrow>
             if pt_entry = 0 then Some (Inr (of_int (- EIO), p1))
             else case kernel_page_loop p1 pt_entry gv opts of
               None \<Rightarrow> None
             | Some (Inl e) \<Rightarrow> Some (Inl e)
             | Some (Inr (pt, gv1, p2)) \<Rightarrow>
                 Some (Inr (gv1, create_entry p2 pt guest_physical opts)))"

end
