(* ===== verification/Chunks.thy ===== *)
theory Chunks
  imports Pager
begin

text \<open>
  The chunks of guest memory that the pager hands to KVM.  \<open>chunks_inv\<close> states that the chunks are
  page-granular, occupy consecutive guest-physical ranges starting at 0, are disjoint in host memory,
  and use distinct KVM slots.  Chunk creation keeps it, and under it the host-to-guest-physical
  translation is inverted by the guest-physical-to-host search of \<^verbatim>\<open>get_host_p\<close>.
\<close>

section \<open>Invariant\<close>

definition chunk_ok :: "chunk \<Rightarrow> bool" where
  "chunk_ok c \<longleftrightarrow> page_aligned (userspace_addr c) \<and> page_aligned (guest_phys_addr c)
     \<and> page_aligned (memory_size c) \<and> 0 < memory_size c \<and> userspace_addr c \<noteq> 0
     \<and> unat (userspace_addr c) + unat (memory_size c) < 2 ^ 64
     \<and> unat (guest_phys_addr c) + unat (memory_size c) \<le> 2 ^ 52"

definition host_disjoint :: "hostptr \<Rightarrow> u64 \<Rightarrow> hostptr \<Rightarrow> u64 \<Rightarrow> bool" where
  "host_disjoint a sa b sb \<longleftrightarrow> unat a + unat sa \<le> unat b \<or> unat b + unat sb \<le> unat a"

abbreviation chunks_apart :: "chunk \<Rightarrow> chunk \<Rightarrow> bool" where
  "chunks_apart c d \<equiv> host_disjoint (userspace_addr c) (memory_size c) (userspace_addr d) (memory_size d)"

primrec contiguous :: "nat \<Rightarrow> chunk list \<Rightarrow> bool" where
  "contiguous b [] = True"
| "contiguous b (c # cs) = (unat (guest_phys_addr c) = b \<and> contiguous (b + unat (memory_size c)) cs)"

definition chunks_size :: "chunk list \<Rightarrow> nat" where
  "chunks_size cs = sum_list (map (unat \<circ> memory_size) cs)"

definition slots_inv :: "pager \<Rightarrow> bool" where
  "slots_inv p \<longleftrightarrow> distinct (map slot (chunks p) @ free_slots p)
     \<and> unat ` set (map slot (chunks p) @ free_slots p) = {..<length (chunks p) + length (free_slots p)}"

definition chunks_wf :: "pager \<Rightarrow> bool" where
  "chunks_wf p \<longleftrightarrow> list_all chunk_ok (chunks p) \<and> contiguous 0 (chunks p)
     \<and> sorted_wrt chunks_apart (chunks p) \<and> unat (total_memsz p) = chunks_size (chunks p)
     \<and> chunks_size (chunks p) \<le> 2 ^ 52 \<and> slots_inv p"

text \<open>Between operations at most \<^verbatim>\<open>KVM_MEMORY_SLOTS\<close> slots are taken.\<close>

definition chunks_inv :: "pager \<Rightarrow> bool" where
  "chunks_inv p \<longleftrightarrow> list_all chunk_ok (chunks p) \<and> contiguous 0 (chunks p)
     \<and> sorted_wrt chunks_apart (chunks p) \<and> unat (total_memsz p) = chunks_size (chunks p)
     \<and> chunks_size (chunks p) \<le> 2 ^ 52 \<and> slots_inv p \<and> length (chunks p) + length (free_slots p) \<le> 125"

text \<open>What the pager needs of \<^verbatim>\<open>posix_memalign(HOST_PAGESIZE, size)\<close>: a block it returns is page
  aligned, lies within the address space and overlaps no live chunk; a failure is a non-zero error number.\<close>

definition memalign_ok :: "memalign \<Rightarrow> bool" where
  "memalign_ok am \<longleftrightarrow> (\<forall>cs sz. am cs sz \<noteq> Inl 0) \<and> (\<forall>cs sz h. am cs sz = Inr h \<longrightarrow> 0 < sz \<longrightarrow>
     page_aligned h \<and> h \<noteq> 0 \<and> unat h + unat sz < 2 ^ 64
     \<and> (\<forall>c \<in> set cs. host_disjoint (userspace_addr c) (memory_size c) h sz))"


section \<open>Creating chunks\<close>

lemma contiguous_append:
  "contiguous b (cs @ ds) \<longleftrightarrow> contiguous b cs \<and> contiguous (b + chunks_size cs) ds"
  by (induction cs arbitrary: b) (auto simp: chunks_size_def add.assoc)

lemma chunks_size_append [simp]: "chunks_size (cs @ ds) = chunks_size cs + chunks_size ds"
  by (simp add: chunks_size_def)

lemma chunks_size_simps [simp]:
  "chunks_size [] = 0" "chunks_size (c # cs) = unat (memory_size c) + chunks_size cs"
  by (simp_all add: chunks_size_def)

lemma alloc_chunk_shape:
  assumes "alloc_chunk p addr sz fl = (i, p1)"
  obtains c where "i = length (chunks p)" "chunks p1 = chunks p @ [c]"
    "c = \<lparr>slot = (if free_slots p = [] then of_nat (length (chunks p)) else last (free_slots p)),
          chunk_flags = fl, guest_phys_addr = total_memsz p, memory_size = sz, userspace_addr = addr\<rparr>"
    "free_slots p1 = butlast (free_slots p)" "total_memsz p1 = total_memsz p + sz"
    "pg_mem p1 = pg_mem p" "pg_tlb p1 = pg_tlb p" "host_pml4_p p1 = host_pml4_p p"
    "host_next_free_tbl_p p1 = host_next_free_tbl_p p" "guest_next_free p1 = guest_next_free p"
  using assms that by (auto simp: alloc_chunk_def Let_def split: if_splits)

lemma alloc_chunk_slot:
  assumes inv: "slots_inv p" and "length (chunks p) < 2 ^ 32" and al: "alloc_chunk p addr sz fl = (i, p1)"
  shows "slots_inv p1"
proof (rule alloc_chunk_shape [OF al])
  fix c
  assume c: "chunks p1 = chunks p @ [c]" "free_slots p1 = butlast (free_slots p)"
    "c = \<lparr>slot = (if free_slots p = [] then of_nat (length (chunks p)) else last (free_slots p)),
          chunk_flags = fl, guest_phys_addr = total_memsz p, memory_size = sz, userspace_addr = addr\<rparr>"
  show ?thesis
  proof (cases "free_slots p = []")
    case True
    then have slot: "unat (slot c) = length (chunks p)"
      using assms(2) by (simp add: c(3) unsigned_of_nat take_bit_nat_eq_self)
    have range: "unat ` set (map slot (chunks p)) = {..<length (chunks p)}"
      using inv True by (simp add: slots_inv_def)
    then have "slot c \<notin> set (map slot (chunks p))"
      by (metis slot image_eqI lessThan_iff less_irrefl)
    then show ?thesis
      using inv True slot range by (simp add: slots_inv_def c(1,2) lessThan_Suc)
  next
    case False
    then obtain fs f where fs: "free_slots p = fs @ [f]"
      by (metis append_butlast_last_id)
    have "slot c = f"
      by (simp add: c(3) fs)
    then show ?thesis
      using inv by (auto simp: slots_inv_def c(1,2) fs)
  qed
qed

lemma chunks_inv_wf: "chunks_inv p \<longleftrightarrow> chunks_wf p \<and> length (chunks p) + length (free_slots p) \<le> 125"
  by (auto simp: chunks_inv_def chunks_wf_def)

lemma chunks_inv_slot:
  assumes "chunks_inv p" "s \<in> set (map slot (chunks p) @ free_slots p)"
  shows "s < KVM_MEMORY_SLOTS"
proof -
  have range: "unat ` set (map slot (chunks p) @ free_slots p) = {..<length (chunks p) + length (free_slots p)}"
    and len: "length (chunks p) + length (free_slots p) \<le> 125"
    using assms(1) by (simp_all only: chunks_inv_def slots_inv_def)
  have "unat s \<in> unat ` set (map slot (chunks p) @ free_slots p)"
    using assms(2) by blast
  then have "unat s < 125"
    using len unfolding range by simp
  then show ?thesis
    by (simp add: KVM_MEMORY_SLOTS_def word_less_nat_alt)
qed

lemma alloc_chunk_wf:
  assumes inv: "chunks_wf p" and len: "length (chunks p) < 2 ^ 32"
    and sz: "page_aligned sz" "0 < sz" "unat (total_memsz p) + unat sz \<le> 2 ^ 52"
    and addr: "page_aligned addr" "addr \<noteq> 0" "unat addr + unat sz < 2 ^ 64"
      "\<forall>c \<in> set (chunks p). host_disjoint (userspace_addr c) (memory_size c) addr sz"
    and al: "alloc_chunk p addr sz fl = (i, p1)"
  shows "chunks_wf p1"
proof -
  obtain c where c: "chunks p1 = chunks p @ [c]" "userspace_addr c = addr" "memory_size c = sz"
      "guest_phys_addr c = total_memsz p" "total_memsz p1 = total_memsz p + sz"
    using al by (auto simp: alloc_chunk_def Let_def split: if_splits)
  have tot: "unat (total_memsz p + sz) = unat (total_memsz p) + unat sz"
    using sz(3) by (simp add: unat_plus_if')
  have "4096 dvd chunks_size cs" if "list_all chunk_ok cs" for cs
    using that by (induction cs) (auto simp: chunk_ok_def page_aligned_iff)
  then have "page_aligned (total_memsz p)"
    using inv by (simp add: chunks_wf_def page_aligned_iff)
  then have "chunk_ok c"
    using sz addr c by (simp add: chunk_ok_def)
  then show ?thesis
    using inv addr sz tot alloc_chunk_slot [OF _ len al]
    by (auto simp: chunks_wf_def c contiguous_append sorted_wrt_append)
qed

lemma erase_at_append [simp]: "erase_at (length cs) (cs @ [c]) = cs"
  by (simp add: erase_at_def)

lemma map_chunk_empty_wf:
  assumes inv: "chunks_wf p" and len: "length (chunks p) < 2 ^ 32"
    and al: "alloc_chunk p addr 0 fl = (i, p1)" and run: "map_chunk_to_kvm ioctl p1 i = Inr (err, p')"
  shows "chunks_wf p'"
proof (rule alloc_chunk_shape [OF al])
  fix c
  assume c: "i = length (chunks p)" "chunks p1 = chunks p @ [c]" "total_memsz p1 = total_memsz p + 0"
    "c = \<lparr>slot = (if free_slots p = [] then of_nat (length (chunks p)) else last (free_slots p)),
          chunk_flags = fl, guest_phys_addr = total_memsz p, memory_size = 0, userspace_addr = addr\<rparr>"
  have "slots_inv p1"
    using alloc_chunk_slot [OF _ len al] inv by (simp add: chunks_wf_def)
  moreover have p': "p' = p1\<lparr>free_slots := free_slots p1 @ [slot c], chunks := chunks p\<rparr>"
    using run c(4) by (simp add: map_chunk_to_kvm_def c(1,2) Let_def res_simps)
  ultimately have "slots_inv p'"
    by (auto simp: slots_inv_def c(2))
  then show ?thesis
    using inv c(3) by (simp add: chunks_wf_def p')
qed

lemma create_mem_chunk_cases:
  assumes "create_mem_chunk am ioctl p sz = Inr (err, h, p')"
  obtains (unaligned) "\<not> page_aligned sz" "err = - EIO" "h = 0" "p' = p"
  | (failed) "page_aligned sz" "am (chunks p) sz = Inl err" "h = 0" "p' = p"
  | (created) i p1 where "page_aligned sz" "am (chunks p) sz = Inr h" "alloc_chunk p h sz 0 = (i, p1)"
      "map_chunk_to_kvm ioctl p1 i = Inr (err, p')"
  using assms that
  by (auto simp: create_mem_chunk_def res_simps split: if_splits sum.splits prod.splits)

lemma map_chunk_slots:
  assumes inv: "chunks_inv p" and al: "alloc_chunk p addr sz fl = (i, p1)"
    and run: "map_chunk_to_kvm ioctl p1 i = Inr (err, p')"
  shows "length (chunks p') + length (free_slots p') \<le> 125"
proof (rule alloc_chunk_shape [OF al])
  fix c
  assume c: "i = length (chunks p)" "chunks p1 = chunks p @ [c]" "free_slots p1 = butlast (free_slots p)"
    "c = \<lparr>slot = (if free_slots p = [] then of_nat (length (chunks p)) else last (free_slots p)),
          chunk_flags = fl, guest_phys_addr = total_memsz p, memory_size = sz, userspace_addr = addr\<rparr>"
  have n: "length (chunks p) + length (free_slots p) \<le> 125"
    using inv by (simp add: chunks_inv_def)
  have "slot c < 125"
    using run by (simp add: map_chunk_to_kvm_def Let_def res_simps c(1,2) KVM_MEMORY_SLOTS_def)
  then have "length (chunks p) < 125" if "free_slots p = []"
    using that n by (simp add: c(4) word_less_nat_alt unsigned_of_nat take_bit_nat_eq_self)
  then have "length (chunks p1) + length (free_slots p1) \<le> 125"
    using n by (cases "free_slots p") (simp_all add: c(2,3))
  moreover have "length (chunks p') + length (free_slots p') = length (chunks p1) + length (free_slots p1)"
    using run by (auto simp: map_chunk_to_kvm_def Let_def res_simps c(1,2))
  ultimately show ?thesis by simp
qed

lemma create_mem_chunk_inv:
  assumes inv: "chunks_inv p" and am: "memalign_ok am"
    and room: "unat (total_memsz p) + unat sz \<le> 2 ^ 52"
    and run: "create_mem_chunk am ioctl p sz = Inr (err, h, p')"
  shows "chunks_inv p'"
  using run
proof (cases rule: create_mem_chunk_cases)
  case (created i p1)
  have wf: "chunks_wf p" and len: "length (chunks p) < 2 ^ 32"
    using inv by (simp_all add: chunks_inv_wf)
  have "chunks_wf p'"
  proof (cases "sz = 0")
    case False
    then have sz: "0 < sz"
      by (simp add: word_neq_0_conv)
    with am created(2) have h: "page_aligned h" "h \<noteq> 0" "unat h + unat sz < 2 ^ 64"
        "\<forall>c \<in> set (chunks p). host_disjoint (userspace_addr c) (memory_size c) h sz"
      unfolding memalign_ok_def by blast+
    have "chunks_wf p1"
      by (rule alloc_chunk_wf [OF wf len created(1) sz room h created(3)])
    moreover have "memory_size (chunks p1 ! i) = sz"
      by (rule alloc_chunk_shape [OF created(3)]) simp
    ultimately show ?thesis
      using created(4) False by (auto simp: map_chunk_to_kvm_def Let_def res_simps)
  next
    case True
    then show ?thesis
      using map_chunk_empty_wf [OF wf len _ created(4)] created(3) by simp
  qed
  then show ?thesis
    using map_chunk_slots [OF inv created(3,4)] by (simp add: chunks_inv_wf)
qed (simp_all add: inv)


section \<open>Host and guest-physical addresses\<close>

lemma find_unique:
  assumes "c \<in> set cs" "P c" "\<And>d. d \<in> set cs \<Longrightarrow> P d \<Longrightarrow> d = c"
  shows "List.find P cs = Some c"
proof (cases "List.find P cs")
  case None
  with assms(1,2) show ?thesis by (simp add: find_None_iff)
next
  case (Some d)
  then have "d \<in> set cs" "P d"
    by (auto simp: find_Some_iff)
  with assms(3) Some show ?thesis by simp
qed

lemma contains_address_unat:
  assumes "chunk_ok c"
  shows "contains_address c a \<longleftrightarrow>
    unat (userspace_addr c) \<le> unat a \<and> unat a < unat (userspace_addr c) + unat (memory_size c)"
  using assms by (simp add: contains_address_def chunk_ok_def word_le_nat_alt word_less_nat_alt unat_plus_if')

lemma contains_phys_address_unat:
  assumes "chunk_ok c"
  shows "contains_phys_address c a \<longleftrightarrow>
    unat (guest_phys_addr c) \<le> unat a \<and> unat a < unat (guest_phys_addr c) + unat (memory_size c)"
  using assms by (simp add: contains_phys_address_def chunk_ok_def word_le_nat_alt word_less_nat_alt unat_plus_if')

lemma contiguous_bounds:
  assumes "contiguous b cs" "c \<in> set cs"
  shows "b \<le> unat (guest_phys_addr c)
    \<and> unat (guest_phys_addr c) + unat (memory_size c) \<le> b + chunks_size cs"
  using assms
proof (induction cs arbitrary: b)
  case (Cons x xs)
  show ?case
  proof (cases "c = x")
    case False
    then have "b + unat (memory_size x) \<le> unat (guest_phys_addr c)
        \<and> unat (guest_phys_addr c) + unat (memory_size c) \<le> b + unat (memory_size x) + chunks_size xs"
      using Cons.IH [of "b + unat (memory_size x)"] Cons.prems by simp
    then show ?thesis by simp
  qed (use Cons.prems in simp)
qed simp

lemma phys_unique:
  assumes "contiguous b cs" "list_all chunk_ok cs" "c \<in> set cs" "d \<in> set cs"
    "contains_phys_address c a" "contains_phys_address d a"
  shows "c = d"
  using assms
proof (induction cs arbitrary: b)
  case (Cons x xs)
  have "\<not> (contains_phys_address x a \<and> contains_phys_address y a)" if y: "y \<in> set xs" for y
  proof -
    have ok: "chunk_ok x" "chunk_ok y"
      using Cons.prems(2) y by (auto simp: list_all_iff)
    have "unat (guest_phys_addr x) + unat (memory_size x) \<le> unat (guest_phys_addr y)"
      using contiguous_bounds [of "b + unat (memory_size x)" xs y] y Cons.prems(1) by simp
    then show ?thesis
      unfolding contains_phys_address_unat [OF ok(1)] contains_phys_address_unat [OF ok(2)] by linarith
  qed
  then show ?case
    using Cons by auto
qed simp

lemma host_unique:
  assumes "sorted_wrt chunks_apart cs" "list_all chunk_ok cs" "c \<in> set cs" "d \<in> set cs"
    "contains_address c a" "contains_address d a"
  shows "c = d"
  using assms
proof (induction cs)
  case (Cons x xs)
  have "\<not> (contains_address x a \<and> contains_address y a)" if y: "y \<in> set xs" for y
  proof -
    have ok: "chunk_ok x" "chunk_ok y"
      using Cons.prems(2) y by (auto simp: list_all_iff)
    have "chunks_apart x y"
      using Cons.prems(1) y by simp
    then show ?thesis
      unfolding contains_address_unat [OF ok(1)] contains_address_unat [OF ok(2)] host_disjoint_def
      by linarith
  qed
  then show ?case
    using Cons by auto
qed simp

lemma chunks_invD:
  assumes "chunks_inv p"
  shows "\<And>c. c \<in> set (chunks p) \<Longrightarrow> chunk_ok c" "contiguous 0 (chunks p)" "list_all chunk_ok (chunks p)"
    "sorted_wrt chunks_apart (chunks p)"
  using assms by (auto simp: chunks_inv_def list_all_iff)

lemma find_chunk_for_host_p_eq:
  assumes "chunks_inv p" "c \<in> set (chunks p)" "contains_address c h"
  shows "find_chunk_for_host_p p h = Some c"
  unfolding find_chunk_for_host_p_def
  using assms chunks_invD [OF assms(1)] host_unique [of "chunks p"] by (intro find_unique) blast+

lemma host_to_guest_physical_in:
  assumes inv: "chunks_inv p" and c: "c \<in> set (chunks p)" "contains_address c h"
  defines "g \<equiv> host_to_guest_physical p h"
  shows "g = h - userspace_addr c + guest_phys_addr c"
    and "unat g = unat h - unat (userspace_addr c) + unat (guest_phys_addr c)"
    and "contains_phys_address c g" and "unat g < 2 ^ 52"
proof -
  note ok = chunks_invD(1) [OF inv c(1)]
  show g: "g = h - userspace_addr c + guest_phys_addr c"
    using find_chunk_for_host_p_eq [OF inv c] by (simp add: g_def host_to_guest_physical_def)
  have le: "unat (userspace_addr c) \<le> unat h" "unat h < unat (userspace_addr c) + unat (memory_size c)"
    using c(2) contains_address_unat [OF ok] by simp_all
  have "unat (guest_phys_addr c) + unat (memory_size c) \<le> 2 ^ 52"
    using ok by (simp add: chunk_ok_def)
  then show u: "unat g = unat h - unat (userspace_addr c) + unat (guest_phys_addr c)"
    unfolding g using le by (simp add: unat_plus_if' unat_sub word_le_nat_alt)
  show "contains_phys_address c g"
    unfolding contains_phys_address_unat [OF ok] u using le by linarith
  show "unat g < 2 ^ 52"
    unfolding u using le \<open>_ \<le> 2 ^ 52\<close> by linarith
qed

lemma phys_to_host_in:
  assumes "chunks_inv p" "c \<in> set (chunks p)" "contains_phys_address c g"
  shows "phys_to_host p g = g - guest_phys_addr c + userspace_addr c"
proof -
  have "List.find (\<lambda>c. contains_phys_address c g) (chunks p) = Some c"
    using assms chunks_invD [OF assms(1)] phys_unique [of 0 "chunks p"] by (intro find_unique) blast+
  then show ?thesis
    by (simp add: phys_to_host_def)
qed

lemma phys_to_host_roundtrip:
  assumes inv: "chunks_inv p" and c: "c \<in> set (chunks p)" "contains_address c h"
  shows "phys_to_host p (host_to_guest_physical p h) = h"
  using phys_to_host_in [OF inv c(1) host_to_guest_physical_in(3) [OF inv c]]
    host_to_guest_physical_in(1) [OF inv c] by simp

lemma host_page_offset:
  assumes inv: "chunks_inv p" and c: "c \<in> set (chunks p)" "contains_address c h"
  shows "host_to_guest_physical p h AND 0xFFF = h AND 0xFFF"
proof -
  have "page_aligned (guest_phys_addr c - userspace_addr c)"
    using chunks_invD(1) [OF inv c(1)] by (intro page_aligned_diff) (auto simp: chunk_ok_def)
  then have "page_aligned (host_to_guest_physical p h - h)"
    using host_to_guest_physical_in(1) [OF inv c] by simp
  then show ?thesis
    by (rule page_aligned_diff_offset)
qed

end
