(* ===== verification/Page_Tables.thy ===== *)
theory Page_Tables
  imports Chunks
begin

text \<open>
  Correctness of the page tables that \<^verbatim>\<open>PagerX86_64\<close> keeps in host memory.  The \<open>n\<close> tables in use
  form a tree: a ghost function gives for each table number the list of indices that leads to it
  from the PML4.  \<open>pt_geom\<close> states where the tables lie, \<open>pt_tree\<close> that present entries of the
  three upper levels link exactly the tables of the tree.  Walking, creating tables on the way,
  mapping and unmapping are proved against this structure; the translation of a guest page is then a
  finite map that each operation updates at one page only.
\<close>

section \<open>Indices and entries\<close>

definition tbl_index :: "guestptr \<Rightarrow> nat \<Rightarrow> nat" where
  "tbl_index gv low = unat (take_bit 9 (drop_bit low gv))"

definition present :: "ptentry \<Rightarrow> bool" where
  "present e \<longleftrightarrow> e AND 1 \<noteq> 0"

definition pte_addr :: "ptentry \<Rightarrow> guestptr" where
  "pte_addr e = e AND 0x000FFFFFFFFFF000"

lemma tbl_index_less [simp]: "tbl_index gv low < 512"
proof -
  have "unat (take_bit 9 (drop_bit low gv)) < 2 ^ 9"
    by (simp only: unsigned_take_bit_eq take_bit_nat_less_exp)
  then show ?thesis by (simp add: tbl_index_def)
qed

lemma find_table_entry_eq:
  assumes "low \<le> 55"
  shows "find_table_entry tb gv low (low + 8) = tb + of_nat (8 * tbl_index gv low)"
proof -
  have "drop_bit 55 (push_bit (55 - low) gv) = take_bit 9 (drop_bit low gv)"
    by (rule bit_word_eqI) (use assms in \<open>auto simp: bit_simps add.commute\<close>)
  with assms show ?thesis
    by (simp add: find_table_entry_def tbl_index_def)
qed

lemma bit_pt_consts:
  "bit (0x000FFFFFFFFFF000 :: u64) n \<longleftrightarrow> 12 \<le> n \<and> n < 52"
  "bit PT_BIT_NXE n \<longleftrightarrow> n = 63"
  "bit PT_BIT_PRESENT n \<longleftrightarrow> n = 0"
  "bit PT_BIT_WRITEABLE n \<longleftrightarrow> n = 1"
  "bit PT_BIT_USER n \<longleftrightarrow> n = 2"
proof -
  have 1: "(0x000FFFFFFFFFF000 :: u64) = push_bit 12 (mask 40)"
    by (simp add: mask_eq_exp_minus_1)
  show "bit (0x000FFFFFFFFFF000 :: u64) n \<longleftrightarrow> 12 \<le> n \<and> n < 52"
    unfolding 1 by (auto simp: bit_simps)
  have 2: "PT_BIT_NXE = 2 ^ 63" "PT_BIT_PRESENT = 2 ^ 0" "PT_BIT_WRITEABLE = 2 ^ 1"
    "PT_BIT_USER = 2 ^ 2"
    by (simp_all add: PT_BIT_NXE_def PT_BIT_PRESENT_def PT_BIT_WRITEABLE_def PT_BIT_USER_def)
  show "bit PT_BIT_NXE n \<longleftrightarrow> n = 63" "bit PT_BIT_PRESENT n \<longleftrightarrow> n = 0"
    "bit PT_BIT_WRITEABLE n \<longleftrightarrow> n = 1" "bit PT_BIT_USER n \<longleftrightarrow> n = 2"
    unfolding 2 bit_exp_iff by auto
qed

lemma bit_pte_addr: "bit (pte_addr e) n \<longleftrightarrow> bit e n \<and> 12 \<le> n \<and> n < 52"
  unfolding pte_addr_def bit_and_iff bit_pt_consts ..

lemma present_iff_bit: "present e \<longleftrightarrow> bit e 0"
  by (simp add: present_def and_one_eq odd_iff_mod_2_eq_one bit_0 flip: odd_iff_mod_2_eq_one)

lemma bit_entry_value:
  "bit (entry_value g opts) n \<longleftrightarrow>
     (12 \<le> n \<and> bit g n) \<or> n = 2 \<or> (n = 1 \<and> opts AND PT_OPT_WRITE \<noteq> 0)
     \<or> (n = 63 \<and> opts AND PT_OPT_EXEC = 0) \<or> n = 0"
  by (auto simp: entry_value_def Let_def bit_or_iff bit_pt_consts page_begin_def mask_12 bit_simps
      dest: bit_imp_le_length)


definition upd_bits :: "ptentry \<Rightarrow> ptopt \<Rightarrow> ptentry" where
  "upd_bits e opts =
     (let e1 = (if opts AND PT_OPT_WRITE \<noteq> 0 then e OR PT_BIT_WRITEABLE else e)
      in if opts AND PT_OPT_EXEC \<noteq> 0 then e1 AND NOT PT_BIT_NXE else e1)"

lemma bit_upd_bits:
  "n < 64 \<Longrightarrow> bit (upd_bits e opts) n \<longleftrightarrow>
     (bit e n \<or> (n = 1 \<and> opts AND PT_OPT_WRITE \<noteq> 0)) \<and> \<not> (n = 63 \<and> opts AND PT_OPT_EXEC \<noteq> 0)"
  by (auto simp: upd_bits_def Let_def bit_simps bit_pt_consts)

lemma pte_addr_upd_bits [simp]: "pte_addr (upd_bits e opts) = pte_addr e"
  by (rule bit_word_eqI) (auto simp: bit_pte_addr bit_upd_bits)

lemma present_upd_bits [simp]: "present (upd_bits e opts) = present e"
  by (simp add: present_iff_bit bit_upd_bits)

lemma present_entry_value [simp]: "present (entry_value g opts)"
  by (simp add: present_iff_bit bit_entry_value)

lemma pte_addr_entry_value: "pte_addr (entry_value g opts) = pte_addr g"
  by (rule bit_word_eqI) (auto simp: bit_pte_addr bit_entry_value)

lemma pte_addr_of_small:
  assumes "page_aligned g" and "unat g < 2 ^ 52"
  shows "pte_addr g = g"
proof -
  have "take_bit 52 (unat g) = unat g"
    using assms(2) by (simp add: take_bit_nat_eq_self)
  then have "take_bit 52 g = g"
    by (metis unsigned_take_bit_eq unsigned_word_eqI)
  then have hi: "bit g n \<Longrightarrow> n < 52" for n
    by (metis bit_take_bit_iff)
  have "g AND NOT (mask 12) = g"
    using assms(1) unfolding page_aligned_def mask_12 .
  then have lo: "12 \<le> n" if "bit g n" for n
    using that bit_and_iff [of g "NOT (mask 12)" n] by (auto simp: bit_simps)
  show ?thesis
    by (rule bit_word_eqI) (auto simp: bit_pte_addr dest: hi lo)
qed

lemma entry_exists_present: "entry_exists p a \<longleftrightarrow> present (read64 (pg_mem p) a)"
  by (simp add: entry_exists_def present_def)

text \<open>What \<open>update_entry\<close> leaves in memory.\<close>

lemma update_entry_present:
  assumes "present (read64 (pg_mem p) a)"
  shows "update_entry p a opts =
    Inr (0, p\<lparr>pg_mem := write64 (pg_mem p) a (upd_bits (read64 (pg_mem p) a) opts)\<rparr>)"
  using assms by (simp add: update_entry_def entry_exists_present upd_bits_def Let_def)

lemma update_entry_absent:
  assumes "\<not> present (read64 (pg_mem p) a)"
    and "host_to_guest_physical p (host_next_free_tbl_p p) = g" and "g \<noteq> 0"
  shows "update_entry p a opts =
    Inr (0, p\<lparr>pg_mem := write64 (memset (pg_mem p) (host_next_free_tbl_p p) 0 ELKVM_PAGESIZE) a
                 (upd_bits (entry_value g opts) opts),
              host_next_free_tbl_p := host_next_free_tbl_p p + ELKVM_PAGESIZE\<rparr>)"
  using assms
  by (simp add: update_entry_def create_table_def create_entry_def entry_exists_present upd_bits_def Let_def)


section \<open>The tables in memory\<close>

text \<open>Table number \<open>t\<close> lies \<open>t\<close> pages above the PML4, which is table 0; \<open>n\<close> tables are in use.\<close>

definition tbl_addr :: "pager \<Rightarrow> nat \<Rightarrow> hostptr" where
  "tbl_addr p t = host_pml4_p p + of_nat (4096 * t)"

definition cell_addr :: "pager \<Rightarrow> nat \<Rightarrow> nat \<Rightarrow> hostptr" where
  "cell_addr p t i = host_pml4_p p + of_nat (4096 * t + 8 * i)"

definition pte :: "pager \<Rightarrow> nat \<Rightarrow> nat \<Rightarrow> ptentry" where
  "pte p t i = read64 (pg_mem p) (cell_addr p t i)"

definition pt_geom :: "nat \<Rightarrow> pager \<Rightarrow> bool" where
  "pt_geom n p \<longleftrightarrow> chunks p \<noteq> [] \<and> 
     (let c = hd (chunks p); P = host_pml4_p p in
      guest_phys_addr c = 0 \<and> page_aligned (userspace_addr c) \<and> page_aligned P \<and> P \<noteq> 0
      \<and> userspace_addr c \<le> P \<and> unat P + 0x1000000 \<le> unat (userspace_addr c) + unat (memory_size c)
      \<and> unat (userspace_addr c) + unat (memory_size c) < 2 ^ 64 \<and> unat (memory_size c) \<le> 2 ^ 52
      \<and> host_next_free_tbl_p p = P + of_nat (4096 * n) \<and> 0 < n \<and> n \<le> 4096)"

lemma tbl_addr_plus: "tbl_addr p t + of_nat (8 * i) = cell_addr p t i"
  by (simp add: tbl_addr_def cell_addr_def)

lemma unat_of_nat_diff:
  assumes "x < 2 ^ 32" and "y < 2 ^ 32"
  shows "unat (of_nat x - of_nat y :: u64) = (if y \<le> x then x - y else x + 2 ^ 64 - y)"
proof -
  have "unat (of_nat x :: u64) = x" "unat (of_nat y :: u64) = y"
    using assms by (simp_all add: unsigned_of_nat take_bit_nat_eq_self)
  then show ?thesis
    using unat_sub_if' [of "of_nat x :: u64" "of_nat y"] by simp
qed

lemma cell_diff:
  assumes "t < 4096" "i < 512" "t' < 4097" "i' < 512"
  shows "unat (cell_addr p t i - cell_addr p t' i') =
    (if 4096 * t' + 8 * i' \<le> 4096 * t + 8 * i then 4096 * t + 8 * i - (4096 * t' + 8 * i')
     else 4096 * t + 8 * i + 2 ^ 64 - (4096 * t' + 8 * i'))"
proof -
  have "cell_addr p t i - cell_addr p t' i' = of_nat (4096 * t + 8 * i) - of_nat (4096 * t' + 8 * i')"
    by (simp add: cell_addr_def)
  moreover have "4096 * t + 8 * i < 2 ^ 32" "4096 * t' + 8 * i' < 2 ^ 32"
    using assms by simp_all
  ultimately show ?thesis
    by (simp only: unat_of_nat_diff)
qed

lemma cell_aligned:
  assumes "page_aligned (host_pml4_p p)"
  shows "8 dvd unat (cell_addr p t i)"
proof -
  have "8 dvd unat (host_pml4_p p)"
    using assms dvd_trans [of 8 "4096 :: nat"] by (simp add: page_aligned_iff)
  then have "8 dvd (unat (host_pml4_p p) + (4096 * t + 8 * i)) mod 2 ^ 64"
    by (intro dvd_mod dvd_add) simp_all
  moreover have "unat (cell_addr p t i) = (unat (host_pml4_p p) + (4096 * t + 8 * i)) mod 2 ^ 64"
    unfolding cell_addr_def unat_word_ariths unat_of_nat by (simp only: mod_simps) simp
  ultimately show ?thesis by simp
qed

lemma cell_offset_inj:
  assumes "i < 512" "i' < 512" "4096 * t + 8 * i = 4096 * t' + 8 * (i' :: nat)"
  shows "t = t' \<and> i = i'"
proof -
  have "(4096 * t + 8 * i) div 4096 = t" "(4096 * t' + 8 * i') div 4096 = t'"
    using assms(1,2) by (simp_all add: div_add1_eq)
  with assms(3) show ?thesis by simp
qed

lemma cell_addr_inj:
  assumes "t < 4096" "i < 512" "t' < 4096" "i' < 512" "cell_addr p t i = cell_addr p t' i'"
  shows "t = t' \<and> i = i'"
proof (rule cell_offset_inj)
  show "4096 * t + 8 * i = 4096 * t' + 8 * i'"
    using cell_diff [of t i t' i' p] assms by (simp split: if_splits)
qed (use assms in simp_all)

lemma cells_apart_iff:
  assumes "page_aligned (host_pml4_p p)"
    and "t < 4096" "i < 512" "t' < 4096" "i' < 512" "(t, i) \<noteq> (t', i')"
  shows "cells_apart (cell_addr p t i) (cell_addr p t' i')"
proof (rule aligned_cells_apart)
  show "cell_addr p t i \<noteq> cell_addr p t' i'"
    using cell_addr_inj [OF assms(2-5)] assms(6) by blast
qed (rule cell_aligned, rule assms)+

lemma pte_write:
  assumes "page_aligned (host_pml4_p p)" "t < 4096" "i < 512" "t' < 4096" "i' < 512"
  shows "read64 (write64 m (cell_addr p t i) v) (cell_addr p t' i') =
    (if (t', i') = (t, i) then v else read64 m (cell_addr p t' i'))"
proof (cases "(t', i') = (t, i)")
  case False
  then have "cells_apart (cell_addr p t i) (cell_addr p t' i')"
    by (intro cells_apart_iff assms) auto
  with False show ?thesis
    by (simp only: read64_write64_apart if_False)
qed simp

lemma pte_memset:
  assumes "t \<le> n" "n < 4096" "i < 512"
  shows "read64 (memset m (tbl_addr p n) 0 ELKVM_PAGESIZE) (cell_addr p t i) =
    (if t = n then 0 else read64 m (cell_addr p t i))"
proof (cases "t = n")
  case True
  have "unat (cell_addr p t i - tbl_addr p n) = 8 * i"
    using cell_diff [of t i n 0 p] assms True by (simp add: tbl_addr_def cell_addr_def)
  then show ?thesis
    using True assms by (simp add: memset_zero_read64 ELKVM_PAGESIZE_def)
next
  case False
  define d where "d = cell_addr p t i - tbl_addr p n"
  have gap: "4096 * t + 8 * i + 8 \<le> 4096 * n"
    using assms False by linarith
  have "d = cell_addr p t i - cell_addr p n 0"
    by (simp add: d_def tbl_addr_def cell_addr_def)
  then have d: "unat d = 4096 * t + 8 * i + 2 ^ 64 - 4096 * n"
    using cell_diff [of t i n 0 p] assms gap by (simp only:) simp
  have "ELKVM_PAGESIZE \<le> cell_addr p t i + k - tbl_addr p n" if k: "k < 8" for k
  proof -
    have k8: "unat k < 8"
      using k by (simp add: word_less_nat_alt)
    then have "unat d + unat k < 2 ^ 64"
      unfolding d using gap by simp
    then have "unat (d + k) = unat d + unat k"
      by (simp add: unat_plus_if')
    moreover have "0x1000 \<le> unat d"
      unfolding d using assms(2) by simp
    ultimately have "ELKVM_PAGESIZE \<le> d + k"
      by (simp add: word_le_nat_alt ELKVM_PAGESIZE_def)
    then show ?thesis
      by (simp add: d_def algebra_simps)
  qed
  with False show ?thesis
    by (simp add: memset_outside_read64)
qed

section \<open>The tree of tables\<close>

definition next_tbl :: "pager \<Rightarrow> ptentry \<Rightarrow> hostptr" where
  "next_tbl p e = userspace_addr (hd (chunks p)) + pte_addr e"

definition pt_paths :: "(nat \<Rightarrow> nat list) \<Rightarrow> nat \<Rightarrow> bool" where
  "pt_paths path n \<longleftrightarrow> path 0 = [] \<and> inj_on path {..<n} \<and> (\<forall>t<n. length (path t) \<le> 3)
     \<and> (\<forall>t<n. path t \<noteq> [] \<longrightarrow> (\<exists>s<n. path s = butlast (path t)))"

definition pt_links :: "(nat \<Rightarrow> nat list) \<Rightarrow> nat \<Rightarrow> pager \<Rightarrow> bool" where
  "pt_links path n p \<longleftrightarrow>
     (\<forall>s<n. \<forall>i<512. length (path s) < 3 \<longrightarrow> present (pte p s i) \<longrightarrow> (\<exists>t<n. path t = path s @ [i]))
     \<and> (\<forall>s<n. \<forall>t<n. \<forall>i<512. path t = path s @ [i] \<longrightarrow>
          present (pte p s i) \<and> next_tbl p (pte p s i) = tbl_addr p t)"

definition pt_tree :: "(nat \<Rightarrow> nat list) \<Rightarrow> nat \<Rightarrow> pager \<Rightarrow> bool" where
  "pt_tree path n p \<longleftrightarrow> pt_paths path n \<and> pt_links path n p"

text \<open>The fields that walking and mapping never touch.\<close>

definition pager_frame ::
  "pager \<Rightarrow> int \<times> chunk list \<times> hostptr \<times> guestptr \<times> u64 \<times> u32 list \<times> tlb" where
  "pager_frame p = (vmfd p, chunks p, host_pml4_p p, guest_next_free p, total_memsz p, free_slots p,
     pg_tlb p)"

text \<open>\<open>p'\<close> extends the tables of \<open>p\<close>: no leaf entry changes, new leaf tables are empty, and memory
  outside the 16 MiB of the pager and every other field stay the same.\<close>

definition pt_ext ::
  "(nat \<Rightarrow> nat list) \<Rightarrow> nat \<Rightarrow> pager \<Rightarrow> (nat \<Rightarrow> nat list) \<Rightarrow> nat \<Rightarrow> pager \<Rightarrow> bool" where
  "pt_ext path n p path' n' p' \<longleftrightarrow> n \<le> n' \<and> (\<forall>t<n. path' t = path t)
     \<and> (\<forall>t<n. \<forall>i<512. length (path t) = 3 \<longrightarrow> pte p' t i = pte p t i)
     \<and> (\<forall>t. n \<le> t \<longrightarrow> t < n' \<longrightarrow> length (path' t) = 3 \<longrightarrow> (\<forall>i<512. pte p' t i = 0))
     \<and> pager_frame p' = pager_frame p
     \<and> (\<forall>a. 0x1000000 \<le> unat (a - host_pml4_p p) \<longrightarrow> pg_mem p' a = pg_mem p a)"

lemma pt_ext_refl: "pt_ext path n p path n p"
  by (simp add: pt_ext_def)

lemma pager_frame_eqD:
  assumes "pager_frame p' = pager_frame p"
  shows "host_pml4_p p' = host_pml4_p p" "chunks p' = chunks p" "pg_tlb p' = pg_tlb p"
    "total_memsz p' = total_memsz p" "free_slots p' = free_slots p" "vmfd p' = vmfd p"
    "guest_next_free p' = guest_next_free p"
  using assms by (simp_all add: pager_frame_def)

lemma pt_ext_frame: "pt_ext path n p path' n' p' \<Longrightarrow> pager_frame p' = pager_frame p"
  by (simp add: pt_ext_def)

lemmas pt_ext_fields = pager_frame_eqD [OF pt_ext_frame]

lemma pt_ext_trans:
  assumes 1: "pt_ext path n p path1 n1 p1" and 2: "pt_ext path1 n1 p1 path2 n2 p2"
  shows "pt_ext path n p path2 n2 p2"
  unfolding pt_ext_def
proof (intro conjI allI impI)
  show "n \<le> n2"
    using 1 2 by (simp add: pt_ext_def)
  fix t
  show "path2 t = path t" if "t < n"
    using that 1 2 by (simp add: pt_ext_def)
  show "pte p2 t i = pte p t i" if "t < n" "i < 512" "length (path t) = 3" for i
    using that 1 2 by (simp add: pt_ext_def)
  show "pte p2 t i = 0" if "n \<le> t" "t < n2" "length (path2 t) = 3" "i < 512" for i
    using that 1 2 by (cases "t < n1") (simp_all add: pt_ext_def)
next
  show "pager_frame p2 = pager_frame p"
    using 1 2 by (simp add: pt_ext_def)
next
  fix a
  assume "0x1000000 \<le> unat (a - host_pml4_p p)"
  then show "pg_mem p2 a = pg_mem p a"
    using 1 2 pt_ext_fields(1) [OF 1] by (simp add: pt_ext_def)
qed


lemma table_addr_upd [simp]:
  "tbl_addr (p\<lparr>pg_mem := m\<rparr>) t = tbl_addr p t"
  "tbl_addr (p\<lparr>host_next_free_tbl_p := h\<rparr>) t = tbl_addr p t"
  "cell_addr (p\<lparr>pg_mem := m\<rparr>) t i = cell_addr p t i"
  "cell_addr (p\<lparr>host_next_free_tbl_p := h\<rparr>) t i = cell_addr p t i"
  "next_tbl (p\<lparr>pg_mem := m\<rparr>) e = next_tbl p e"
  "next_tbl (p\<lparr>host_next_free_tbl_p := h\<rparr>) e = next_tbl p e"
  "pager_frame (p\<lparr>pg_mem := m\<rparr>) = pager_frame p"
  "pager_frame (p\<lparr>host_next_free_tbl_p := h\<rparr>) = pager_frame p"
  by (simp_all add: tbl_addr_def cell_addr_def next_tbl_def pager_frame_def)

lemma pte_upd_mem: "pte (p\<lparr>pg_mem := m\<rparr>) t i = read64 m (cell_addr p t i)"
  by (simp add: pte_def)

lemma pt_geomD:
  assumes "pt_geom n p"
  shows "chunks p \<noteq> []" "guest_phys_addr (hd (chunks p)) = 0" "page_aligned (host_pml4_p p)"
    "host_pml4_p p \<noteq> 0" "page_aligned (userspace_addr (hd (chunks p)))"
    "host_next_free_tbl_p p = tbl_addr p n" "0 < n" "n \<le> 4096"
  using assms unfolding pt_geom_def Let_def tbl_addr_def by simp_all

lemma write_cell_outside:
  assumes "t < 4096" "i < 512" "0x1000000 \<le> unat (a - host_pml4_p p)"
  shows "write64 m (cell_addr p t i) v a = m a"
proof (rule write64_outside)
  have off: "unat (of_nat (4096 * t + 8 * i) :: u64) = 4096 * t + 8 * i"
    by (rule unat_of_nat_small) (use assms in simp)
  have le: "4096 * t + 8 * i + 8 \<le> 0x1000000"
    using assms(1,2) by simp
  have "a - cell_addr p t i = (a - host_pml4_p p) - of_nat (4096 * t + 8 * i)"
    by (simp add: cell_addr_def)
  then have "unat (a - cell_addr p t i) = unat (a - host_pml4_p p) - (4096 * t + 8 * i)"
    using off le assms(3) by (simp only: unat_sub_if') simp
  then show "8 \<le> a - cell_addr p t i"
    using le assms(3) by (simp add: word_le_nat_alt)
qed

lemma memset_table_outside:
  assumes "t < 4096" "0x1000000 \<le> unat (a - host_pml4_p p)"
  shows "memset m (tbl_addr p t) v ELKVM_PAGESIZE a = m a"
proof -
  have off: "unat (of_nat (4096 * t) :: u64) = 4096 * t"
    by (rule unat_of_nat_small) (use assms in simp)
  have le: "4096 * t + 4096 \<le> 0x1000000"
    using assms(1) by simp
  have "a - tbl_addr p t = (a - host_pml4_p p) - of_nat (4096 * t)"
    by (simp add: tbl_addr_def)
  then have "unat (a - tbl_addr p t) = unat (a - host_pml4_p p) - 4096 * t"
    using off le assms(2) by (simp only: unat_sub_if') simp
  then have "\<not> a - tbl_addr p t < ELKVM_PAGESIZE"
    using le assms(2) by (simp add: word_less_nat_alt ELKVM_PAGESIZE_def)
  then show ?thesis
    by (simp add: memset_def)
qed

lemma pt_geom_upd_mem [simp]: "pt_geom n (p\<lparr>pg_mem := m\<rparr>) = pt_geom n p"
  by (simp add: pt_geom_def)

lemma pt_geom_next:
  assumes "pt_geom n p" "n < 4096"
  shows "pt_geom (Suc n) (p\<lparr>pg_mem := m, host_next_free_tbl_p := host_next_free_tbl_p p + ELKVM_PAGESIZE\<rparr>)"
  using assms by (simp add: pt_geom_def Let_def ELKVM_PAGESIZE_def algebra_simps)

text \<open>Changing flag bits of a present upper-level entry keeps the tree.\<close>

lemma tree_set_flags:
  assumes g: "pt_geom n p" and t: "pt_tree path n p" and s: "s < n" "i < 512" "length (path s) < 3"
    and pr: "present (pte p s i)" and e: "present e" "pte_addr e = pte_addr (pte p s i)"
    and p': "p' = p\<lparr>pg_mem := write64 (pg_mem p) (cell_addr p s i) e\<rparr>"
  shows "pt_tree path n p' \<and> pt_ext path n p path n p'"
proof -
  note gD = pt_geomD [OF g]
  have P: "pte p' u j = (if (u, j) = (s, i) then e else pte p u j)" if "u < n" "j < 512" for u j
    unfolding p' pte_upd_mem by (subst pte_write) (use gD s that in \<open>auto simp: pte_def\<close>)
  have N: "next_tbl p' = next_tbl p" "tbl_addr p' = tbl_addr p"
    by (auto simp: p')
  have "next_tbl p e = next_tbl p (pte p s i)"
    by (simp add: next_tbl_def e)
  with t P N pr e(1) have "pt_tree path n p'"
    unfolding pt_tree_def pt_links_def by simp
  moreover have "pt_ext path n p path n p'"
    using P s write_cell_outside gD unfolding pt_ext_def by (auto simp: p')
  ultimately show ?thesis ..
qed


text \<open>Linking a fresh table from an absent upper-level entry grows the tree by one node.\<close>

lemma pt_pathsD:
  assumes "pt_paths path n"
  shows "path 0 = []" "inj_on path {..<n}" "\<And>t. t < n \<Longrightarrow> length (path t) \<le> 3"
    "\<And>t. t < n \<Longrightarrow> path t \<noteq> [] \<Longrightarrow> \<exists>s<n. path s = butlast (path t)"
  using assms unfolding pt_paths_def by blast+

lemma pt_linksD:
  assumes "pt_links path n p"
  shows "\<And>s i. s < n \<Longrightarrow> i < 512 \<Longrightarrow> length (path s) < 3 \<Longrightarrow> present (pte p s i) \<Longrightarrow>
      \<exists>t<n. path t = path s @ [i]"
    and "\<And>s t i. s < n \<Longrightarrow> t < n \<Longrightarrow> i < 512 \<Longrightarrow> path t = path s @ [i] \<Longrightarrow>
      present (pte p s i) \<and> next_tbl p (pte p s i) = tbl_addr p t"
  using assms unfolding pt_links_def by blast+

lemma pt_paths_grow:
  assumes "pt_paths path n" "s < n" "length (path s) < 3" "\<And>t. t < n \<Longrightarrow> path t \<noteq> path s @ [i]"
    and path': "path' = path(n := path s @ [i])"
  shows "pt_paths path' (Suc n)"
  unfolding pt_paths_def
proof (intro conjI allI impI)
  note pD = pt_pathsD [OF assms(1)]
  show "path' 0 = []"
    using pD(1) assms(2) by (simp add: path')
  have "inj_on path' {..<n}"
    using pD(2) by (simp add: path' inj_on_def)
  then show "inj_on path' {..<Suc n}"
    using assms(4) by (force simp: path' lessThan_Suc)
  fix t assume t: "t < Suc n"
  then show "length (path' t) \<le> 3"
    using pD(3) assms(3) by (auto simp: path' less_Suc_eq)
  assume ne: "path' t \<noteq> []"
  show "\<exists>r<Suc n. path' r = butlast (path' t)"
  proof (cases "t = n")
    case True
    then show ?thesis
      using assms(2) by (intro exI [of _ s]) (simp add: path')
  next
    case False
    with t ne obtain r where "r < n" "path r = butlast (path t)"
      using pD(4) [of t] by (auto simp: path')
    with False show ?thesis
      by (intro exI [of _ r]) (simp add: path')
  qed
qed

lemma pt_links_grow:
  assumes paths: "pt_paths path n" and links: "pt_links path n p"
    and s: "s < n" "i < 512" "length (path s) < 3" and pr: "\<not> present (pte p s i)"
    and e: "present e" "next_tbl p e = tbl_addr p n"
    and P: "\<And>u j. u \<le> n \<Longrightarrow> j < 512 \<Longrightarrow>
        pte p' u j = (if (u, j) = (s, i) then e else if u = n then 0 else pte p u j)"
    and N: "next_tbl p' = next_tbl p" "tbl_addr p' = tbl_addr p"
    and path': "path' = path(n := path s @ [i])"
  shows "pt_links path' (Suc n) p'"
proof -
  have fresh: "path u \<noteq> path s @ [i]" if "u < n" for u
    using pt_linksD(2) [OF links s(1) that s(2)] pr by blast
  have fresh2: "path u \<noteq> (path s @ [i]) @ [j]" if "u < n" for u j
    using pt_pathsD(4) [OF paths that] fresh by (metis append_is_Nil_conv butlast_snoc not_Cons_self2)
  have child: "\<exists>u<Suc n. path' u = path' r @ [j]"
    if r: "r < Suc n" "j < 512" "length (path' r) < 3" "present (pte p' r j)" for r j
  proof (cases "(r, j) = (s, i)")
    case True
    with s show ?thesis
      by (intro exI [of _ n]) (simp add: path')
  next
    case False
    with r P [of r j] have "r < n" "present (pte p r j)"
      by (auto simp: present_def less_Suc_eq split: if_splits)
    with r obtain u where "u < n" "path u = path r @ [j]"
      using pt_linksD(1) [OF links, of r j] by (auto simp: path')
    with \<open>r < n\<close> show ?thesis
      by (intro exI [of _ u]) (simp add: path')
  qed
  have link: "present (pte p' r j) \<and> next_tbl p' (pte p' r j) = tbl_addr p' u"
    if ru: "r < Suc n" "u < Suc n" "j < 512" "path' u = path' r @ [j]" for r u j
  proof (cases "u = n")
    case True
    then have "path' u = path s @ [i]"
      by (simp add: path')
    with ru(4) have eq: "path s = path' r" "j = i"
      by simp_all
    have "path' n = path s @ [i]"
      by (simp add: path')
    with eq(1) have "r \<noteq> n"
      by auto
    with ru(1) eq(1) have "r < n" "path s = path r"
      by (simp_all add: path')
    then have "r = s"
      using inj_onD [OF pt_pathsD(2) [OF paths], of s r] s(1) by simp
    with eq(2) True P [of s i] s e N show ?thesis
      by simp
  next
    case False
    with ru have u: "u < n" "path u = path' r @ [j]"
      by (simp_all add: path')
    with fresh2 [of u j] ru have r: "r < n" "path u = path r @ [j]"
      by (auto simp: path' less_Suc_eq)
    with fresh u have "(r, j) \<noteq> (s, i)"
      by auto
    with P [of r j] r(1) ru(3) have "pte p' r j = pte p r j"
      by auto
    with pt_linksD(2) [OF links r(1) u(1) ru(3) r(2)] N show ?thesis
      by simp
  qed
  show ?thesis
    unfolding pt_links_def using child link by blast
qed

lemma pte_new_table:
  assumes g: "pt_geom n p" and n: "n < 4096" and s: "s < n" "i < 512" and u: "u \<le> n" "j < 512"
    and p': "p' = p\<lparr>pg_mem := write64 (memset (pg_mem p) (tbl_addr p n) 0 ELKVM_PAGESIZE) (cell_addr p s i) e,
                 host_next_free_tbl_p := host_next_free_tbl_p p + ELKVM_PAGESIZE\<rparr>"
  shows "pte p' u j = (if (u, j) = (s, i) then e else if u = n then 0 else pte p u j)"
proof -
  have "pte p' u j = read64 (write64 (memset (pg_mem p) (tbl_addr p n) 0 ELKVM_PAGESIZE) (cell_addr p s i) e)
      (cell_addr p u j)"
    by (simp add: p' pte_def)
  also have "\<dots> = (if (u, j) = (s, i) then e
      else read64 (memset (pg_mem p) (tbl_addr p n) 0 ELKVM_PAGESIZE) (cell_addr p u j))"
    by (rule pte_write) (use pt_geomD(3) [OF g] s n u in simp_all)
  also have "\<dots> = (if (u, j) = (s, i) then e else if u = n then 0 else pte p u j)"
    by (simp only: pte_memset [OF u(1) n u(2)] pte_def)
  finally show ?thesis .
qed

lemma tree_new_table:
  assumes g: "pt_geom n p" and t: "pt_tree path n p" and n: "n < 4096"
    and s: "s < n" "i < 512" "length (path s) < 3" and pr: "\<not> present (pte p s i)"
    and e: "present e" "next_tbl p e = tbl_addr p n"
    and p': "p' = p\<lparr>pg_mem := write64 (memset (pg_mem p) (tbl_addr p n) 0 ELKVM_PAGESIZE) (cell_addr p s i) e,
                 host_next_free_tbl_p := host_next_free_tbl_p p + ELKVM_PAGESIZE\<rparr>"
    and path': "path' = path(n := path s @ [i])"
  shows "pt_tree path' (Suc n) p' \<and> pt_ext path n p path' (Suc n) p'"
proof
  note P = pte_new_table [OF g n s(1,2) _ _ p']
  have paths: "pt_paths path n" and links: "pt_links path n p"
    using t by (simp_all add: pt_tree_def)
  have "path u \<noteq> path s @ [i]" if "u < n" for u
    using pt_linksD(2) [OF links s(1) that s(2)] pr by blast
  then have "pt_paths path' (Suc n)"
    by (rule pt_paths_grow [OF paths s(1,3) _ path'])
  moreover have "pt_links path' (Suc n) p'"
    by (rule pt_links_grow [OF paths links s pr e P _ _ path']) (auto simp: p')
  ultimately show "pt_tree path' (Suc n) p'"
    by (simp add: pt_tree_def)
  show "pt_ext path n p path' (Suc n) p'"
    unfolding pt_ext_def
  proof (intro conjI allI impI)
    fix u j :: nat assume "u < n" "j < 512" "length (path u) = 3"
    then show "pte p' u j = pte p u j"
      using P [of u j] s by auto
  next
    fix u j :: nat assume "n \<le> u" "u < Suc n" "j < 512"
    then show "pte p' u j = 0"
      using P [of u j] s by auto
  next
    fix a assume "0x1000000 \<le> unat (a - host_pml4_p p)"
    then show "pg_mem p' a = pg_mem p a"
      using s n by (simp add: p' write_cell_outside memset_table_outside)
  qed (use n in \<open>simp_all add: p' path'\<close>)
qed

section \<open>Walking and creating tables\<close>

lemma unat_tbl_addr:
  assumes "pt_geom n p" "t < 4096" "i < 512"
  shows "unat (cell_addr p t i) = unat (host_pml4_p p) + 4096 * t + 8 * i"
proof -
  have off: "unat (of_nat (4096 * t + 8 * i) :: u64) = 4096 * t + 8 * i"
    by (rule unat_of_nat_small) (use assms in simp)
  have "unat (host_pml4_p p) + (4096 * t + 8 * i) < 2 ^ 64"
    using assms unfolding pt_geom_def Let_def by linarith
  then show ?thesis
    unfolding cell_addr_def unat_plus_if' off by simp
qed

lemma cell_addr_nz: "pt_geom n p \<Longrightarrow> t < 4096 \<Longrightarrow> i < 512 \<Longrightarrow> cell_addr p t i \<noteq> 0"
  using unat_tbl_addr [of n p t i] pt_geomD(4) [of n p] by (metis add_is_0 unat_eq_zero)

lemma next_free_phys:
  assumes g: "pt_geom n p" and n: "n < 4096"
  shows "host_to_guest_physical p (host_next_free_tbl_p p) = tbl_addr p n - userspace_addr (hd (chunks p))"
    and "tbl_addr p n - userspace_addr (hd (chunks p)) \<noteq> 0"
    and "next_tbl p (upd_bits (entry_value (tbl_addr p n - userspace_addr (hd (chunks p))) opts) opts) = tbl_addr p n"
proof -
  define c where "c = hd (chunks p)"
  obtain cs where cs: "chunks p = c # cs"
    using pt_geomD(1) [OF g] by (cases "chunks p") (simp_all add: c_def)
  have c0: "guest_phys_addr c = 0" and al: "page_aligned (userspace_addr c)" "page_aligned (host_pml4_p p)"
    and le: "userspace_addr c \<le> host_pml4_p p"
    and room: "unat (host_pml4_p p) + 0x1000000 \<le> unat (userspace_addr c) + unat (memory_size c)"
    and top: "unat (userspace_addr c) + unat (memory_size c) < 2 ^ 64" "unat (memory_size c) \<le> 2 ^ 52"
    and nx: "host_next_free_tbl_p p = tbl_addr p n" and n0: "0 < n"
    using g unfolding pt_geom_def Let_def tbl_addr_def c_def by simp_all
  have N: "unat (tbl_addr p n) = unat (host_pml4_p p) + 4096 * n"
    using unat_tbl_addr [OF g n, of 0] by (simp add: tbl_addr_def cell_addr_def)
  have end_c: "unat (userspace_addr c + memory_size c) = unat (userspace_addr c) + unat (memory_size c)"
    using top(1) by (simp add: unat_plus_if')
  have "contains_address c (tbl_addr p n)"
    using le room n unfolding contains_address_def word_le_nat_alt word_less_nat_alt N end_c by linarith
  then show "host_to_guest_physical p (host_next_free_tbl_p p) = tbl_addr p n - userspace_addr (hd (chunks p))"
    by (simp add: host_to_guest_physical_def find_chunk_for_host_p_def nx cs c0)
  have le': "userspace_addr c \<le> tbl_addr p n"
    using le unfolding word_le_nat_alt N by simp
  then have d: "unat (tbl_addr p n - userspace_addr c) = unat (host_pml4_p p) + 4096 * n - unat (userspace_addr c)"
    by (simp add: unat_sub N)
  moreover have pos: "0 < unat (host_pml4_p p) + 4096 * n - unat (userspace_addr c)"
    using le n0 by (simp add: word_le_nat_alt)
  ultimately show "tbl_addr p n - userspace_addr (hd (chunks p)) \<noteq> 0"
    by (metis c_def less_irrefl unat_0)
  have "page_aligned (of_nat (4096 * n) :: u64)"
    unfolding page_aligned_iff by (subst unat_of_nat_small) (use n in auto)
  then have "page_aligned (tbl_addr p n - userspace_addr c)"
    unfolding tbl_addr_def by (intro page_aligned_diff page_aligned_add al)
  moreover have "unat (tbl_addr p n - userspace_addr c) < 2 ^ 52"
    unfolding d using room top(2) n le unfolding word_le_nat_alt by linarith
  ultimately have "pte_addr (tbl_addr p n - userspace_addr c) = tbl_addr p n - userspace_addr c"
    by (rule pte_addr_of_small)
  then show "next_tbl p (upd_bits (entry_value (tbl_addr p n - userspace_addr (hd (chunks p))) opts) opts) = tbl_addr p n"
    by (simp add: next_tbl_def pte_addr_entry_value c_def)
qed

lemma find_next_table_present:
  assumes "chunks p \<noteq> []" "present (read64 (pg_mem p) a)"
  shows "find_next_table p a = Inr (next_tbl p (read64 (pg_mem p) a))"
  using assms by (cases "chunks p") (simp_all add: find_next_table_def entry_exists_present next_tbl_def pte_addr_def)

lemma update_step:
  assumes g: "pt_geom n p" and t: "pt_tree path n p" and n: "present (pte p s i) \<or> n < 4096"
    and s: "s < n" "i < 512" "length (path s) < 3"
  obtains p' n' path' t where "update_entry p (cell_addr p s i) opts = Inr (0, p')"
    "find_next_table p' (cell_addr p s i) = Inr (tbl_addr p t)"
    "pt_geom n' p'" "pt_tree path' n' p'" "pt_ext path n p path' n' p'"
    "n' \<le> Suc n" "t < n'" "path' t = path s @ [i]" "present (pte p s i) \<Longrightarrow> n' = n \<and> path' = path"
proof (cases "present (pte p s i)")
  case True
  define e where "e = upd_bits (pte p s i) opts"
  define p' where "p' = p\<lparr>pg_mem := write64 (pg_mem p) (cell_addr p s i) e\<rparr>"
  have tr: "pt_tree path n p' \<and> pt_ext path n p path n p'"
    by (rule tree_set_flags [OF g t s True _ _ p'_def]) (simp_all add: e_def True)
  obtain u where u: "u < n" "path u = path s @ [i]"
    using t pt_linksD(1) [of path n p s i] s True unfolding pt_tree_def by blast
  have "next_tbl p e = tbl_addr p u"
    using t pt_linksD(2) [of path n p s u i] s u unfolding pt_tree_def by (simp add: e_def next_tbl_def)
  then have "find_next_table p' (cell_addr p s i) = Inr (tbl_addr p u)"
    using pt_geomD(1) [OF g] True by (simp add: find_next_table_present p'_def e_def)
  moreover have "update_entry p (cell_addr p s i) opts = Inr (0, p')"
    using True by (simp add: update_entry_present p'_def e_def pte_def)
  ultimately show ?thesis
    using that [of p' u n path] tr g u by (simp add: p'_def)
next
  case False
  with n have n: "n < 4096" by simp
  define gp where "gp = tbl_addr p n - userspace_addr (hd (chunks p))"
  define e where "e = upd_bits (entry_value gp opts) opts"
  define p' where "p' = p\<lparr>pg_mem := write64 (memset (pg_mem p) (tbl_addr p n) 0 ELKVM_PAGESIZE) (cell_addr p s i) e,
                 host_next_free_tbl_p := host_next_free_tbl_p p + ELKVM_PAGESIZE\<rparr>"
  have e: "present e" "next_tbl p e = tbl_addr p n"
    using next_free_phys(3) [OF g n, of opts] by (simp_all add: e_def gp_def)
  have tr: "pt_tree (path(n := path s @ [i])) (Suc n) p' \<and> pt_ext path n p (path(n := path s @ [i])) (Suc n) p'"
    by (rule tree_new_table [OF g t n s False e p'_def refl])
  have "update_entry p (cell_addr p s i) opts = Inr (0, p')"
    using update_entry_absent [of p "cell_addr p s i" gp opts] False next_free_phys [OF g n] pt_geomD(6) [OF g]
    by (simp add: pte_def p'_def e_def gp_def)
  moreover have "find_next_table p' (cell_addr p s i) = Inr (tbl_addr p n)"
    using pt_geomD(1) [OF g] e by (simp add: find_next_table_present p'_def)
  moreover have "pt_geom (Suc n) p'"
    unfolding p'_def by (rule pt_geom_next [OF g n])
  ultimately show ?thesis
    using that [of p' n "Suc n" "path(n := path s @ [i])"] tr False by simp
qed


text \<open>The indices the walk uses, from a level down to the page table.\<close>

primrec walk_path :: "guestptr \<Rightarrow> nat \<Rightarrow> nat \<Rightarrow> nat list" where
  "walk_path gv 0 low = []"
| "walk_path gv (Suc k) low = tbl_index gv low # walk_path gv k (low - 9)"

lemma length_walk_path [simp]: "length (walk_path gv k low) = k"
  by (induction k arbitrary: low) simp_all

lemma pt_treeD:
  assumes "pt_tree path n p"
  shows "pt_paths path n" "pt_links path n p"
  using assms by (simp_all add: pt_tree_def)

lemma walk_step_absent:
  assumes t: "pt_tree path n p" and s: "s < n" "i < 512" and pr: "\<not> present (pte p s i)" and u: "u < n"
  shows "path u \<noteq> path s @ i # is"
proof
  assume "path u = path s @ i # is"
  with u pt_pathsD(4) [OF pt_treeD(1) [OF t]] have "\<exists>r<n. path r = path s @ [i]"
  proof (induction "is" arbitrary: u rule: rev_induct)
    case Nil
    then show ?case by auto
  next
    case (snoc x xs)
    then obtain r where "r < n" "path r = path s @ i # xs"
      by (metis append_Cons append_assoc append_is_Nil_conv butlast_snoc not_Cons_self2)
    with snoc show ?case by blast
  qed
  with pt_linksD(2) [OF pt_treeD(2) [OF t]] s pr show False
    by blast
qed

lemma walk_levels_tree:
  assumes "pt_geom n p" "pt_tree path n p" "s < n" "length (path s) + k = 3" "low \<le> 55"
  shows "(\<exists>t<n. path t = path s @ walk_path gv k low
            \<and> walk_levels k low p (tbl_addr p s) gv = Inr (Some (tbl_addr p t)))
    \<or> ((\<forall>t<n. path t \<noteq> path s @ walk_path gv k low)
            \<and> walk_levels k low p (tbl_addr p s) gv = Inr None)"
  using assms
proof (induction k arbitrary: s low)
  case 0
  then show ?case by auto
next
  case (Suc k)
  define i where "i = tbl_index gv low"
  have e: "find_table_entry (tbl_addr p s) gv low (low + 8) = cell_addr p s i"
    using Suc.prems(5) by (simp add: find_table_entry_eq tbl_addr_plus i_def del: of_nat_mult)
  have i: "i < 512"
    by (simp add: i_def)
  show ?case
  proof (cases "present (pte p s i)")
    case True
    then obtain u where u: "u < n" "path u = path s @ [i]"
      using pt_linksD(1) [OF pt_treeD(2) [OF Suc.prems(2)] Suc.prems(3) i] Suc.prems(4) by auto
    then have nx: "next_tbl p (pte p s i) = tbl_addr p u"
      using pt_linksD(2) [OF pt_treeD(2) [OF Suc.prems(2)] Suc.prems(3) u(1) i] by simp
    have "walk_levels (Suc k) low p (tbl_addr p s) gv = walk_levels k (low - 9) p (tbl_addr p u) gv"
      using True nx pt_geomD(1) [OF Suc.prems(1)]
      by (simp add: e Let_def entry_exists_present find_next_table_present flip: pte_def)
    moreover have "walk_path gv (Suc k) low = i # walk_path gv k (low - 9)"
      by (simp add: i_def)
    ultimately show ?thesis
      using Suc.IH [of u "low - 9"] Suc.prems u by simp
  next
    case False
    then have "walk_levels (Suc k) low p (tbl_addr p s) gv = Inr None"
      by (simp add: e entry_exists_present flip: pte_def)
    moreover have "path t \<noteq> path s @ walk_path gv (Suc k) low" if "t < n" for t
      using walk_step_absent [OF Suc.prems(2,3) i False that] by (simp add: i_def)
    ultimately show ?thesis by blast
  qed
qed

lemma walk_create_levels_tree:
  assumes "pt_geom n p" "pt_tree path n p" "s < n" "length (path s) + k = 3" "low \<le> 55"
    "(\<exists>u<n. path u = path s @ walk_path gv k low) \<or> n + k \<le> 4096"
  shows "\<exists>p' n' path' t. walk_create_levels k low p (tbl_addr p s) gv opts = Inr (Some (tbl_addr p t), p')
    \<and> pt_geom n' p' \<and> pt_tree path' n' p' \<and> pt_ext path n p path' n' p' \<and> n' \<le> n + k
    \<and> t < n' \<and> path' t = path s @ walk_path gv k low
    \<and> ((\<exists>u<n. path u = path s @ walk_path gv k low) \<longrightarrow> n' = n)"
  using assms
proof (induction k arbitrary: s low n p path)
  case 0
  then show ?case by (auto intro: pt_ext_refl)
next
  case (Suc k)
  define i where "i = tbl_index gv low"
  have e: "find_table_entry (tbl_addr p s) gv low (low + 8) = cell_addr p s i"
    using Suc.prems(5) by (simp add: find_table_entry_eq tbl_addr_plus i_def del: of_nat_mult)
  have there: "present (pte p s i)" if "\<exists>u<n. path u = path s @ walk_path gv (Suc k) low"
    using that walk_step_absent [OF Suc.prems(2,3), of i] by (auto simp: i_def)
  have i: "i < 512" "length (path s) < 3" "present (pte p s i) \<or> n < 4096"
    using Suc.prems(4,6) there by (auto simp: i_def)
  obtain p1 n1 path1 u where 1: "update_entry p (cell_addr p s i) opts = Inr (0, p1)"
    "find_next_table p1 (cell_addr p s i) = Inr (tbl_addr p u)"
    "pt_geom n1 p1" "pt_tree path1 n1 p1" "pt_ext path n p path1 n1 p1"
    "n1 \<le> Suc n" "u < n1" "path1 u = path s @ [i]" "present (pte p s i) \<Longrightarrow> n1 = n \<and> path1 = path"
    by (rule update_step [OF Suc.prems(1,2) i(3) Suc.prems(3) i(1,2)]) blast
  have P: "tbl_addr p1 = tbl_addr p"
    using pt_ext_fields(1) [OF 1(5)] by (auto simp: tbl_addr_def)
  have kept: "n1 = n \<and> (\<exists>r<n1. path1 r = path1 u @ walk_path gv k (low - 9))"
    if "\<exists>u<n. path u = path s @ walk_path gv (Suc k) low"
    using 1(8) 1(9) [OF there [OF that]] that by (auto simp: i_def)
  have pre: "length (path1 u) + k = 3" "low - 9 \<le> 55"
    "(\<exists>r<n1. path1 r = path1 u @ walk_path gv k (low - 9)) \<or> n1 + k \<le> 4096"
    using 1(6,8) Suc.prems(4-6) kept by auto
  obtain p2 n2 path2 t where 2:
    "walk_create_levels k (low - 9) p1 (tbl_addr p1 u) gv opts = Inr (Some (tbl_addr p1 t), p2)"
    "pt_geom n2 p2" "pt_tree path2 n2 p2" "pt_ext path1 n1 p1 path2 n2 p2" "n2 \<le> n1 + k"
    "t < n2" "path2 t = path1 u @ walk_path gv k (low - 9)"
    "(\<exists>r<n1. path1 r = path1 u @ walk_path gv k (low - 9)) \<longrightarrow> n2 = n1"
    using Suc.IH [OF 1(3,4,7) pre] by blast
  have "walk_create_levels (Suc k) low p (tbl_addr p s) gv opts = Inr (Some (tbl_addr p t), p2)"
    using 1 2(1) by (simp add: e P)
  moreover have "path2 t = path s @ walk_path gv (Suc k) low"
    using 1 2 by (simp add: i_def)
  moreover have "(\<exists>u<n. path u = path s @ walk_path gv (Suc k) low) \<longrightarrow> n2 = n"
    using kept 2(8) by blast
  moreover have "n2 \<le> n + Suc k"
    using 2(5) 1(6) by simp
  ultimately show ?case
    using 2(2,3,6) pt_ext_trans [OF 1(5) 2(4)] by blast
qed


section \<open>The page map\<close>

text \<open>\<open>vpath\<close> are the three upper indices of an address and \<open>vpn\<close> its 36-bit page number; the tables
  ignore bits 48 to 63.  \<open>pt_lookup\<close> is the abstract view of the tables: a partial map from guest pages to
  leaf entries.\<close>

definition vpath :: "guestptr \<Rightarrow> nat list" where
  "vpath gv = walk_path gv 3 39"

definition vpn :: "guestptr \<Rightarrow> u64" where
  "vpn gv = take_bit 36 (drop_bit 12 gv)"

definition pt_lookup :: "pager \<Rightarrow> guestptr \<Rightarrow> ptentry option" where
  "pt_lookup p gv =
     (case page_table_walk p gv of
        Inl _ \<Rightarrow> None
      | Inr e \<Rightarrow> if e = 0 then None else Some (read64 (pg_mem p) e))"

definition tables_used :: "pager \<Rightarrow> nat" where
  "tables_used p = unat (host_next_free_tbl_p p - host_pml4_p p) div 4096"

definition pt_inv :: "pager \<Rightarrow> bool" where
  "pt_inv p \<longleftrightarrow> (\<exists>path. pt_geom (tables_used p) p \<and> pt_tree path (tables_used p) p)"

lemma tables_used_geom: "pt_geom n p \<Longrightarrow> tables_used p = n"
proof -
  assume g: "pt_geom n p"
  have "host_next_free_tbl_p p - host_pml4_p p = of_nat (4096 * n)"
    using pt_geomD(6) [OF g] by (simp add: tbl_addr_def)
  moreover have "unat (of_nat (4096 * n) :: u64) = 4096 * n"
    by (rule unat_of_nat_small) (use pt_geomD(8) [OF g] in simp)
  ultimately show ?thesis
    by (simp add: tables_used_def del: of_nat_mult)
qed

lemma pt_invI: "pt_geom n p \<Longrightarrow> pt_tree path n p \<Longrightarrow> pt_inv p"
  unfolding pt_inv_def by (metis tables_used_geom)

lemma pt_invE:
  assumes "pt_inv p"
  obtains path where "pt_geom (tables_used p) p" "pt_tree path (tables_used p) p"
  using assms unfolding pt_inv_def by blast

lemma bit_field9: "bit (push_bit k (take_bit 9 (drop_bit j (a :: u64)))) n \<longleftrightarrow>
    k \<le> n \<and> n < k + 9 \<and> n < 64 \<and> bit a (n - k + j)"
  by (auto simp: bit_simps add.commute)

lemma vpn_split:
  "vpn a = push_bit 0 (take_bit 9 (drop_bit 12 a)) OR push_bit 9 (take_bit 9 (drop_bit 21 a))
     OR push_bit 18 (take_bit 9 (drop_bit 30 a)) OR push_bit 27 (take_bit 9 (drop_bit 39 a))"
proof (rule bit_word_eqI)
  fix n assume "n < LENGTH(64)"
  then consider "n < 9" | "9 \<le> n \<and> n < 18" | "18 \<le> n \<and> n < 27" | "27 \<le> n \<and> n < 36" | "36 \<le> n"
    by fastforce
  moreover have "bit (vpn a) n \<longleftrightarrow> n < 36 \<and> bit a (n + 12)"
    by (simp add: vpn_def bit_simps add.commute)
  ultimately show "bit (vpn a) n \<longleftrightarrow> bit (push_bit 0 (take_bit 9 (drop_bit 12 a)) OR push_bit 9 (take_bit 9 (drop_bit 21 a))
     OR push_bit 18 (take_bit 9 (drop_bit 30 a)) OR push_bit 27 (take_bit 9 (drop_bit 39 a))) n"
    unfolding bit_or_iff bit_field9 using \<open>n < LENGTH(64)\<close> by cases (simp_all add: add.commute)
qed

lemma tbl_index_vpn:
  assumes "12 \<le> k" "k \<le> 39"
  shows "tbl_index a k = unat (take_bit 9 (drop_bit (k - 12) (vpn a)))"
proof -
  have "take_bit 9 (drop_bit k a) = take_bit 9 (drop_bit (k - 12) (vpn a))"
    unfolding vpn_def by (rule bit_word_eqI) (use assms in \<open>auto simp: bit_simps\<close>)
  then show ?thesis
    by (simp only: tbl_index_def)
qed

lemma tbl_index_eq_iff:
  "tbl_index a k = tbl_index b k \<longleftrightarrow> take_bit 9 (drop_bit k a) = take_bit 9 (drop_bit k b)"
  unfolding tbl_index_def by (rule word_unat_eq_iff [symmetric])

lemma vpn_eq_iff:
  "vpn a = vpn b \<longleftrightarrow> vpath a = vpath b \<and> tbl_index a 12 = tbl_index b 12"
proof
  assume "vpn a = vpn b"
  then show "vpath a = vpath b \<and> tbl_index a 12 = tbl_index b 12"
    by (simp add: vpath_def numeral_3_eq_3 tbl_index_vpn)
next
  assume "vpath a = vpath b \<and> tbl_index a 12 = tbl_index b 12"
  then have "take_bit 9 (drop_bit k a) = take_bit 9 (drop_bit k b)" if "k \<in> {12, 21, 30, 39}" for k
    using that by (auto simp: vpath_def numeral_3_eq_3 tbl_index_eq_iff)
  then show "vpn a = vpn b"
    unfolding vpn_split by simp
qed


lemma leaf_entry_addr: "find_table_entry (tbl_addr p t) gv 12 20 = cell_addr p t (tbl_index gv 12)"
  using find_table_entry_eq [of 12 "tbl_addr p t" gv] by (simp add: tbl_addr_plus del: of_nat_mult)

lemma tbl_addr_0: "tbl_addr p 0 = host_pml4_p p"
  by (simp add: tbl_addr_def)

lemma walk_leaf:
  assumes g: "pt_geom n p" and t: "pt_tree path n p" and u: "u < n" "path u = vpath gv" and gv: "gv \<noteq> 0"
  shows "page_table_walk p gv = Inr (if present (pte p u (tbl_index gv 12)) then cell_addr p u (tbl_index gv 12) else 0)"
proof -
  note gD = pt_geomD [OF g]
  have root: "path 0 = []"
    using pt_pathsD(1) [OF pt_treeD(1) [OF t]] .
  obtain t' where t': "t' < n" "path t' = vpath gv"
      "walk_levels 3 39 p (host_pml4_p p) gv = Inr (Some (tbl_addr p t'))"
    using walk_levels_tree [OF g t gD(7), of 3 39 gv] root u by (auto simp: vpath_def tbl_addr_0)
  moreover have "t' = u"
    using inj_onD [OF pt_pathsD(2) [OF pt_treeD(1) [OF t]], of t' u] t' u by simp
  ultimately show ?thesis
    using gv gD(4) by (simp add: page_table_walk_def leaf_entry_addr entry_exists_present flip: pte_def)
qed

lemma walk_no_leaf:
  assumes g: "pt_geom n p" and t: "pt_tree path n p" and u: "\<And>u. u < n \<Longrightarrow> path u \<noteq> vpath gv" and gv: "gv \<noteq> 0"
  shows "page_table_walk p gv = Inr 0"
proof -
  note gD = pt_geomD [OF g]
  have "walk_levels 3 39 p (host_pml4_p p) gv = Inr None"
    using walk_levels_tree [OF g t gD(7), of 3 39 gv] pt_pathsD(1) [OF pt_treeD(1) [OF t]] u
    by (auto simp: vpath_def tbl_addr_0)
  then show ?thesis
    using gv gD(4) by (simp add: page_table_walk_def)
qed

lemma lookup_leaf:
  assumes g: "pt_geom n p" and t: "pt_tree path n p" and u: "u < n" "path u = vpath gv" and gv: "gv \<noteq> 0"
  shows "pt_lookup p gv = (if present (pte p u (tbl_index gv 12)) then Some (pte p u (tbl_index gv 12)) else None)"
  using walk_leaf [OF assms] cell_addr_nz [OF g, of u "tbl_index gv 12"] u pt_geomD(8) [OF g]
  by (simp add: pt_lookup_def pte_def)

lemma lookup_no_leaf:
  assumes "pt_geom n p" "pt_tree path n p" "\<And>u. u < n \<Longrightarrow> path u \<noteq> vpath gv" "gv \<noteq> 0"
  shows "pt_lookup p gv = None"
  using walk_no_leaf [OF assms] by (simp add: pt_lookup_def)

lemma lookup_0: "pt_lookup p 0 = None"
  by (simp add: pt_lookup_def page_table_walk_def)

text \<open>Creating the tables of a walk changes no translation.\<close>

lemma lookup_ext:
  assumes g: "pt_geom n p" "pt_geom n' p'" and t: "pt_tree path n p" "pt_tree path' n' p'"
    and ext: "pt_ext path n p path' n' p'"
  shows "pt_lookup p' gv = pt_lookup p gv"
proof (cases "gv = 0")
  case False
  have len: "length (vpath gv) = 3"
    by (simp add: vpath_def)
  show ?thesis
  proof (cases "\<exists>u<n'. path' u = vpath gv")
    case True
    then obtain u where u: "u < n'" "path' u = vpath gv" by blast
    show ?thesis
    proof (cases "u < n")
      case True
      with u ext len have "path u = vpath gv" "pte p' u (tbl_index gv 12) = pte p u (tbl_index gv 12)"
        by (simp_all add: pt_ext_def)
      with u True g t False show ?thesis
        by (simp add: lookup_leaf)
    next
      case new: False
      with u ext len have "pte p' u (tbl_index gv 12) = 0"
        by (simp add: pt_ext_def)
      moreover have "path r \<noteq> vpath gv" if "r < n" for r
        using inj_onD [OF pt_pathsD(2) [OF pt_treeD(1) [OF t(2)]], of r u] that u new ext
        by (auto simp: pt_ext_def)
      ultimately show ?thesis
        using lookup_leaf [OF g(2) t(2) u False] lookup_no_leaf [OF g(1) t(1) _ False]
        by (simp add: present_def)
    qed
  next
    case no: False
    moreover have "path r \<noteq> vpath gv" if "r < n" for r
      using that no ext by (auto simp: pt_ext_def)
    ultimately show ?thesis
      using lookup_no_leaf [OF g(2) t(2) _ False] lookup_no_leaf [OF g(1) t(1) _ False] by auto
  qed
qed (simp add: lookup_0)

text \<open>Writing one leaf entry changes the translation of its page only.\<close>

lemma tree_write_leaf:
  assumes g: "pt_geom n p" and t: "pt_tree path n p" and u: "u < n" "length (path u) = 3" "i < 512"
  shows "pt_tree path n (p\<lparr>pg_mem := write64 (pg_mem p) (cell_addr p u i) e\<rparr>)"
proof -
  let ?p = "p\<lparr>pg_mem := write64 (pg_mem p) (cell_addr p u i) e\<rparr>"
  have P: "pte ?p s j = (if (s, j) = (u, i) then e else pte p s j)" if "s < n" "j < 512" for s j
    using pte_write [of p u i s j] pt_geomD(3,8) [OF g] u that by (simp add: pte_def)
  have N: "next_tbl ?p = next_tbl p" "tbl_addr ?p = tbl_addr p"
    by auto
  have "path s \<noteq> path u @ [j]" if "s < n" for s j
    using pt_pathsD(3) [OF pt_treeD(1) [OF t] that] u(2) by auto
  with pt_treeD(2) [OF t] u(2) have "pt_links path n ?p"
    unfolding pt_links_def N by (simp add: P)
  with pt_treeD(1) [OF t] show ?thesis
    by (simp add: pt_tree_def)
qed

lemma lookup_write_leaf:
  assumes g: "pt_geom n p" and t: "pt_tree path n p" and u: "u < n" "path u = vpath gv"
    and nz: "gv \<noteq> 0" "gv' \<noteq> 0"
  shows "pt_lookup (p\<lparr>pg_mem := write64 (pg_mem p) (cell_addr p u (tbl_index gv 12)) e\<rparr>) gv' =
    (if vpn gv' = vpn gv then (if present e then Some e else None) else pt_lookup p gv')"
proof -
  let ?p = "p\<lparr>pg_mem := write64 (pg_mem p) (cell_addr p u (tbl_index gv 12)) e\<rparr>"
  have len: "length (path u) = 3"
    using u(2) by (simp add: vpath_def)
  have t': "pt_tree path n ?p" and g': "pt_geom n ?p"
    using tree_write_leaf [OF g t u(1) len] g by simp_all
  show ?thesis
  proof (cases "\<exists>s<n. path s = vpath gv'")
    case True
    then obtain s where s: "s < n" "path s = vpath gv'" by blast
    have P: "pte ?p s (tbl_index gv' 12) = (if (s, tbl_index gv' 12) = (u, tbl_index gv 12) then e else pte p s (tbl_index gv' 12))"
      using pte_write [of p u "tbl_index gv 12" s "tbl_index gv' 12"] pt_geomD(3,8) [OF g] u s by (simp add: pte_def)
    have "(s, tbl_index gv' 12) = (u, tbl_index gv 12) \<longleftrightarrow> vpn gv' = vpn gv"
      using inj_onD [OF pt_pathsD(2) [OF pt_treeD(1) [OF t]], of s u] u s by (auto simp: vpn_eq_iff)
    then show ?thesis
      using lookup_leaf [OF g' t' s nz(2)] lookup_leaf [OF g t s nz(2)] P by simp
  next
    case False
    then have "vpn gv' \<noteq> vpn gv"
      using u by (auto simp: vpn_eq_iff)
    with False show ?thesis
      using lookup_no_leaf [OF g' t' _ nz(2)] lookup_no_leaf [OF g t _ nz(2)] by auto
  qed
qed

end
