(* ===== verification/Page_Map.thy ===== *)
theory Page_Map
  imports Page_Tables
begin

text \<open>
  The page tables as an abstract data type.  \<open>pt_view\<close> abstracts the tables to a partial map from
  36-bit page numbers to leaf entries; \<^verbatim>\<open>set_pml4\<close> makes it empty, \<^verbatim>\<open>map_user_page\<close> updates it at one page
  (or refuses, leaving it unchanged), \<^verbatim>\<open>free_page\<close> removes one page, and creating intermediate tables
  never changes it.  All other host memory is left alone.
\<close>

section \<open>The page map as an abstract data type\<close>

text \<open>\<open>pt_view\<close> is the partial map from 36-bit page numbers to leaf entries that the tables represent.\<close>

definition pt_view :: "pager \<Rightarrow> u64 \<rightharpoonup> ptentry" where
  "pt_view p v = (if v < 0x1000000000 then pt_lookup p (push_bit 12 v OR 1) else None)"

definition outside_same :: "pager \<Rightarrow> pager \<Rightarrow> bool" where
  "outside_same p p' \<longleftrightarrow>
     (\<forall>a. 0x1000000 \<le> unat (a - host_pml4_p p) \<longrightarrow> pg_mem p' a = pg_mem p a)"

lemma vpn_less: "vpn gv < 0x1000000000"
proof -
  have "unat (vpn gv) < 2 ^ 36"
    unfolding vpn_def unsigned_take_bit_eq by (rule take_bit_nat_less_exp)
  then show ?thesis by (simp add: word_less_nat_alt)
qed

lemma vpn_of_view:
  assumes "v < 0x1000000000"
  shows "vpn (push_bit 12 v OR 1) = v"
proof -
  have "take_bit 36 (unat v) = unat v"
    using assms by (intro take_bit_nat_eq_self) (simp add: word_less_nat_alt)
  then have v: "take_bit 36 v = v"
    by (metis unsigned_take_bit_eq unsigned_word_eqI)
  have "vpn (push_bit 12 v OR 1) = take_bit 36 v"
    unfolding vpn_def by (rule bit_word_eqI) (auto simp: bit_simps)
  with v show ?thesis by simp
qed

lemma view_addr_nz: "push_bit 12 v OR 1 \<noteq> (0 :: u64)"
  by (metis bit_0_eq bit_or_iff bit_1_0 bot_apply bot_bool_def bit_1_iff)

lemma lookup_cong_vpn:
  assumes "pt_inv p" "a \<noteq> 0" "b \<noteq> 0" "vpn a = vpn b"
  shows "pt_lookup p a = pt_lookup p b"
proof -
  obtain path where t: "pt_geom (tables_used p) p" "pt_tree path (tables_used p) p"
    using assms(1) by (rule pt_invE)
  have eq: "vpath a = vpath b" "tbl_index a 12 = tbl_index b 12"
    using assms(4) by (simp_all add: vpn_eq_iff)
  show ?thesis
  proof (cases "\<exists>u<tables_used p. path u = vpath a")
    case True
    then show ?thesis
      using lookup_leaf [OF t] assms eq by fastforce
  next
    case False
    then show ?thesis
      using lookup_no_leaf [OF t, of a] lookup_no_leaf [OF t, of b] assms eq by auto
  qed
qed

lemma lookup_view:
  assumes "pt_inv p" "gv \<noteq> 0"
  shows "pt_lookup p gv = pt_view p (vpn gv)"
  using lookup_cong_vpn [OF assms view_addr_nz] vpn_of_view [OF vpn_less] vpn_less
  by (simp add: pt_view_def)

lemma view_eqI:
  assumes "\<And>gv. gv \<noteq> 0 \<Longrightarrow> pt_lookup p' gv = f (vpn gv)" and "\<And>v. \<not> v < 0x1000000000 \<Longrightarrow> f v = None"
  shows "pt_view p' = f"
proof
  fix v
  show "pt_view p' v = f v"
    using assms(1) [OF view_addr_nz, of v] assms(2) [of v] vpn_of_view [of v]
    by (cases "v < 0x1000000000") (simp_all add: pt_view_def)
qed

section \<open>Walks that create tables\<close>

lemma pt_ext_outside: "pt_ext path n p path' n' p' \<Longrightarrow> outside_same p p'"
  by (simp add: pt_ext_def outside_same_def)

text \<open>The tables a walk may have to create: none when a page of the same 2 MiB area is mapped, three otherwise.\<close>

definition tables_needed :: "pager \<Rightarrow> guestptr \<Rightarrow> nat" where
  "tables_needed p gv = (if \<exists>b. b \<noteq> 0 \<and> vpath b = vpath gv \<and> pt_view p (vpn b) \<noteq> None then 0 else 3)"

lemma tables_needed_le: "tables_needed p gv \<le> 3"
  by (simp add: tables_needed_def)

lemma tables_needed_leaf:
  assumes t: "pt_inv p" "pt_geom (tables_used p) p" "pt_tree path (tables_used p) p"
    and gv: "tables_needed p gv < 3"
  shows "\<exists>u<tables_used p. path u = vpath gv"
proof -
  obtain b where b: "b \<noteq> 0" "vpath b = vpath gv" "pt_view p (vpn b) \<noteq> None"
    using gv by (auto simp: tables_needed_def split: if_splits)
  then show ?thesis
    using lookup_no_leaf [OF t(2,3), of b] lookup_view [OF t(1) b(1)] by (metis option.distinct(1))
qed

lemma walk_create_spec:
  assumes inv: "pt_inv p" and room: "tables_used p + tables_needed p gv \<le> 4096" and gv: "gv \<noteq> 0"
  obtains p1 u path where
    "page_table_walk_create p gv opts = Inr (cell_addr p1 u (tbl_index gv 12), p1)"
    "pt_geom (tables_used p1) p1" "pt_tree path (tables_used p1) p1"
    "u < tables_used p1" "path u = vpath gv" "pt_lookup p1 = pt_lookup p"
    "pager_frame p1 = pager_frame p" "outside_same p p1"
    "tables_used p \<le> tables_used p1" "tables_used p1 \<le> tables_used p + tables_needed p gv"
proof -
  obtain path where t: "pt_geom (tables_used p) p" "pt_tree path (tables_used p) p"
    using inv by (rule pt_invE)
  have leaf: "(\<exists>u<tables_used p. path u = vpath gv) \<or> tables_needed p gv = 3"
    using tables_needed_leaf [OF inv t, of gv] by (auto simp: tables_needed_def)
  note gD = pt_geomD [OF t(1)]
  have root: "path 0 = []"
    using pt_pathsD(1) [OF pt_treeD(1) [OF t(2)]] .
  obtain p1 n1 path1 u where w:
      "walk_create_levels 3 39 p (host_pml4_p p) gv opts = Inr (Some (tbl_addr p u), p1)"
      "pt_geom n1 p1" "pt_tree path1 n1 p1" "pt_ext path (tables_used p) p path1 n1 p1" "n1 \<le> tables_used p + 3"
      "u < n1" "path1 u = vpath gv" "(\<exists>u<tables_used p. path u = vpath gv) \<longrightarrow> n1 = tables_used p"
    using walk_create_levels_tree [OF t gD(7), of 3 39 gv opts] root room leaf by (auto simp: vpath_def tbl_addr_0)
  have n1: "tables_used p1 = n1"
    by (rule tables_used_geom [OF w(2)])
  have "tbl_addr p1 u = tbl_addr p u"
    using pt_ext_fields(1) [OF w(4)] by (simp add: tbl_addr_def)
  then have "page_table_walk_create p gv opts = Inr (cell_addr p1 u (tbl_index gv 12), p1)"
    using gv gD(4) w(1) leaf_entry_addr [of p1 u gv] by (simp add: page_table_walk_create_def)
  moreover have "pt_lookup p1 = pt_lookup p"
    using lookup_ext [OF t(1) w(2) t(2) w(3,4)] by (rule ext)
  moreover have "tables_used p \<le> n1"
    using w(4) by (simp add: pt_ext_def)
  ultimately show ?thesis
    using that [of p1 u path1] w pt_ext_frame [OF w(4)] pt_ext_outside [OF w(4)] n1 leaf by auto
qed

section \<open>Writing one leaf entry\<close>

lemma view_write_leaf:
  assumes t: "pt_geom n p" "pt_tree path n p" and u: "u < n" "path u = vpath gv" and gv: "gv \<noteq> 0"
    and p': "p' = p\<lparr>pg_mem := write64 (pg_mem p) (cell_addr p u (tbl_index gv 12)) e\<rparr>"
  shows "pt_inv p'" and "tables_used p' = n" and "outside_same p p'" and "pager_frame p' = pager_frame p"
    and "pt_view p' = (pt_view p)(vpn gv := if present e then Some e else None)"
proof -
  have len: "length (path u) = 3"
    by (simp add: u(2) vpath_def)
  have tr: "pt_geom n p'" "pt_tree path n p'"
    using tree_write_leaf [OF t u(1) len, of "tbl_index gv 12" e] t(1) by (simp_all add: p')
  show "pt_inv p'" "tables_used p' = n"
    by (rule pt_invI [OF tr], rule tables_used_geom [OF tr(1)])
  have "u < 4096"
    using u(1) pt_geomD(8) [OF t(1)] by simp
  then show "outside_same p p'"
    by (simp add: outside_same_def p' write_cell_outside)
  show "pager_frame p' = pager_frame p"
    by (simp add: p')
  show "pt_view p' = (pt_view p)(vpn gv := if present e then Some e else None)"
  proof (rule view_eqI)
    fix gv' :: u64 assume nz: "gv' \<noteq> 0"
    show "pt_lookup p' gv' = ((pt_view p)(vpn gv := if present e then Some e else None)) (vpn gv')"
      using lookup_write_leaf [OF t u gv nz] lookup_view [OF pt_invI [OF t] nz] by (simp add: p')
  next
    fix v :: u64 assume "\<not> v < 0x1000000000"
    then show "((pt_view p)(vpn gv := if present e then Some e else None)) v = None"
      using vpn_less [of gv] by (auto simp: pt_view_def)
  qed
qed

lemma view_leaf:
  assumes t: "pt_geom n p" "pt_tree path n p" and u: "u < n" "path u = vpath gv" and gv: "gv \<noteq> 0"
  shows "pt_view p (vpn gv) =
    (if present (pte p u (tbl_index gv 12)) then Some (pte p u (tbl_index gv 12)) else None)"
  using lookup_leaf [OF t u gv] lookup_view [OF pt_invI [OF t] gv] by simp

lemma outside_same_trans:
  "outside_same p p1 \<Longrightarrow> outside_same p1 p2 \<Longrightarrow> host_pml4_p p1 = host_pml4_p p \<Longrightarrow> outside_same p p2"
  by (simp add: outside_same_def)


section \<open>Mapping and unmapping a page\<close>

lemma map_user_page_walk:
  assumes inv: "pt_inv p" and room: "tables_used p + tables_needed p gv \<le> 4096" and gv: "gv \<noteq> 0"
    and h: "h < host_pml4_p p \<or> host_pml4_p p + ELKVM_SYSTEM_MEMSIZE \<le> h"
    and off: "h AND ELKVM_PAGE_MASK = gv AND ELKVM_PAGE_MASK"
    and g: "host_to_guest_physical p h = g" "g \<noteq> 0"
  obtains err p' where "map_user_page p h gv opts = Inr (err, p')" "pt_inv p'"
    "err = (if \<exists>e. pt_view p (vpn gv) = Some e \<and> pte_addr e \<noteq> page_begin g then -1 else 0)"
    "pt_view p' = (if err = 0 then (pt_view p)(vpn gv \<mapsto> entry_value g opts) else pt_view p)"
    "pager_frame p' = pager_frame p" "outside_same p p'"
    "tables_used p \<le> tables_used p'" "tables_used p' \<le> tables_used p + tables_needed p gv"
proof -
  obtain p1 u path where w: "page_table_walk_create p gv opts = Inr (cell_addr p1 u (tbl_index gv 12), p1)"
    "pt_geom (tables_used p1) p1" "pt_tree path (tables_used p1) p1"
    "u < tables_used p1" "path u = vpath gv" "pt_lookup p1 = pt_lookup p"
    "pager_frame p1 = pager_frame p" "outside_same p p1"
    "tables_used p \<le> tables_used p1" "tables_used p1 \<le> tables_used p + tables_needed p gv"
    by (rule walk_create_spec [OF inv room gv])
  define i where "i = tbl_index gv 12"
  have nz: "cell_addr p1 u i \<noteq> 0"
    using cell_addr_nz [OF w(2), of u i] w(4) pt_geomD(8) [OF w(2)] by (simp add: i_def)
  have view1: "pt_view p1 = pt_view p"
    by (simp add: pt_view_def w(6) fun_eq_iff)
  have cond: "(entry_exists p1 (cell_addr p1 u i)
        \<and> read64 (pg_mem p1) (cell_addr p1 u i) AND 0x000FFFFFFFFFF000 \<noteq> g AND NOT 0xFFF)
      \<longleftrightarrow> (\<exists>e. pt_view p (vpn gv) = Some e \<and> pte_addr e \<noteq> page_begin g)"
    using view_leaf [OF w(2-5) gv] unfolding view1 entry_exists_present pte_def [symmetric] pte_addr_def page_begin_def
    by (simp add: i_def)
  show ?thesis
  proof (cases "\<exists>e. pt_view p (vpn gv) = Some e \<and> pte_addr e \<noteq> page_begin g")
    case True
    then have "map_user_page p h gv opts = Inr (-1, p1)"
      using gv h off g w(1) nz cond by (simp add: map_user_page_def i_def)
    then show ?thesis
      using that [of "-1" p1] True w pt_invI [OF w(2,3)] view1 by simp
  next
    case False
    define p' where "p' = create_entry p1 (cell_addr p1 u i) g opts"
    note leaf = view_write_leaf [OF w(2-5) gv, of p' "entry_value g opts"]
    have "map_user_page p h gv opts = Inr (0, p')"
      using gv h off g w(1) nz cond False by (simp add: map_user_page_def i_def p'_def)
    moreover have "outside_same p p'"
      using outside_same_trans [OF w(8) leaf(3)] pager_frame_eqD(1) [OF w(7)]
      by (simp add: p'_def create_entry_def i_def)
    ultimately show ?thesis
      using that [of 0 p'] False w leaf view1 by (simp add: p'_def create_entry_def i_def)
  qed
qed

lemma free_page_walk:
  assumes inv: "pt_inv p" and gv: "gv \<noteq> 0"
  obtains err p' where "free_page p gv = Inr (err, p')" "pt_inv p'"
    "err = (if pt_view p (vpn gv) = None then -1 else 0)"
    "pt_view p' = (pt_view p)(vpn gv := None)"
    "pager_frame p' = pager_frame p" "outside_same p p'" "tables_used p' = tables_used p"
proof -
  obtain path where t: "pt_geom (tables_used p) p" "pt_tree path (tables_used p) p"
    using inv by (rule pt_invE)
  show ?thesis
  proof (cases "pt_view p (vpn gv)")
    case None
    have "page_table_walk p gv = Inr 0"
    proof (cases "\<exists>u<tables_used p. path u = vpath gv")
      case True
      then obtain u where u: "u < tables_used p" "path u = vpath gv" by blast
      show ?thesis
        using walk_leaf [OF t u gv] view_leaf [OF t u gv] None by (simp split: if_splits)
    next
      case False
      then show ?thesis
        using walk_no_leaf [OF t _ gv] by blast
    qed
    then have "free_page p gv = Inr (-1, p)"
      by (simp add: free_page_def)
    then show ?thesis
      using that [of "-1" p] None inv by (simp add: outside_same_def fun_upd_idem)
  next
    case (Some e)
    then obtain u where u: "u < tables_used p" "path u = vpath gv"
      using lookup_no_leaf [OF t _ gv] lookup_view [OF inv gv] by (metis option.distinct(1))
    define i where "i = tbl_index gv 12"
    define p' where "p' = p\<lparr>pg_mem := write64 (pg_mem p) (cell_addr p u i) 0\<rparr>"
    note leaf = view_write_leaf [OF t u gv, of p' 0]
    have "present (pte p u i)"
      using view_leaf [OF t u gv] Some by (simp add: i_def split: if_splits)
    then have "page_table_walk p gv = Inr (cell_addr p u i)"
      using walk_leaf [OF t u gv] by (simp add: i_def)
    moreover have "cell_addr p u i \<noteq> 0"
      using cell_addr_nz [OF t(1), of u i] u pt_geomD(8) [OF t(1)] by (simp add: i_def)
    ultimately have "free_page p gv = Inr (0, p')"
      by (simp add: free_page_def p'_def)
    then show ?thesis
      using that [of 0 p'] Some leaf by (simp add: p'_def i_def present_def)
  qed
qed



section \<open>Building the tables\<close>

lemma read64_memset_region:
  assumes "unat (a - P) + 8 \<le> unat ELKVM_SYSTEM_MEMSIZE"
  shows "read64 (memset m P 0 ELKVM_SYSTEM_MEMSIZE) a = 0"
  using assms by (rule memset_zero_read64)

lemma set_pml4_spec:
  assumes inv: "chunks_inv p" and c: "chunks p = c # cs" and al: "page_aligned base"
    and room: "userspace_addr c \<le> base"
      "unat base + 0x1000000 \<le> unat (userspace_addr c) + unat (memory_size c)"
  obtains p' where "set_pml4 p base = Inr (ucast (base - userspace_addr c), p')" "pt_inv p'"
    "tables_used p' = 1" "pt_view p' = Map.empty" "chunks p' = chunks p" "chunks_inv p'"
    "host_pml4_p p' = base" "guest_next_free p' = KERNEL_SPACE_BOTTOM" "outside_same p' (p'\<lparr>pg_mem := pg_mem p\<rparr>)"
proof -
  define p' where "p' = p\<lparr>host_pml4_p := base, guest_next_free := KERNEL_SPACE_BOTTOM,
    pg_mem := memset (pg_mem p) base 0 ELKVM_SYSTEM_MEMSIZE,
    host_next_free_tbl_p := base + ELKVM_PAGESIZE\<rparr>"
  have ok: "chunk_ok c" and cs: "contiguous 0 (chunks p)"
    using inv by (simp_all add: chunks_inv_def c)
  have c0: "guest_phys_addr c = 0"
    using cs by (simp add: c unat_eq_0)
  have base: "base \<noteq> 0"
    using room(1) ok by (auto simp: chunk_ok_def)
  have "contains_address c base"
    unfolding contains_address_unat [OF ok] using room by (simp add: word_le_nat_alt)
  then have phys: "host_to_guest_physical (p\<lparr>host_pml4_p := base\<rparr>) base = base - userspace_addr c"
    by (simp add: host_to_guest_physical_def find_chunk_for_host_p_def c c0)
  have "ELKVM_SYSTEM_MEMSIZE \<le> memory_size c"
    using room by (simp add: word_le_nat_alt ELKVM_SYSTEM_MEMSIZE_def)
  then have run: "set_pml4 p base = Inr (ucast (base - userspace_addr c), p')"
    using phys base by (simp add: set_pml4_def create_page_tables_def c p'_def Let_def)
  have geom: "pt_geom 1 p'"
    using ok room al base c0 unfolding pt_geom_def Let_def chunk_ok_def
    by (simp add: p'_def c ELKVM_PAGESIZE_def)
  have zero: "pte p' 0 i = 0" if "i < 512" for i
  proof -
    have "unat (of_nat (8 * i) :: u64) = 8 * i"
      by (rule unat_of_nat_small) (use that in simp)
    then have "unat (cell_addr p' 0 i - base) + 8 \<le> unat ELKVM_SYSTEM_MEMSIZE"
      using that by (simp add: cell_addr_def p'_def ELKVM_SYSTEM_MEMSIZE_def)
    then show ?thesis
      by (simp add: pte_def p'_def read64_memset_region)
  qed
  have tree: "pt_tree (\<lambda>_. []) 1 p'"
    by (auto simp: pt_tree_def pt_paths_def pt_links_def zero present_def inj_on_def)
  have "pt_lookup p' gv = None" if "gv \<noteq> 0" for gv
    by (rule lookup_no_leaf [OF geom tree _ that]) (simp add: vpath_def numeral_3_eq_3)
  then have "pt_view p' = Map.empty"
    by (intro view_eqI) simp_all
  moreover have "chunks_inv p'"
    using inv by (simp add: chunks_inv_def slots_inv_def p'_def)
  moreover have "outside_same p' (p'\<lparr>pg_mem := pg_mem p\<rparr>)"
    by (simp add: outside_same_def p'_def memset_def word_less_nat_alt ELKVM_SYSTEM_MEMSIZE_def)
  ultimately show ?thesis
    using that [OF run pt_invI [OF geom tree] tables_used_geom [OF geom]] by (simp add: p'_def)
qed

end
