(* ===== verification/Translation.thy ===== *)
theory Translation
  imports Page_Map
begin

text \<open>
  Guest-virtual to host translation, \<^verbatim>\<open>PagerX86_64::get_host_p\<close>.  \<open>host_of\<close> is the translation the
  tables and chunks define; \<open>tlb_ok\<close> says the static TLB is coherent with it.  Translation works page by
  page, so the cache contract of \<open>translation_cache\<close> applies: \<^verbatim>\<open>get_host_p\<close> returns \<open>host_of\<close>.  Mapping
  pages keeps coherence; unmapping does not, since the code never invalidates the cache.
\<close>

section \<open>The translation of an address\<close>

definition host_of :: "pager \<Rightarrow> guestptr \<Rightarrow> hostptr" where
  "host_of p gv = (case walk_host_p p gv of Inl _ \<Rightarrow> 0 | Inr h \<Rightarrow> h)"

definition pager_ok :: "pager \<Rightarrow> bool" where
  "pager_ok p \<longleftrightarrow> chunks_inv p \<and> pt_inv p"

definition tlb_ok :: "pager \<Rightarrow> bool" where
  "tlb_ok p \<longleftrightarrow> tlbc.coherent (host_of p) (pg_tlb p)"

lemma walk_total:
  assumes inv: "pt_inv p" and gv: "gv \<noteq> 0"
  shows "\<exists>e. page_table_walk p gv = Inr e"
proof -
  obtain path where t: "pt_geom (tables_used p) p" "pt_tree path (tables_used p) p"
    using inv by (rule pt_invE)
  show ?thesis
    using walk_leaf [OF t _ _ gv] walk_no_leaf [OF t _ gv] by blast
qed

lemma walk_host_p_view:
  assumes inv: "pt_inv p" and gv: "gv \<noteq> 0"
  shows "walk_host_p p gv = Inr (case pt_view p (vpn gv) of
      None \<Rightarrow> 0 | Some e \<Rightarrow> phys_to_host p (pte_addr e OR (gv AND 0xFFF)))"
proof -
  obtain e where "page_table_walk p gv = Inr e"
    using walk_total [OF inv gv] by blast
  then show ?thesis
    using lookup_view [OF inv gv] by (auto simp: walk_host_p_def pt_lookup_def pte_addr_def split: if_splits option.splits)
qed

lemma host_of_view:
  assumes "pt_inv p" "gv \<noteq> 0"
  shows "host_of p gv = (case pt_view p (vpn gv) of
      None \<Rightarrow> 0 | Some e \<Rightarrow> phys_to_host p (pte_addr e OR (gv AND 0xFFF)))"
  using walk_host_p_view [OF assms] by (simp add: host_of_def)

lemma pte_addr_page_begin:
  assumes "unat g < 2 ^ 52"
  shows "pte_addr g = page_begin g"
proof -
  have "unat (page_begin g) < 2 ^ 52"
    using assms unfolding unat_page_begin by linarith
  then have "pte_addr (page_begin g) = page_begin g"
    by (intro pte_addr_of_small) auto
  moreover have "pte_addr (page_begin g) = pte_addr g"
    unfolding page_begin_def mask_12
    by (rule bit_word_eqI) (auto simp: bit_pte_addr bit_simps)
  ultimately show ?thesis by simp
qed

lemma page_aligned_pte_addr: "page_aligned (pte_addr e)"
  unfolding page_aligned_def mask_12 by (rule bit_word_eqI) (auto simp: bit_pte_addr bit_simps)

lemma page_begin_or_offset:
  assumes "page_aligned a"
  shows "a OR (b AND 0xFFF) = a + (b AND 0xFFF)"
  using page_or_offset [of a b] assms by simp

text \<open>All addresses of a guest-physical page lie in the same chunk.\<close>

lemma page_index_less: "r < 4096 \<Longrightarrow> 4096 * k + r < 4096 * m \<longleftrightarrow> k < (m :: nat)"
  by (cases "k < m") (auto simp: not_less dest: mult_le_mono2 [of _ _ 4096] Suc_leI)

lemma page_index_le: "r < 4096 \<Longrightarrow> 4096 * m \<le> 4096 * k + r \<longleftrightarrow> m \<le> (k :: nat)"
  using page_index_less [of r k m] by (simp add: not_less flip: not_le)

lemma contains_phys_page:
  assumes ok: "chunk_ok c" and al: "page_aligned g"
  shows "contains_phys_address c (g OR (b AND 0xFFF)) \<longleftrightarrow> contains_phys_address c g"
proof -
  obtain k i m where d: "unat g = 4096 * k" "unat (guest_phys_addr c) = 4096 * i" "unat (memory_size c) = 4096 * m"
    using ok al by (auto simp: chunk_ok_def page_aligned_iff elim!: dvdE)
  have r: "unat (b AND 0xFFF) < 4096"
    by (simp add: unat_page_offset)
  have "4096 * k < 4096 * 4503599627370496"
    using unat_less_power [of g] d by simp
  then have "unat g + unat (b AND 0xFFF) < 2 ^ 64"
    using r page_index_less [OF r, of k 4503599627370496] by (simp add: d)
  then have u: "unat (g OR (b AND 0xFFF)) = 4096 * k + unat (b AND 0xFFF)"
    unfolding page_begin_or_offset [OF al] by (simp add: unat_plus_if' d)
  show ?thesis
    unfolding contains_phys_address_unat [OF ok] u d
    using page_index_less [OF r, of k "i + m"] page_index_less [of 0 k "i + m"] page_index_le [OF r, of i k]
    by simp
qed


lemma phys_to_host_page:
  assumes inv: "chunks_inv p" and al: "page_aligned g"
  shows "phys_to_host p (g OR (b AND 0xFFF)) =
    (if \<exists>c \<in> set (chunks p). contains_phys_address c g then phys_to_host p g OR (b AND 0xFFF) else 0)"
    and "page_aligned (phys_to_host p g)"
proof -
  have *: "phys_to_host p (g OR (b AND 0xFFF)) = phys_to_host p g OR (b AND 0xFFF) \<and> page_aligned (phys_to_host p g)"
    if c: "c \<in> set (chunks p)" "contains_phys_address c g" for c
  proof -
    note ok = chunks_invD(1) [OF inv c(1)]
    have g: "phys_to_host p g = g - guest_phys_addr c + userspace_addr c"
      by (rule phys_to_host_in [OF inv c])
    then have pa: "page_aligned (phys_to_host p g)"
      using ok al by (auto simp: chunk_ok_def intro: page_aligned_add page_aligned_diff)
    have "phys_to_host p (g OR (b AND 0xFFF)) = (g OR (b AND 0xFFF)) - guest_phys_addr c + userspace_addr c"
      using phys_to_host_in [OF inv c(1)] contains_phys_page [OF ok al] c(2) by blast
    also have "\<dots> = phys_to_host p g + (b AND 0xFFF)"
      by (simp add: page_begin_or_offset [OF al] g)
    finally show ?thesis
      using page_begin_or_offset [OF pa] pa by simp
  qed
  have none: "phys_to_host p a = 0" if "\<And>c. c \<in> set (chunks p) \<Longrightarrow> \<not> contains_phys_address c a" for a
  proof -
    have "List.find (\<lambda>c. contains_phys_address c a) (chunks p) = None"
      using that by (simp add: find_None_iff)
    then show ?thesis
      by (simp add: phys_to_host_def)
  qed
  show "phys_to_host p (g OR (b AND 0xFFF)) =
    (if \<exists>c \<in> set (chunks p). contains_phys_address c g then phys_to_host p g OR (b AND 0xFFF) else 0)"
    using * none [of "g OR (b AND 0xFFF)"] contains_phys_page [OF chunks_invD(1) [OF inv] al] by auto
  show "page_aligned (phys_to_host p g)"
    using * none [of g] by (metis page_aligned_0)
qed

lemma vpn_page_begin: "page_begin a = page_begin b \<Longrightarrow> vpn a = vpn b"
proof -
  have "vpn x = vpn (page_begin x)" for x
    unfolding vpn_def page_begin_def mask_12 by (rule bit_word_eqI) (auto simp: bit_simps)
  then show "page_begin a = page_begin b \<Longrightarrow> vpn a = vpn b"
    by metis
qed

lemma page_begin_nz: "page_begin a \<noteq> 0 \<Longrightarrow> a \<noteq> 0"
  by (auto simp: page_begin_def)

lemma page_begin_plus:
  assumes "page_aligned a"
  shows "page_begin (a OR (b AND 0xFFF)) = a"
proof -
  have "a AND NOT (mask 12) = a"
    using assms unfolding page_aligned_def mask_12 .
  then show ?thesis
    unfolding page_begin_def mask_12 by (metis (no_types, lifting) and.assoc bit.conj_cancel_right bit.conj_disj_distrib2 or.right_neutral and_zero_eq)
qed

lemma host_of_paged:
  assumes ok: "pager_ok p"
  shows "tlbc.paged (host_of p)"
  unfolding tlbc.paged_def
proof (intro allI impI)
  fix a b
  assume nz: "page_begin a \<noteq> 0" and eq: "page_begin a = page_begin b" and hit: "host_of p a \<noteq> 0"
  have inv: "chunks_inv p" "pt_inv p"
    using ok by (simp_all add: pager_ok_def)
  have v: "vpn a = vpn b" "a \<noteq> 0" "b \<noteq> 0"
    using vpn_page_begin [OF eq] page_begin_nz nz eq by auto
  then obtain e where e: "pt_view p (vpn a) = Some e"
    using hit host_of_view [OF inv(2), of a] by (cases "pt_view p (vpn a)") auto
  have H: "host_of p x = phys_to_host p (pte_addr e OR (x AND 0xFFF))" if "x \<in> {a, b}" for x
    using that v e host_of_view [OF inv(2), of x] by auto
  note pp = phys_to_host_page [OF inv(1) page_aligned_pte_addr [of e]]
  have ex: "\<exists>c \<in> set (chunks p). contains_phys_address c (pte_addr e)"
    using hit H [of a] pp(1) by (auto split: if_splits)
  then have "host_of p x = phys_to_host p (pte_addr e) OR (x AND 0xFFF)" if "x \<in> {a, b}" for x
    using H [OF that] pp(1) by simp
  then show "host_of p b = page_begin (host_of p a) OR (b AND 0xFFF)"
    using page_begin_plus [OF pp(2)] by simp
qed



lemma host_of_pagedD:
  assumes "pager_ok p" "page_begin a \<noteq> 0" "page_begin b = page_begin a" "host_of p a \<noteq> 0"
  shows "host_of p b = page_begin (host_of p a) OR (b AND 0xFFF)"
  using host_of_paged [OF assms(1)] assms(2-) unfolding tlbc.paged_def by metis


section \<open>Address translation through the cache\<close>

lemma tlb_irrelevant [simp]:
  "pt_inv (p\<lparr>pg_tlb := t\<rparr>) = pt_inv p" "chunks_inv (p\<lparr>pg_tlb := t\<rparr>) = chunks_inv p"
  "walk_host_p (p\<lparr>pg_tlb := t\<rparr>) gv = walk_host_p p gv" "host_of (p\<lparr>pg_tlb := t\<rparr>) = host_of p"
  "pager_ok (p\<lparr>pg_tlb := t\<rparr>) = pager_ok p" "pt_view (p\<lparr>pg_tlb := t\<rparr>) = pt_view p"
  "tables_used (p\<lparr>pg_tlb := t\<rparr>) = tables_used p"
proof -
  have ee: "entry_exists (p\<lparr>pg_tlb := t\<rparr>) e = entry_exists p e"
    "find_next_table (p\<lparr>pg_tlb := t\<rparr>) e = find_next_table p e" for e
    by (simp_all add: find_next_table_def entry_exists_def split: list.split)
  have lv: "walk_levels k low (p\<lparr>pg_tlb := t\<rparr>) tb gv = walk_levels k low p tb gv" for k low tb gv
    by (induction k arbitrary: low tb) (simp_all add: Let_def ee)
  have w: "page_table_walk (p\<lparr>pg_tlb := t\<rparr>) gv = page_table_walk p gv" for gv
    by (simp add: page_table_walk_def lv ee Let_def cong: option.case_cong)
  show "pt_view (p\<lparr>pg_tlb := t\<rparr>) = pt_view p" "tables_used (p\<lparr>pg_tlb := t\<rparr>) = tables_used p"
    by (auto simp: fun_eq_iff pt_view_def pt_lookup_def w tables_used_def split: sum.split)
  show "walk_host_p (p\<lparr>pg_tlb := t\<rparr>) gv = walk_host_p p gv" for gv
    by (simp add: walk_host_p_def w phys_to_host_def cong: if_cong)
  then show "host_of (p\<lparr>pg_tlb := t\<rparr>) = host_of p"
    by (auto simp: host_of_def)
  have "pte (p\<lparr>pg_tlb := t\<rparr>) u i = pte p u i" "tbl_addr (p\<lparr>pg_tlb := t\<rparr>) u = tbl_addr p u"
    "next_tbl (p\<lparr>pg_tlb := t\<rparr>) e = next_tbl p e" for u i e
    by (simp_all add: pte_def cell_addr_def tbl_addr_def next_tbl_def)
  then show inv: "pt_inv (p\<lparr>pg_tlb := t\<rparr>) = pt_inv p"
    by (simp add: pt_inv_def tables_used_def pt_geom_def pt_tree_def pt_links_def)
  show ch: "chunks_inv (p\<lparr>pg_tlb := t\<rparr>) = chunks_inv p"
    by (simp add: chunks_inv_def slots_inv_def)
  show "pager_ok (p\<lparr>pg_tlb := t\<rparr>) = pager_ok p"
    by (simp add: pager_ok_def inv ch)
qed

lemma get_host_p_cached:
  assumes "pt_inv p" "gv \<noteq> 0"
  shows "get_host_p p gv = Inr (fst (tlbc.cached (host_of p) (pg_tlb p) gv),
      p\<lparr>pg_tlb := snd (tlbc.cached (host_of p) (pg_tlb p) gv)\<rparr>)"
proof -
  have "walk_host_p p gv = Inr (host_of p gv)"
    using walk_host_p_view [OF assms] by (simp add: host_of_def)
  then show ?thesis
    using assms(2) by (simp add: get_host_p_def tlbc.cached_def Let_def split: prod.split)
qed

lemma get_host_p_coherent:
  assumes "pager_ok p" "tlb_ok p" "page_begin gv \<noteq> 0"
  obtains p' where "get_host_p p gv = Inr (host_of p gv, p')" "pager_ok p'" "tlb_ok p'"
    "pager_frame p' = pager_frame (p\<lparr>pg_tlb := pg_tlb p'\<rparr>)" "pg_mem p' = pg_mem p" "host_of p' = host_of p"
proof -
  have inv: "pt_inv p" "gv \<noteq> 0"
    using assms page_begin_nz by (auto simp: pager_ok_def)
  note c = tlbc.cached_translation [OF host_of_paged [OF assms(1)] assms(2) [unfolded tlb_ok_def] assms(3)]
  show ?thesis
    using that [of "p\<lparr>pg_tlb := snd (tlbc.cached (host_of p) (pg_tlb p) gv)\<rparr>"] c assms(1)
      get_host_p_cached [OF inv]
    by (simp add: tlb_ok_def)
qed

text \<open>A translation found once is cached and survives the removal of the page from the tables.\<close>

lemma get_host_p_enters:
  assumes "pt_inv p" "gv \<noteq> 0" "get_host_p p gv = Inr (h, p1)" "h \<noteq> 0"
  shows "fst (TLB_find (pg_tlb p1) gv) = page_begin h OR (gv AND 0xFFF) \<or> fst (TLB_find (pg_tlb p1) gv) = h"
proof (cases "fst (TLB_find (pg_tlb p) gv) = 0")
  case True
  then have "pg_tlb p1 = TLB_set (snd (TLB_find (pg_tlb p) gv)) gv h"
    using assms get_host_p_cached [OF assms(1,2)]
    by (auto simp: tlbc.cached_def Let_def split_beta split: if_splits)
  then show ?thesis
    using tlbc.lookup_enter_same [of gv gv] by simp
next
  case False
  then have "pg_tlb p1 = snd (TLB_find (pg_tlb p) gv)" "h = fst (TLB_find (pg_tlb p) gv)"
    using assms get_host_p_cached [OF assms(1,2)]
    by (auto simp: tlbc.cached_def Let_def split_beta split: if_splits)
  then show ?thesis
    using tlbc.lookup_frame by simp
qed

lemma get_host_p_hit:
  assumes "gv \<noteq> 0" "fst (TLB_find (pg_tlb p) gv) = h" "h \<noteq> 0"
  shows "\<exists>p'. get_host_p p gv = Inr (h, p')"
  using assms by (auto simp: get_host_p_def Let_def split_beta)


section \<open>Mapping keeps translations, and is found by the next walk\<close>

lemma frame_to_guest:
  assumes "pager_frame p' = pager_frame p"
  shows "host_to_guest_physical p' = host_to_guest_physical p" "phys_to_host p' = phys_to_host p"
    "chunks_inv p' = chunks_inv p"
  using pager_frame_eqD [OF assms]
  by (auto simp: host_to_guest_physical_def find_chunk_for_host_p_def phys_to_host_def chunks_inv_def slots_inv_def
      split: option.split)

lemma map_then_walk:
  assumes inv: "chunks_inv p" "pt_inv p'" and frame: "pager_frame p' = pager_frame p"
    and c: "c \<in> set (chunks p)" "contains_address c h"
    and view: "pt_view p' (vpn gv) = Some (entry_value (host_to_guest_physical p h) opts)"
    and off: "h AND 0xFFF = gv AND 0xFFF" and gv: "gv \<noteq> 0"
  shows "host_of p' gv = h"
proof -
  define g where "g = host_to_guest_physical p h"
  have g: "unat g < 2 ^ 52" "g AND 0xFFF = gv AND 0xFFF"
    using host_to_guest_physical_in(4) [OF inv(1) c] host_page_offset [OF inv(1) c] off by (simp_all add: g_def)
  have "host_of p' gv = phys_to_host p' (pte_addr g OR (gv AND 0xFFF))"
    using host_of_view [OF inv(2) gv] view by (simp add: pte_addr_entry_value g_def)
  also have "pte_addr g OR (gv AND 0xFFF) = g"
    using page_or_offset [of g g] page_begin_plus_offset [of g] g by (simp add: pte_addr_page_begin)
  also have "phys_to_host p' g = h"
    using phys_to_host_roundtrip [OF inv(1) c] frame_to_guest(2) [OF frame] by (simp add: g_def)
  finally show ?thesis .
qed

lemma host_of_extend:
  assumes inv: "pt_inv p" "pt_inv p'" and frame: "pager_frame p' = pager_frame p"
    and view: "\<And>v e. pt_view p v = Some e \<Longrightarrow> \<exists>e'. pt_view p' v = Some e' \<and> pte_addr e' = pte_addr e"
    and hit: "host_of p gv \<noteq> 0"
  shows "host_of p' gv = host_of p gv"
proof -
  have gv: "gv \<noteq> 0"
    using hit by (auto simp: host_of_def walk_host_p_def page_table_walk_def)
  obtain e where e: "pt_view p (vpn gv) = Some e"
    using hit host_of_view [OF inv(1) gv] by (cases "pt_view p (vpn gv)") auto
  then show ?thesis
    using view [OF e] host_of_view [OF inv(1) gv] host_of_view [OF inv(2) gv] frame_to_guest(2) [OF frame] by auto
qed

end
