(* ===== verification/Region_Manager.thy ===== *)
theory Region_Manager
  imports Region Translation
begin

text \<open>
  The allocator of host memory for the guest, class \<^verbatim>\<open>RegionManager\<close> of \<^verbatim>\<open>src/src/region_manager.cc\<close>: the
  allocated regions, 17 segregated free lists and the pager that supplies chunks.  Regions are shared objects
  (\<^verbatim>\<open>shared_ptr<Region>\<close>) that lists, mappings and slices alias, so they live in a store \<open>rm_store\<close> indexed by
  object identity, and lists hold identities.  \<^verbatim>\<open>std::array::operator[]\<close> on the free lists is a function of the index.
\<close>

section \<open>Definitions\<close>

type_synonym rid = nat

record rmgr =
  rm_store :: "rid \<Rightarrow> region"
  rm_next :: rid
  allocated_regions :: "rid list"
  freelists :: "nat \<Rightarrow> rid list"
  rm_pager :: pager

definition n_freelists :: nat where "n_freelists = 17"

definition get_freelist_idx :: "u64 \<Rightarrow> nat" where
  "get_freelist_idx sz =
     (if sz \<le> 0x1000 then 0
      else if sz \<le> 0x2000 then 1
      else if sz \<le> 0x4000 then 2
      else if sz \<le> 0x8000 then 3
      else if sz \<le> 0x10000 then 4
      else if sz \<le> 0x20000 then 5
      else if sz \<le> 0x40000 then 6
      else if sz \<le> 0x80000 then 7
      else if sz \<le> 0x100000 then 8
      else if sz \<le> 0x200000 then 9
      else if sz \<le> 0x400000 then 10
      else if sz \<le> 0x800000 then 11
      else if sz \<le> 0x1000000 then 12
      else if sz \<le> 0x2000000 then 13
      else if sz \<le> 0x4000000 then 14
      else if sz \<le> 0x8000000 then 15
      else 16)"

text \<open>\<^verbatim>\<open>std::make_shared<Region>\<close>: a new object in the store.\<close>

definition make_region :: "rmgr \<Rightarrow> region \<Rightarrow> rid \<times> rmgr" where
  "make_region rm r = (rm_next rm, rm\<lparr>rm_store := (rm_store rm)(rm_next rm := r), rm_next := rm_next rm + 1\<rparr>)"

definition update_region :: "rmgr \<Rightarrow> rid \<Rightarrow> region \<Rightarrow> rmgr" where
  "update_region rm a r = rm\<lparr>rm_store := (rm_store rm)(a := r)\<rparr>"

definition push_free :: "rmgr \<Rightarrow> nat \<Rightarrow> rid \<Rightarrow> rmgr" where
  "push_free rm i a = rm\<lparr>freelists := (freelists rm)(i := freelists rm i @ [a])\<rparr>"

definition add_free_region :: "rmgr \<Rightarrow> rid \<Rightarrow> rmgr" where
  "add_free_region rm a = push_free rm (get_freelist_idx (reg_size (rm_store rm a))) a"

definition use_region :: "rmgr \<Rightarrow> rid \<Rightarrow> rmgr res" where
  "use_region rm a =
     bindE (assertE (reg_free (rm_store rm a))) (\<lambda>_.
     let rm1 = update_region rm a (set_used (rm_store rm a))
     in Inr (rm1\<lparr>allocated_regions := allocated_regions rm1 @ [a]\<rparr>))"

text \<open>The search of \<open>find_free_region\<close> through the lists \<open>i, i + 1, \<dots>\<close>, of which \<open>n\<close> are left.\<close>

primrec search_lists :: "nat \<Rightarrow> nat \<Rightarrow> rmgr \<Rightarrow> u64 \<Rightarrow> (nat \<times> rid) option" where
  "search_lists 0 i rm sz = None"
| "search_lists (Suc n) i rm sz =
     (case List.find (\<lambda>a. sz \<le> reg_size (rm_store rm a)) (freelists rm i) of
        Some a \<Rightarrow> Some (i, a)
      | None \<Rightarrow> search_lists n (i + 1) rm sz)"

definition find_free_region :: "rmgr \<Rightarrow> u64 \<Rightarrow> rid option \<times> rmgr" where
  "find_free_region rm sz =
     (let i = get_freelist_idx sz in
      case search_lists (n_freelists - i) i rm sz of
        None \<Rightarrow> (None, rm)
      | Some (j, a) \<Rightarrow> (Some a, rm\<lparr>freelists := (freelists rm)(j := remove1 a (freelists rm j))\<rparr>))"

definition find_region :: "rmgr \<Rightarrow> hostptr \<Rightarrow> rid option" where
  "find_region rm host_p = List.find (\<lambda>a. region_contains (rm_store rm a) host_p) (allocated_regions rm)"

definition find_region_guest :: "rmgr \<Rightarrow> guestptr \<Rightarrow> rid option" where
  "find_region_guest rm addr =
     List.find (\<lambda>a. region_contains_guest (rm_store rm a) addr) (allocated_regions rm)"

definition grow_size :: "u64 \<Rightarrow> u64" where
  "grow_size sz = (if ELKVM_SYSTEM_MEMGROW < sz then pagesize_align sz else ELKVM_SYSTEM_MEMGROW)"

definition add_chunk :: "memalign \<Rightarrow> kvm_set_region \<Rightarrow> rmgr \<Rightarrow> u64 \<Rightarrow> string \<Rightarrow> (int \<times> rmgr) res" where
  "add_chunk am ioctl rm sz purpose =
     bindE (create_mem_chunk am ioctl (rm_pager rm) (grow_size sz)) (\<lambda>(err, chunk_p, pager1).
     let rm1 = rm\<lparr>rm_pager := pager1\<rparr> in
     if err \<noteq> 0 then Inr (err, rm1)
     else
       let (a, rm2) = make_region rm1 (Region chunk_p (grow_size sz) purpose)
       in Inr (0, push_free rm2 (get_freelist_idx (grow_size sz)) a))"

text \<open>The second half of \<open>allocate_region\<close>, once a large enough free region \<open>a\<close> is off its list.\<close>

definition carve_region :: "rmgr \<Rightarrow> rid \<Rightarrow> u64 \<Rightarrow> string \<Rightarrow> (rid \<times> rmgr) res" where
  "carve_region rm a sz purpose =
     bindE (if pagesize_align sz < reg_size (rm_store rm a)
            then bindE (slice_begin (rm_store rm a) sz purpose) (\<lambda>(new, rest).
                 let rm1 = update_region rm a rest;
                     (b, rm2) = make_region rm1 new
                 in Inr (b, add_free_region rm2 a))
            else Inr (a, rm)) (\<lambda>(b, rm3).
     bindE (use_region rm3 b) (\<lambda>rm4.
     bindE (assertE (sz \<le> reg_size (rm_store rm4 b))) (\<lambda>_.
     Inr (b, rm4))))"

definition allocate_region ::
  "memalign \<Rightarrow> kvm_set_region \<Rightarrow> rmgr \<Rightarrow> u64 \<Rightarrow> string \<Rightarrow> (rid \<times> rmgr) res" where
  "allocate_region am ioctl rm sz purpose =
     (let (r, rm1) = find_free_region rm sz in
      bindE (case r of
               Some a \<Rightarrow> Inr (a, rm1)
             | None \<Rightarrow>
                 bindE (add_chunk am ioctl rm1 sz purpose) (\<lambda>(err, rm2).
                 bindE (assertE (err = 0)) (\<lambda>_.
                 let (r2, rm3) = find_free_region rm2 sz in
                 case r2 of None \<Rightarrow> Inl Abort | Some a \<Rightarrow> Inr (a, rm3)))) (\<lambda>(a, rm4).
      carve_region rm4 a sz purpose))"

definition RegionManager :: "memalign \<Rightarrow> kvm_set_region \<Rightarrow> int \<Rightarrow> memory \<Rightarrow> tlb \<Rightarrow> rmgr res" where
  "RegionManager am ioctl fd m t =
     bindE (PagerX86_64 fd m t) (\<lambda>pager0.
     let rm0 = \<lparr>rm_store = (\<lambda>_. Region 0 0 ''''), rm_next = 0, allocated_regions = [],
                freelists = (\<lambda>_. []), rm_pager = pager0\<rparr> in
     bindE (allocate_region am ioctl rm0 ELKVM_PAGER_MEMSIZE ''ELKVM Pager Memory'') (\<lambda>(a, rm1).
     bindE (set_pml4 (rm_pager rm1) (reg_host_p (rm_store rm1 a))) (\<lambda>(_, pager2).
     Inr (rm1\<lparr>rm_pager := pager2\<rparr>))))"

text \<open>\<^verbatim>\<open>free_region(r)\<close> finds the object by identity; \<^verbatim>\<open>free_region(host_p, sz)\<close> by address.\<close>

definition free_region :: "rmgr \<Rightarrow> rid \<Rightarrow> rmgr res" where
  "free_region rm a =
     bindE (assertE (a \<in> set (allocated_regions rm))) (\<lambda>_.
     let rm1 = rm\<lparr>allocated_regions := remove1 a (allocated_regions rm)\<rparr>;
         rm2 = update_region rm1 a (set_free (rm_store rm1 a))
     in Inr (push_free rm2 (get_freelist_idx (reg_size (rm_store rm2 a))) a))"

definition free_region_at :: "rmgr \<Rightarrow> hostptr \<Rightarrow> u64 \<Rightarrow> rmgr res" where
  "free_region_at rm host_p sz =
     (case find_region rm host_p of
        None \<Rightarrow> Inl Abort
      | Some a \<Rightarrow>
          bindE (assertE (region_contains (rm_store rm a) host_p)) (\<lambda>_.
          bindE (assertE (reg_size (rm_store rm a) = sz)) (\<lambda>_.
          let rm1 = update_region rm a (set_free (rm_store rm a));
              rm2 = push_free rm1 (get_freelist_idx sz) a
          in Inr (rm2\<lparr>allocated_regions := remove1 a (allocated_regions rm2)\<rparr>))))"

definition host_address_mapped :: "rmgr \<Rightarrow> hostptr \<Rightarrow> bool" where
  "host_address_mapped rm p = list_ex (\<lambda>a. region_contains (rm_store rm a) p) (allocated_regions rm)"

definition same_region :: "rmgr \<Rightarrow> hostptr \<Rightarrow> hostptr \<Rightarrow> bool res" where
  "same_region rm p1 p2 =
     (case find_region rm p1 of
        None \<Rightarrow> Inl Fault
      | Some a \<Rightarrow> Inr (region_contains (rm_store rm a) p2))"


section \<open>Invariant\<close>

definition free_ids :: "rmgr \<Rightarrow> rid set" where
  "free_ids rm = (\<Union>i<n_freelists. set (freelists rm i))"

definition live_ids :: "rmgr \<Rightarrow> rid set" where
  "live_ids rm = set (allocated_regions rm) \<union> free_ids rm"

definition in_chunk :: "chunk list \<Rightarrow> region \<Rightarrow> bool" where
  "in_chunk cs r \<longleftrightarrow> (\<exists>c \<in> set cs. reg_bytes r \<subseteq>
     {unat (userspace_addr c)..<unat (userspace_addr c) + unat (memory_size c)})"

text \<open>The regions \<open>S\<close> tile the chunks: they are well formed, lie in chunks, do not overlap, and together have the
  size of all chunks.\<close>

definition tiles :: "chunk list \<Rightarrow> (rid \<Rightarrow> region) \<Rightarrow> rid set \<Rightarrow> bool" where
  "tiles cs store S \<longleftrightarrow> finite S \<and> (\<forall>a \<in> S. region_wf (store a) \<and> in_chunk cs (store a))
     \<and> (\<forall>a \<in> S. \<forall>b \<in> S. a \<noteq> b \<longrightarrow> reg_bytes (store a) \<inter> reg_bytes (store b) = {})
     \<and> (\<Sum>a \<in> S. unat (reg_size (store a))) = chunks_size cs"

definition lists_ok :: "rmgr \<Rightarrow> bool" where
  "lists_ok rm \<longleftrightarrow> distinct (allocated_regions rm)
     \<and> (\<forall>a \<in> set (allocated_regions rm). \<not> reg_free (rm_store rm a))
     \<and> (\<forall>i<n_freelists. distinct (freelists rm i)
          \<and> (\<forall>a \<in> set (freelists rm i). reg_free (rm_store rm a) \<and> get_freelist_idx (reg_size (rm_store rm a)) = i))
     \<and> (\<forall>a \<in> live_ids rm. a < rm_next rm)"

definition rm_inv :: "rmgr \<Rightarrow> bool" where
  "rm_inv rm \<longleftrightarrow> chunks_inv (rm_pager rm) \<and> lists_ok rm
     \<and> tiles (chunks (rm_pager rm)) (rm_store rm) (live_ids rm)"

end
