(* ===== verification/Region_Alloc.thy ===== *)
theory Region_Alloc
  imports Region_Manager
begin

text \<open>
  Correctness of the region allocator: the free-list search finds a free region that is large enough whenever one
  exists, and carving an allocation out of it keeps the invariant \<open>rm_inv\<close> of \<^verbatim>\<open>Region_Manager\<close>.
\<close>


section \<open>Searching the free lists\<close>

lemma get_freelist_idx_less [simp]: "get_freelist_idx sz < n_freelists"
  by (simp add: get_freelist_idx_def n_freelists_def)

text \<open>The list index counts the size classes below the size.\<close>

definition size_classes :: "nat list" where
  "size_classes = map (\<lambda>k. 0x1000 * 2 ^ k) [0..<16]"

lemma get_freelist_idx_count: "get_freelist_idx sz = length (filter (\<lambda>t. t < unat sz) size_classes)"
  unfolding get_freelist_idx_def size_classes_def word_le_nat_alt by (simp add: upt_rec not_le)

lemma length_filter_mono: "(\<And>x. P x \<Longrightarrow> Q x) \<Longrightarrow> length (filter P xs) \<le> length (filter Q xs)"
  by (induction xs) (auto simp: le_SucI)

lemma get_freelist_idx_mono: "a \<le> b \<Longrightarrow> get_freelist_idx a \<le> get_freelist_idx b"
  unfolding get_freelist_idx_count word_le_nat_alt by (rule length_filter_mono) simp

lemma search_lists_Some:
  "search_lists n i rm sz = Some (j, a) \<Longrightarrow>
     i \<le> j \<and> j < i + n \<and> a \<in> set (freelists rm j) \<and> sz \<le> reg_size (rm_store rm a)"
  by (induction n arbitrary: i) (auto simp: find_Some_iff split: option.splits, fastforce+)

lemma search_lists_None:
  "search_lists n i rm sz = None \<Longrightarrow> i \<le> j \<Longrightarrow> j < i + n \<Longrightarrow> a \<in> set (freelists rm j) \<Longrightarrow>
     \<not> sz \<le> reg_size (rm_store rm a)"
proof (induction n arbitrary: i)
  case (Suc n)
  then show ?case
    by (cases "j = i") (auto simp: find_None_iff split: option.splits)
qed simp

lemma lists_okD:
  assumes "lists_ok rm"
  shows "distinct (allocated_regions rm)" "\<And>a. a \<in> set (allocated_regions rm) \<Longrightarrow> \<not> reg_free (rm_store rm a)"
    "\<And>i. i < n_freelists \<Longrightarrow> distinct (freelists rm i)"
    "\<And>i a. i < n_freelists \<Longrightarrow> a \<in> set (freelists rm i) \<Longrightarrow> reg_free (rm_store rm a)"
    "\<And>i a. i < n_freelists \<Longrightarrow> a \<in> set (freelists rm i) \<Longrightarrow> get_freelist_idx (reg_size (rm_store rm a)) = i"
    "\<And>a. a \<in> live_ids rm \<Longrightarrow> a < rm_next rm"
  using assms by (simp_all add: lists_ok_def)

lemma lists_okI:
  assumes "distinct (allocated_regions rm)" "\<And>a. a \<in> set (allocated_regions rm) \<Longrightarrow> \<not> reg_free (rm_store rm a)"
    "\<And>i. i < n_freelists \<Longrightarrow> distinct (freelists rm i)"
    "\<And>i a. i < n_freelists \<Longrightarrow> a \<in> set (freelists rm i) \<Longrightarrow>
       reg_free (rm_store rm a) \<and> get_freelist_idx (reg_size (rm_store rm a)) = i"
    "\<And>a. a \<in> live_ids rm \<Longrightarrow> a < rm_next rm"
  shows "lists_ok rm"
  using assms by (simp add: lists_ok_def)

lemma free_idsE:
  assumes "a \<in> free_ids rm"
  obtains i where "i < n_freelists" "a \<in> set (freelists rm i)"
  using assms by (auto simp: free_ids_def)

lemma free_ids_free: "lists_ok rm \<Longrightarrow> a \<in> free_ids rm \<Longrightarrow> reg_free (rm_store rm a)"
  by (erule free_idsE) (rule lists_okD(4))

text \<open>State with region \<open>a\<close> taken off its list and owned by the caller.\<close>

definition rm_holds :: "rmgr \<Rightarrow> rid \<Rightarrow> bool" where
  "rm_holds rm a \<longleftrightarrow> chunks_inv (rm_pager rm) \<and> lists_ok rm \<and> a \<notin> live_ids rm \<and> a < rm_next rm
     \<and> reg_free (rm_store rm a) \<and> tiles (chunks (rm_pager rm)) (rm_store rm) (insert a (live_ids rm))"

lemma find_free_region_Some:
  assumes inv: "rm_inv rm" and run: "find_free_region rm sz = (Some a, rm')"
  shows "rm_holds rm' a" "sz \<le> reg_size (rm_store rm a)" "a \<in> free_ids rm"
    "insert a (live_ids rm') = live_ids rm" "rm_store rm' = rm_store rm" "rm_pager rm' = rm_pager rm"
    "allocated_regions rm' = allocated_regions rm" "rm_next rm' = rm_next rm" "free_ids rm' = free_ids rm - {a}"
proof -
  obtain j where s: "search_lists (n_freelists - get_freelist_idx sz) (get_freelist_idx sz) rm sz = Some (j, a)"
      "rm' = rm\<lparr>freelists := (freelists rm)(j := remove1 a (freelists rm j))\<rparr>"
    using run by (auto simp: find_free_region_def Let_def split: option.splits prod.splits)
  then have j: "j < n_freelists" "a \<in> set (freelists rm j)"
    using search_lists_Some [OF s(1)] get_freelist_idx_less [of sz] by auto
  show sz: "sz \<le> reg_size (rm_store rm a)" and fr: "a \<in> free_ids rm"
    using search_lists_Some [OF s(1)] j by (auto simp: free_ids_def)
  have lo: "lists_ok rm"
    using inv by (simp add: rm_inv_def)
  note loD = lists_okD [OF lo]
  have one: "a \<notin> set (freelists rm i)" if "i < n_freelists" "i \<noteq> j" for i
    using loD(5) [OF that(1), of a] loD(5) [OF j] that(2) by auto
  have free': "free_ids rm' = free_ids rm - {a}"
    using one j(1) loD(3) [OF j(1)] by (auto simp: free_ids_def s(2) split: if_splits)
  have al: "a \<notin> set (allocated_regions rm)"
    using loD(2) [of a] loD(4) [OF j] by blast
  have live: "insert a (live_ids rm') = live_ids rm" "a \<notin> live_ids rm'"
    using free' fr al by (auto simp: live_ids_def s(2))
  have "lists_ok rm'"
  proof (rule lists_okI)
    fix x assume "x \<in> live_ids rm'"
    then show "x < rm_next rm'"
      using live(1) loD(6) [of x] by (auto simp: s(2))
  qed (use loD in \<open>auto simp: s(2) dest: notin_set_remove1 split: if_splits\<close>)
  moreover have "a < rm_next rm"
    using loD(6) [of a] fr by (simp add: live_ids_def)
  ultimately show "rm_holds rm' a"
    using inv live free_ids_free [OF lo fr] unfolding rm_holds_def rm_inv_def by (simp add: s(2))
  show "insert a (live_ids rm') = live_ids rm" "rm_store rm' = rm_store rm" "rm_pager rm' = rm_pager rm"
    "allocated_regions rm' = allocated_regions rm" "rm_next rm' = rm_next rm" "free_ids rm' = free_ids rm - {a}"
    using live free' by (simp_all add: s(2))
qed

lemma find_free_region_None:
  assumes lo: "lists_ok rm" and run: "find_free_region rm sz = (None, rm')" and a: "a \<in> free_ids rm"
  shows "\<not> sz \<le> reg_size (rm_store rm a)"
proof
  assume le: "sz \<le> reg_size (rm_store rm a)"
  obtain j where j: "j < n_freelists" "a \<in> set (freelists rm j)"
    using a by (auto simp: free_ids_def)
  then have "get_freelist_idx (reg_size (rm_store rm a)) = j"
    using lo unfolding lists_ok_def by blast
  then have "get_freelist_idx sz \<le> j"
    using get_freelist_idx_mono [OF le] by simp
  moreover have "search_lists (n_freelists - get_freelist_idx sz) (get_freelist_idx sz) rm sz = None"
    using run by (auto simp: find_free_region_def Let_def split: option.splits prod.splits)
  ultimately show False
    using search_lists_None [of "n_freelists - get_freelist_idx sz" "get_freelist_idx sz" rm sz j a] j le by simp
qed



section \<open>Tilings\<close>

lemma tilesD:
  assumes "tiles cs store S"
  shows "finite S" "\<And>a. a \<in> S \<Longrightarrow> region_wf (store a)" "\<And>a. a \<in> S \<Longrightarrow> in_chunk cs (store a)"
    "\<And>a b. a \<in> S \<Longrightarrow> b \<in> S \<Longrightarrow> a \<noteq> b \<Longrightarrow> reg_bytes (store a) \<inter> reg_bytes (store b) = {}"
    "(\<Sum>a \<in> S. unat (reg_size (store a))) = chunks_size cs"
  using assms by (simp_all add: tiles_def)

lemma tiles_cong:
  assumes t: "tiles cs store S"
    and eq: "\<And>a. a \<in> S \<Longrightarrow> reg_host_p (store' a) = reg_host_p (store a) \<and> reg_size (store' a) = reg_size (store a)"
  shows "tiles cs store' S"
proof -
  have "reg_bytes (store' a) = reg_bytes (store a) \<and> region_wf (store' a) = region_wf (store a)" if "a \<in> S" for a
    using eq [OF that] by (simp add: reg_bytes_def region_wf_def)
  then show ?thesis
    using tilesD [OF t] eq unfolding tiles_def in_chunk_def by (simp cong: sum.cong)
qed

lemma tiles_split:
  assumes t: "tiles cs store S" and a: "a \<in> S" and b: "b \<notin> S"
    and wf: "region_wf new" "region_wf rest"
    and part: "reg_bytes new \<union> reg_bytes rest = reg_bytes (store a)" "reg_bytes new \<inter> reg_bytes rest = {}"
  shows "tiles cs (store(a := rest, b := new)) (insert b S)"
proof -
  note tD = tilesD [OF t]
  let ?st = "store(a := rest, b := new)"
  have sub: "reg_bytes new \<subseteq> reg_bytes (store a)" "reg_bytes rest \<subseteq> reg_bytes (store a)"
    using part(1) by blast+
  then have inc: "in_chunk cs new" "in_chunk cs rest"
    using tD(3) [OF a] unfolding in_chunk_def by blast+
  have sizes: "unat (reg_size new) + unat (reg_size rest) = unat (reg_size (store a))"
    using card_Un_disjoint [of "reg_bytes new" "reg_bytes rest"] part by (simp add: card_reg_bytes)
  have ab: "a \<noteq> b"
    using a b by blast
  have "(\<Sum>x \<in> S. unat (reg_size (?st x))) + unat (reg_size (store a)) =
      (\<Sum>x \<in> S. unat (reg_size (store x))) + unat (reg_size rest)"
  proof -
    have "(\<Sum>x \<in> S - {a}. unat (reg_size (?st x))) = (\<Sum>x \<in> S - {a}. unat (reg_size (store x)))"
      using b by (intro sum.cong) auto
    then show ?thesis
      using ab by (simp add: sum.remove [OF tD(1) a])
  qed
  then have sum: "(\<Sum>x \<in> insert b S. unat (reg_size (?st x))) = chunks_size cs"
    using tD(1,5) b sizes by simp
  have dis: "reg_bytes (?st x) \<inter> reg_bytes (?st y) = {}" if "x \<in> insert b S" "y \<in> insert b S" "x \<noteq> y" for x y
    using that tD(4) [of x y] tD(4) [of a x] tD(4) [of a y] a ab part sub by (auto simp: disjoint_iff)
  show ?thesis
    unfolding tiles_def using tD(1-3) wf inc sum dis by auto
qed

lemma tiles_add_chunk:
  assumes t: "tiles cs store S" and b: "b \<notin> S" and wf: "region_wf r"
    and c: "reg_host_p r = userspace_addr c" "reg_size r = memory_size c"
    and apart: "\<And>d. d \<in> set cs \<Longrightarrow> chunks_apart d c"
  shows "tiles (cs @ [c]) (store(b := r)) (insert b S)"
proof -
  note tD = tilesD [OF t]
  have rb: "reg_bytes r = {unat (userspace_addr c)..<unat (userspace_addr c) + unat (memory_size c)}"
    by (simp add: reg_bytes_def c)
  have dis: "reg_bytes (store x) \<inter> reg_bytes r = {}" if x: "x \<in> S" for x
  proof -
    obtain d where d: "d \<in> set cs" "reg_bytes (store x) \<subseteq> {unat (userspace_addr d)..<unat (userspace_addr d) + unat (memory_size d)}"
      using tD(3) [OF x] by (auto simp: in_chunk_def)
    show ?thesis
      using d(2) apart [OF d(1)] unfolding rb host_disjoint_def by fastforce
  qed
  have inc: "in_chunk (cs @ [c]) (store x)" if "x \<in> S" for x
    using tD(3) [OF that] by (auto simp: in_chunk_def)
  have "in_chunk (cs @ [c]) r"
    unfolding in_chunk_def rb by simp
  moreover have "(\<Sum>x \<in> S. unat (reg_size ((store(b := r)) x))) = (\<Sum>x \<in> S. unat (reg_size (store x)))"
    using b by (intro sum.cong) auto
  ultimately show ?thesis
    unfolding tiles_def using tD inc dis wf b c by (auto simp: Int_commute)
qed


section \<open>Carving a region out of a free one\<close>

lemma aligned_top:
  assumes "page_aligned s"
  shows "unat s \<le> 2 ^ 64 - 4096"
proof -
  obtain k where k: "unat s = 4096 * k"
    using assms by (auto simp: page_aligned_iff elim: dvdE)
  moreover have "k < 4503599627370496"
    using unat_less_power [of s] k by simp
  ultimately show ?thesis by simp
qed

lemma pagesize_align_le:
  assumes "page_aligned s" "sz \<le> s"
  shows "pagesize_align sz \<le> s"
proof -
  obtain k where k: "unat s = 4096 * k"
    using assms by (auto simp: page_aligned_iff elim: dvdE)
  have "unat sz \<le> 2 ^ 64 - 4096"
    using aligned_top [OF assms(1)] assms(2) by (simp add: word_le_nat_alt)
  then have "unat (pagesize_align sz) = (unat sz + 4095) div 4096 * 4096"
    by (rule unat_pagesize_align)
  also have "\<dots> \<le> (4096 * k + 4095) div 4096 * 4096"
    using assms(2) k by (intro mult_le_mono1 div_le_mono) (simp add: word_le_nat_alt)
  finally show ?thesis
    using k by (simp add: word_le_nat_alt)
qed


lemma rm_holdsD:
  assumes "rm_holds rm a"
  shows "chunks_inv (rm_pager rm)" "lists_ok rm" "a \<notin> live_ids rm" "a < rm_next rm" "reg_free (rm_store rm a)"
    "tiles (chunks (rm_pager rm)) (rm_store rm) (insert a (live_ids rm))" "region_wf (rm_store rm a)"
  using assms by (simp_all add: rm_holds_def tiles_def)

text \<open>Handing the held region to the allocated list.\<close>

lemma use_region_holds:
  assumes h: "rm_holds rm a"
  obtains rm' where "use_region rm a = Inr rm'" "rm_inv rm'" "allocated_regions rm' = allocated_regions rm @ [a]"
    "rm_store rm' = (rm_store rm)(a := set_used (rm_store rm a))" "rm_pager rm' = rm_pager rm"
    "freelists rm' = freelists rm" "rm_next rm' = rm_next rm" "live_ids rm' = insert a (live_ids rm)"
proof -
  note hD = rm_holdsD [OF h]
  note loD = lists_okD [OF hD(2)]
  define rm' where "rm' = rm\<lparr>rm_store := (rm_store rm)(a := set_used (rm_store rm a)),
    allocated_regions := allocated_regions rm @ [a]\<rparr>"
  have live: "live_ids rm' = insert a (live_ids rm)"
    by (auto simp: live_ids_def free_ids_def rm'_def)
  have na: "a \<notin> set (allocated_regions rm)" "i < n_freelists \<Longrightarrow> a \<notin> set (freelists rm i)" for i
    using hD(3) by (auto simp: live_ids_def free_ids_def)
  have "lists_ok rm'"
  proof (rule lists_okI)
    fix x assume "x \<in> live_ids rm'"
    then show "x < rm_next rm'"
      using loD(6) [of x] hD(4) live by (auto simp: rm'_def)
  qed (use loD na in \<open>auto simp: rm'_def\<close>)
  moreover have "tiles (chunks (rm_pager rm')) (rm_store rm') (live_ids rm')"
    unfolding live using tiles_cong [OF hD(6), of "rm_store rm'"] by (simp add: rm'_def)
  ultimately have "rm_inv rm'"
    using hD(1) by (simp add: rm_inv_def rm'_def)
  moreover have "use_region rm a = Inr rm'"
    using hD(5) by (simp add: use_region_def update_region_def rm'_def Let_def)
  ultimately show ?thesis
    using that [of rm'] live by (simp add: rm'_def)
qed

lemma free_ids_push: "i < n_freelists \<Longrightarrow> free_ids (push_free rm i a) = insert a (free_ids rm)"
  unfolding free_ids_def push_free_def by (auto split: if_splits intro!: bexI [of _ i])

text \<open>Putting the rest of a split region back on its list while holding the new part.\<close>

lemma split_holds:
  assumes h: "rm_holds rm a" and wf: "region_wf new" "region_wf rest" "reg_free new" "reg_free rest"
    and part: "reg_bytes new \<union> reg_bytes rest = reg_bytes (rm_store rm a)" "reg_bytes new \<inter> reg_bytes rest = {}"
    and rm': "rm' = push_free (rm\<lparr>rm_store := (rm_store rm)(a := rest, rm_next rm := new), rm_next := rm_next rm + 1\<rparr>)
        (get_freelist_idx (reg_size rest)) a"
  shows "rm_holds rm' (rm_next rm)" and "live_ids rm' = insert a (live_ids rm)"
proof -
  note hD = rm_holdsD [OF h]
  note loD = lists_okD [OF hD(2)]
  define i where "i = get_freelist_idx (reg_size rest)"
  have i: "i < n_freelists"
    by (simp add: i_def)
  have free: "free_ids rm' = insert a (free_ids rm)"
    using free_ids_push [OF i] by (simp add: rm' i_def free_ids_def)
  then show live: "live_ids rm' = insert a (live_ids rm)"
    by (auto simp: live_ids_def rm' push_free_def)
  have old: "x \<noteq> rm_next rm" if "x \<in> live_ids rm" for x
    using loD(6) [OF that] by simp
  have na: "a \<notin> set (allocated_regions rm)" "j < n_freelists \<Longrightarrow> a \<notin> set (freelists rm j)" for j
    using hD(3) by (auto simp: live_ids_def free_ids_def)
  have nn: "x \<in> set (allocated_regions rm) \<Longrightarrow> x \<noteq> rm_next rm" "j < n_freelists \<Longrightarrow> x \<in> set (freelists rm j) \<Longrightarrow> x \<noteq> rm_next rm" for x j
    using old by (auto simp: live_ids_def free_ids_def)
  have an: "a \<noteq> rm_next rm"
    using hD(4) by simp
  have "lists_ok rm'"
  proof (rule lists_okI)
    fix x assume "x \<in> live_ids rm'"
    then show "x < rm_next rm'"
      using loD(6) [of x] hD(4) live by (auto simp: rm' push_free_def)
  next
    fix x assume "x \<in> set (allocated_regions rm')"
    then show "\<not> reg_free (rm_store rm' x)"
      using loD(2) na(1) nn(1) by (auto simp: rm' push_free_def)
  next
    fix j x assume "j < n_freelists" "x \<in> set (freelists rm' j)"
    then show "reg_free (rm_store rm' x) \<and> get_freelist_idx (reg_size (rm_store rm' x)) = j"
      using loD(4,5) [of j x] na(2) nn(2) an wf(4) by (auto simp: rm' push_free_def i_def [symmetric] split: if_splits)
  qed (use loD na in \<open>auto simp: rm' push_free_def i_def [symmetric]\<close>)
  moreover have "tiles (chunks (rm_pager rm)) ((rm_store rm)(a := rest, rm_next rm := new)) (insert (rm_next rm) (insert a (live_ids rm)))"
    by (rule tiles_split [OF hD(6) _ _ wf(1,2) part]) (use old an in auto)
  ultimately show "rm_holds rm' (rm_next rm)"
    using hD(1,4) wf(3) old an live unfolding rm_holds_def by (auto simp: rm' push_free_def)
qed

lemma carve_region_spec:
  assumes h: "rm_holds rm a" and sz: "0 < sz" "sz \<le> reg_size (rm_store rm a)"
  obtains b rm' where "carve_region rm a sz purpose = Inr (b, rm')" "rm_inv rm'"
    "allocated_regions rm' = allocated_regions rm @ [b]" "b \<notin> live_ids rm"
    "reg_size (rm_store rm' b) = pagesize_align sz" "reg_host_p (rm_store rm' b) = reg_host_p (rm_store rm a)"
    "\<And>x. x \<in> live_ids rm \<Longrightarrow> rm_store rm' x = rm_store rm x" "rm_pager rm' = rm_pager rm"
    "reg_bytes (rm_store rm' b) \<subseteq> reg_bytes (rm_store rm a)"
proof (cases "pagesize_align sz < reg_size (rm_store rm a)")
  note hD = rm_holdsD [OF h]
  have pa: "page_aligned (reg_size (rm_store rm a))"
    using hD(7) by (simp add: region_wf_def)
  have bound: "unat sz \<le> 2 ^ 64 - 4096"
    using aligned_top [OF pa] sz(2) by (simp add: word_le_nat_alt)
  {
    case True
    obtain new rest where sl: "slice_begin (rm_store rm a) sz purpose = Inr (new, rest)"
        "new = Region (reg_host_p (rm_store rm a)) (pagesize_align sz) purpose"
        "reg_free rest = reg_free (rm_store rm a)" "region_wf new" "region_wf rest"
        "reg_bytes new \<union> reg_bytes rest = reg_bytes (rm_store rm a)" "reg_bytes new \<inter> reg_bytes rest = {}"
      using slice_begin_ok [OF hD(7) sz(1) True bound, of purpose] by metis
    define rm1 where "rm1 = push_free (rm\<lparr>rm_store := (rm_store rm)(a := rest, rm_next rm := new), rm_next := rm_next rm + 1\<rparr>)
        (get_freelist_idx (reg_size rest)) a"
    have fr: "reg_free new" "reg_free rest"
      using sl(2,3) hD(5) by simp_all
    note sp = split_holds [OF h sl(4,5) fr sl(6,7) rm1_def]
    obtain rm' where u: "use_region rm1 (rm_next rm) = Inr rm'" "rm_inv rm'"
        "allocated_regions rm' = allocated_regions rm1 @ [rm_next rm]"
        "rm_store rm' = (rm_store rm1)(rm_next rm := set_used (rm_store rm1 (rm_next rm)))" "rm_pager rm' = rm_pager rm1"
      by (rule use_region_holds [OF sp(1)])
    have ne: "a \<noteq> rm_next rm" "x \<in> live_ids rm \<Longrightarrow> x \<noteq> rm_next rm \<and> x \<noteq> a" for x
      using hD(3,4) lists_okD(6) [OF hD(2), of x] by auto
    have step: "carve_region rm a sz purpose = bindE (use_region rm1 (rm_next rm)) (\<lambda>rm4.
        bindE (assertE (sz \<le> reg_size (rm_store rm4 (rm_next rm)))) (\<lambda>_. Inr (rm_next rm, rm4)))"
      using True sl(1) ne(1)
      by (simp add: carve_region_def update_region_def make_region_def add_free_region_def rm1_def Let_def)
    have st: "rm_store rm' (rm_next rm) = set_used new"
      by (simp add: u(4) rm1_def push_free_def)
    then have run: "carve_region rm a sz purpose = Inr (rm_next rm, rm')"
      using le_pagesize_align [OF bound] by (simp add: step u(1) sl(2))
    show ?thesis
    proof (rule that [OF run u(2)])
      show "allocated_regions rm' = allocated_regions rm @ [rm_next rm]" "rm_pager rm' = rm_pager rm"
        by (simp_all add: u rm1_def push_free_def)
      show "rm_next rm \<notin> live_ids rm"
        using ne(2) by blast
      show "x \<in> live_ids rm \<Longrightarrow> rm_store rm' x = rm_store rm x" for x
        using ne(2) by (simp add: u(4) rm1_def push_free_def)
      show "reg_bytes (rm_store rm' (rm_next rm)) \<subseteq> reg_bytes (rm_store rm a)"
        using sl(6) by (auto simp: st)
    qed (simp_all add: st sl(2))
  next
    case False
    then have eq: "pagesize_align sz = reg_size (rm_store rm a)"
      using pagesize_align_le [OF pa sz(2)] by simp
    obtain rm' where u: "use_region rm a = Inr rm'" "rm_inv rm'" "allocated_regions rm' = allocated_regions rm @ [a]"
        "rm_store rm' = (rm_store rm)(a := set_used (rm_store rm a))" "rm_pager rm' = rm_pager rm"
      by (rule use_region_holds [OF h])
    have run: "carve_region rm a sz purpose = Inr (a, rm')"
      using False sz(2) by (simp add: carve_region_def u(1,4))
    show ?thesis
      by (rule that [OF run u(2,3) hD(3)]) (use hD(3) in \<open>auto simp: u(4,5) eq\<close>)
  }
qed

section \<open>Growing by a chunk\<close>

lemma create_mem_chunk_new:
  assumes run: "create_mem_chunk am ioctl p sz = Inr (0, h, p')" and sz: "0 < sz" and am: "memalign_ok am"
  obtains c where "am (chunks p) sz = Inr h" "chunks p' = chunks p @ [c]" "userspace_addr c = h" "memory_size c = sz"
    "page_aligned sz" "p' = p\<lparr>total_memsz := total_memsz p', chunks := chunks p', free_slots := free_slots p'\<rparr>"
  using run
proof (cases rule: create_mem_chunk_cases)
  case (created i p1)
  show ?thesis
  proof (rule alloc_chunk_shape [OF created(3)])
    fix c
    assume c: "i = length (chunks p)" "chunks p1 = chunks p @ [c]"
      "c = \<lparr>slot = (if free_slots p = [] then of_nat (length (chunks p)) else last (free_slots p)),
          chunk_flags = 0, guest_phys_addr = total_memsz p, memory_size = sz, userspace_addr = h\<rparr>"
    have sz': "memory_size (chunks p1 ! i) \<noteq> 0"
      using sz by (simp add: c)
    have p': "p' = p1"
      using created(4) sz' unfolding map_chunk_to_kvm_def Let_def by (simp add: res_simps)
    have "p1 = p\<lparr>total_memsz := total_memsz p1, chunks := chunks p1, free_slots := free_slots p1\<rparr>"
      using created(3) by (auto simp: alloc_chunk_def Let_def)
    then show ?thesis
      using that [of c] c created(1,2) p' by simp
  qed
qed (use am in \<open>auto simp: memalign_ok_def EIO_def\<close>)

lemma grow_size_facts:
  fixes sz total :: u64
  assumes "unat total + unat sz + 0x8000000 \<le> 2 ^ 52"
  shows "0 < grow_size sz" "sz \<le> grow_size sz" "unat total + unat (grow_size sz) \<le> 2 ^ 52" "page_aligned (grow_size sz)"
proof -
  have b: "unat sz \<le> 2 ^ 64 - 4096"
    using assms(1) by simp
  then have "unat (pagesize_align sz) \<le> unat sz + 4095"
    unfolding unat_pagesize_align [OF b] by (metis add_le_mono1 div_times_less_eq_dividend order.trans order_refl)
  moreover have "sz \<le> pagesize_align sz"
    by (rule le_pagesize_align [OF b])
  ultimately show "0 < grow_size sz" "sz \<le> grow_size sz" "unat total + unat (grow_size sz) \<le> 2 ^ 52"
    using assms by (auto simp: grow_size_def ELKVM_SYSTEM_MEMGROW_def word_le_nat_alt word_less_nat_alt split: if_splits)
  show "page_aligned (grow_size sz)"
    by (simp add: grow_size_def) (simp add: page_aligned_def ELKVM_SYSTEM_MEMGROW_def)
qed

lemma chunks_inv_last_apart:
  assumes "chunks_inv p" "chunks p = cs @ [c]" "d \<in> set cs"
  shows "chunks_apart d c"
  using assms by (auto simp: chunks_inv_def sorted_wrt_append)

lemma add_chunk_spec:
  assumes inv: "rm_inv rm" and am: "memalign_ok am"
    and room: "unat (total_memsz (rm_pager rm)) + unat sz + 0x8000000 \<le> 2 ^ 52"
    and run: "add_chunk am ioctl rm sz purpose = Inr (0, rm')"
  shows "rm_inv rm'" "\<exists>a \<in> free_ids rm'. sz \<le> reg_size (rm_store rm' a)"
    "allocated_regions rm' = allocated_regions rm" "\<And>x. x \<in> live_ids rm \<Longrightarrow> rm_store rm' x = rm_store rm x"
    "free_ids rm' = insert (rm_next rm) (free_ids rm)"
    "\<exists>c. rm_pager rm' = (rm_pager rm)\<lparr>total_memsz := total_memsz (rm_pager rm'), chunks := chunks (rm_pager rm) @ [c],
       free_slots := free_slots (rm_pager rm')\<rparr>
       \<and> rm_store rm' (rm_next rm) = Region (userspace_addr c) (memory_size c) purpose \<and> memory_size c = grow_size sz"
proof -
  define g where "g = grow_size sz"
  define b where "b = rm_next rm"
  note gf = grow_size_facts [OF room, folded g_def]
  have ch: "chunks_inv (rm_pager rm)" and lo: "lists_ok rm"
      and ti: "tiles (chunks (rm_pager rm)) (rm_store rm) (live_ids rm)"
    using inv by (simp_all add: rm_inv_def)
  note loD = lists_okD [OF lo]
  obtain h p' where cr: "create_mem_chunk am ioctl (rm_pager rm) g = Inr (0, h, p')"
    and rm': "rm' = push_free (rm\<lparr>rm_pager := p', rm_store := (rm_store rm)(b := Region h g purpose),
        rm_next := b + 1\<rparr>) (get_freelist_idx g) b"
    using run unfolding add_chunk_def Let_def g_def [symmetric] make_region_def
    by (auto simp: res_simps b_def split: if_splits)
  obtain c where c: "am (chunks (rm_pager rm)) g = Inr h" "chunks p' = chunks (rm_pager rm) @ [c]"
      "userspace_addr c = h" "memory_size c = g" "page_aligned g"
      "p' = (rm_pager rm)\<lparr>total_memsz := total_memsz p', chunks := chunks p', free_slots := free_slots p'\<rparr>"
    by (rule create_mem_chunk_new [OF cr gf(1) am])
  have ch': "chunks_inv p'"
    by (rule create_mem_chunk_inv [OF ch am gf(3) cr])
  have wf: "region_wf (Region h g purpose)"
    using am c(1,5) gf(1) unfolding memalign_ok_def region_wf_def by auto
  have b: "b \<notin> live_ids rm"
    using loD(6) [of b] by (auto simp: b_def)
  show free: "free_ids rm' = insert (rm_next rm) (free_ids rm)"
    unfolding rm' b_def by (subst free_ids_push) (simp_all add: free_ids_def)
  then have live: "live_ids rm' = insert b (live_ids rm)"
    by (auto simp: live_ids_def rm' push_free_def b_def)
  have nb: "x \<in> set (allocated_regions rm) \<Longrightarrow> x \<noteq> b" "j < n_freelists \<Longrightarrow> x \<in> set (freelists rm j) \<Longrightarrow> x \<noteq> b" for x j
    using b by (auto simp: live_ids_def free_ids_def)
  have "lists_ok rm'"
  proof (rule lists_okI)
    fix x assume "x \<in> live_ids rm'"
    then show "x < rm_next rm'"
      using loD(6) [of x] live by (auto simp: rm' push_free_def b_def)
  next
    fix x assume "x \<in> set (allocated_regions rm')"
    then show "\<not> reg_free (rm_store rm' x)"
      using loD(2) nb(1) by (auto simp: rm' push_free_def)
  next
    fix j x assume "j < n_freelists" "x \<in> set (freelists rm' j)"
    then show "reg_free (rm_store rm' x) \<and> get_freelist_idx (reg_size (rm_store rm' x)) = j"
      using loD(4,5) [of j x] nb(2) by (auto simp: rm' push_free_def split: if_splits)
  qed (use loD nb nb(2) [OF get_freelist_idx_less, of b g] in \<open>auto simp: rm' push_free_def\<close>)
  moreover have "tiles (chunks (rm_pager rm')) (rm_store rm') (live_ids rm')"
    unfolding live using tiles_add_chunk [OF ti b wf, of c] chunks_inv_last_apart [OF ch' c(2)] c(2-4)
    by (simp add: rm' push_free_def)
  ultimately show "rm_inv rm'"
    using ch' by (simp add: rm_inv_def rm' push_free_def)
  show "\<exists>a \<in> free_ids rm'. sz \<le> reg_size (rm_store rm' a)"
    using free gf(2) by (auto simp: rm' push_free_def b_def)
  show "allocated_regions rm' = allocated_regions rm" "\<And>x. x \<in> live_ids rm \<Longrightarrow> rm_store rm' x = rm_store rm x"
    using b by (auto simp: rm' push_free_def)
  show "\<exists>c. rm_pager rm' = (rm_pager rm)\<lparr>total_memsz := total_memsz (rm_pager rm'), chunks := chunks (rm_pager rm) @ [c],
       free_slots := free_slots (rm_pager rm')\<rparr>
       \<and> rm_store rm' (rm_next rm) = Region (userspace_addr c) (memory_size c) purpose \<and> memory_size c = grow_size sz"
    using c(2,3,4,6) by (auto simp: rm' push_free_def b_def g_def)
qed


section \<open>Allocating\<close>

text \<open>What a successful allocation guarantees: a fresh region of the rounded-up size, apart from all others.\<close>

definition allocated :: "rmgr \<Rightarrow> u64 \<Rightarrow> rid \<Rightarrow> rmgr \<Rightarrow> bool" where
  "allocated rm sz b rm' \<longleftrightarrow> rm_inv rm' \<and> b \<notin> set (allocated_regions rm)
     \<and> allocated_regions rm' = allocated_regions rm @ [b] \<and> reg_size (rm_store rm' b) = pagesize_align sz
     \<and> (\<forall>x \<in> set (allocated_regions rm). rm_store rm' x = rm_store rm x)"

lemma allocate_found:
  assumes inv: "rm_inv rm" and f: "find_free_region rm sz = (Some a, rm1)" and sz: "0 < sz"
  obtains b rm' where "carve_region rm1 a sz purpose = Inr (b, rm')" "allocated rm sz b rm'" "rm_pager rm' = rm_pager rm"
proof -
  note ff = find_free_region_Some [OF inv f]
  have le: "sz \<le> reg_size (rm_store rm1 a)"
    using ff(2,5) by simp
  obtain b rm' where c: "carve_region rm1 a sz purpose = Inr (b, rm')" "rm_inv rm'"
    "allocated_regions rm' = allocated_regions rm1 @ [b]" "b \<notin> live_ids rm1"
    "reg_size (rm_store rm' b) = pagesize_align sz"
    "\<And>x. x \<in> live_ids rm1 \<Longrightarrow> rm_store rm' x = rm_store rm1 x" "rm_pager rm' = rm_pager rm1"
    by (rule carve_region_spec [OF ff(1) sz le, where purpose = purpose]) blast
  have "set (allocated_regions rm) \<subseteq> live_ids rm1"
    by (auto simp: live_ids_def ff(7))
  then have "allocated rm sz b rm'"
    using c(2-6) ff(5,7) unfolding allocated_def by auto
  then show ?thesis
    using that c(1,7) ff(6) by simp
qed

lemma find_free_region_None_same: "find_free_region rm sz = (None, rm') \<Longrightarrow> rm' = rm"
  by (auto simp: find_free_region_def Let_def split: option.splits prod.splits)

lemma allocate_region_cases:
  assumes inv: "rm_inv rm" and am: "memalign_ok am" and sz: "0 < sz"
    and room: "unat (total_memsz (rm_pager rm)) + unat sz + 0x8000000 \<le> 2 ^ 52"
  shows "(\<exists>b rm'. allocate_region am ioctl rm sz purpose = Inr (b, rm') \<and> allocated rm sz b rm')
    \<or> (\<forall>a \<in> free_ids rm. \<not> sz \<le> reg_size (rm_store rm a))
      \<and> allocate_region am ioctl rm sz purpose = Inl Abort
      \<and> (\<forall>rm'. add_chunk am ioctl rm sz purpose \<noteq> Inr (0, rm'))"
proof (cases "find_free_region rm sz")
  case (Pair r rm1)
  show ?thesis
  proof (cases r)
    case (Some a)
    obtain b rm' where "carve_region rm1 a sz purpose = Inr (b, rm')" "allocated rm sz b rm'"
      using allocate_found [OF inv _ sz, of a rm1 purpose] Pair Some by blast
    then show ?thesis
      using Pair Some by (auto simp: allocate_region_def)
  next
    case None
    then have f: "find_free_region rm sz = (None, rm)"
      using Pair find_free_region_None_same by blast
    have none: "\<forall>a \<in> free_ids rm. \<not> sz \<le> reg_size (rm_store rm a)"
      using find_free_region_None [OF _ f] inv by (simp add: rm_inv_def)
    show ?thesis
    proof (cases "\<exists>rm2. add_chunk am ioctl rm sz purpose = Inr (0, rm2)")
      case True
      then obtain rm2 where ac: "add_chunk am ioctl rm sz purpose = Inr (0, rm2)"
        by blast
      note as = add_chunk_spec [OF inv am room ac]
      obtain a rm3 where f2: "find_free_region rm2 sz = (Some a, rm3)"
        using as(1,2) find_free_region_None [of rm2 sz]
        by (metis option.exhaust rm_inv_def surj_pair)
      obtain b rm' where c: "carve_region rm3 a sz purpose = Inr (b, rm')" "allocated rm2 sz b rm'"
        using allocate_found [OF as(1) f2 sz] by blast
      have "allocated rm sz b rm'"
        using c(2) as(3,4) by (simp add: allocated_def live_ids_def)
      then show ?thesis
        using f ac f2 c(1) by (auto simp: allocate_region_def)
    next
      case False
      have "allocate_region am ioctl rm sz purpose = Inl Abort"
      proof (cases "add_chunk am ioctl rm sz purpose")
        case (Inl e)
        then show ?thesis
          using f by (auto simp: allocate_region_def add_chunk_def create_mem_chunk_def map_chunk_to_kvm_def Let_def res_simps
              assertE_def split: if_splits sum.splits prod.splits)
      next
        case (Inr z)
        with False show ?thesis
          using f by (cases z) (auto simp: allocate_region_def bindE_assertE)
      qed
      with none False show ?thesis by blast
    qed
  qed
qed


section \<open>Freeing\<close>

text \<open>Both ways of freeing move region \<open>a\<close> from the allocated list to its free list.\<close>

definition released :: "rmgr \<Rightarrow> rid \<Rightarrow> rmgr" where
  "released rm a = rm\<lparr>rm_store := (rm_store rm)(a := set_free (rm_store rm a)),
     allocated_regions := remove1 a (allocated_regions rm),
     freelists := (freelists rm)(get_freelist_idx (reg_size (rm_store rm a)) :=
        freelists rm (get_freelist_idx (reg_size (rm_store rm a))) @ [a])\<rparr>"

lemma free_region_eq: "free_region rm a = (if a \<in> set (allocated_regions rm) then Inr (released rm a) else Inl Abort)"
  by (simp add: free_region_def update_region_def push_free_def released_def Let_def bindE_assertE)

lemma released_inv:
  assumes inv: "rm_inv rm" and a: "a \<in> set (allocated_regions rm)"
  shows "rm_inv (released rm a)" "set (allocated_regions (released rm a)) = set (allocated_regions rm) - {a}"
    "free_ids (released rm a) = insert a (free_ids rm)" "rm_pager (released rm a) = rm_pager rm"
    "x \<noteq> a \<Longrightarrow> rm_store (released rm a) x = rm_store rm x"
proof -
  have lo: "lists_ok rm" and ti: "tiles (chunks (rm_pager rm)) (rm_store rm) (live_ids rm)"
    using inv by (simp_all add: rm_inv_def)
  note loD = lists_okD [OF lo]
  show al: "set (allocated_regions (released rm a)) = set (allocated_regions rm) - {a}"
    using loD(1) by (simp add: released_def)
  have "free_ids (released rm a) = free_ids (push_free rm (get_freelist_idx (reg_size (rm_store rm a))) a)"
    by (simp add: free_ids_def released_def push_free_def)
  then show free: "free_ids (released rm a) = insert a (free_ids rm)"
    by (simp add: free_ids_push)
  show "rm_pager (released rm a) = rm_pager rm" "x \<noteq> a \<Longrightarrow> rm_store (released rm a) x = rm_store rm x"
    by (simp_all add: released_def)
  have live: "live_ids (released rm a) = live_ids rm"
    using al free a by (auto simp: live_ids_def)
  have na: "j < n_freelists \<Longrightarrow> a \<notin> set (freelists rm j)" for j
    using loD(2) [OF a] loD(4) by blast
  have "lists_ok (released rm a)"
  proof (rule lists_okI)
    fix x assume "x \<in> set (allocated_regions (released rm a))"
    then show "\<not> reg_free (rm_store (released rm a) x)"
      using al loD(2) by (auto simp: released_def)
  next
    fix j x assume "j < n_freelists" "x \<in> set (freelists (released rm a) j)"
    then show "reg_free (rm_store (released rm a) x) \<and> get_freelist_idx (reg_size (rm_store (released rm a) x)) = j"
      using loD(4,5) [of j x] na by (auto simp: released_def split: if_splits)
  next
    fix x assume "x \<in> live_ids (released rm a)"
    then show "x < rm_next (released rm a)"
      using live loD(6) by (simp add: released_def)
  qed (use loD na [OF get_freelist_idx_less] in \<open>auto simp: released_def\<close>)
  moreover have "tiles (chunks (rm_pager rm)) (rm_store (released rm a)) (live_ids (released rm a))"
    unfolding live by (rule tiles_cong [OF ti]) (simp add: released_def)
  ultimately show "rm_inv (released rm a)"
    using inv by (simp add: rm_inv_def released_def)
qed

lemma allocated_apart:
  assumes "rm_inv rm" "a \<in> set (allocated_regions rm)" "b \<in> set (allocated_regions rm)" "a \<noteq> b"
  shows "reg_bytes (rm_store rm a) \<inter> reg_bytes (rm_store rm b) = {}"
  using assms tilesD(4) [of "chunks (rm_pager rm)" "rm_store rm" "live_ids rm" a b] by (simp add: rm_inv_def live_ids_def)

lemma allocated_wf: "rm_inv rm \<Longrightarrow> a \<in> set (allocated_regions rm) \<Longrightarrow> region_wf (rm_store rm a)"
  using tilesD(2) [of "chunks (rm_pager rm)" "rm_store rm" "live_ids rm" a] by (simp add: rm_inv_def live_ids_def)

text \<open>Lookup by host address finds the one allocated region around the address.\<close>

lemma find_region_unique:
  assumes inv: "rm_inv rm" and a: "a \<in> set (allocated_regions rm)" "region_contains (rm_store rm a) h"
  shows "find_region rm h = Some a"
  unfolding find_region_def
proof (rule find_unique [where P = "\<lambda>a. region_contains (rm_store rm a) h", OF a])
  fix b assume b: "b \<in> set (allocated_regions rm)" "region_contains (rm_store rm b) h"
  have "unat h \<in> reg_bytes (rm_store rm a)" "unat h \<in> reg_bytes (rm_store rm b)"
    using a b region_contains_iff [OF allocated_wf [OF inv]] by simp_all
  then show "b = a"
    using allocated_apart [OF inv a(1) b(1)] by blast
qed

lemma find_region_Some:
  assumes "find_region rm h = Some a"
  shows "a \<in> set (allocated_regions rm)" "region_contains (rm_store rm a) h"
  using assms by (auto simp: find_region_def find_Some_iff)

lemma free_region_at_eq:
  assumes inv: "rm_inv rm" and a: "a \<in> set (allocated_regions rm)" "region_contains (rm_store rm a) h"
  shows "free_region_at rm h sz = (if reg_size (rm_store rm a) = sz then free_region rm a else Inl Abort)"
  using find_region_unique [OF assms] a
  by (simp add: free_region_at_def free_region_eq released_def update_region_def push_free_def Let_def bindE_assertE)

end
