(* ===== verification/Allocator.thy ===== *)
theory Allocator
  imports Region_Alloc
begin

text \<open>
  The contract the region manager offers to its clients (guest heap, stack, ELF loader, GDT, IDT, TSS): a locale of
  block allocators, what any history of requests and releases guarantees, and its interpretation on \<^verbatim>\<open>RegionManager\<close>.
\<close>

section \<open>The allocator interface\<close>

text \<open>What clients rely on: allocation returns a block of the requested size apart from all live blocks and touches no
  live block; release gives up exactly one block.  \<open>request_ok\<close> are the requests the allocator can serve in a state
  without running out of its address space.\<close>

locale block_allocator =
  fixes inv :: "'s \<Rightarrow> bool" and live :: "'s \<Rightarrow> 'b set" and block :: "'s \<Rightarrow> 'b \<Rightarrow> nat set"
    and request_ok :: "'s \<Rightarrow> 'q \<Rightarrow> bool" and request_size :: "'q \<Rightarrow> nat"
    and alloc :: "'s \<Rightarrow> 'q \<Rightarrow> ('b \<times> 's) res" and release :: "'s \<Rightarrow> 'b \<Rightarrow> 's res"
  assumes live_apart: "inv s \<Longrightarrow> a \<in> live s \<Longrightarrow> b \<in> live s \<Longrightarrow> a \<noteq> b \<Longrightarrow> block s a \<inter> block s b = {}"
    and alloc_ok: "inv s \<Longrightarrow> request_ok s q \<Longrightarrow> alloc s q = Inr (b, s') \<Longrightarrow>
      inv s' \<and> b \<notin> live s \<and> live s' = insert b (live s) \<and> request_size q \<le> card (block s' b)
      \<and> (\<forall>x \<in> live s. block s' x = block s x)"
    and release_ok: "inv s \<Longrightarrow> b \<in> live s \<Longrightarrow>
      \<exists>s'. release s b = Inr s' \<and> inv s' \<and> live s' = live s - {b} \<and> (\<forall>x \<in> live s'. block s' x = block s x)"
    and release_dead: "inv s \<Longrightarrow> b \<notin> live s \<Longrightarrow> release s b = Inl Abort"
begin

text \<open>A history of requests and releases; it stops at the first abort.\<close>

primrec history :: "('q + 'b) list \<Rightarrow> 's \<Rightarrow> 's res" where
  "history [] s = Inr s"
| "history (x # xs) s =
     (case x of
        Inl q \<Rightarrow> if request_ok s q then bindE (alloc s q) (\<lambda>(b, s1). history xs s1) else Inl Abort
      | Inr b \<Rightarrow> bindE (release s b) (history xs))"

lemma history_inv: "inv s \<Longrightarrow> history xs s = Inr s' \<Longrightarrow> inv s'"
proof (induction xs arbitrary: s)
  case (Cons x xs)
  show ?case
  proof (cases x)
    case (Inl q)
    with Cons.prems obtain b s1 where "request_ok s q" "alloc s q = Inr (b, s1)" "history xs s1 = Inr s'"
      by (auto simp: res_simps split: if_splits)
    with alloc_ok [OF Cons.prems(1)] Cons.IH show ?thesis by blast
  next
    case (Inr b)
    with Cons.prems obtain s1 where s1: "release s b = Inr s1" "history xs s1 = Inr s'"
      by (auto simp: res_simps)
    then have "b \<in> live s"
      using release_dead [OF Cons.prems(1), of b] by auto
    with release_ok [OF Cons.prems(1)] s1 Cons.IH show ?thesis by fastforce
  qed
qed simp

text \<open>A block that is live at the start and never released keeps its bytes and stays live.\<close>

lemma history_keeps:
  "inv s \<Longrightarrow> history xs s = Inr s' \<Longrightarrow> a \<in> live s \<Longrightarrow> Inr a \<notin> set xs \<Longrightarrow> a \<in> live s' \<and> block s' a = block s a"
proof (induction xs arbitrary: s)
  case (Cons x xs)
  show ?case
  proof (cases x)
    case (Inl q)
    with Cons.prems obtain b s1 where s1: "request_ok s q" "alloc s q = Inr (b, s1)" "history xs s1 = Inr s'"
      by (auto simp: res_simps split: if_splits)
    note ok = alloc_ok [OF Cons.prems(1) s1(1,2)]
    with Cons.IH [OF _ s1(3)] Cons.prems(3,4) show ?thesis by auto
  next
    case (Inr b)
    with Cons.prems obtain s1 where s1: "release s b = Inr s1" "history xs s1 = Inr s'"
      by (auto simp: res_simps)
    then have b: "b \<in> live s"
      using release_dead [OF Cons.prems(1), of b] by auto
    have "a \<noteq> b"
      using Cons.prems(4) Inr by auto
    with release_ok [OF Cons.prems(1) b] s1(1) Cons.prems(3)
    have "inv s1" "a \<in> live s1" "block s1 a = block s a"
      by auto
    with Cons.IH [OF _ s1(2)] Cons.prems(4) show ?thesis by auto
  qed
qed simp

end

definition rm_request_ok :: "rmgr \<Rightarrow> u64 \<times> string \<Rightarrow> bool" where
  "rm_request_ok rm q \<longleftrightarrow> 0 < fst q \<and> unat (total_memsz (rm_pager rm)) + unat (fst q) + 0x8000000 \<le> 2 ^ 52"

definition region_block :: "rmgr \<Rightarrow> rid \<Rightarrow> nat set" where
  "region_block rm a = reg_bytes (rm_store rm a)"

interpretation ra: block_allocator rm_inv "\<lambda>rm. set (allocated_regions rm)" region_block
  "\<lambda>rm q. memalign_ok am \<and> rm_request_ok rm q" "\<lambda>q. unat (fst q)"
  "\<lambda>rm q. allocate_region am ioctl rm (fst q) (snd q)" free_region
proof unfold_locales
  fix s and q :: "u64 \<times> string" and b s'
  assume s: "rm_inv s" "memalign_ok am \<and> rm_request_ok s q"
    and run: "allocate_region am ioctl s (fst q) (snd q) = Inr (b, s')"
  then have am: "memalign_ok am" by blast
  have q: "0 < fst q" "unat (total_memsz (rm_pager s)) + unat (fst q) + 0x8000000 \<le> 2 ^ 52"
    using s(2) by (simp_all add: rm_request_ok_def)
  have al: "allocated s (fst q) b s'"
    using allocate_region_cases [OF s(1) am q, of ioctl "snd q"] run by auto
  have "fst q \<le> pagesize_align (fst q)"
    using q(2) by (intro le_pagesize_align) simp
  then show "rm_inv s' \<and> b \<notin> set (allocated_regions s) \<and> set (allocated_regions s') = insert b (set (allocated_regions s))
      \<and> unat (fst q) \<le> card (region_block s' b)
      \<and> (\<forall>x \<in> set (allocated_regions s). region_block s' x = region_block s x)"
    using al by (simp add: allocated_def region_block_def card_reg_bytes word_le_nat_alt)
next
  fix s b
  assume s: "rm_inv s" "b \<in> set (allocated_regions s)"
  show "\<exists>s'. free_region s b = Inr s' \<and> rm_inv s' \<and> set (allocated_regions s') = set (allocated_regions s) - {b}
      \<and> (\<forall>x \<in> set (allocated_regions s'). region_block s' x = region_block s x)"
    using released_inv [OF s] s(2) by (auto simp: free_region_eq region_block_def)
qed (auto simp: free_region_eq region_block_def dest: allocated_apart)

end
