(* ===== verification/Pager_Ops.thy ===== *)
theory Pager_Ops
  imports Translation
begin

text \<open>
  The operations of the pager on ranges of pages: \<^verbatim>\<open>map_region\<close>, \<^verbatim>\<open>unmap_region\<close> and the search for a free
  kernel page of \<^verbatim>\<open>map_kernel_page\<close>, each against the page map \<open>pt_view\<close>.
\<close>

section \<open>Mapping a region\<close>

lemma unat_vpn: "unat (vpn gv) = unat gv div 4096 mod 2 ^ 36"
  unfolding vpn_def unsigned_take_bit_eq unat_drop_bit_eq take_bit_nat_def drop_bit_nat_def by simp

lemma unat_vpn_add:
  "unat (vpn (gv + of_nat (4096 * k))) = (unat gv div 4096 + k) mod 2 ^ 36"
proof -
  have "unat (gv + of_nat (4096 * k)) = (unat gv + 4096 * k) mod 2 ^ 64"
    unfolding unat_word_ariths unat_of_nat by (simp only: mod_simps) simp
  also have "\<dots> = (unat gv + 4096 * k) mod (4096 * 2 ^ 52)"
    by simp
  also have "\<dots> div 4096 = (unat gv div 4096 + k) mod 2 ^ 52"
    by (simp only: mod_mult2_eq) (simp add: add.commute)
  finally have "unat (vpn (gv + of_nat (4096 * k))) = (unat gv div 4096 + k) mod 2 ^ 52 mod 2 ^ 36"
    by (simp only: unat_vpn)
  also have "\<dots> = (unat gv div 4096 + k) mod 2 ^ 36"
    by (rule mod_mod_cancel) simp
  finally show ?thesis .
qed

lemma mod_add_inj:
  assumes "(a + j) mod m = (a + k) mod m" "j < m" "k < (m :: nat)"
  shows "j = k"
proof -
  have *: "j = k" if "j \<le> k" "(a + k) mod m = (a + j) mod m" "k < m" for j k
  proof -
    have "m dvd k - j"
      using mod_eq_dvd_iff_nat [of "a + j" "a + k" m] that(1,2) by simp
    with that show ?thesis
      using dvd_imp_le [of m "k - j"] by (cases "k = j") auto
  qed
  show ?thesis
    using * [of j k] * [of k j] assms by (cases "j \<le> k") auto
qed

lemma vpn_add_inj:
  assumes "vpn (gv + of_nat (4096 * j)) = vpn (gv + of_nat (4096 * k))" "j < 2 ^ 36" "k < 2 ^ 36"
  shows "j = k"
proof (rule mod_add_inj)
  show "(unat gv div 4096 + j) mod 2 ^ 36 = (unat gv div 4096 + k) mod 2 ^ 36"
    using arg_cong [OF assms(1), of unat] by (simp only: unat_vpn_add)
qed (use assms in simp_all)


text \<open>What \<^verbatim>\<open>map_region\<close> needs of each of its pages: a host page inside one chunk and outside the
  pager's own memory, with the page offset of the guest address, and no other mapping in the way.\<close>

definition page_mappable :: "pager \<Rightarrow> chunk \<Rightarrow> hostptr \<Rightarrow> guestptr \<Rightarrow> bool" where
  "page_mappable p c h gv \<longleftrightarrow> gv \<noteq> 0 \<and> contains_address c h
     \<and> (h < host_pml4_p p \<or> host_pml4_p p + ELKVM_SYSTEM_MEMSIZE \<le> h)
     \<and> h AND ELKVM_PAGE_MASK = gv AND ELKVM_PAGE_MASK \<and> host_to_guest_physical p h \<noteq> 0
     \<and> (case pt_view p (vpn gv) of None \<Rightarrow> True
        | Some e \<Rightarrow> pte_addr e = page_begin (host_to_guest_physical p h))"

lemma map_user_page_ok:
  assumes "pt_inv p" "tables_used p + tables_needed p gv \<le> 4096" "page_mappable p c h gv"
  obtains p' where "map_user_page p h gv opts = Inr (0, p')" "pt_inv p'"
    "pt_view p' = (pt_view p)(vpn gv \<mapsto> entry_value (host_to_guest_physical p h) opts)"
    "pager_frame p' = pager_frame p" "outside_same p p'" "tables_used p' \<le> tables_used p + tables_needed p gv"
proof -
  have "\<not> (\<exists>e. pt_view p (vpn gv) = Some e \<and> pte_addr e \<noteq> page_begin (host_to_guest_physical p h))"
    using assms(3) by (auto simp: page_mappable_def)
  then show ?thesis
    using map_user_page_walk [OF assms(1,2), of h "host_to_guest_physical p h" opts] assms(3) that
    unfolding page_mappable_def by (metis (no_types, lifting))
qed

lemma page_mappable_cong:
  assumes "pager_frame p' = pager_frame p" "pt_view p' (vpn gv) = pt_view p (vpn gv)"
  shows "page_mappable p' c h gv = page_mappable p c h gv"
  using assms(2) frame_to_guest(1) [OF assms(1)] pager_frame_eqD(1) [OF assms(1)]
  by (simp add: page_mappable_def cong: option.case_cong)

lemma tbl_index_nat: "tbl_index gv low = unat gv div 2 ^ low mod 512"
  unfolding tbl_index_def unsigned_take_bit_eq unat_drop_bit_eq take_bit_nat_def drop_bit_nat_def by simp

text \<open>Moving \<open>k\<close> pages up within one page table keeps the upper indices.\<close>

lemma same_table:
  assumes "tbl_index gv 12 + k < 512"
  shows "unat (gv + of_nat (4096 * k)) = unat gv + 4096 * k"
    and "tbl_index (gv + of_nat (4096 * k)) 12 = tbl_index gv 12 + k"
    and "vpath (gv + of_nat (4096 * k)) = vpath gv"
proof -
  define q where "q = unat gv div 2 ^ 21"
  define i where "i = tbl_index gv 12"
  define r where "r = unat gv mod 4096"
  have "unat gv div 4096 = 512 * q + i"
    unfolding q_def i_def tbl_index_nat by (simp add: div_mult2_eq [of _ 4096 512, simplified])
  then have gv: "unat gv = 4096 * (512 * q + i) + r"
    unfolding r_def by (metis mult_div_mod_eq)
  have r: "r < 4096" and i: "i + k < 512"
    using assms by (simp_all add: r_def i_def)
  have "2 ^ 21 * q \<le> unat gv"
    by (simp add: gv)
  then have q: "q < 2 ^ 43"
    using unat_less_power [of gv] by simp
  have k: "unat (of_nat (4096 * k) :: u64) = 4096 * k"
    by (rule unat_of_nat_small) (use i in simp)
  show u: "unat (gv + of_nat (4096 * k)) = unat gv + 4096 * k"
    unfolding unat_plus_if' k using gv r i q by simp
  have e: "unat (gv + of_nat (4096 * k)) = 4096 * (512 * q + (i + k)) + r"
    unfolding u gv by simp
  have d12: "unat (gv + of_nat (4096 * k)) div 2 ^ 12 = 512 * q + (i + k)"
    unfolding e using r by simp
  then show "tbl_index (gv + of_nat (4096 * k)) 12 = tbl_index gv 12 + k"
    using i by (simp add: tbl_index_nat [of "gv + of_nat (4096 * k)"] i_def del: of_nat_mult)
  have "unat (gv + of_nat (4096 * k)) div 2 ^ 21 = unat (gv + of_nat (4096 * k)) div 2 ^ 12 div 512"
    by (simp add: div_mult2_eq [symmetric] del: of_nat_mult)
  also have "\<dots> = q"
    unfolding d12 using i by simp
  finally have "unat (gv + of_nat (4096 * k)) div 2 ^ 21 = q" .
  then have "unat (gv + of_nat (4096 * k)) div 2 ^ low = unat gv div 2 ^ low" if "low \<in> {21, 30, 39}" for low
  proof -
    have "21 \<le> low"
      using that by auto
    then obtain d where "low = 21 + d"
      by (auto simp: le_iff_add)
    then show ?thesis
      using \<open>_ div 2 ^ 21 = q\<close> by (simp add: power_add div_mult2_eq q_def)
  qed
  then have "tbl_index (gv + of_nat (4096 * k)) low = tbl_index gv low" if "low \<in> {21, 30, 39}" for low
    using that by (simp only: tbl_index_nat)
  then show "vpath (gv + of_nat (4096 * k)) = vpath gv"
    by (simp add: vpath_def numeral_3_eq_3)
qed

text \<open>A range of pages touches \<open>areas gv n\<close> areas of 2 MiB, and each needs at most three new tables.\<close>

definition areas :: "guestptr \<Rightarrow> nat \<Rightarrow> nat" where
  "areas gv n = (if n = 0 then 0 else (tbl_index gv 12 + n + 511) div 512)"

definition range_tables :: "pager \<Rightarrow> guestptr \<Rightarrow> nat \<Rightarrow> nat" where
  "range_tables p gv n =
     (if n = 0 then 0 else tables_needed p gv + 3 * ((tbl_index gv 12 + n - 1) div 512))"

lemma areas_le: "areas gv n \<le> n"
proof -
  have "tbl_index gv 12 + n + 511 < 512 * Suc n" if "0 < n"
    using tbl_index_less [of gv 12] that unfolding mult_Suc_right by linarith
  then show ?thesis
    by (auto simp: areas_def less_mult_imp_div_less mult.commute simp flip: less_Suc_eq_le)
qed

lemma range_tables_le: "range_tables p gv n \<le> 3 * areas gv n"
proof (cases n)
  case (Suc m)
  have "(tbl_index gv 12 + n + 511) div 512 = (tbl_index gv 12 + n - 1) div 512 + 1"
    using Suc by simp
  then show ?thesis
    using tables_needed_le [of p gv] Suc by (simp add: range_tables_def areas_def)
qed (simp add: range_tables_def)

lemma areas_ge: "n \<le> 512 * areas gv n"
proof (cases "n = 0")
  case False
  have "n div 512 * 512 + n mod 512 = n" "n mod 512 < 512"
    by simp_all
  then have "n \<le> 512 * ((n + 511) div 512)"
    by linarith
  also have "\<dots> \<le> 512 * areas gv n"
    using False by (simp add: areas_def div_le_mono)
  finally show ?thesis .
qed simp

lemma add_need: "tables_used p + 3 \<le> 4096 \<Longrightarrow> tables_used p + tables_needed p gv \<le> 4096"
  using tables_needed_le [of p gv] by linarith

lemma add_areas: "tables_used p + 3 * areas gv n \<le> 4096 \<Longrightarrow> tables_used p + range_tables p gv n \<le> 4096"
  using range_tables_le [of p gv n] by linarith

lemma range_tables_step:
  assumes p1: "pt_view p1 (vpn gv) \<noteq> None" "gv \<noteq> 0" and n: "0 < n"
  shows "range_tables p1 (gv + 0x1000) n \<le> 3 * ((tbl_index gv 12 + n) div 512)"
proof -
  define o1 where "o1 = tbl_index gv 12"
  have next1: "tbl_index (gv + 0x1000) 12 = (o1 + 1) mod 512"
  proof -
    have "unat (gv + 0x1000) = (unat gv + 4096) mod (4096 * 2 ^ 52)"
      by (simp add: unat_word_ariths)
    then have "unat (gv + 0x1000) div 4096 = (unat gv div 4096 + 1) mod 2 ^ 52"
      using div_add_self2 [of 4096 "unat gv"] by (simp only: mod_mult2_eq)
    then have "tbl_index (gv + 0x1000) 12 = (unat gv div 4096 + 1) mod 2 ^ 52 mod 512"
      by (simp add: tbl_index_nat)
    also have "\<dots> = (unat gv div 4096 + 1) mod 512"
      by (rule mod_mod_cancel) simp
    finally show ?thesis
      by (simp add: o1_def tbl_index_nat mod_simps)
  qed
  show ?thesis
  proof (cases "o1 = 511")
    case True
    have "(511 + n) div 512 = (n - 1) div 512 + 1"
      using n by (cases n) simp_all
    then show ?thesis
      using True next1 n tables_needed_le [of p1 "gv + 0x1000"] by (simp add: range_tables_def flip: o1_def)
  next
    case False
    then have o1: "o1 < 511"
      using tbl_index_less [of gv 12] unfolding o1_def by linarith
    have "vpath (gv + 0x1000) = vpath gv"
      using same_table(3) [of gv 1] o1 by (simp add: o1_def)
    then have "tables_needed p1 (gv + 0x1000) = 0"
      using p1 by (auto simp: tables_needed_def)
    then show ?thesis
      using o1 next1 n by (simp add: range_tables_def flip: o1_def)
  qed
qed

lemma map_region_loop_spec:
  assumes "pt_inv p" "tables_used p + range_tables p gv n \<le> 4096"
    and "\<And>k. k < n \<Longrightarrow> page_mappable p c (h + of_nat (4096 * k)) (gv + of_nat (4096 * k))"
  shows "\<exists>p'. map_region_loop n p h gv opts = Inr (0, p') \<and> pt_inv p' \<and> pager_frame p' = pager_frame p
    \<and> outside_same p p'
    \<and> (\<forall>k<n. pt_view p' (vpn (gv + of_nat (4096 * k))) =
         Some (entry_value (host_to_guest_physical p (h + of_nat (4096 * k))) opts))
    \<and> (\<forall>v. (\<forall>k<n. v \<noteq> vpn (gv + of_nat (4096 * k))) \<longrightarrow> pt_view p' v = pt_view p v)
    \<and> tables_used p' \<le> tables_used p + range_tables p gv n"
  using assms
proof (induction n arbitrary: p h gv)
  case 0
  then show ?case by (simp add: outside_same_def)
next
  case (Suc n)
  have pm: "page_mappable p c h gv"
    using Suc.prems(3) [of 0] by simp
  have room: "tables_used p + tables_needed p gv \<le> 4096"
    using Suc.prems(2) by (simp add: range_tables_def)
  obtain p1 where 1: "map_user_page p h gv opts = Inr (0, p1)" "pt_inv p1"
    "pt_view p1 = (pt_view p)(vpn gv \<mapsto> entry_value (host_to_guest_physical p h) opts)"
    "pager_frame p1 = pager_frame p" "outside_same p p1" "tables_used p1 \<le> tables_used p + tables_needed p gv"
    by (rule map_user_page_ok [OF Suc.prems(1) room pm])
  have "n div 512 \<le> (tbl_index gv 12 + n) div 512"
    by (rule div_le_mono) simp
  then have n: "n < 2 ^ 20"
    using Suc.prems(2) by (simp add: range_tables_def)
  have gv: "gv \<noteq> 0"
    using pm by (simp add: page_mappable_def)
  have used: "tables_used p1 + range_tables p1 (gv + 0x1000) n \<le> tables_used p + range_tables p gv (Suc n)"
    using range_tables_step [of p1 gv n] 1(3,6) gv by (cases "n = 0") (simp_all add: range_tables_def)
  have shift: "h + 0x1000 + of_nat (4096 * k) = h + of_nat (4096 * Suc k)" 
     "gv + 0x1000 + of_nat (4096 * k) = gv + of_nat (4096 * Suc k)" for k
    by simp_all
  have fresh: "vpn (gv + 0x1000 + of_nat (4096 * k)) \<noteq> vpn gv" if "k < n" for k
    using vpn_add_inj [of gv "Suc k" 0] that n unfolding shift by auto
  have "page_mappable p1 c (h + 0x1000 + of_nat (4096 * k)) (gv + 0x1000 + of_nat (4096 * k))" if "k < n" for k
    using Suc.prems(3) [of "Suc k"] that fresh [OF that] 1(3)
      page_mappable_cong [OF 1(4), of "gv + 0x1000 + of_nat (4096 * k)" c]
    unfolding shift by (simp del: of_nat_mult)
  then obtain p2 where 2: "map_region_loop n p1 (h + 0x1000) (gv + 0x1000) opts = Inr (0, p2)" "pt_inv p2"
    "pager_frame p2 = pager_frame p1" "outside_same p1 p2"
    "\<And>k. k < n \<Longrightarrow> pt_view p2 (vpn (gv + 0x1000 + of_nat (4096 * k))) =
       Some (entry_value (host_to_guest_physical p1 (h + 0x1000 + of_nat (4096 * k))) opts)"
    "\<And>v. (\<And>k. k < n \<Longrightarrow> v \<noteq> vpn (gv + 0x1000 + of_nat (4096 * k))) \<Longrightarrow> pt_view p2 v = pt_view p1 v"
    "tables_used p2 \<le> tables_used p1 + range_tables p1 (gv + 0x1000) n"
    using Suc.IH [OF 1(2) order_trans [OF used Suc.prems(2)], of "h + 0x1000"] by auto
  have "map_region_loop (Suc n) p h gv opts = Inr (0, p2)"
    using 1(1) 2(1) by (simp add: ELKVM_PAGESIZE_def)
  moreover have "pt_view p2 (vpn (gv + of_nat (4096 * k))) =
         Some (entry_value (host_to_guest_physical p (h + of_nat (4096 * k))) opts)" if "k < Suc n" for k
  proof (cases k)
    case 0
    then show ?thesis
      using 2(6) [of "vpn gv"] fresh [THEN not_sym] 1(3) by simp
  next
    case (Suc j)
    then show ?thesis
      using 2(5) [of j] that frame_to_guest(1) [OF 1(4)] unfolding shift by simp
  qed
  moreover have "pt_view p2 v = pt_view p v" if "\<forall>k<Suc n. v \<noteq> vpn (gv + of_nat (4096 * k))" for v
    using 2(6) [of v] that [rule_format, of 0] that [rule_format, of "Suc _"] 1(3) unfolding shift by auto
  ultimately show ?case
    using 2(2-4) 1(4) outside_same_trans [OF 1(5) 2(4)] pager_frame_eqD(1) [OF 1(4)] order_trans [OF 2(7) used] by auto
qed



section \<open>Unmapping a region\<close>

lemma unmap_region_loop_spec:
  assumes "pt_inv p" "n \<le> 2 ^ 36" "\<And>k. k < n \<Longrightarrow> gv + of_nat (4096 * k) \<noteq> 0"
    and "\<And>k. k < n \<Longrightarrow> pt_view p (vpn (gv + of_nat (4096 * k))) \<noteq> None"
  shows "\<exists>p'. unmap_region_loop n p gv = Inr (0, p') \<and> pt_inv p' \<and> pager_frame p' = pager_frame p
    \<and> outside_same p p' \<and> tables_used p' = tables_used p
    \<and> (\<forall>v. pt_view p' v = (if \<exists>k<n. v = vpn (gv + of_nat (4096 * k)) then None else pt_view p v))"
  using assms
proof (induction n arbitrary: p gv)
  case 0
  then show ?case by (simp add: outside_same_def)
next
  case (Suc n)
  have gv: "gv \<noteq> 0" "pt_view p (vpn gv) \<noteq> None"
    using Suc.prems(3,4) [of 0] by simp_all
  obtain p1 where 1: "free_page p gv = Inr (0, p1)" "pt_inv p1" "pt_view p1 = (pt_view p)(vpn gv := None)"
    "pager_frame p1 = pager_frame p" "outside_same p p1" "tables_used p1 = tables_used p"
    using free_page_walk [OF Suc.prems(1) gv(1)] gv(2) by metis
  have shift: "gv + 0x1000 + of_nat (4096 * k) = gv + of_nat (4096 * Suc k)" for k
    by simp
  have fresh: "vpn (gv + of_nat (4096 * Suc k)) \<noteq> vpn gv" if "k < n" for k
    using vpn_add_inj [of gv "Suc k" 0] that Suc.prems(2) by auto
  have "gv + 0x1000 + of_nat (4096 * k) \<noteq> 0" "pt_view p1 (vpn (gv + 0x1000 + of_nat (4096 * k))) \<noteq> None"
    if "k < n" for k
    using Suc.prems(3,4) [of "Suc k"] that fresh [OF that] 1(3) unfolding shift by (simp_all del: of_nat_mult)
  then obtain p2 where 2: "unmap_region_loop n p1 (gv + 0x1000) = Inr (0, p2)" "pt_inv p2"
    "pager_frame p2 = pager_frame p1" "outside_same p1 p2" "tables_used p2 = tables_used p1"
    "\<And>v. pt_view p2 v = (if \<exists>k<n. v = vpn (gv + 0x1000 + of_nat (4096 * k)) then None else pt_view p1 v)"
    using Suc.IH [OF 1(2), of "gv + 0x1000"] Suc.prems(2) by auto
  have "unmap_region_loop (Suc n) p gv = Inr (0, p2)"
    using 1(1) 2(1) by (simp add: ELKVM_PAGESIZE_def)
  moreover have "pt_view p2 v = (if \<exists>k<Suc n. v = vpn (gv + of_nat (4096 * k)) then None else pt_view p v)" for v
    using 2(6) [of v] 1(3) unfolding shift Ex_less_Suc2 by (auto simp del: of_nat_mult)
  ultimately show ?case
    using 2(2-5) 1(4,6) outside_same_trans [OF 1(5) 2(4)] pager_frame_eqD(1) [OF 1(4)] by auto
qed


section \<open>Kernel pages\<close>

lemma cell_page_aligned:
  assumes g: "pt_geom n p" and u: "u < 4096" "i < 512"
  shows "cell_addr p u i AND NOT 0xFFF = cell_addr p u i \<longleftrightarrow> i = 0"
proof -
  obtain m where "unat (host_pml4_p p) = 4096 * m"
    using pt_geomD(3) [OF g] by (auto simp: page_aligned_iff elim: dvdE)
  then have "unat (cell_addr p u i) = 4096 * (m + u) + 8 * i"
    using unat_tbl_addr [OF g u] by simp
  then have "unat (cell_addr p u i) mod 4096 = 8 * i mod 4096"
    by (simp only: mod_mult_self4)
  then have "unat (cell_addr p u i) mod 4096 = 8 * i"
    using u(2) by simp
  then have "page_aligned (cell_addr p u i) \<longleftrightarrow> i = 0"
    by (simp add: page_aligned_iff dvd_eq_mod_eq_0)
  then show ?thesis
    by (simp only: page_aligned_def)
qed

lemma kernel_page_loop_finds:
  assumes g: "pt_geom n p" and u: "u < 4096" and j: "i + k < 512"
    and used: "\<And>l. l < k \<Longrightarrow> present (pte p u (i + l))" and free: "\<not> present (pte p u (i + k))"
  shows "kernel_page_loop p (cell_addr p u i) gv opts =
    Some (Inr (cell_addr p u (i + k), gv + of_nat (4096 * k), p))"
  using j used free
proof (induction k arbitrary: i gv)
  case 0
  then show ?case
    by (subst kernel_page_loop.simps) (simp add: entry_exists_present flip: pte_def)
next
  case (Suc k)
  have e: "entry_exists p (cell_addr p u i)"
    using Suc.prems(2) [of 0] by (simp add: entry_exists_present flip: pte_def)
  have c: "cell_addr p u i + 8 = cell_addr p u (Suc i)"
    by (simp add: cell_addr_def)
  have "\<not> cell_addr p u (Suc i) AND NOT 0xFFF = cell_addr p u (Suc i)"
    using cell_page_aligned [OF g u, of "Suc i"] Suc.prems(1) by simp
  then have "kernel_page_loop p (cell_addr p u i) gv opts = kernel_page_loop p (cell_addr p u (Suc i)) (gv + 0x1000) opts"
    using e by (subst kernel_page_loop.simps) (simp add: c Let_def ELKVM_PAGESIZE_def)
  also have "\<dots> = Some (Inr (cell_addr p u (Suc i + k), gv + 0x1000 + of_nat (4096 * k), p))"
    using Suc.prems by (intro Suc.IH) (use Suc.prems(2) [of "Suc _"] in auto)
  finally show ?case
    by (simp add: add.assoc)
qed

lemma map_kernel_page_finds:
  assumes inv: "pt_inv p" and room: "tables_used p + tables_needed p gv \<le> 4096"
    and gv: "gv = (guest_next_free p AND NOT 0xFFF) OR (host_to_guest_physical p h AND 0xFFF)" "gv \<noteq> 0"
    and k: "tbl_index gv 12 + k < 512" "\<And>l. l < k \<Longrightarrow> pt_view p (vpn (gv + of_nat (4096 * l))) \<noteq> None"
      "pt_view p (vpn (gv + of_nat (4096 * k))) = None"
  shows "\<exists>p'. map_kernel_page p h opts = Some (Inr (gv + of_nat (4096 * k), p')) \<and> pt_inv p'
    \<and> pt_view p' = (pt_view p)(vpn (gv + of_nat (4096 * k)) \<mapsto> entry_value (host_to_guest_physical p h) opts)
    \<and> pager_frame p' = pager_frame p \<and> outside_same p p' \<and> tables_used p' \<le> tables_used p + tables_needed p gv"
proof -
  define i where "i = tbl_index gv 12"
  obtain p1 u path where w: "page_table_walk_create p gv opts = Inr (cell_addr p1 u (tbl_index gv 12), p1)"
    "pt_geom (tables_used p1) p1" "pt_tree path (tables_used p1) p1"
    "u < tables_used p1" "path u = vpath gv" "pt_lookup p1 = pt_lookup p"
    "pager_frame p1 = pager_frame p" "outside_same p p1"
    "tables_used p \<le> tables_used p1" "tables_used p1 \<le> tables_used p + tables_needed p gv"
    by (rule walk_create_spec [OF inv room gv(2)])
  have u: "u < 4096"
    using w(4) pt_geomD(8) [OF w(2)] by simp
  have view1: "pt_view p1 = pt_view p"
    by (simp add: pt_view_def w(6) fun_eq_iff)
  have nz: "gv + of_nat (4096 * l) \<noteq> 0" if "l \<le> k" for l
    using same_table(1) [of gv l] k(1) that gv(2) by (auto simp: unat_eq_zero simp flip: unat_eq_0)
  have leaf: "pt_view p (vpn (gv + of_nat (4096 * l))) = (if present (pte p1 u (i + l)) then Some (pte p1 u (i + l)) else None)"
    if "l \<le> k" for l
    using view_leaf [OF w(2-4) _ nz [OF that]] same_table(2,3) [of gv l] k(1) that w(5) view1
    by (simp add: i_def del: of_nat_mult)
  have loop: "kernel_page_loop p1 (cell_addr p1 u i) gv opts = Some (Inr (cell_addr p1 u (i + k), gv + of_nat (4096 * k), p1))"
  proof (rule kernel_page_loop_finds [OF w(2) u])
    show "i + k < 512" using k(1) by (simp add: i_def)
    show "present (pte p1 u (i + l))" if "l < k" for l
      using k(2) [OF that] leaf [of l] that by (simp split: if_splits)
    show "\<not> present (pte p1 u (i + k))"
      using k(3) leaf [of k] by (simp split: if_splits)
  qed
  define p' where "p' = create_entry p1 (cell_addr p1 u (i + k)) (host_to_guest_physical p h) opts"
  have "cell_addr p1 u i \<noteq> 0"
    using cell_addr_nz [OF w(2) u, of i] by (simp add: i_def)
  then have run: "map_kernel_page p h opts = Some (Inr (gv + of_nat (4096 * k), p'))"
    using gv w(1) loop unfolding map_kernel_page_def Let_def gv(1) [symmetric] by (simp add: i_def p'_def)
  have gk: "vpath (gv + of_nat (4096 * k)) = vpath gv" "tbl_index (gv + of_nat (4096 * k)) 12 = i + k"
    using same_table [OF k(1)] by (simp_all add: i_def)
  note wl = view_write_leaf [OF w(2-4) _ nz [OF order_refl], of p' "entry_value (host_to_guest_physical p h) opts"]
  show ?thesis
    using run wl gk w(5,7,10) view1 outside_same_trans [OF w(8) wl(3)] pager_frame_eqD(1) [OF w(7)]
    by (intro exI [of _ p']) (simp add: p'_def create_entry_def del: of_nat_mult)
qed

end
