(* ===== verification/Vm_Memory.thy ===== *)
theory Vm_Memory
  imports Allocator Pager_Ops
begin

text \<open>
  Pager and region manager together.  \<open>mem_ok\<close> is the invariant of the guest memory of a virtual machine: regions tile
  the chunks, the page tables are well formed and lie in a region of their own, and the TLB is coherent.  The constructor
  \<^verbatim>\<open>RegionManager::RegionManager\<close> establishes it, allocation keeps it and every translation, and every byte of an allocated
  region can be mapped.
\<close>

section \<open>Success of allocation\<close>

text \<open>Adding a chunk succeeds when the host gives memory, KVM accepts the chunk and a slot is left.\<close>

lemma add_chunk_total:
  assumes inv: "chunks_inv (rm_pager rm)" and n: "length (chunks (rm_pager rm)) < 125"
    and room: "unat (total_memsz (rm_pager rm)) + unat sz + 0x8000000 \<le> 2 ^ 52"
    and h: "am (chunks (rm_pager rm)) (grow_size sz) = Inr h" and io: "\<forall>c. ioctl c = 0"
  shows "\<exists>rm'. add_chunk am ioctl rm sz purpose = Inr (0, rm')"
proof -
  define g where "g = grow_size sz"
  obtain i p1 where al: "alloc_chunk (rm_pager rm) h g 0 = (i, p1)"
    by fastforce
  have "slot (chunks p1 ! i) < KVM_MEMORY_SLOTS"
  proof (cases "free_slots (rm_pager rm) = []")
    case True
    then have "slot (chunks p1 ! i) = of_nat (length (chunks (rm_pager rm)))"
      by (rule_tac alloc_chunk_shape [OF al]) simp
    then show ?thesis
      using n by (simp add: KVM_MEMORY_SLOTS_def word_less_nat_alt unsigned_of_nat take_bit_nat_eq_self)
  next
    case False
    then have "slot (chunks p1 ! i) = last (free_slots (rm_pager rm))"
      by (rule_tac alloc_chunk_shape [OF al]) simp
    then show ?thesis
      using False chunks_inv_slot [OF inv, of "last (free_slots (rm_pager rm))"] by simp
  qed
  then have "\<exists>p2. map_chunk_to_kvm ioctl p1 i = Inr (0, p2)"
    using io by (simp add: map_chunk_to_kvm_def Let_def)
  then show ?thesis
    using h al grow_size_facts(4) [OF room]
    unfolding add_chunk_def g_def [symmetric] create_mem_chunk_def Let_def by (auto simp: make_region_def)
qed


section \<open>Translation while memory grows\<close>

text \<open>A pager that differs from \<open>p\<close> in one more chunk at the end.\<close>

definition more_chunks :: "pager \<Rightarrow> pager \<Rightarrow> bool" where
  "more_chunks p p' \<longleftrightarrow> (\<exists>c. p' = p\<lparr>total_memsz := total_memsz p', chunks := chunks p @ [c], free_slots := free_slots p'\<rparr>)"

lemma more_chunks_walk:
  assumes "more_chunks p p'" "chunks p \<noteq> []"
  shows "pt_geom n p' = pt_geom n p" "pt_tree path n p' = pt_tree path n p" "tables_used p' = tables_used p"
    "page_table_walk p' = page_table_walk p" "pg_mem p' = pg_mem p" "pg_tlb p' = pg_tlb p" "host_pml4_p p' = host_pml4_p p"
    "\<exists>c. chunks p' = chunks p @ [c]" "hd (chunks p') = hd (chunks p)"
proof -
  obtain c where p': "p' = p\<lparr>total_memsz := total_memsz p', chunks := chunks p @ [c], free_slots := free_slots p'\<rparr>"
    using assms(1) by (auto simp: more_chunks_def)
  have f: "hd (chunks p') = hd (chunks p)" "chunks p' \<noteq> []" "pg_mem p' = pg_mem p" "host_pml4_p p' = host_pml4_p p"
      "host_next_free_tbl_p p' = host_next_free_tbl_p p" "pg_tlb p' = pg_tlb p"  "chunks p' = chunks p @ [c]"
    by (subst p', simp add: assms(2))+
  show "pt_geom n p' = pt_geom n p" "tables_used p' = tables_used p"
    using f assms(2) by (simp_all add: pt_geom_def tables_used_def)
  show "pt_tree path n p' = pt_tree path n p"
    using f by (simp add: pt_tree_def pt_links_def pte_def cell_addr_def next_tbl_def tbl_addr_def)
  show "pg_mem p' = pg_mem p" "pg_tlb p' = pg_tlb p" "host_pml4_p p' = host_pml4_p p" "\<exists>c. chunks p' = chunks p @ [c]"
    "hd (chunks p') = hd (chunks p)"
    using f(1,3,4,6,7) by simp_all
  have ee: "entry_exists p' e = entry_exists p e" for e
    using f(3) by (simp add: entry_exists_def)
  have "find_next_table p' e = find_next_table p e" for e
    using f(3,7) assms(2) ee by (cases "chunks p") (simp_all add: find_next_table_def)
  then have "walk_levels k l p' b gv = walk_levels k l p b gv" for k l b gv
    by (induction k arbitrary: l b) (simp_all add: ee Let_def)
  then show "page_table_walk p' = page_table_walk p"
    by (intro ext) (simp add: page_table_walk_def f(4) ee cong: option.case_cong)
qed


lemma more_chunks_host_of:
  assumes mc: "more_chunks p p'" and ok: "pager_ok p" and ch: "chunks_inv p'"
  shows "pager_ok p'" "host_of p a \<noteq> 0 \<Longrightarrow> host_of p' a = host_of p a" "pt_view p' = pt_view p"
proof -
  have inv: "pt_inv p"
    using ok by (simp add: pager_ok_def)
  then have ne: "chunks p \<noteq> []"
    by (auto simp: pt_inv_def pt_geom_def)
  note w = more_chunks_walk [OF mc ne]
  have "pt_inv p'"
    using inv w(1-3) by (simp add: pt_inv_def)
  with ch show "pager_ok p'"
    by (simp add: pager_ok_def)
  show "pt_view p' = pt_view p"
    unfolding pt_view_def pt_lookup_def w(4,5) ..
  obtain c where c: "chunks p' = chunks p @ [c]"
    using w(8) by blast
  have "phys_to_host p' g = phys_to_host p g" if "phys_to_host p g \<noteq> 0" for g
    using that by (auto simp: phys_to_host_def c find_append split: option.splits)
  then show "host_of p' a = host_of p a" if "host_of p a \<noteq> 0"
    using that by (auto simp: host_of_def walk_host_p_def w(4,5) res_simps bindE_def split: sum.splits if_splits)
qed


section \<open>The memory of a virtual machine\<close>

text \<open>Allocator and pager together: the page tables lie in an allocated region at the start of the first chunk, so
  that no other region overlaps them.\<close>

definition pager_region :: "rmgr \<Rightarrow> rid \<Rightarrow> bool" where
  "pager_region rm a \<longleftrightarrow> a \<in> set (allocated_regions rm) \<and> reg_size (rm_store rm a) = ELKVM_PAGER_MEMSIZE
     \<and> reg_host_p (rm_store rm a) = host_pml4_p (rm_pager rm)"

definition mem_inv :: "rmgr \<Rightarrow> bool" where
  "mem_inv rm \<longleftrightarrow> rm_inv rm \<and> pager_ok (rm_pager rm) \<and> (\<exists>a. pager_region rm a)
     \<and> host_pml4_p (rm_pager rm) = userspace_addr (hd (chunks (rm_pager rm)))"

definition mem_ok :: "rmgr \<Rightarrow> bool" where
  "mem_ok rm \<longleftrightarrow> mem_inv rm \<and> tlb_ok (rm_pager rm)"

lemma allocate_region_pager:
  assumes inv: "rm_inv rm" and am: "memalign_ok am" and sz: "0 < sz"
    and room: "unat (total_memsz (rm_pager rm)) + unat sz + 0x8000000 \<le> 2 ^ 52"
    and run: "allocate_region am ioctl rm sz purpose = Inr (b, rm')"
  shows "rm_pager rm' = rm_pager rm \<or> more_chunks (rm_pager rm) (rm_pager rm')"
proof (cases "find_free_region rm sz")
  case (Pair r rm1)
  show ?thesis
  proof (cases r)
    case (Some a)
    then show ?thesis
      using allocate_found [OF inv _ sz, of a rm1 purpose] Pair run by (auto simp: allocate_region_def)
  next
    case None
    then have f: "find_free_region rm sz = (None, rm)"
      using Pair find_free_region_None_same by blast
    obtain rm2 a rm3 where ac: "add_chunk am ioctl rm sz purpose = Inr (0, rm2)"
        and f2: "find_free_region rm2 sz = (Some a, rm3)" and ca: "carve_region rm3 a sz purpose = Inr (b, rm')"
    proof -
      obtain rm2 y where ac: "add_chunk am ioctl rm sz purpose = Inr (0, rm2)"
          and y: "(case find_free_region rm2 sz of (r2, rm3) \<Rightarrow> case r2 of None \<Rightarrow> Inl Abort | Some a \<Rightarrow> Inr (a, rm3)) = Inr y"
          and ca: "carve_region (snd y) (fst y) sz purpose = Inr (b, rm')"
        using run f by (auto simp: allocate_region_def res_simps)
      then show ?thesis
        by (cases "find_free_region rm2 sz") (auto split: option.splits intro: that)
    qed
    note as = add_chunk_spec [OF inv am room ac]
    have "rm_pager rm' = rm_pager rm2"
      using allocate_found [OF as(1) f2 sz, of purpose] ca by auto
    then show ?thesis
      using as(6) by (auto simp: more_chunks_def)
  qed
qed

lemma allocate_keeps_mem_ok:
  assumes ok: "mem_ok rm" and am: "memalign_ok am" and sz: "0 < sz"
    and room: "unat (total_memsz (rm_pager rm)) + unat sz + 0x8000000 \<le> 2 ^ 52"
    and run: "allocate_region am ioctl rm sz purpose = Inr (b, rm')"
  shows "mem_ok rm'" "allocated rm sz b rm'" "\<forall>a. host_of (rm_pager rm) a \<noteq> 0 \<longrightarrow> host_of (rm_pager rm') a = host_of (rm_pager rm) a"
    "pt_view (rm_pager rm') = pt_view (rm_pager rm)" "host_pml4_p (rm_pager rm') = host_pml4_p (rm_pager rm)"
    "tables_used (rm_pager rm') = tables_used (rm_pager rm)" "pg_mem (rm_pager rm') = pg_mem (rm_pager rm)"
proof -
  have inv: "rm_inv rm" "pager_ok (rm_pager rm)" "tlb_ok (rm_pager rm)"
    using ok by (simp_all add: mem_ok_def mem_inv_def)
  show al: "allocated rm sz b rm'"
    using allocate_region_cases [OF inv(1) am sz room, of ioctl purpose] run by auto
  then have inv': "rm_inv rm'" and ch': "chunks_inv (rm_pager rm')"
    by (simp_all add: allocated_def rm_inv_def)
  have ne: "chunks (rm_pager rm) \<noteq> []"
    using inv(2) by (auto simp: pager_ok_def pt_inv_def pt_geom_def)
  have pg: "pager_ok (rm_pager rm')" "\<And>a. host_of (rm_pager rm) a \<noteq> 0 \<Longrightarrow> host_of (rm_pager rm') a = host_of (rm_pager rm) a"
    "pt_view (rm_pager rm') = pt_view (rm_pager rm)" "pg_tlb (rm_pager rm') = pg_tlb (rm_pager rm)"
    "host_pml4_p (rm_pager rm') = host_pml4_p (rm_pager rm)" "hd (chunks (rm_pager rm')) = hd (chunks (rm_pager rm))"
    "tables_used (rm_pager rm') = tables_used (rm_pager rm)" "pg_mem (rm_pager rm') = pg_mem (rm_pager rm)"
    using allocate_region_pager [OF inv(1) am sz room run] more_chunks_host_of [OF _ inv(2) ch'] more_chunks_walk [OF _ ne] inv(2)
    by auto
  then show "\<forall>a. host_of (rm_pager rm) a \<noteq> 0 \<longrightarrow> host_of (rm_pager rm') a = host_of (rm_pager rm) a"
    "pt_view (rm_pager rm') = pt_view (rm_pager rm)" "host_pml4_p (rm_pager rm') = host_pml4_p (rm_pager rm)"
    "tables_used (rm_pager rm') = tables_used (rm_pager rm)" "pg_mem (rm_pager rm') = pg_mem (rm_pager rm)"
    by auto
  have "tlb_ok (rm_pager rm')"
    using tlbc.coherent_extend [OF inv(3) [unfolded tlb_ok_def] pg(2)] pg(4) by (simp add: tlb_ok_def)
  moreover have "\<exists>a. pager_region rm' a"
    using ok al pg(5) by (auto simp: mem_ok_def mem_inv_def pager_region_def allocated_def)
  ultimately show "mem_ok rm'"
    using inv' pg ok by (simp add: mem_ok_def mem_inv_def)
qed

text \<open>Every byte of an allocated region, apart from the tables' own region, lies outside the page tables and has a
  non-zero guest-physical address.\<close>

lemma allocated_outside:
  assumes ok: "mem_inv rm" and a: "a \<in> set (allocated_regions rm)" "\<not> pager_region rm a"
    and h: "unat h \<in> region_block rm a"
  shows "h < host_pml4_p (rm_pager rm) \<or> host_pml4_p (rm_pager rm) + ELKVM_SYSTEM_MEMSIZE \<le> h"
    "host_to_guest_physical (rm_pager rm) h \<noteq> 0"
proof -
  let ?p = "rm_pager rm"
  have inv: "rm_inv rm" "chunks_inv ?p" "pt_inv ?p" "host_pml4_p ?p = userspace_addr (hd (chunks ?p))"
    using ok by (simp_all add: mem_inv_def pager_ok_def)
  then have ti: "tiles (chunks ?p) (rm_store rm) (live_ids rm)"
    by (simp add: rm_inv_def)
  obtain s where s: "pager_region rm s"
    using ok by (auto simp: mem_inv_def)
  have "in_chunk (chunks ?p) (rm_store rm a)"
    using tilesD(3) [OF ti] a(1) by (simp add: live_ids_def)
  then obtain c where c: "c \<in> set (chunks ?p)"
      "region_block rm a \<subseteq> {unat (userspace_addr c)..<unat (userspace_addr c) + unat (memory_size c)}"
    by (auto simp: in_chunk_def region_block_def)
  have ch: "contains_address c h"
    using c(2) h by (auto simp: contains_address_unat [OF chunks_invD(1) [OF inv(2) c(1)]])
  have "unat h \<notin> reg_bytes (rm_store rm s)"
    using allocated_apart [OF inv(1) a(1), of s] s a(2) h by (auto simp: pager_region_def region_block_def)
  moreover have top: "unat (host_pml4_p ?p + ELKVM_SYSTEM_MEMSIZE) = unat (host_pml4_p ?p) + 0x1000000"
    using allocated_wf [OF inv(1), of s] s
    by (auto simp: pager_region_def region_wf_def ELKVM_PAGER_MEMSIZE_def ELKVM_SYSTEM_MEMSIZE_def unat_plus_if')
  ultimately show out: "h < host_pml4_p ?p \<or> host_pml4_p ?p + ELKVM_SYSTEM_MEMSIZE \<le> h"
    using s by (auto simp: pager_region_def reg_bytes_def ELKVM_PAGER_MEMSIZE_def word_less_nat_alt word_le_nat_alt)
  show "host_to_guest_physical ?p h \<noteq> 0"
  proof
    assume z: "host_to_guest_physical ?p h = 0"
    have ne: "chunks ?p \<noteq> []" and g0: "guest_phys_addr (hd (chunks ?p)) = 0"
      using inv(3) by (auto simp: pt_inv_def pt_geom_def Let_def)
    have hd: "hd (chunks ?p) \<in> set (chunks ?p)"
      using ne by simp
    have ch0: "contains_address (hd (chunks ?p)) (host_pml4_p ?p)"
      using chunks_invD(1) [OF inv(2) hd] inv(4) by (auto simp: contains_address_unat chunk_ok_def word_less_nat_alt)
    have "host_to_guest_physical ?p (host_pml4_p ?p) = 0"
      using host_to_guest_physical_in(1) [OF inv(2) hd ch0] inv(4) g0 by simp
    then have "host_pml4_p ?p = h"
      using phys_to_host_roundtrip [OF inv(2) hd ch0] phys_to_host_roundtrip [OF inv(2) c(1) ch] z by metis
    with out show False
      using top by (auto simp: word_less_nat_alt word_le_nat_alt)
  qed
qed

lemma allocated_host_nz:
  assumes "rm_inv rm" "a \<in> set (allocated_regions rm)"
  shows "reg_host_p (rm_store rm a) \<noteq> 0"
proof -
  have ti: "tiles (chunks (rm_pager rm)) (rm_store rm) (live_ids rm)" and ch: "chunks_inv (rm_pager rm)"
    using assms(1) by (simp_all add: rm_inv_def)
  have a: "a \<in> live_ids rm"
    using assms(2) by (simp add: live_ids_def)
  obtain c where c: "c \<in> set (chunks (rm_pager rm))"
      "reg_bytes (rm_store rm a) \<subseteq> {unat (userspace_addr c)..<unat (userspace_addr c) + unat (memory_size c)}"
    using tilesD(3) [OF ti a] by (auto simp: in_chunk_def)
  have "unat (reg_host_p (rm_store rm a)) \<in> reg_bytes (rm_store rm a)"
    using tilesD(2) [OF ti a] by (simp add: reg_bytes_def region_wf_def word_less_nat_alt)
  moreover have "0 < unat (userspace_addr c)"
    using chunks_invD(1) [OF ch c(1)] by (simp add: chunk_ok_def unat_gt_0)
  ultimately show ?thesis
    using c(2) by auto
qed

text \<open>The first allocation of an empty manager lies at the start of its first chunk.\<close>

lemma first_allocation:
  assumes inv: "rm_inv rm" and empty: "free_ids rm = {}" "chunks (rm_pager rm) = []" and sz: "0 < sz"
    and am: "memalign_ok am" "am [] (grow_size sz) = Inr h" and io: "\<forall>c. ioctl c = 0"
    and room: "unat (total_memsz (rm_pager rm)) + unat sz + 0x8000000 \<le> 2 ^ 52"
  obtains b rm' c where "allocate_region am ioctl rm sz purpose = Inr (b, rm')" "allocated rm sz b rm'"
    "chunks (rm_pager rm') = [c]" "pg_tlb (rm_pager rm') = pg_tlb (rm_pager rm)"
    "reg_host_p (rm_store rm' b) = userspace_addr c" "memory_size c = grow_size sz"
proof -
  have f: "find_free_region rm sz = (None, rm)"
  proof (cases "find_free_region rm sz")
    case (Pair r rm1)
    then show ?thesis
      using find_free_region_Some(3) [OF inv, of sz _ rm1] find_free_region_None_same [of rm sz rm1] empty(1)
      by (cases r) auto
  qed
  have ch: "chunks_inv (rm_pager rm)"
    using inv by (simp add: rm_inv_def)
  obtain rm2 where ac: "add_chunk am ioctl rm sz purpose = Inr (0, rm2)"
    using add_chunk_total [OF ch _ room _ io, where am = am and h = h and purpose = purpose] empty(2) am(2) by auto
  note as = add_chunk_spec [OF inv am(1) room ac]
  obtain c where c: "chunks (rm_pager rm2) = [c]" "pg_tlb (rm_pager rm2) = pg_tlb (rm_pager rm)"
      "rm_store rm2 (rm_next rm) = Region (userspace_addr c) (memory_size c) purpose" "memory_size c = grow_size sz"
  proof -
    obtain c where c: "rm_pager rm2 = (rm_pager rm)\<lparr>total_memsz := total_memsz (rm_pager rm2), chunks := chunks (rm_pager rm) @ [c],
       free_slots := free_slots (rm_pager rm2)\<rparr>" "rm_store rm2 (rm_next rm) = Region (userspace_addr c) (memory_size c) purpose"
       "memory_size c = grow_size sz"
      using as(6) by blast
    have "chunks (rm_pager rm2) = [c]" "pg_tlb (rm_pager rm2) = pg_tlb (rm_pager rm)"
      by (subst c(1), simp add: empty(2))+
    then show ?thesis
      using that c(2,3) by blast
  qed
  obtain a rm3 where f2: "find_free_region rm2 sz = (Some a, rm3)"
    using as(1,2) find_free_region_None [of rm2 sz] by (metis option.exhaust rm_inv_def surj_pair)
  note ff = find_free_region_Some [OF as(1) f2]
  have a: "a = rm_next rm"
    using ff(3) as(5) empty(1) by auto
  have le: "sz \<le> reg_size (rm_store rm3 a)"
    using ff(2,5) by simp
  obtain b rm' where cr: "carve_region rm3 a sz purpose = Inr (b, rm')" "reg_host_p (rm_store rm' b) = reg_host_p (rm_store rm3 a)"
      "rm_pager rm' = rm_pager rm3"
    by (rule carve_region_spec [OF ff(1) sz le, where purpose = purpose]) blast
  have run: "allocate_region am ioctl rm sz purpose = Inr (b, rm')"
    using f ac f2 cr(1) by (simp add: allocate_region_def)
  have "allocated rm sz b rm'"
    using allocate_region_cases [OF inv am(1) sz room, of ioctl purpose] run by auto
  then show ?thesis
    using that [OF run] c cr(2,3) ff(5,6) a by simp
qed

text \<open>The constructor: an empty manager grows by one chunk, the pager memory is its first region.\<close>

lemma RegionManager_establishes_mem_ok:
  assumes fd: "0 < fd" and am: "memalign_ok am" "am [] ELKVM_SYSTEM_MEMGROW = Inr h" and io: "\<forall>c. ioctl c = 0"
  obtains rm where "RegionManager am ioctl fd m TLB = Inr rm" "mem_ok rm" "pt_view (rm_pager rm) = Map.empty"
    "tables_used (rm_pager rm) = 1" "total_memsz (rm_pager rm) = ELKVM_SYSTEM_MEMGROW"
    "\<exists>a. allocated_regions rm = [a] \<and> pager_region rm a"
proof -
  obtain p0 where p0: "PagerX86_64 fd m TLB = Inr p0" "chunks_inv p0" "chunks p0 = []" "total_memsz p0 = 0" "pg_tlb p0 = TLB"
    using fd by (auto simp: PagerX86_64_def chunks_inv_def slots_inv_def)
  define rm0 where "rm0 = \<lparr>rm_store = (\<lambda>_. Region 0 0 ''''), rm_next = 0, allocated_regions = [],
                freelists = (\<lambda>_. []), rm_pager = p0\<rparr>"
  have inv0: "rm_inv rm0"
    using p0(2,3) by (simp add: rm0_def rm_inv_def lists_ok_def live_ids_def free_ids_def tiles_def chunks_size_def)
  have room: "unat (total_memsz (rm_pager rm0)) + unat ELKVM_PAGER_MEMSIZE + 0x8000000 \<le> 2 ^ 52"
    by (simp add: rm0_def p0(4) ELKVM_PAGER_MEMSIZE_def)
  obtain b rm1 c where al: "allocate_region am ioctl rm0 ELKVM_PAGER_MEMSIZE ''ELKVM Pager Memory'' = Inr (b, rm1)"
      and rm1: "allocated rm0 ELKVM_PAGER_MEMSIZE b rm1" "chunks (rm_pager rm1) = [c]" "pg_tlb (rm_pager rm1) = TLB"
        "reg_host_p (rm_store rm1 b) = userspace_addr c" "memory_size c = grow_size ELKVM_PAGER_MEMSIZE"
    by (rule first_allocation [OF inv0 _ _ _ am(1) _ io, where sz = ELKVM_PAGER_MEMSIZE])
      (use p0 am(2) room in \<open>auto simp: rm0_def free_ids_def grow_size_def ELKVM_PAGER_MEMSIZE_def ELKVM_SYSTEM_MEMGROW_def\<close>)
  have r: "reg_size (rm_store rm1 b) = ELKVM_PAGER_MEMSIZE" "rm_inv rm1" "allocated_regions rm1 = [b]"
    using rm1(1) by (simp_all add: allocated_def pagesize_align_def ELKVM_PAGER_MEMSIZE_def rm0_def ELKVM_PAGE_MASK_def)
  have ch: "chunks_inv (rm_pager rm1)" and ti: "tiles [c] (rm_store rm1) (live_ids rm1)"
    using r(2) rm1(2) by (simp_all add: rm_inv_def)
  have b: "b \<in> live_ids rm1"
    by (simp add: live_ids_def r(3))
  have wf: "region_wf (rm_store rm1 b)" "reg_bytes (rm_store rm1 b) \<subseteq> {unat (userspace_addr c)..<unat (userspace_addr c) + unat (memory_size c)}"
    using tilesD(2,3) [OF ti b] by (simp_all add: in_chunk_def)
  have sz: "unat (userspace_addr c) + 0x1000000 \<le> unat (userspace_addr c) + unat (memory_size c)"
    using wf(2) by (simp add: reg_bytes_def rm1(4) r(1) ELKVM_PAGER_MEMSIZE_def)
  obtain p' where p': "set_pml4 (rm_pager rm1) (userspace_addr c) = Inr (0, p')" "pt_inv p'"
      "tables_used p' = 1" "pt_view p' = Map.empty" "chunks p' = [c]" "chunks_inv p'" "host_pml4_p p' = userspace_addr c"
    using set_pml4_spec [OF ch rm1(2) _ order_refl sz] chunks_invD(1) [OF ch] rm1(2) by (auto simp: chunk_ok_def)
  have p'': "pg_tlb p' = TLB" "total_memsz p' = total_memsz (rm_pager rm1)"
    using p'(1) rm1(3) by (auto simp: set_pml4_def create_page_tables_def res_simps Let_def split: list.splits)
  define rm where "rm = rm1\<lparr>rm_pager := p'\<rparr>"
  have run: "RegionManager am ioctl fd m TLB = Inr rm"
    using al p'(1) rm1(4) by (simp add: RegionManager_def p0(1) rm0_def rm_def Let_def)
  have pr: "pager_region rm b"
    by (simp add: pager_region_def rm_def r rm1(4) p'(7))
  have "rm_inv rm"
    using r(2) p'(5,6) rm1(2) by (simp add: rm_inv_def lists_ok_def live_ids_def free_ids_def rm_def)
  then have mem: "mem_ok rm"
    using p' p''(1) pr by (auto simp: mem_ok_def mem_inv_def pager_ok_def rm_def tlb_ok_def tlbc.coherent_empty)
  have "unat (total_memsz p') = unat (memory_size c)"
    using p'(5,6) by (simp add: chunks_inv_def chunks_size_def)
  then have "total_memsz p' = ELKVM_SYSTEM_MEMGROW"
    by (simp add: rm1(5) grow_size_def ELKVM_PAGER_MEMSIZE_def ELKVM_SYSTEM_MEMGROW_def word_unat_eq_iff)
  then show ?thesis
    using that [OF run mem] p' pr r(3) by (simp add: rm_def)
qed

section \<open>Mapping an allocated region\<close>

lemma mem_inv_frame:
  assumes "mem_inv rm" "pager_frame p' = pager_frame (rm_pager rm)" "pt_inv p'"
  shows "mem_inv (rm\<lparr>rm_pager := p'\<rparr>)"
proof -
  note f = pager_frame_eqD [OF assms(2)]
  show ?thesis
    using assms(1,3) f frame_to_guest(3) [OF assms(2)]
    by (auto simp: mem_inv_def rm_inv_def lists_ok_def live_ids_def free_ids_def pager_ok_def pager_region_def)
qed

text \<open>The page of \<open>gv\<close> is not mapped, or already to the frame of \<open>h\<close>.\<close>

definition free_or_same :: "pager \<Rightarrow> hostptr \<Rightarrow> guestptr \<Rightarrow> bool" where
  "free_or_same p h gv \<longleftrightarrow> (case pt_view p (vpn gv) of None \<Rightarrow> True
     | Some e \<Rightarrow> pte_addr e = page_begin (host_to_guest_physical p h))"

lemma range_page:
  fixes gv :: u64
  assumes al: "page_aligned gv" and top: "unat gv + 4096 * n \<le> 2 ^ 64" and off: "off < 4096 * n"
  shows "gv + of_nat off = (gv + of_nat (4096 * (off div 4096))) + of_nat (off mod 4096)"
    "page_begin (gv + of_nat off) = gv + of_nat (4096 * (off div 4096))"
    "(gv + of_nat off) AND 0xFFF = of_nat (off mod 4096)" "off div 4096 < n"
    "unat (gv + of_nat off) = unat gv + off"
proof -
  show s: "gv + of_nat off = (gv + of_nat (4096 * (off div 4096))) + of_nat (off mod 4096)"
    by (metis add.assoc mult_div_mod_eq of_nat_add)
  show "off div 4096 < n"
    using off by (simp add: div_less_iff_less_mult mult.commute)
  have add: "unat (gv + of_nat k) = unat gv + k" if "k \<le> off" for k
  proof -
    have "unat (of_nat k :: u64) = k"
      using that off top by (intro unat_of_nat_small) linarith
    then show ?thesis
      using that off top by (simp add: unat_plus_if')
  qed
  show u: "unat (gv + of_nat off) = unat gv + off"
    by (rule add) simp
  obtain j where j: "unat gv = 4096 * j"
    using al by (auto simp: page_aligned_iff elim: dvdE)
  have m: "unat (gv + of_nat off) mod 4096 = off mod 4096"
    unfolding u j by simp
  have "off - off mod 4096 = 4096 * (off div 4096)"
    by (simp add: minus_mod_eq_mult_div)
  moreover have "unat (gv + of_nat (4096 * (off div 4096))) = unat gv + 4096 * (off div 4096)"
    by (rule add) simp
  ultimately show "page_begin (gv + of_nat off) = gv + of_nat (4096 * (off div 4096))"
    unfolding word_unat_eq_iff unat_page_begin m unfolding u by (metis Nat.add_diff_assoc mod_less_eq_dividend)
  have "unat (of_nat (off mod 4096) :: u64) = off mod 4096"
    by (rule unat_of_nat_small) (use mod_less_divisor [of 4096 off] in simp)
  then show "(gv + of_nat off) AND 0xFFF = of_nat (off mod 4096)"
    unfolding word_unat_eq_iff unat_page_offset m by simp
qed

text \<open>The pages of an allocated region satisfy what \<open>map_region\<close> asks of each page.\<close>

lemma allocated_pages_mappable:
  assumes ok: "mem_inv rm" and a: "a \<in> set (allocated_regions rm)" "\<not> pager_region rm a"
    and gv: "page_aligned gv" "0 < gv" "unat gv + 4096 * n \<le> 2 ^ 64" and n: "4096 * n \<le> unat (reg_size (rm_store rm a))" "0 < n"
    and same: "\<And>k. k < n \<Longrightarrow> free_or_same (rm_pager rm) (reg_host_p (rm_store rm a) + of_nat (4096 * k)) (gv + of_nat (4096 * k))"
  obtains c where "c \<in> set (chunks (rm_pager rm))"
    "\<And>k. k < n \<Longrightarrow> page_mappable (rm_pager rm) c (reg_host_p (rm_store rm a) + of_nat (4096 * k)) (gv + of_nat (4096 * k))"
    "\<And>off. off < 4096 * n \<Longrightarrow> contains_address c (reg_host_p (rm_store rm a) + of_nat off)"
proof -
  let ?p = "rm_pager rm" and ?H = "reg_host_p (rm_store rm a)"
  have inv: "rm_inv rm" "chunks_inv ?p"
    using ok by (simp_all add: mem_inv_def pager_ok_def)
  have wf: "page_aligned ?H" "unat ?H + 4096 * n \<le> 2 ^ 64"
    using allocated_wf [OF inv(1) a(1)] n by (simp_all add: region_wf_def)
  have inb: "unat (?H + of_nat off) \<in> region_block rm a" if "off < 4096 * n" for off
    using range_page(5) [OF wf that] that n by (simp add: region_block_def reg_bytes_def)
  have nz: "gv + of_nat off \<noteq> 0" if "off < 4096 * n" for off
    using range_page(5) [OF gv(1,3) that] gv(2) by (auto simp: word_less_nat_alt unat_eq_0)
  obtain c where c: "c \<in> set (chunks ?p)" "region_block rm a \<subseteq> {unat (userspace_addr c)..<unat (userspace_addr c) + unat (memory_size c)}"
    using tilesD(3) [of "chunks ?p" "rm_store rm" "live_ids rm" a] inv(1) a(1)
    by (auto simp: rm_inv_def live_ids_def in_chunk_def region_block_def)
  have cc: "contains_address c (?H + of_nat off)" if "off < 4096 * n" for off
    using c(2) inb [OF that] by (auto simp: contains_address_unat [OF chunks_invD(1) [OF inv(2) c(1)]])
  have "page_mappable ?p c (?H + of_nat (4096 * k)) (gv + of_nat (4096 * k))" if "k < n" for k
  proof -
    have k: "4096 * k < 4096 * n"
      using that by simp
    have off: "(?H + of_nat (4096 * k)) AND ELKVM_PAGE_MASK = (gv + of_nat (4096 * k)) AND ELKVM_PAGE_MASK"
      using range_page(3) [OF wf k] range_page(3) [OF gv(1,3) k] by (simp add: ELKVM_PAGE_MASK_def)
    have out: "?H + of_nat (4096 * k) < host_pml4_p ?p \<or> host_pml4_p ?p + ELKVM_SYSTEM_MEMSIZE \<le> ?H + of_nat (4096 * k)"
      "host_to_guest_physical ?p (?H + of_nat (4096 * k)) \<noteq> 0"
      using allocated_outside [OF ok a inb [OF k]] by simp_all
    show ?thesis
      using off out nz [OF k] cc [OF k] same [OF that] by (simp add: page_mappable_def free_or_same_def)
  qed
  then show ?thesis
    using that c(1) cc by blast
qed

lemma mapped_pages:
  assumes ok: "mem_ok rm" and a: "a \<in> set (allocated_regions rm)" "\<not> pager_region rm a"
    and gv: "page_aligned gv" "0 < gv" "unat gv + 4096 * n \<le> 2 ^ 64" and n: "4096 * n \<le> unat (reg_size (rm_store rm a))" "0 < n"
    and same: "\<And>k. k < n \<Longrightarrow> free_or_same (rm_pager rm) (reg_host_p (rm_store rm a) + of_nat (4096 * k)) (gv + of_nat (4096 * k))"
    and q: "pt_inv p'" "pager_frame p' = pager_frame (rm_pager rm)"
      "\<forall>k<n. pt_view p' (vpn (gv + of_nat (4096 * k))) =
         Some (entry_value (host_to_guest_physical (rm_pager rm) (reg_host_p (rm_store rm a) + of_nat (4096 * k))) opts)"
      "\<forall>v. (\<forall>k<n. v \<noteq> vpn (gv + of_nat (4096 * k))) \<longrightarrow> pt_view p' v = pt_view (rm_pager rm) v"
  shows "mem_ok (rm\<lparr>rm_pager := p'\<rparr>)"
    "\<And>off. off < 4096 * n \<Longrightarrow> host_of p' (gv + of_nat off) = reg_host_p (rm_store rm a) + of_nat off"
    "\<And>b. host_of (rm_pager rm) b \<noteq> 0 \<Longrightarrow> host_of p' b = host_of (rm_pager rm) b"
proof -
  let ?p = "rm_pager rm" and ?H = "reg_host_p (rm_store rm a)"
  obtain c where c: "c \<in> set (chunks ?p)"
    "\<And>k. k < n \<Longrightarrow> page_mappable ?p c (?H + of_nat (4096 * k)) (gv + of_nat (4096 * k))"
    "\<And>off. off < 4096 * n \<Longrightarrow> contains_address c (?H + of_nat off)"
    using allocated_pages_mappable [OF _ a gv n same] ok by (auto simp: mem_ok_def)
  have inv: "chunks_inv ?p" "pt_inv ?p" "tlb_ok ?p" "rm_inv rm"
    using ok by (simp_all add: mem_ok_def mem_inv_def pager_ok_def)
  have wf: "page_aligned ?H" "unat ?H + 4096 * n \<le> 2 ^ 64"
    using allocated_wf [OF inv(4) a(1)] n by (simp_all add: region_wf_def)
  have pok: "pager_ok p'"
    using q(1) inv(1) frame_to_guest(3) [OF q(2)] by (simp add: pager_ok_def)
  have page: "host_of p' (gv + of_nat (4096 * k)) = ?H + of_nat (4096 * k)" if "k < n" for k
  proof (rule map_then_walk [OF inv(1) q(1,2) c(1)])
    have k: "4096 * k < 4096 * n"
      using that by simp
    show "contains_address c (?H + of_nat (4096 * k))"
      by (rule c(3) [OF k])
    show "(?H + of_nat (4096 * k)) AND 0xFFF = (gv + of_nat (4096 * k)) AND 0xFFF"
      using range_page(3) [OF wf k] range_page(3) [OF gv(1,3) k] by simp
    show "gv + of_nat (4096 * k) \<noteq> 0"
      using c(2) [OF that] by (simp add: page_mappable_def)
  qed (use q(3) that in blast)
  have tr: "host_of p' (gv + of_nat off) = ?H + of_nat off" if off: "off < 4096 * n" for off
  proof -
    note g = range_page [OF gv(1,3) off] and h = range_page [OF wf off]
    define k where "k = off div 4096"
    have k: "k < n" "4096 * k < 4096 * n"
      using g(4) by (simp_all add: k_def)
    have pb: "page_begin (gv + of_nat (4096 * k)) = gv + of_nat (4096 * k)" "page_begin (gv + of_nat (4096 * k)) \<noteq> 0"
      "page_begin (?H + of_nat (4096 * k)) = ?H + of_nat (4096 * k)"
      using range_page(2) [OF gv(1,3) k(2)] range_page(2) [OF wf k(2)] c(2) [OF k(1)] by (simp_all add: page_mappable_def)
    have "host_of p' (gv + of_nat (4096 * k)) \<noteq> 0"
      unfolding page [OF k(1)] using chunks_invD(1) [OF inv(1) c(1)] c(3) [OF k(2)]
      by (auto simp: contains_address_def chunk_ok_def)
    then have "host_of p' (gv + of_nat off) = page_begin (?H + of_nat (4096 * k)) OR ((gv + of_nat off) AND 0xFFF)"
      using host_of_pagedD [OF pok pb(2), of "gv + of_nat off"] g(2) pb(1) page [OF k(1)] by (simp add: k_def)
    also have "\<dots> = page_begin (?H + of_nat off) OR ((?H + of_nat off) AND 0xFFF)"
      using pb(3) h(2,3) g(3) by (simp add: k_def)
    also have "\<dots> = ?H + of_nat off"
      using page_begin_or_offset [OF page_aligned_page_begin] page_begin_plus_offset by simp
    finally show ?thesis .
  qed
  have ext: "\<exists>e'. pt_view p' v = Some e' \<and> pte_addr e' = pte_addr e" if v: "pt_view ?p v = Some e" for v e
  proof (cases "\<exists>k<n. v = vpn (gv + of_nat (4096 * k))")
    case True
    then obtain k where k: "k < n" "v = vpn (gv + of_nat (4096 * k))"
      by blast
    have "unat (host_to_guest_physical ?p (?H + of_nat (4096 * k))) < 2 ^ 52"
      by (rule host_to_guest_physical_in(4) [OF inv(1) c(1) c(3)]) (use k(1) in simp)
    then show ?thesis
      using q(3) k v c(2) [OF k(1)] by (auto simp: page_mappable_def pte_addr_entry_value pte_addr_page_begin)
  qed (use q(4) v in auto)
  have keep: "host_of p' b = host_of ?p b" if "host_of ?p b \<noteq> 0" for b
    using host_of_extend [OF inv(2) q(1,2) ext that] .
  have "tlb_ok p'"
    using tlbc.coherent_extend [OF inv(3) [unfolded tlb_ok_def] keep] pager_frame_eqD(3) [OF q(2)] by (simp add: tlb_ok_def)
  then show "mem_ok (rm\<lparr>rm_pager := p'\<rparr>)"
    using mem_inv_frame [OF _ q(2,1)] ok by (auto simp: mem_ok_def)
  show "\<And>off. off < 4096 * n \<Longrightarrow> host_of p' (gv + of_nat off) = ?H + of_nat off"
    by (rule tr)
  show "\<And>b. host_of ?p b \<noteq> 0 \<Longrightarrow> host_of p' b = host_of ?p b"
    by (rule keep)
qed

lemma map_region_allocated:
  assumes ok: "mem_ok rm" and a: "a \<in> set (allocated_regions rm)" "\<not> pager_region rm a"
    and gv: "page_aligned gv" "0 < gv" "unat gv + 4096 * n \<le> 2 ^ 64" and n: "4096 * n \<le> unat (reg_size (rm_store rm a))" "0 < n"
    and tab: "tables_used (rm_pager rm) + 3 * areas gv n \<le> 4096"
    and same: "\<And>k. k < n \<Longrightarrow> free_or_same (rm_pager rm) (reg_host_p (rm_store rm a) + of_nat (4096 * k)) (gv + of_nat (4096 * k))"
  obtains p' where "map_region (rm_pager rm) (reg_host_p (rm_store rm a)) gv (of_nat n) opts = Inr (0, p')"
    "mem_ok (rm\<lparr>rm_pager := p'\<rparr>)" "pager_frame p' = pager_frame (rm_pager rm)" "outside_same (rm_pager rm) p'"
    "\<And>off. off < 4096 * n \<Longrightarrow> host_of p' (gv + of_nat off) = reg_host_p (rm_store rm a) + of_nat off"
    "\<And>b. host_of (rm_pager rm) b \<noteq> 0 \<Longrightarrow> host_of p' b = host_of (rm_pager rm) b"
    "\<And>v. (\<And>k. k < n \<Longrightarrow> v \<noteq> vpn (gv + of_nat (4096 * k))) \<Longrightarrow> pt_view p' v = pt_view (rm_pager rm) v"
    "tables_used p' \<le> tables_used (rm_pager rm) + 3 * areas gv n"
proof -
  let ?p = "rm_pager rm" and ?H = "reg_host_p (rm_store rm a)"
  obtain c where c: "c \<in> set (chunks ?p)"
    "\<And>k. k < n \<Longrightarrow> page_mappable ?p c (?H + of_nat (4096 * k)) (gv + of_nat (4096 * k))"
    "\<And>off. off < 4096 * n \<Longrightarrow> contains_address c (?H + of_nat off)"
    using allocated_pages_mappable [OF _ a gv n same] ok by (auto simp: mem_ok_def)
  have inv: "chunks_inv ?p" "pt_inv ?p" "tlb_ok ?p" "rm_inv rm"
    using ok by (simp_all add: mem_ok_def mem_inv_def pager_ok_def)
  have un: "unat (of_nat n :: u32) = n"
    using tab areas_ge [of n gv] by (simp add: unsigned_of_nat take_bit_nat_eq_self)
  obtain p' where p': "map_region ?p ?H gv (of_nat n) opts = Inr (0, p')" "pt_inv p'" "pager_frame p' = pager_frame ?p"
      "outside_same ?p p'"
      "\<forall>k<n. pt_view p' (vpn (gv + of_nat (4096 * k))) = Some (entry_value (host_to_guest_physical ?p (?H + of_nat (4096 * k))) opts)"
      "\<forall>v. (\<forall>k<n. v \<noteq> vpn (gv + of_nat (4096 * k))) \<longrightarrow> pt_view p' v = pt_view ?p v"
      "tables_used p' \<le> tables_used ?p + range_tables ?p gv n"
    using map_region_loop_spec [OF inv(2) add_areas [OF tab] c(2), of opts] unfolding map_region_def un by blast
  have used: "tables_used p' \<le> tables_used ?p + 3 * areas gv n"
    using p'(7) range_tables_le [of ?p gv n] by linarith
  note mp = mapped_pages [OF ok a gv n same p'(2,3,5,6)]
  show ?thesis
    by (rule that [OF p'(1) mp(1) p'(3,4) mp(2,3) _ used]) (use p'(6) in auto)
qed

end
