(* ===== verification/Mappings.thy ===== *)
theory Mappings
  imports Vm_Memory
begin

text \<open>
  Guest mappings, class \<^verbatim>\<open>Mapping\<close> of \<^verbatim>\<open>src/src/mapping.cc\<close> and \<^verbatim>\<open>include/elkvm/mapping.h\<close>: a window of guest
  address space backed by the front of a region.  The region is shared, so a mapping holds its identity \<open>m_region\<close> and
  the operations that touch it take and return the region manager.  The file system calls of \<^verbatim>\<open>fill\<close> are a parameter.
\<close>

section \<open>Definitions\<close>

definition PROT_READ :: u32 where "PROT_READ = 1"
definition PROT_WRITE :: u32 where "PROT_WRITE = 2"
definition PROT_EXEC :: u32 where "PROT_EXEC = 4"
definition MAP_FIXED :: u32 where "MAP_FIXED = 0x10"
definition MAP_ANONYMOUS :: u32 where "MAP_ANONYMOUS = 0x20"

record mapping =
  m_host_p :: hostptr
  m_addr :: guestptr
  m_length :: u64
  m_pages :: u32
  m_prot :: u32
  m_flags :: u32
  m_fd :: int
  m_offset :: u64
  m_region :: rid

text \<open>Host files: the position of a descriptor, the result of seeking to an offset, and the bytes one \<^verbatim>\<open>read\<close> of a
  count at an offset returns (none at the end of the file or on an error).\<close>

record host_files =
  lseek_cur :: "int \<Rightarrow> int"
  lseek_set :: "int \<Rightarrow> int \<Rightarrow> int"
  read_at :: "int \<Rightarrow> int \<Rightarrow> nat \<Rightarrow> u8 list"

text \<open>\<^verbatim>\<open>int err = lseek(\<dots>)\<close> keeps the low 32 bits.\<close>

definition to_int :: "int \<Rightarrow> int" where
  "to_int x = sint (of_int x :: u32)"

definition region_of :: "rmgr \<Rightarrow> mapping \<Rightarrow> region" where
  "region_of rm m = rm_store rm (m_region m)"

definition Mapping ::
  "rmgr \<Rightarrow> rid \<Rightarrow> guestptr \<Rightarrow> u64 \<Rightarrow> u32 \<Rightarrow> u32 \<Rightarrow> int \<Rightarrow> u64 \<Rightarrow> (mapping \<times> rmgr) res" where
  "Mapping rm r guest_addr l pr f fdes off =
     bindE (assertE (l \<le> reg_size (rm_store rm r))) (\<lambda>_.
     let host = reg_host_p (rm_store rm r);
         addr = (if guest_addr = 0 then host else guest_addr);
         rm1 = update_region rm r (set_guest_addr addr (rm_store rm r))
     in bindE (assertE (\<not> reg_free (rm_store rm1 r))) (\<lambda>_.
        Inr (\<lparr>m_host_p = host, m_addr = addr, m_length = l, m_pages = pages_from_size l, m_prot = pr,
              m_flags = f, m_fd = fdes, m_offset = off, m_region = r\<rparr>, rm1)))"

definition set_len :: "u64 \<Rightarrow> mapping \<Rightarrow> mapping" where
  "set_len l m = m\<lparr>m_length := l, m_pages := pages_from_size l\<rparr>"

definition grow_to_fill :: "rmgr \<Rightarrow> mapping \<Rightarrow> guestptr \<times> mapping" where
  "grow_to_fill rm m =
     (let m1 = set_len (reg_size (region_of rm m)) (m\<lparr>m_addr := reg_addr (region_of rm m)\<rparr>)
      in (m_addr m1 + m_length m1, m1))"

definition move_guest_address :: "rmgr \<Rightarrow> mapping \<Rightarrow> u64 \<Rightarrow> (rid \<times> mapping \<times> rmgr) res" where
  "move_guest_address rm m off =
     bindE (assertE (0 < sint off)) (\<lambda>_.
     bindE (assertE ((ucast off :: u32) < ucast (m_length m))) (\<lambda>_.
     bindE (assertE (m_length m \<le> reg_size (region_of rm m))) (\<lambda>_.
     let m1 = (set_len (m_length m - off) m)\<lparr>m_addr := m_addr m + off, m_host_p := m_host_p m + off\<rparr> in
     bindE (slice_begin (region_of rm m) off ''anon region'') (\<lambda>(new, rest).
     let (r, rm1) = make_region (update_region rm (m_region m) rest) new in
     bindE (assertE (m_length m1 \<le> reg_size (region_of rm1 m1))) (\<lambda>_.
     Inr (r, m1, rm1))))))"

definition set_length :: "rmgr \<Rightarrow> mapping \<Rightarrow> u64 \<Rightarrow> mapping res" where
  "set_length rm m len =
     bindE (assertE (len \<le> m_length m)) (\<lambda>_.
     bindE (assertE (len \<le> reg_size (region_of rm m))) (\<lambda>_.
     Inr (set_len len m)))"

definition anonymous :: "mapping \<Rightarrow> bool" where "anonymous m \<longleftrightarrow> m_flags m AND MAP_ANONYMOUS \<noteq> 0"
definition readable :: "mapping \<Rightarrow> bool" where "readable m \<longleftrightarrow> m_prot m AND PROT_READ \<noteq> 0"
definition executable :: "mapping \<Rightarrow> bool" where "executable m \<longleftrightarrow> m_prot m AND PROT_EXEC \<noteq> 0"
definition writeable :: "mapping \<Rightarrow> bool" where "writeable m \<longleftrightarrow> m_prot m AND PROT_WRITE \<noteq> 0"

definition all_unmapped :: "mapping \<Rightarrow> bool" where "all_unmapped m \<longleftrightarrow> m_pages m = 0"
definition set_unmapped :: "mapping \<Rightarrow> mapping" where "set_unmapped m = m\<lparr>m_length := 0, m_pages := 0\<rparr>"
definition pages_unmapped :: "u32 \<Rightarrow> mapping \<Rightarrow> mapping" where "pages_unmapped n m = m\<lparr>m_pages := m_pages m - n\<rparr>"

definition mapping_contains_host :: "mapping \<Rightarrow> hostptr \<Rightarrow> bool" where
  "mapping_contains_host m p \<longleftrightarrow> m_host_p m \<le> p \<and> p < m_host_p m + m_length m"

definition mapping_contains :: "mapping \<Rightarrow> guestptr \<Rightarrow> bool" where
  "mapping_contains m a \<longleftrightarrow> m_addr m \<le> a \<and> a < m_addr m + m_length m"

definition fits_address :: "rmgr \<Rightarrow> mapping \<Rightarrow> guestptr \<Rightarrow> bool" where
  "fits_address rm m a \<longleftrightarrow> reg_addr (region_of rm m) \<le> a
     \<and> a < reg_addr (region_of rm m) + reg_size (region_of rm m)"

text \<open>The loop of \<^verbatim>\<open>fill\<close>: \<open>tot\<close> bytes have been read to \<open>buf\<close>; every read that goes on makes progress.\<close>

function fill_loop :: "host_files \<Rightarrow> mapping \<Rightarrow> memory \<Rightarrow> hostptr \<Rightarrow> nat \<Rightarrow> nat \<times> hostptr \<times> memory" where
  "fill_loop fs m mem buf tot =
     (if unat (m_length m) < tot then (tot, buf, mem)
      else
        let bytes = take (unat (m_length m) - tot)
              (read_at fs (m_fd m) (sint (m_offset m) + int tot) (unat (m_length m) - tot))
        in if bytes = [] then (tot, buf, mem)
           else fill_loop fs m (write_bytes mem buf bytes) (buf + of_nat (length bytes)) (tot + length bytes))"
  by auto
termination
  by (relation "measure (\<lambda>(fs, m, mem, buf, tot). unat (m_length m) - tot)")
    (auto simp: Let_def not_less min_def simp flip: length_greater_0_conv)

definition fill :: "host_files \<Rightarrow> mapping \<Rightarrow> memory \<Rightarrow> (int \<times> memory) res" where
  "fill fs m mem =
     bindE (assertE (0 < m_fd m)) (\<lambda>_.
     bindE (assertE (0 \<le> lseek_cur fs (m_fd m))) (\<lambda>_.
     bindE (assertE (0 \<le> to_int (lseek_set fs (m_fd m) (sint (m_offset m))))) (\<lambda>_.
     let (tot, buf, mem1) = fill_loop fs m mem (m_host_p m) 0;
         rem = m_length m - of_nat tot;
         mem2 = (if 0 < sint rem then memset mem1 buf 0 rem else mem1);
         err = to_int (lseek_set fs (m_fd m) (lseek_cur fs (m_fd m)))
     in bindE (assertE (0 \<le> err)) (\<lambda>_. Inr (err, mem2)))))"

text \<open>The four steps of \<^verbatim>\<open>modify\<close>; each looks at the fields the step before left.\<close>

definition modify ::
  "host_files \<Rightarrow> mapping \<Rightarrow> memory \<Rightarrow> u32 \<Rightarrow> u32 \<Rightarrow> int \<Rightarrow> u64 \<Rightarrow> (mapping \<times> memory) res" where
  "modify fs m mem pr fl filedes off =
     (let m1 = m\<lparr>m_pages := pages_from_size (m_length m), m_prot := pr\<rparr> in
      bindE (if m_flags m1 \<noteq> fl then
               if anonymous m1 \<and> fl AND MAP_ANONYMOUS = 0 then
                 let m2 = m1\<lparr>m_flags := fl, m_fd := filedes, m_offset := off\<rparr>
                 in bindE (fill fs m2 mem) (\<lambda>(_, mem1). Inr (m2, mem1))
               else Inr (m1\<lparr>m_flags := fl\<rparr>, mem)
             else Inr (m1, mem)) (\<lambda>(m3, mem3).
      bindE (if m_fd m3 \<noteq> filedes then
               let m4 = m3\<lparr>m_offset := off, m_fd := filedes\<rparr>
               in if \<not> anonymous m4 then bindE (fill fs m4 mem3) (\<lambda>(_, mem4). Inr (m4, mem4)) else Inr (m4, mem3)
             else Inr (m3, mem3)) (\<lambda>(m5, mem5).
      if m_offset m5 \<noteq> off then
        let m6 = m5\<lparr>m_offset := off\<rparr>
        in if \<not> anonymous m6 then bindE (fill fs m6 mem5) (\<lambda>(_, mem6). Inr (m6, mem6)) else Inr (m6, mem5)
      else Inr (m5, mem5))))"

definition mprotect :: "u32 \<Rightarrow> mapping \<Rightarrow> mapping" where
  "mprotect pr m = m\<lparr>m_prot := pr\<rparr>"

text \<open>The C view of a mapping that monitors see, \<^verbatim>\<open>struct region_mapping\<close>.\<close>

record c_mapping =
  c_host_p :: hostptr
  c_guest_virt :: guestptr
  c_length :: u64
  c_mapped_pages :: u32
  c_prot :: u32
  c_flags :: u32
  c_fd :: int
  c_offset :: u64

definition c_mapping_of :: "mapping \<Rightarrow> c_mapping" where
  "c_mapping_of m =
     \<lparr>c_host_p = m_host_p m, c_guest_virt = m_addr m, c_length = m_length m, c_mapped_pages = m_pages m,
      c_prot = m_prot m, c_flags = m_flags m, c_fd = m_fd m, c_offset = m_offset m\<rparr>"

definition sync_back :: "host_files \<Rightarrow> rmgr \<Rightarrow> mapping \<Rightarrow> memory \<Rightarrow> c_mapping \<Rightarrow> (mapping \<times> rmgr \<times> memory) res" where
  "sync_back fs rm m mem c =
     (let rm1 = update_region rm (m_region m) (set_guest_addr (c_guest_virt c) (region_of rm m));
          m1 = (set_len (c_length c) m)\<lparr>m_host_p := c_host_p c, m_addr := c_guest_virt c, m_prot := c_prot c\<rparr>
      in if m_flags m1 \<noteq> c_flags c \<or> m_fd m1 \<noteq> c_fd c \<or> m_offset m1 \<noteq> c_offset c then
           let m2 = m1\<lparr>m_flags := c_flags c, m_fd := c_fd c, m_offset := c_offset c\<rparr>
           in bindE (fill fs m2 mem) (\<lambda>(_, mem1). Inr (m2, rm1, mem1))
         else Inr (m1, rm1, mem))"

definition mapping_diff :: "mapping \<Rightarrow> c_mapping \<Rightarrow> int res" where
  "mapping_diff m c =
     bindE (assertE (m_host_p m = c_host_p c)) (\<lambda>_.
     Inr (if m_host_p m \<noteq> c_host_p c \<or> m_addr m \<noteq> c_guest_virt c \<or> m_length m \<noteq> c_length c \<or> m_prot m \<noteq> c_prot c
          then 1 else 0))"

definition mapping_grow :: "rmgr \<Rightarrow> mapping \<Rightarrow> u64 \<Rightarrow> u64 \<times> mapping" where
  "mapping_grow rm m sz =
     (if sz \<le> m_length m then (m_length m, m)
      else
        let l = (if reg_size (region_of rm m) \<le> sz then reg_size (region_of rm m) else sz)
        in (l, set_len l m))"

text \<open>\<^verbatim>\<open>operator==\<close> compares neither the region nor whether the mapping is readable.\<close>

definition mapping_eq :: "mapping \<Rightarrow> mapping \<Rightarrow> bool" where
  "mapping_eq m1 m2 \<longleftrightarrow> m_host_p m1 = m_host_p m2 \<and> m_addr m1 = m_addr m2 \<and> m_length m1 = m_length m2
     \<and> m_pages m1 = m_pages m2 \<and> anonymous m1 = anonymous m2 \<and> writeable m1 = writeable m2
     \<and> executable m1 = executable m2 \<and> m_fd m1 = m_fd m2 \<and> m_offset m1 = m_offset m2"


section \<open>Well-formed mappings\<close>

text \<open>A mapping starts at its region, in the host and in the guest, and is not longer; the page count is that of the
  length.\<close>

definition mapping_wf :: "rmgr \<Rightarrow> mapping \<Rightarrow> bool" where
  "mapping_wf rm m \<longleftrightarrow> m_length m \<le> reg_size (region_of rm m) \<and> m_host_p m = reg_host_p (region_of rm m)
     \<and> m_addr m = reg_addr (region_of rm m) \<and> m_pages m = pages_from_size (m_length m)"

lemma set_len_simps [simp]:
  "m_length (set_len l m) = l" "m_pages (set_len l m) = pages_from_size l" "m_host_p (set_len l m) = m_host_p m"
  "m_addr (set_len l m) = m_addr m" "m_region (set_len l m) = m_region m" "region_of rm (set_len l m) = region_of rm m"
  by (simp_all add: set_len_def region_of_def)

lemma mapping_grow_wf: "mapping_wf rm m \<Longrightarrow> mapping_grow rm m sz = (l, m') \<Longrightarrow>
    mapping_wf rm m' \<and> l = m_length m' \<and> m_length m \<le> l \<and> l \<le> reg_size (region_of rm m)
    \<and> (sz \<le> reg_size (region_of rm m) \<longrightarrow> sz \<le> l)"
  by (auto simp: mapping_grow_def mapping_wf_def Let_def split: if_splits)

lemma grow_to_fill_wf: "mapping_wf rm m \<Longrightarrow> grow_to_fill rm m = (e, m') \<Longrightarrow>
    mapping_wf rm m' \<and> m_length m' = reg_size (region_of rm m) \<and> e = m_addr m + reg_size (region_of rm m)"
  by (auto simp: grow_to_fill_def mapping_wf_def Let_def region_of_def set_len_def)

lemma set_length_wf: "mapping_wf rm m \<Longrightarrow> set_length rm m len = Inr m' \<Longrightarrow> mapping_wf rm m' \<and> m_length m' = len"
  by (auto simp: set_length_def mapping_wf_def res_simps)

lemma Mapping_wf:
  assumes "Mapping rm r ga l pr f fdes off = Inr (m, rm')"
  shows "mapping_wf rm' m" "m_addr m = (if ga = 0 then reg_host_p (rm_store rm r) else ga)" "m_length m = l" "m_region m = r"
    "rm' = update_region rm r (set_guest_addr (m_addr m) (rm_store rm r))"
  using assms by (auto simp: Mapping_def mapping_wf_def region_of_def update_region_def Let_def res_simps)

end
