(* ===== verification/Heap.thy ===== *)
theory Heap
  imports Mappings
begin

text \<open>
  The heap of the guest, class \<^verbatim>\<open>HeapManager\<close> of \<^verbatim>\<open>src/src/heap.cc\<close> and \<^verbatim>\<open>include/elkvm/heap.h\<close>: the mappings behind
  \<^verbatim>\<open>brk\<close> and \<^verbatim>\<open>mmap\<close>.  The code hands out references into two vectors; here a reference is a list and a
  position, \<open>mref\<close>, and names the element now at this position.  (References that the code keeps across an insertion that
  moves the vector to new storage are dangling; positions stay valid.)
\<close>

section \<open>Definitions\<close>

record heap =
  mappings_for_brk :: "mapping list"
  mappings_for_mmap :: "mapping list"
  heap_rm :: rmgr
  curbrk :: guestptr

datatype mref = InBrk nat | InMmap nat

definition HeapManager :: "rmgr \<Rightarrow> heap" where
  "HeapManager rm = \<lparr>mappings_for_brk = [], mappings_for_mmap = [], heap_rm = rm, curbrk = 0\<rparr>"

definition deref :: "heap \<Rightarrow> mref \<Rightarrow> mapping res" where
  "deref h r =
     (case r of
        InBrk i \<Rightarrow> if i < length (mappings_for_brk h) then Inr (mappings_for_brk h ! i) else Inl Fault
      | InMmap i \<Rightarrow> if i < length (mappings_for_mmap h) then Inr (mappings_for_mmap h ! i) else Inl Fault)"

definition put_ref :: "mref \<Rightarrow> mapping \<Rightarrow> heap \<Rightarrow> heap" where
  "put_ref r m h =
     (case r of
        InBrk i \<Rightarrow> h\<lparr>mappings_for_brk := (mappings_for_brk h)[i := m]\<rparr>
      | InMmap i \<Rightarrow> h\<lparr>mappings_for_mmap := (mappings_for_mmap h)[i := m]\<rparr>)"

definition heap_pager :: "heap \<Rightarrow> pager" where
  "heap_pager h = rm_pager (heap_rm h)"

definition set_pager :: "pager \<Rightarrow> heap \<Rightarrow> heap" where
  "set_pager p h = h\<lparr>heap_rm := (heap_rm h)\<lparr>rm_pager := p\<rparr>\<rparr>"

definition set_rm :: "rmgr \<Rightarrow> heap \<Rightarrow> heap" where
  "set_rm rm h = h\<lparr>heap_rm := rm\<rparr>"

text \<open>The first position of an element, as \<^verbatim>\<open>std::find_if\<close> finds it.\<close>

definition index_of :: "('a \<Rightarrow> bool) \<Rightarrow> 'a list \<Rightarrow> nat option" where
  "index_of P xs = (let i = length (takeWhile (\<lambda>x. \<not> P x) xs) in if i < length xs then Some i else None)"

definition brk_back :: "heap \<Rightarrow> mref res" where
  "brk_back h = (if mappings_for_brk h = [] then Inl Fault else Inr (InBrk (length (mappings_for_brk h) - 1)))"

definition brk_contains_address :: "heap \<Rightarrow> guestptr \<Rightarrow> bool res" where
  "brk_contains_address h a =
     (case mappings_for_brk h of
        [] \<Rightarrow> Inl Fault
      | m # _ \<Rightarrow> Inr (m_addr m \<le> a \<and> a < curbrk h))"

definition heap_contains_address :: "heap \<Rightarrow> guestptr \<Rightarrow> bool res" where
  "heap_contains_address h a =
     bindE (brk_contains_address h a) (\<lambda>b.
     if \<not> b then Inr (index_of (\<lambda>m. mapping_contains m a) (mappings_for_mmap h) = None)
     else Inr True)"

definition find_in_lists :: "(mapping \<Rightarrow> bool) \<Rightarrow> heap \<Rightarrow> mref option" where
  "find_in_lists P h =
     (case index_of P (mappings_for_brk h) of
        Some i \<Rightarrow> Some (InBrk i)
      | None \<Rightarrow> map_option InMmap (index_of P (mappings_for_mmap h)))"

definition heap_find_mapping :: "heap \<Rightarrow> guestptr \<Rightarrow> mref res" where
  "heap_find_mapping h a =
     (case find_in_lists (\<lambda>m. mapping_contains m a) h of None \<Rightarrow> Inl Abort | Some r \<Rightarrow> Inr r)"

definition heap_find_mapping_host :: "heap \<Rightarrow> hostptr \<Rightarrow> mref res" where
  "heap_find_mapping_host h p =
     (case find_in_lists (\<lambda>m. mapping_contains_host m p) h of None \<Rightarrow> Inl Abort | Some r \<Rightarrow> Inr r)"

definition address_mapped :: "heap \<Rightarrow> guestptr \<Rightarrow> bool" where
  "address_mapped h a = (find_in_lists (\<lambda>m. mapping_contains m a) h \<noteq> None)"

text \<open>\<^verbatim>\<open>map\<close> gets its mapping by reference and changes it only when it has no access right at all; the new mapping is
  part of the result.\<close>

definition map_opts :: "mapping \<Rightarrow> ptopt" where
  "map_opts m = (if writeable m then PT_OPT_WRITE else 0) OR (if executable m then PT_OPT_EXEC else 0)"

definition heap_map :: "heap \<Rightarrow> mapping \<Rightarrow> (int \<times> mapping \<times> heap) res" where
  "heap_map h m =
     (if \<not> readable m \<and> \<not> writeable m \<and> \<not> executable m then
        bindE (unmap_region (heap_pager h) (m_addr m) (m_pages m)) (\<lambda>(_, p1).
        Inr (0, set_unmapped m, set_pager p1 h))
      else
        let h1 = (if index_of (mapping_eq m) (mappings_for_mmap h) = None
                  then h\<lparr>mappings_for_mmap := mappings_for_mmap h @ [m]\<rparr> else h) in
        bindE (assertE (m_host_p m = reg_host_p (region_of (heap_rm h1) m))) (\<lambda>_.
        bindE (map_region (heap_pager h1) (m_host_p m) (m_addr m) (m_pages m) (map_opts m)) (\<lambda>(err, p1).
        let h2 = set_pager p1 h1 in
        bindE (if reg_free (region_of (heap_rm h2) m)
               then bindE (use_region (heap_rm h2) (m_region m)) (\<lambda>rm. Inr (set_rm rm h2))
               else Inr h2) (\<lambda>h3.
        bindE (assertE (err = 0)) (\<lambda>_.
        Inr (err, m, h3))))))"

definition map_ref :: "heap \<Rightarrow> mref \<Rightarrow> (int \<times> heap) res" where
  "map_ref h r =
     bindE (deref h r) (\<lambda>m.
     bindE (heap_map h m) (\<lambda>(err, m1, h1). Inr (err, put_ref r m1 h1)))"

text \<open>\<^verbatim>\<open>free_mapping\<close> removes the first mapping that is equal to the given one.\<close>

definition free_mapping :: "heap \<Rightarrow> mapping \<Rightarrow> heap res" where
  "free_mapping h m =
     (case index_of (\<lambda>x. mapping_eq x m) (mappings_for_brk h) of
        Some i \<Rightarrow> Inr (h\<lparr>mappings_for_brk := erase_at i (mappings_for_brk h)\<rparr>)
      | None \<Rightarrow>
          (case index_of (\<lambda>x. mapping_eq x m) (mappings_for_mmap h) of
             Some i \<Rightarrow> Inr (h\<lparr>mappings_for_mmap := erase_at i (mappings_for_mmap h)\<rparr>)
           | None \<Rightarrow> Inl Abort))"

text \<open>\<^verbatim>\<open>(pages - 1) * ELKVM_PAGESIZE\<close> is computed in 32 bits.\<close>

definition unmap_pages :: "heap \<Rightarrow> mref \<Rightarrow> guestptr \<Rightarrow> u32 \<Rightarrow> (int \<times> heap) res" where
  "unmap_pages h r unmap_addr pages =
     bindE (deref h r) (\<lambda>m.
      bindE (assertE (mapping_contains m unmap_addr)) (\<lambda>_.
      bindE (assertE (pages \<le> m_pages m)) (\<lambda>_.
      bindE (assertE (mapping_contains m (unmap_addr + ucast ((pages - 1) * 0x1000)))) (\<lambda>_.
      bindE (unmap_region (heap_pager h) unmap_addr pages) (\<lambda>(err, p1).
      bindE (assertE (err = 0)) (\<lambda>_.
      let m1 = pages_unmapped pages m;
          h1 = put_ref r m1 (set_pager p1 h);
          pages_left = m_pages m1
      in if pages_left = 0 then
           bindE (free_region (heap_rm h1) (m_region m1)) (\<lambda>rm.
           bindE (free_mapping (set_rm rm h1) m1) (\<lambda>h2. Inr (0, h2)))
         else Inr (sint pages_left, h1)))))))"

definition heap_unmap :: "heap \<Rightarrow> mref \<Rightarrow> (int \<times> heap) res" where
  "heap_unmap h r = bindE (deref h r) (\<lambda>m. unmap_pages h r (m_addr m) (m_pages m))"

section \<open>Splitting mappings\<close>

definition heap_create_mapping ::
  "memalign \<Rightarrow> kvm_set_region \<Rightarrow> heap \<Rightarrow> guestptr \<Rightarrow> u64 \<Rightarrow> u32 \<Rightarrow> u32 \<Rightarrow> int \<Rightarrow> u64 \<Rightarrow> rid option
     \<Rightarrow> (mref \<times> heap) res" where
  "heap_create_mapping am ioctl h addr len prot flags fd off r =
     (let len1 = pagesize_align len in
      bindE (case r of
               Some a \<Rightarrow> Inr (a, heap_rm h)
             | None \<Rightarrow> allocate_region am ioctl (heap_rm h) len1 (''mapping with fd: '' @ dec_int fd)) (\<lambda>(a, rm1).
      bindE (Mapping rm1 a addr len1 prot flags fd off) (\<lambda>(m, rm2).
      let h1 = (set_rm rm2 h)\<lparr>mappings_for_mmap := mappings_for_mmap h @ [m]\<rparr>;
          ref = InMmap (length (mappings_for_mmap h))
      in bindE (map_ref h1 ref) (\<lambda>(err, h2).
         bindE (assertE (err = 0)) (\<lambda>_.
         bindE (deref h2 ref) (\<lambda>m2.
         bindE (assertE (\<not> reg_free (region_of (heap_rm h2) m2))) (\<lambda>_.
         bindE (assertE (find_region (heap_rm h2) (m_host_p m2) \<noteq> None)) (\<lambda>_.
         Inr (ref, h2)))))))))"

definition slice_region :: "heap \<Rightarrow> mapping \<Rightarrow> u64 \<Rightarrow> u64 \<Rightarrow> heap res" where
  "slice_region h m off len =
     bindE (slice_center (region_of (heap_rm h) m) off len) (\<lambda>(tail, mid, rest).
     let rm1 = update_region (heap_rm h) (m_region m) rest;
         (a, rm2) = make_region rm1 tail;
         (b, rm3) = make_region rm2 mid
     in bindE (use_region rm3 a) (\<lambda>rm4. Inr (set_rm (add_free_region rm4 b) h)))"

definition heap_slice_begin :: "heap \<Rightarrow> mref \<Rightarrow> u64 \<Rightarrow> heap res" where
  "heap_slice_begin h ref len =
     bindE (deref h ref) (\<lambda>m.
     bindE (unmap_pages h ref (m_addr m) (pages_from_size len)) (\<lambda>(_, h1).
     bindE (deref h1 ref) (\<lambda>m1.
     bindE (move_guest_address (heap_rm h1) m1 len) (\<lambda>(r, m2, rm1).
     Inr (set_rm (add_free_region rm1 r) (put_ref ref m2 h1))))))"

text \<open>\<open>off\<close> is a signed offset.\<close>

definition heap_slice_center ::
  "memalign \<Rightarrow> kvm_set_region \<Rightarrow> heap \<Rightarrow> mref \<Rightarrow> u64 \<Rightarrow> u64 \<Rightarrow> heap res" where
  "heap_slice_center am ioctl h ref off len =
     bindE (deref h ref) (\<lambda>m.
     bindE (assertE (mapping_contains_host m (m_host_p m + off + len))) (\<lambda>_.
     bindE (assertE (0 \<le> sint off)) (\<lambda>_.
     bindE (assertE (sint off < sint (m_length m))) (\<lambda>_.
     bindE (assertE (m_length m \<le> reg_size (region_of (heap_rm h) m))) (\<lambda>_.
     bindE (unmap_pages h ref (m_addr m + off) (pages_from_size len)) (\<lambda>(_, h1).
     bindE (deref h1 ref) (\<lambda>m1.
     bindE (slice_region h1 m1 off len) (\<lambda>h2.
     let slice_sz = off + len; mapping_sz = m_length m1 in
     bindE (set_length (heap_rm h2) m1 off) (\<lambda>m2.
     let h3 = put_ref ref m2 h2 in
     if slice_sz < mapping_sz then
       let r = find_region (heap_rm h3) (m_host_p m2 + off + len) in
       bindE (heap_create_mapping am ioctl h3 (m_addr m2 + slice_sz) (mapping_sz - off - len) (m_prot m2)
                (m_flags m2) (m_fd m2) (m_offset m2 + slice_sz) r) (\<lambda>(_, h4). Inr h4)
     else Inr h3)))))))))"

definition heap_slice_end :: "heap \<Rightarrow> mref \<Rightarrow> guestptr \<Rightarrow> heap res" where
  "heap_slice_end h ref slice_base =
     bindE (deref h ref) (\<lambda>m.
     bindE (assertE (mapping_contains m slice_base)) (\<lambda>_.
     bindE (unmap_pages h ref slice_base (pages_from_size ((m_addr m + m_length m) - slice_base))) (\<lambda>(_, h1).
     bindE (deref h1 ref) (\<lambda>m1.
     bindE (assertE ((m_addr m1 + m_length m1) - slice_base < m_length m1)) (\<lambda>_.
     bindE (set_length (heap_rm h1) m1 (m_length m1 - ((m_addr m1 + m_length m1) - slice_base))) (\<lambda>m2.
     Inr (put_ref ref m2 h1)))))))"

definition heap_slice ::
  "memalign \<Rightarrow> kvm_set_region \<Rightarrow> heap \<Rightarrow> mref \<Rightarrow> guestptr \<Rightarrow> u64 \<Rightarrow> heap res" where
  "heap_slice am ioctl h ref slice_base len =
     bindE (deref h ref) (\<lambda>m.
     bindE (assertE (mapping_contains m slice_base)) (\<lambda>_.
     if slice_base = m_addr m then heap_slice_begin h ref len
     else
       bindE (assertE (m_addr m \<le> slice_base)) (\<lambda>_.
       if mapping_contains m (slice_base + len)
       then heap_slice_center am ioctl h ref (slice_base - m_addr m) len
       else heap_slice_end h ref slice_base)))"


section \<open>Anonymous and file mappings\<close>

definition get_mapping ::
  "memalign \<Rightarrow> kvm_set_region \<Rightarrow> host_files \<Rightarrow> heap \<Rightarrow> guestptr \<Rightarrow> u64 \<Rightarrow> u32 \<Rightarrow> u32 \<Rightarrow> int \<Rightarrow> u64
     \<Rightarrow> (mref \<times> heap) res" where
  "get_mapping am ioctl fs h addr len prot flags fd off =
     (let len1 = pagesize_align len in
      if addr \<noteq> 0 \<and> flags AND MAP_FIXED \<noteq> 0 then
        (case index_of (\<lambda>m. m_addr m = addr \<and> m_length m = len1) (mappings_for_mmap h) of
           None \<Rightarrow>
             bindE (case index_of (\<lambda>m. mapping_contains m addr) (mappings_for_mmap h) of
                      Some i \<Rightarrow> heap_slice am ioctl h (InMmap i) addr len1
                    | None \<Rightarrow> Inr h) (\<lambda>h1.
             heap_create_mapping am ioctl h1 addr len1 prot flags fd off None)
         | Some i \<Rightarrow>
             let ref = InMmap i in
             bindE (modify fs (mappings_for_mmap h ! i) (pg_mem (heap_pager h)) prot flags fd off) (\<lambda>(m1, mem1).
             let h1 = put_ref ref m1 (set_pager ((heap_pager h)\<lparr>pg_mem := mem1\<rparr>) h) in
             bindE (map_ref h1 ref) (\<lambda>(_, h2).
             bindE (deref h2 ref) (\<lambda>m2.
             bindE (assertE (\<not> reg_free (region_of (heap_rm h2) m2))) (\<lambda>_.
             bindE (assertE (find_region (heap_rm h2) (m_host_p m2) \<noteq> None)) (\<lambda>_.
             Inr (ref, h2)))))))
      else heap_create_mapping am ioctl h 0 len1 prot flags fd off None)"

definition unmap_to_new_size :: "heap \<Rightarrow> mref \<Rightarrow> u64 \<Rightarrow> heap res" where
  "unmap_to_new_size h ref new_size =
     bindE (deref h ref) (\<lambda>m.
     bindE (unmap_pages h ref (m_addr m + new_size) (pages_from_size (m_length m - new_size))) (\<lambda>(_, h1). Inr h1))"

definition create_resized_mapping ::
  "memalign \<Rightarrow> kvm_set_region \<Rightarrow> host_files \<Rightarrow> heap \<Rightarrow> mref \<Rightarrow> u64 \<Rightarrow> (guestptr \<times> heap) res" where
  "create_resized_mapping am ioctl fs h ref new_size =
     bindE (deref h ref) (\<lambda>m.
     bindE (get_mapping am ioctl fs h 0 new_size (m_prot m) (m_flags m) (m_fd m) (m_offset m)) (\<lambda>(new_ref, h1).
     bindE (deref h1 new_ref) (\<lambda>n.
     bindE (deref h1 ref) (\<lambda>m1.
     let p1 = heap_pager h1;
         h2 = set_pager (p1\<lparr>pg_mem := memcpy (pg_mem p1) (m_host_p n) (m_host_p m1) (m_length m1)\<rparr>) h1 in
     bindE (map_ref h2 new_ref) (\<lambda>(_, h3).
     bindE (deref h3 new_ref) (\<lambda>n1.
     bindE (heap_unmap h3 ref) (\<lambda>(_, h4).
     Inr (m_addr n1, h4))))))))"

definition MREMAP_FIXED :: u32 where "MREMAP_FIXED = 2"

definition remap ::
  "memalign \<Rightarrow> kvm_set_region \<Rightarrow> host_files \<Rightarrow> heap \<Rightarrow> mref \<Rightarrow> guestptr \<Rightarrow> u64 \<Rightarrow> u32 \<Rightarrow> (guestptr \<times> heap) res" where
  "remap am ioctl fs h ref new_address_p new_size flags =
     bindE (assertE (flags AND MREMAP_FIXED = 0)) (\<lambda>_.
     bindE (deref h ref) (\<lambda>m.
     if new_size < m_length m then
       bindE (unmap_to_new_size h ref new_size) (\<lambda>h1.
       bindE (deref h1 ref) (\<lambda>m1. Inr (m_addr m1, h1)))
     else if fits_address (heap_rm h) m (m_addr m + new_size - 1) then
       let (_, m1) = mapping_grow (heap_rm h) m new_size in Inr (m_addr m1, put_ref ref m1 h)
     else create_resized_mapping am ioctl fs h ref new_size))"


section \<open>The program break\<close>

definition heap_init :: "heap \<Rightarrow> rid \<Rightarrow> u64 \<Rightarrow> (int \<times> heap) res" where
  "heap_init h data sz =
     (let g = reg_addr (rm_store (heap_rm h) data) in
      bindE (Mapping (heap_rm h) data g sz (PROT_READ OR PROT_WRITE) MAP_ANONYMOUS 0 0) (\<lambda>(m, rm1).
      let brk = next_page (reg_addr (rm_store rm1 data) + sz);
          h1 = (set_rm rm1 h)\<lparr>mappings_for_brk := mappings_for_brk h @ [m], curbrk := brk\<rparr>
      in bindE (assertE (region_contains_guest (rm_store rm1 data) (brk - 1))) (\<lambda>_. Inr (0, h1))))"

text \<open>Each round removes a mapping of the list, so \<open>n\<close>, its length at first, bounds the rounds; with no mapping left
  \<^verbatim>\<open>back()\<close> is undefined.\<close>

primrec free_unused_mappings :: "nat \<Rightarrow> heap \<Rightarrow> guestptr \<Rightarrow> heap res" where
  "free_unused_mappings 0 h brk = Inl Fault"
| "free_unused_mappings (Suc n) h brk =
     bindE (brk_back h) (\<lambda>ref.
     bindE (deref h ref) (\<lambda>m.
     if brk \<le> m_addr m then
       bindE (heap_unmap h ref) (\<lambda>(err, h1).
       bindE (assertE (err = 0)) (\<lambda>_.
       free_unused_mappings n h1 brk))
     else Inr h))"

definition shrink :: "memalign \<Rightarrow> kvm_set_region \<Rightarrow> heap \<Rightarrow> guestptr \<Rightarrow> (int \<times> heap) res" where
  "shrink am ioctl h newbrk =
     bindE (free_unused_mappings (length (mappings_for_brk h)) h newbrk) (\<lambda>h1.
     let slice_base = (if page_aligned newbrk then newbrk else next_page newbrk) in
     bindE (brk_back h1) (\<lambda>ref.
     bindE (deref h1 ref) (\<lambda>m.
     if m_addr m + m_length m = slice_base then Inr (0, h1)
     else
       bindE (assertE (slice_base < m_addr m + m_length m)) (\<lambda>_.
       bindE (heap_slice am ioctl h1 ref slice_base (m_addr m + m_length m - slice_base)) (\<lambda>h2.
       Inr (0, h2))))))"

definition heap_grow :: "memalign \<Rightarrow> kvm_set_region \<Rightarrow> heap \<Rightarrow> guestptr \<Rightarrow> (int \<times> heap) res" where
  "heap_grow am ioctl h newbrk =
     bindE (assertE (curbrk h < newbrk)) (\<lambda>_.
     let sz = newbrk - curbrk h in
     bindE (allocate_region am ioctl (heap_rm h) sz ''anon region'') (\<lambda>(r, rm1).
     bindE (Mapping rm1 r (curbrk h) sz (PROT_READ OR PROT_WRITE) MAP_ANONYMOUS 0 0) (\<lambda>(m, rm2).
     let h1 = (set_rm rm2 h)\<lparr>mappings_for_brk := mappings_for_brk h @ [m]\<rparr> in
     bindE (heap_map h1 m) (\<lambda>(err, _, h2). Inr (err, h2)))))"

definition brk :: "memalign \<Rightarrow> kvm_set_region \<Rightarrow> heap \<Rightarrow> guestptr \<Rightarrow> (int \<times> heap) res" where
  "brk am ioctl h newbrk =
     (if newbrk < curbrk h then
        bindE (shrink am ioctl h newbrk) (\<lambda>(err, h1).
        if err \<noteq> 0 then Inr (err, h1) else Inr (0, h1\<lparr>curbrk := newbrk\<rparr>))
      else
        bindE (brk_back h) (\<lambda>ref.
        bindE (deref h ref) (\<lambda>m.
        if \<not> fits_address (heap_rm h) m (newbrk - 1) then
          let (b, m1) = grow_to_fill (heap_rm h) m;
              h1 = (put_ref ref m1 h)\<lparr>curbrk := b\<rparr> in
          bindE (map_ref h1 ref) (\<lambda>(_, h2).
          bindE (heap_grow am ioctl h2 newbrk) (\<lambda>(err, h3).
          if err \<noteq> 0 then Inr (err, h3) else Inr (0, h3\<lparr>curbrk := newbrk\<rparr>)))
        else
          let sz = m_length m; growsz = newbrk - curbrk h;
              (newsz, m1) = mapping_grow (heap_rm h) m (sz + growsz) in
          bindE (assertE (newsz = sz + growsz)) (\<lambda>_.
          bindE (map_ref (put_ref ref m1 h) ref) (\<lambda>(_, h2).
          Inr (0, h2\<lparr>curbrk := newbrk\<rparr>))))))"

end
