(* ===== verification/Heap_Maps.thy ===== *)
theory Heap_Maps
  imports Heap
begin

text \<open>
  What the heap manager guarantees when it maps, creates and removes mappings.
\<close>

section \<open>Positions\<close>

lemma index_of_None: "index_of P xs = None \<longleftrightarrow> (\<forall>x \<in> set xs. \<not> P x)"
proof -
  have "length (takeWhile (\<lambda>x. \<not> P x) xs) < length xs \<longleftrightarrow> (\<exists>x \<in> set xs. P x)"
    by (induction xs) auto
  then show ?thesis
    by (auto simp: index_of_def Let_def)
qed

lemma index_of_Some: "index_of P xs = Some i \<Longrightarrow> i < length xs \<and> P (xs ! i) \<and> (\<forall>j<i. \<not> P (xs ! j))"
  by (auto simp: index_of_def Let_def split: if_splits dest: nth_length_takeWhile)
    (metis (mono_tags, lifting) nth_mem set_takeWhileD takeWhile_nth)

lemma mapping_eq_refl [simp]: "mapping_eq m m"
  by (simp add: mapping_eq_def)

lemma deref_simps [simp]:
  "deref (h\<lparr>heap_rm := rm\<rparr>) r = deref h r" "deref (set_rm rm h) r = deref h r" "deref (set_pager p h) r = deref h r"
  "deref (h\<lparr>curbrk := b\<rparr>) r = deref h r"
  by (simp_all add: deref_def set_rm_def set_pager_def split: mref.split)

lemma heap_fields [simp]:
  "heap_rm (set_rm rm h) = rm" "heap_rm (set_pager p h) = (heap_rm h)\<lparr>rm_pager := p\<rparr>"
  "mappings_for_brk (set_rm rm h) = mappings_for_brk h" "mappings_for_mmap (set_rm rm h) = mappings_for_mmap h"
  "mappings_for_brk (set_pager p h) = mappings_for_brk h" "mappings_for_mmap (set_pager p h) = mappings_for_mmap h"
  "curbrk (set_rm rm h) = curbrk h" "curbrk (set_pager p h) = curbrk h"
  "heap_rm (put_ref r m h) = heap_rm h" "curbrk (put_ref r m h) = curbrk h"
  by (simp_all add: set_rm_def set_pager_def put_ref_def split: mref.split)


section \<open>Mapping\<close>

text \<open>A mapping that can be entered into the page tables: an allocated region behind it, whole pages within the
  region, room for tables, and no other translation in the way.\<close>

definition mappable :: "rmgr \<Rightarrow> mapping \<Rightarrow> bool" where
  "mappable rm m \<longleftrightarrow> m_region m \<in> set (allocated_regions rm) \<and> \<not> pager_region rm (m_region m)
     \<and> m_host_p m = reg_host_p (region_of rm m) \<and> page_aligned (m_addr m) \<and> 0 < m_addr m
     \<and> unat (m_addr m) + 4096 * unat (m_pages m) \<le> 2 ^ 64
     \<and> 4096 * unat (m_pages m) \<le> unat (reg_size (region_of rm m)) \<and> 0 < m_pages m
     \<and> tables_used (rm_pager rm) + 3 * areas (m_addr m) (unat (m_pages m)) \<le> 4096
     \<and> (\<forall>k<unat (m_pages m). free_or_same (rm_pager rm) (m_host_p m + of_nat (4096 * k)) (m_addr m + of_nat (4096 * k)))"

text \<open>All pages of a mapping translate to its host memory.\<close>

definition translated :: "pager \<Rightarrow> mapping \<Rightarrow> bool" where
  "translated p m \<longleftrightarrow> (\<forall>off < 4096 * unat (m_pages m). host_of p (m_addr m + of_nat off) = m_host_p m + of_nat off)"

lemma heap_map_ok:
  assumes ok: "mem_ok (heap_rm h)" and m: "mappable (heap_rm h) m" and acc: "readable m \<or> writeable m \<or> executable m"
  obtains h' p' where "heap_map h m = Inr (0, m, h')" "heap_rm h' = (heap_rm h)\<lparr>rm_pager := p'\<rparr>" "mem_ok (heap_rm h')"
    "mappings_for_brk h' = mappings_for_brk h" "curbrk h' = curbrk h"
    "mappings_for_mmap h' = (if \<exists>x \<in> set (mappings_for_mmap h). mapping_eq m x then mappings_for_mmap h else mappings_for_mmap h @ [m])"
    "translated p' m" "\<And>b. host_of (heap_pager h) b \<noteq> 0 \<Longrightarrow> host_of p' b = host_of (heap_pager h) b"
    "outside_same (heap_pager h) p'" "pager_frame p' = pager_frame (heap_pager h)"
    "\<And>v. (\<And>k. k < unat (m_pages m) \<Longrightarrow> v \<noteq> vpn (m_addr m + of_nat (4096 * k))) \<Longrightarrow> pt_view p' v = pt_view (heap_pager h) v"
proof -
  let ?rm = "heap_rm h"
  have mp: "m_region m \<in> set (allocated_regions ?rm)" "\<not> pager_region ?rm (m_region m)"
     "m_host_p m = reg_host_p (rm_store ?rm (m_region m))" "page_aligned (m_addr m)" "0 < m_addr m"
     "unat (m_addr m) + 4096 * unat (m_pages m) \<le> 2 ^ 64"
     "4096 * unat (m_pages m) \<le> unat (reg_size (rm_store ?rm (m_region m)))" "0 < unat (m_pages m)"
     "tables_used (rm_pager ?rm) + 3 * areas (m_addr m) (unat (m_pages m)) \<le> 4096"
     "\<And>k. k < unat (m_pages m) \<Longrightarrow>
        free_or_same (rm_pager ?rm) (reg_host_p (rm_store ?rm (m_region m)) + of_nat (4096 * k)) (m_addr m + of_nat (4096 * k))"
    using m unfolding mappable_def region_of_def word_less_nat_alt by auto
  obtain p' where p': "map_region (rm_pager ?rm) (m_host_p m) (m_addr m) (m_pages m) (map_opts m) = Inr (0, p')"
    "mem_ok (?rm\<lparr>rm_pager := p'\<rparr>)" "pager_frame p' = pager_frame (rm_pager ?rm)" "outside_same (rm_pager ?rm) p'"
    "\<And>off. off < 4096 * unat (m_pages m) \<Longrightarrow> host_of p' (m_addr m + of_nat off) = m_host_p m + of_nat off"
    "\<And>b. host_of (rm_pager ?rm) b \<noteq> 0 \<Longrightarrow> host_of p' b = host_of (rm_pager ?rm) b"
    "\<And>v. (\<And>k. k < unat (m_pages m) \<Longrightarrow> v \<noteq> vpn (m_addr m + of_nat (4096 * k))) \<Longrightarrow> pt_view p' v = pt_view (rm_pager ?rm) v"
  proof -
    have e: "of_nat (unat (m_pages m)) = m_pages m"
      by simp
    show ?thesis
      by (rule map_region_allocated [OF ok mp(1,2,4-10), where opts = "map_opts m", folded mp(3), unfolded e])
        (assumption, rule that, assumption+, blast)
  qed
  have nf: "\<not> reg_free (rm_store ?rm (m_region m))"
    using ok mp(1) lists_okD(2) by (auto simp: mem_ok_def mem_inv_def rm_inv_def)
  define h' where "h' = set_pager p' (if index_of (mapping_eq m) (mappings_for_mmap h) = None
                  then h\<lparr>mappings_for_mmap := mappings_for_mmap h @ [m]\<rparr> else h)"
  have run: "heap_map h m = Inr (0, m, h')"
    using acc p'(1) mp(3) nf by (auto simp: heap_map_def h'_def Let_def region_of_def heap_pager_def)
  have h': "heap_rm h' = ?rm\<lparr>rm_pager := p'\<rparr>" "mappings_for_brk h' = mappings_for_brk h" "curbrk h' = curbrk h"
    "mappings_for_mmap h' = (if \<exists>x \<in> set (mappings_for_mmap h). mapping_eq m x then mappings_for_mmap h else mappings_for_mmap h @ [m])"
    by (auto simp: h'_def index_of_None)
  show ?thesis
    using that [OF run h'(1) _ h'(2,3,4)] p' by (simp add: h'(1) translated_def heap_pager_def)
qed

section \<open>Creating a mapping\<close>

lemma pager_region_unique:
  assumes "mem_inv rm" "pager_region rm a" "pager_region rm b"
  shows "a = b"
proof (rule ccontr)
  assume ne: "a \<noteq> b"
  have "rm_inv rm"
    using assms(1) by (simp add: mem_inv_def)
  then have "reg_bytes (rm_store rm a) \<inter> reg_bytes (rm_store rm b) = {}"
    using allocated_apart [OF _ _ _ ne] assms(2,3) by (simp add: pager_region_def)
  moreover have "reg_bytes (rm_store rm a) = reg_bytes (rm_store rm b)"
    using assms(2,3) by (simp add: pager_region_def reg_bytes_def)
  moreover have "reg_bytes (rm_store rm a) \<noteq> {}"
    using assms(2) by (simp add: pager_region_def reg_bytes_def ELKVM_PAGER_MEMSIZE_def)
  ultimately show False by simp
qed

lemma new_not_pager_region:
  assumes "mem_inv rm" "allocated rm sz b rm'" "mem_inv rm'" "host_pml4_p (rm_pager rm') = host_pml4_p (rm_pager rm)"
  shows "\<not> pager_region rm' b"
proof
  assume b: "pager_region rm' b"
  obtain s where s: "pager_region rm s"
    using assms(1) by (auto simp: mem_inv_def)
  then have "pager_region rm' s"
    using assms(2,4) by (simp add: pager_region_def allocated_def)
  then have "s = b"
    using pager_region_unique [OF assms(3) _ b] by blast
  then show False
    using s assms(2) by (simp add: pager_region_def allocated_def)
qed

lemma update_guest_addr:
  fixes rm a g
  defines "rm' \<equiv> update_region rm a (set_guest_addr g (rm_store rm a))"
  shows "mem_ok rm \<Longrightarrow> mem_ok rm'" "pager_region rm' b = pager_region rm b" "allocated_regions rm' = allocated_regions rm"
    "rm_pager rm' = rm_pager rm" "reg_host_p (rm_store rm' b) = reg_host_p (rm_store rm b)"
    "reg_size (rm_store rm' b) = reg_size (rm_store rm b)" "reg_free (rm_store rm' b) = reg_free (rm_store rm b)"
    "reg_addr (rm_store rm' a) = g"
proof -
  show st: "allocated_regions rm' = allocated_regions rm" "rm_pager rm' = rm_pager rm" "reg_addr (rm_store rm' a) = g"
    by (simp_all add: rm'_def update_region_def)
  show f: "reg_host_p (rm_store rm' b) = reg_host_p (rm_store rm b)" "reg_size (rm_store rm' b) = reg_size (rm_store rm b)"
    "reg_free (rm_store rm' b) = reg_free (rm_store rm b)" for b
    by (simp_all add: rm'_def update_region_def)
  have l: "live_ids rm' = live_ids rm" "freelists rm' = freelists rm" "rm_next rm' = rm_next rm"
    by (simp_all add: rm'_def update_region_def live_ids_def free_ids_def)
  show pr: "pager_region rm' b = pager_region rm b" for b
    by (simp add: pager_region_def st f)
  have "tiles (chunks (rm_pager rm)) (rm_store rm') (live_ids rm')" if "tiles (chunks (rm_pager rm)) (rm_store rm) (live_ids rm)"
    unfolding l by (rule tiles_cong [OF that]) (simp add: f)
  then show "mem_ok rm'" if "mem_ok rm"
    using that by (auto simp: mem_ok_def mem_inv_def rm_inv_def lists_ok_def l st f pr)
qed

text \<open>The request \<^verbatim>\<open>create_mapping\<close> can serve: access rights, a page-aligned guest address (0 for any), room in the
  tables, and free guest pages where the mapping goes.\<close>

definition create_ok :: "rmgr \<Rightarrow> guestptr \<Rightarrow> u64 \<Rightarrow> u32 \<Rightarrow> rid \<Rightarrow> rmgr \<Rightarrow> bool" where
  "create_ok rm addr len prot a rm1 \<longleftrightarrow>
     (let g = (if addr = 0 then reg_host_p (rm_store rm1 a) else addr); n = unat len div 4096 in
      page_aligned addr \<and> unat addr + unat len \<le> 2 ^ 64
      \<and> (prot AND PROT_READ \<noteq> 0 \<or> prot AND PROT_WRITE \<noteq> 0 \<or> prot AND PROT_EXEC \<noteq> 0)
      \<and> tables_used (rm_pager rm) + 3 * areas g n \<le> 4096
      \<and> (\<forall>k<n. pt_view (rm_pager rm) (vpn (g + of_nat (4096 * k))) = None))"

lemma Mapping_mappable:
  assumes ok: "mem_ok rm" and am: "memalign_ok am" and len: "0 < len" "page_aligned len"
    and room: "unat (total_memsz (rm_pager rm)) + unat len + 0x8000000 \<le> 2 ^ 52"
    and al: "allocate_region am ioctl rm len name = Inr (a, rm1)" and cr: "create_ok rm addr len prot a rm1"
  obtains m rm2 where "Mapping rm1 a addr len prot flags fd off = Inr (m, rm2)" "mem_ok rm2" "mappable rm2 m" "mapping_wf rm2 m"
    "m_length m = len" "m_addr m = (if addr = 0 then reg_host_p (rm_store rm1 a) else addr)" "m_region m = a"
    "m_prot m = prot" "rm_pager rm2 = rm_pager rm1" "allocated_regions rm2 = allocated_regions rm1"
    "unat (m_pages m) = unat len div 4096" "m_host_p m = reg_host_p (rm_store rm1 a)"
proof -
  note ak = allocate_keeps_mem_ok [OF ok am len(1) room al]
  have len': "pagesize_align len = len"
    using len(2) by simp
  have r: "rm_inv rm1" "a \<in> set (allocated_regions rm1)" "reg_size (rm_store rm1 a) = len" "region_wf (rm_store rm1 a)"
    using ak(1,2) len' allocated_wf [of rm1 a] by (simp_all add: allocated_def mem_ok_def mem_inv_def)
  have nf: "\<not> reg_free (rm_store rm1 a)"
    using r(1,2) lists_okD(2) by (auto simp: rm_inv_def)
  define g where "g = (if addr = 0 then reg_host_p (rm_store rm1 a) else addr)"
  define rm2 where "rm2 = update_region rm1 a (set_guest_addr g (rm_store rm1 a))"
  define m where "m = \<lparr>m_host_p = reg_host_p (rm_store rm1 a), m_addr = g, m_length = len, m_pages = pages_from_size len, m_prot = prot,
              m_flags = flags, m_fd = fd, m_offset = off, m_region = a\<rparr>"
  note ug = update_guest_addr [of rm1 a g, folded rm2_def]
  have run: "Mapping rm1 a addr len prot flags fd off = Inr (m, rm2)"
    using r(3) nf ug(7) by (simp add: Mapping_def Let_def m_def rm2_def g_def)
  have l4: "4096 * (unat len div 4096) = unat len"
    using len(2) by (simp add: page_aligned_iff)
  have pages: "tables_used (rm_pager rm) + 3 * areas g (unat len div 4096) \<le> 4096"
    "\<And>k. k < unat len div 4096 \<Longrightarrow> pt_view (rm_pager rm) (vpn (g + of_nat (4096 * k))) = None"
    using cr unfolding create_ok_def Let_def g_def by blast+
  have n: "unat (pages_from_size len) = unat len div 4096"
  proof -
    have "unat len \<le> 4096 * 2 ^ 31"
      using mult_le_mono2 [of "unat len div 4096" "2 ^ 31" 4096] l4 pages(1) areas_ge [of "unat len div 4096" g] by simp
    then have "unat (pages_from_size len) = (4096 * (unat len div 4096) + 4095) div 4096"
      using unat_pages_from_size [of len] l4 by simp
    then show ?thesis by simp
  qed
  have g: "page_aligned g" "0 < g" "unat g + unat len \<le> 2 ^ 64"
    using cr r(3,4) allocated_host_nz [OF r(1,2)]
    by (auto simp: create_ok_def Let_def g_def region_wf_def word_neq_0_conv)
  have np: "\<not> pager_region rm1 a"
    using new_not_pager_region [OF _ ak(2) _ ak(5)] ok ak(1) by (simp add: mem_ok_def)
  have n0: "0 < pages_from_size len"
    using n l4 len(1) by (cases "unat len div 4096") (simp_all add: word_less_nat_alt)
  have "mappable rm2 m"
    unfolding mappable_def using r np g ug pages ak(4,6) l4 n n0
    by (simp add: m_def region_of_def free_or_same_def)
  moreover have "mapping_wf rm2 m"
    using r(3) ug(5,6,8) by (simp add: mapping_wf_def m_def region_of_def)
  ultimately show ?thesis
    using that [OF run] ug(1) [OF ak(1)] ug(3,4) n by (simp add: m_def g_def)
qed

lemma create_mapping_ok:
  assumes ok: "mem_ok (heap_rm h)" and am: "memalign_ok am" and len: "0 < len" "unat len + 4096 < 2 ^ 64"
    and room: "unat (total_memsz (heap_pager h)) + unat (pagesize_align len) + 0x8000000 \<le> 2 ^ 52"
    and al: "allocate_region am ioctl (heap_rm h) (pagesize_align len) (''mapping with fd: '' @ dec_int fd) = Inr (a, rm1)"
    and cr: "create_ok (heap_rm h) addr (pagesize_align len) prot a rm1"
  obtains h' m where "heap_create_mapping am ioctl h addr len prot flags fd off None = Inr (InMmap (length (mappings_for_mmap h)), h')"
    "mappings_for_mmap h' = mappings_for_mmap h @ [m]" "mappings_for_brk h' = mappings_for_brk h" "curbrk h' = curbrk h"
    "mem_ok (heap_rm h')" "mapping_wf (heap_rm h') m" "translated (heap_pager h') m" "m_length m = pagesize_align len"
    "m_addr m = (if addr = 0 then reg_host_p (rm_store rm1 a) else addr)" "m_region m = a"
    "unat (m_pages m) = unat (pagesize_align len) div 4096"
    "\<And>b. host_of (heap_pager h) b \<noteq> 0 \<Longrightarrow> host_of (heap_pager h') b = host_of (heap_pager h) b"
    "set (allocated_regions (heap_rm h')) = insert a (set (allocated_regions (heap_rm h)))" "a \<notin> set (allocated_regions (heap_rm h))"
    "\<And>v. (\<And>k. k < unat (m_pages m) \<Longrightarrow> v \<noteq> vpn (m_addr m + of_nat (4096 * k))) \<Longrightarrow> pt_view (heap_pager h') v = pt_view (heap_pager h) v"
    "m_host_p m = reg_host_p (rm_store rm1 a)" "\<not> pager_region (heap_rm h') a"
proof -
  define l where "l = pagesize_align len"
  have b: "unat len \<le> 2 ^ 64 - 4096"
    using len(2) by simp
  have l: "0 < l" "page_aligned l" "pagesize_align l = l"
    using pagesize_align_pos [OF b len(1)] by (simp_all add: l_def)
  note ak = allocate_keeps_mem_ok [OF ok am l(1) room [folded l_def, unfolded heap_pager_def] al [folded l_def]]
  obtain m rm2 where m: "Mapping rm1 a addr l prot flags fd off = Inr (m, rm2)" "mem_ok rm2" "mappable rm2 m" "mapping_wf rm2 m"
    "m_length m = l" "m_addr m = (if addr = 0 then reg_host_p (rm_store rm1 a) else addr)" "m_region m = a"
    "m_prot m = prot" "rm_pager rm2 = rm_pager rm1" "allocated_regions rm2 = allocated_regions rm1"
    "unat (m_pages m) = unat l div 4096" "m_host_p m = reg_host_p (rm_store rm1 a)"
    by (rule Mapping_mappable [OF ok am l(1,2) room [folded l_def, unfolded heap_pager_def] al [folded l_def] cr [folded l_def]])
  define h1 where "h1 = (set_rm rm2 h)\<lparr>mappings_for_mmap := mappings_for_mmap h @ [m]\<rparr>"
  let ?i = "length (mappings_for_mmap h)"
  have h1: "heap_rm h1 = rm2" "mappings_for_mmap h1 = mappings_for_mmap h @ [m]" "mappings_for_brk h1 = mappings_for_brk h"
      "curbrk h1 = curbrk h" "deref h1 (InMmap ?i) = Inr m"
    by (simp_all add: h1_def deref_def)
  have acc: "readable m \<or> writeable m \<or> executable m"
    using cr m(8) by (simp add: create_ok_def Let_def readable_def writeable_def executable_def)
  obtain h2 p' where h2: "heap_map h1 m = Inr (0, m, h2)" "heap_rm h2 = rm2\<lparr>rm_pager := p'\<rparr>" "mem_ok (heap_rm h2)"
    "mappings_for_brk h2 = mappings_for_brk h" "curbrk h2 = curbrk h" "mappings_for_mmap h2 = mappings_for_mmap h @ [m]"
    "translated p' m" "\<And>b. host_of (rm_pager rm2) b \<noteq> 0 \<Longrightarrow> host_of p' b = host_of (rm_pager rm2) b"
    "\<And>v. (\<And>k. k < unat (m_pages m) \<Longrightarrow> v \<noteq> vpn (m_addr m + of_nat (4096 * k))) \<Longrightarrow> pt_view p' v = pt_view (rm_pager rm2) v"
    "pager_frame p' = pager_frame (rm_pager rm2)"
    by (rule heap_map_ok [of h1 m]) (use m acc h1 in \<open>auto simp: heap_pager_def\<close>)
  have put: "put_ref (InMmap ?i) m h2 = h2"
    using h2(6) by (simp add: put_ref_def)
  have nf: "\<not> reg_free (region_of (heap_rm h2) m)" "find_region (heap_rm h2) (m_host_p m) \<noteq> None"
  proof -
    have inv: "rm_inv (heap_rm h2)"
      using h2(3) by (simp add: mem_ok_def mem_inv_def)
    have a: "a \<in> set (allocated_regions (heap_rm h2))"
      using m(3,7) by (simp add: h2(2) mappable_def)
    then show "\<not> reg_free (region_of (heap_rm h2) m)"
      using inv lists_okD(2) m(7) by (auto simp: rm_inv_def region_of_def)
    have "region_contains (rm_store (heap_rm h2) a) (m_host_p m)"
      using region_contains_iff [OF allocated_wf [OF inv a]] allocated_wf [OF inv a] m(4,7)
      by (simp add: reg_bytes_def mapping_wf_def region_of_def h2(2) region_wf_def word_less_nat_alt)
    then show "find_region (heap_rm h2) (m_host_p m) \<noteq> None"
      using find_region_unique [OF inv a] by simp
  qed
  have run: "heap_create_mapping am ioctl h addr len prot flags fd off None = Inr (InMmap ?i, h2)"
    using al m(1) h1(5) h2(1,6) put nf
    by (simp add: heap_create_mapping_def Let_def map_ref_def deref_def flip: l_def h1_def)
  have wf: "mapping_wf (heap_rm h2) m"
    using m(4) by (simp add: mapping_wf_def region_of_def h2(2))
  have keep: "host_of (heap_pager h2) b = host_of (heap_pager h) b" if "host_of (heap_pager h) b \<noteq> 0" for b
    using that h2(8) [of b] ak(3) m(9) by (simp add: heap_pager_def h2(2))
  have view: "pt_view (heap_pager h2) v = pt_view (heap_pager h) v"
    if "\<And>k. k < unat (m_pages m) \<Longrightarrow> v \<noteq> vpn (m_addr m + of_nat (4096 * k))" for v
    using h2(9) [OF that] ak(4) m(9) by (simp add: heap_pager_def h2(2))
  have live: "set (allocated_regions (heap_rm h2)) = insert a (set (allocated_regions (heap_rm h)))"
    "a \<notin> set (allocated_regions (heap_rm h))"
    using ak(2) m(10) by (simp_all add: allocated_def h2(2))
  have np: "\<not> pager_region (heap_rm h2) a"
    using m(3,7) pager_frame_eqD(1) [OF h2(10)] by (simp add: h2(2) mappable_def pager_region_def)
  show ?thesis
    by (rule that [OF run h2(6,4,5,3) wf _ _ m(6,7) _ keep live view m(12) np])
      (use h2(2,7) m(5,11) in \<open>simp_all add: heap_pager_def l_def\<close>)
qed

section \<open>Removing a mapping\<close>

lemma translated_view:
  assumes inv: "pt_inv p" and tr: "translated p m" and k: "k < unat (m_pages m)"
    and nz: "m_addr m + of_nat (4096 * k) \<noteq> 0" "m_host_p m + of_nat (4096 * k) \<noteq> 0"
  shows "pt_view p (vpn (m_addr m + of_nat (4096 * k))) \<noteq> None"
proof
  assume none: "pt_view p (vpn (m_addr m + of_nat (4096 * k))) = None"
  have "host_of p (m_addr m + of_nat (4096 * k)) = m_host_p m + of_nat (4096 * k)"
    using tr [unfolded translated_def, rule_format, of "4096 * k"] k by (simp del: of_nat_mult)
  then show False
    using host_of_view [OF inv nz(1)] none nz(2) by simp
qed

text \<open>The free region keeps the memory invariant; only translations are gone.\<close>

lemma released_mem_inv:
  assumes "mem_inv rm" "a \<in> set (allocated_regions rm)" "\<not> pager_region rm a"
  shows "mem_inv (released rm a)"
proof -
  have inv: "rm_inv rm"
    using assms(1) by (simp add: mem_inv_def)
  obtain s where s: "pager_region rm s"
    using assms(1) by (auto simp: mem_inv_def)
  then have "s \<noteq> a"
    using assms(3) by blast
  then have "pager_region (released rm a) s"
    using s released_inv [OF inv assms(2)] by (simp add: pager_region_def)
  then show ?thesis
    using assms(1) released_inv [OF inv assms(2)] by (auto simp: mem_inv_def)
qed

lemma erase_at_middle: "erase_at (length xs) (xs @ y # ys) = xs @ ys"
  by (simp add: erase_at_def)

lemma index_of_middle:
  assumes "\<forall>x \<in> set xs. \<not> P x" "P y"
  shows "index_of P (xs @ y # ys) = Some (length xs)"
  using assms by (simp add: index_of_def takeWhile_append)

text \<open>Unmapping all pages of a mapping whose pages are translated.\<close>

lemma heap_unmap_ok:
  assumes inv: "mem_inv (heap_rm h)" and lst: "mappings_for_mmap h = xs @ m # ys"
    and uniq: "\<forall>x \<in> set (mappings_for_brk h) \<union> set xs. m_host_p x \<noteq> m_host_p m"
    and tr: "translated (heap_pager h) m" and wf: "mapping_wf (heap_rm h) m"
    and reg: "m_region m \<in> set (allocated_regions (heap_rm h))" "\<not> pager_region (heap_rm h) (m_region m)"
    and geo: "unat (m_length m) = 4096 * unat (m_pages m)" "0 < m_pages m" "m_pages m \<le> 2 ^ 20"
      "unat (m_addr m) + unat (m_length m) < 2 ^ 64" "0 < m_addr m"
  obtains h' where "heap_unmap h (InMmap (length xs)) = Inr (0, h')" "mappings_for_mmap h' = xs @ ys"
    "mappings_for_brk h' = mappings_for_brk h" "curbrk h' = curbrk h" "mem_inv (heap_rm h')"
    "set (allocated_regions (heap_rm h')) = set (allocated_regions (heap_rm h)) - {m_region m}" "m_region m \<in> free_ids (heap_rm h')"
    "\<And>v. pt_view (heap_pager h') v =
      (if \<exists>k<unat (m_pages m). v = vpn (m_addr m + of_nat (4096 * k)) then None else pt_view (heap_pager h) v)"
proof -
  let ?n = "unat (m_pages m)" and ?i = "length xs"
  have n: "0 < ?n" "?n \<le> 2 ^ 20"
    using geo(2,3) by (simp_all add: word_less_nat_alt word_le_nat_alt)
  have n36: "?n \<le> 2 ^ 36"
    using n(2) by simp
  have pinv: "pt_inv (heap_pager h)" "rm_inv (heap_rm h)"
    using inv by (simp_all add: mem_inv_def pager_ok_def heap_pager_def)
  have ad: "unat (m_addr m + of_nat off) = unat (m_addr m) + off" if "off < unat (m_length m)" for off
  proof -
    have "unat (of_nat off :: u64) = off"
      using that geo(4) by (intro unat_of_nat_small) linarith
    then show ?thesis
      using that geo(4) by (simp add: unat_plus_if')
  qed
  have hb: "unat (m_host_p m) + 4096 * ?n < 2 ^ 64" "m_host_p m \<noteq> 0"
    using wf allocated_wf [OF pinv(2) reg(1)] allocated_host_nz [OF pinv(2) reg(1)] geo(1)
    by (auto simp: mapping_wf_def region_of_def region_wf_def word_le_nat_alt)
  have nz: "m_addr m + of_nat (4096 * k) \<noteq> 0" "m_host_p m + of_nat (4096 * k) \<noteq> 0" if "k < ?n" for k
  proof -
    have k: "4096 * k < unat (m_length m)"
      using that geo(1) by simp
    show "m_addr m + of_nat (4096 * k) \<noteq> 0"
      using ad [OF k] geo(5) by (auto simp: word_less_nat_alt simp del: of_nat_mult dest: arg_cong [of _ _ unat])
    have "unat (of_nat (4096 * k) :: u64) = 4096 * k"
      using k hb(1) geo(1) by (intro unat_of_nat_small) linarith
    then have "unat (m_host_p m + of_nat (4096 * k)) = unat (m_host_p m) + 4096 * k"
      using k hb(1) geo(1) by (simp add: unat_plus_if' del: of_nat_mult)
    then show "m_host_p m + of_nat (4096 * k) \<noteq> 0"
      using hb(2) by (auto simp: unat_eq_0 simp del: of_nat_mult dest: arg_cong [of _ _ unat])
  qed
  have some: "pt_view (heap_pager h) (vpn (m_addr m + of_nat (4096 * k))) \<noteq> None" if "k < ?n" for k
    by (rule translated_view [OF pinv(1) tr that nz [OF that]])
  obtain p' where p': "unmap_region (heap_pager h) (m_addr m) (m_pages m) = Inr (0, p')" "pt_inv p'"
      "pager_frame p' = pager_frame (heap_pager h)"
      "\<forall>v. pt_view p' v = (if \<exists>k<?n. v = vpn (m_addr m + of_nat (4096 * k)) then None else pt_view (heap_pager h) v)"
    using unmap_region_loop_spec [OF pinv(1) n36 nz(1) some] unfolding unmap_region_def by blast
  have last: "m_addr m + ucast ((m_pages m - 1) * 0x1000) = m_addr m + of_nat (4096 * (?n - 1))"
  proof -
    have "unat (m_pages m - 1) = ?n - 1"
      using n(1) by (simp add: unat_sub_if' Suc_le_eq)
    then have "unat ((m_pages m - 1) * 0x1000) = (?n - 1) * 4096 mod 2 ^ 32"
      unfolding unat_word_ariths by simp
    also have "\<dots> = 4096 * (?n - 1)"
      using n by simp
    finally have "unat (ucast ((m_pages m - 1) * 0x1000) :: u64) = 4096 * (?n - 1)"
      using n(2) by (simp add: unsigned_ucast_eq take_bit_nat_eq_self del: right_diff_distrib_numeral left_diff_distrib_numeral)
    then have "ucast ((m_pages m - 1) * 0x1000) = (of_nat (4096 * (?n - 1)) :: u64)"
      by (rule unat_eq_of_nat)
    then show ?thesis by simp
  qed
  have con: "mapping_contains m (m_addr m)" "mapping_contains m (m_addr m + ucast ((m_pages m - 1) * 0x1000))"
    unfolding last using ad [of 0] ad [of "4096 * (?n - 1)"] geo(1,4) n(1)
    by (simp_all add: mapping_contains_def word_le_nat_alt word_less_nat_alt unat_plus_if' del: of_nat_mult)
  define m1 where "m1 = pages_unmapped (m_pages m) m"
  define h1 where "h1 = put_ref (InMmap ?i) m1 (set_pager p' h)"
  define rm1 where "rm1 = (heap_rm h)\<lparr>rm_pager := p'\<rparr>"
  have h1: "heap_rm h1 = rm1" "mappings_for_mmap h1 = xs @ m1 # ys" "mappings_for_brk h1 = mappings_for_brk h" "curbrk h1 = curbrk h"
    by (simp_all add: h1_def rm1_def put_ref_def lst m1_def list_update_append)
  have m1: "m_pages m1 = 0" "m_region m1 = m_region m" "m_host_p m1 = m_host_p m"
    by (simp_all add: m1_def pages_unmapped_def)
  have fr: "free_region rm1 (m_region m) = Inr (released rm1 (m_region m))"
    using reg(1) by (simp add: free_region_eq rm1_def)
  have fm: "free_mapping (set_rm rm h1) m1 = Inr ((set_rm rm h1)\<lparr>mappings_for_mmap := xs @ ys\<rparr>)" for rm
  proof -
    have "index_of (\<lambda>x. mapping_eq x m1) (mappings_for_brk h) = None"
      using uniq m1(3) by (auto simp: index_of_None mapping_eq_def)
    moreover have "index_of (\<lambda>x. mapping_eq x m1) (xs @ m1 # ys) = Some (length xs)"
      using uniq m1(3) by (intro index_of_middle) (auto simp: mapping_eq_def)
    ultimately show ?thesis
      by (simp add: free_mapping_def h1 erase_at_middle)
  qed
  define h' where "h' = (set_rm (released rm1 (m_region m)) h1)\<lparr>mappings_for_mmap := xs @ ys\<rparr>"
  have run: "heap_unmap h (InMmap ?i) = Inr (0, h')"
    using con p'(1) fr fm m1(1,2)
    by (simp add: heap_unmap_def unmap_pages_def deref_def lst Let_def h'_def flip: m1_def rm1_def h1_def)
  have inv1: "mem_inv rm1"
    using mem_inv_frame [OF inv _ p'(2)] p'(3) by (simp add: rm1_def heap_pager_def)
  have np: "\<not> pager_region rm1 (m_region m)" "m_region m \<in> set (allocated_regions rm1)"
    using reg pager_frame_eqD(1) [OF p'(3)] by (simp_all add: rm1_def pager_region_def heap_pager_def)
  have ri: "rm_inv rm1"
    using inv1 by (simp add: mem_inv_def)
  note rl = released_inv [OF ri np(2)]
  show ?thesis
    by (rule that [OF run]) (use rl released_mem_inv [OF inv1 np(2,1)] p'(4) h1 in \<open>simp_all add: h'_def heap_pager_def rm1_def\<close>)
qed

end
