(* ===== verification/Pager_Props.thy ===== *)
theory Pager_Props
  imports Pager_Ops
begin

text \<open>
  The properties of the pager: page tables, translation, TLB and chunks, each with an instance on a small machine.
\<close>

section \<open>A small machine\<close>

text \<open>One chunk of 128 MiB at host address \<open>0x10000000\<close> with the PML4 at its start; the hypotheses of the
  properties below hold for it.\<close>

definition sample_chunk :: chunk where
  "sample_chunk = \<lparr>slot = 0, chunk_flags = 0, guest_phys_addr = 0, memory_size = 0x8000000,
     userspace_addr = 0x10000000\<rparr>"

definition sample_bare :: pager where
  "sample_bare = \<lparr>vmfd = 3, chunks = [sample_chunk], host_pml4_p = 0, host_next_free_tbl_p = 0,
     guest_next_free = NOT 0, total_memsz = 0x8000000, free_slots = [], pg_mem = (\<lambda>_. 0), pg_tlb = TLB\<rparr>"

definition sample_pager :: pager where
  "sample_pager = snd (projr (set_pml4 sample_bare 0x10000000))"

definition sample_memalign :: memalign where
  "sample_memalign cs sz = (if cs = [] \<and> sz \<le> 0x8000000 then Inr 0x10000000 else Inl 12)"

lemma sample_memalign_ok: "memalign_ok sample_memalign"
  by (auto simp: memalign_ok_def sample_memalign_def page_aligned_iff word_le_nat_alt split: if_splits)

lemma sample_bare_inv: "chunks_inv sample_bare"
  by (simp add: chunks_inv_def sample_bare_def sample_chunk_def chunk_ok_def page_aligned_iff slots_inv_def lessThan_Suc)

lemma sample_pager_facts:
  "set_pml4 sample_bare 0x10000000 = Inr (0, sample_pager)"
  "pt_inv sample_pager" "tables_used sample_pager = 1" "pt_view sample_pager = Map.empty"
  "chunks sample_pager = [sample_chunk]" "chunks_inv sample_pager" "host_pml4_p sample_pager = 0x10000000"
  "guest_next_free sample_pager = KERNEL_SPACE_BOTTOM" "pg_tlb sample_pager = TLB"
proof -
  have al: "page_aligned (0x10000000 :: u64)"
    by (simp add: page_aligned_iff)
  obtain p' where p': "set_pml4 sample_bare 0x10000000 = Inr (ucast (0x10000000 - userspace_addr sample_chunk), p')" "pt_inv p'"
    "tables_used p' = 1" "pt_view p' = Map.empty" "chunks p' = chunks sample_bare" "chunks_inv p'"
    "host_pml4_p p' = 0x10000000" "guest_next_free p' = KERNEL_SPACE_BOTTOM"
    using set_pml4_spec [OF sample_bare_inv _ al, of sample_chunk "[]"] by (auto simp: sample_bare_def sample_chunk_def)
  then have eq: "p' = sample_pager"
    by (simp add: sample_pager_def)
  show "set_pml4 sample_bare 0x10000000 = Inr (0, sample_pager)"
    "pt_inv sample_pager" "tables_used sample_pager = 1" "pt_view sample_pager = Map.empty"
    "chunks sample_pager = [sample_chunk]" "chunks_inv sample_pager" "host_pml4_p sample_pager = 0x10000000"
    "guest_next_free sample_pager = KERNEL_SPACE_BOTTOM"
    using p' by (simp_all add: eq sample_chunk_def sample_bare_def)
  show "pg_tlb sample_pager = TLB"
    by (simp add: sample_pager_def set_pml4_def create_page_tables_def sample_bare_def sample_chunk_def
        ELKVM_SYSTEM_MEMSIZE_def Let_def)
qed

lemma sample_phys: "host_to_guest_physical sample_pager 0x12000000 = 0x2000000"
  by (simp add: host_to_guest_physical_def find_chunk_for_host_p_def sample_pager_facts contains_address_def sample_chunk_def)


lemma sample_ok: "pager_ok sample_pager" "tlb_ok sample_pager"
  by (simp_all add: pager_ok_def tlb_ok_def sample_pager_facts tlbc.coherent_empty)

lemma sample_mappable:
  assumes "k < 2 ^ 12"
  shows "page_mappable sample_pager sample_chunk (0x12000000 + of_nat (4096 * k)) (0x400000 + of_nat (4096 * k))"
proof -
  have k: "unat (of_nat (4096 * k) :: u64) = 4096 * k"
    by (rule unat_of_nat_small) (use assms in simp)
  have u: "unat (0x12000000 + of_nat (4096 * k) :: u64) = 0x12000000 + 4096 * k"
      "unat (0x400000 + of_nat (4096 * k) :: u64) = 0x400000 + 4096 * k"
    using assms k by (simp_all only: unat_plus_if' k) simp_all
  have ok: "chunk_ok sample_chunk"
    using sample_bare_inv by (simp add: chunks_inv_def sample_bare_def)
  have c: "contains_address sample_chunk (0x12000000 + of_nat (4096 * k))"
    unfolding contains_address_unat [OF ok] u using assms by (simp add: sample_chunk_def)
  have "unat (host_to_guest_physical sample_pager (0x12000000 + of_nat (4096 * k))) \<noteq> 0"
    using host_to_guest_physical_in(2) [OF sample_pager_facts(6) _ c] u by (simp add: sample_pager_facts sample_chunk_def)
  moreover have "page_aligned (0x12000000 + of_nat (4096 * k) - (0x400000 + of_nat (4096 * k)) :: u64)"
    by (simp add: page_aligned_iff)
  then have "(0x12000000 + of_nat (4096 * k)) AND 0xFFF = (0x400000 + of_nat (4096 * k) :: u64) AND 0xFFF"
    by (rule page_aligned_diff_offset)
  moreover have "0x400000 + of_nat (4096 * k) \<noteq> (0 :: u64)"
    using u(2) by (metis add_eq_0_iff_both_eq_0 unat_0 zero_neq_numeral)
  moreover have "(0x11000000 :: u64) \<le> 0x12000000 + of_nat (4096 * k)"
    unfolding word_le_nat_alt u by simp
  ultimately show ?thesis
    using c unfolding page_mappable_def
    by (auto simp: sample_pager_facts ELKVM_PAGE_MASK_def ELKVM_SYSTEM_MEMSIZE_def simp del: of_nat_mult)
qed


lemma sample_room: "tables_used sample_pager + 3 * areas 0x400000 (unat (2 :: u32)) \<le> 4096"
  using areas_le [of "0x400000" 2] by (simp add: sample_pager_facts)

lemma sample_mappable0: "page_mappable sample_pager sample_chunk 0x12000000 0x400000"
  using sample_mappable [of 0] by simp


section \<open>Properties\<close>

text \<open>C1. \<^verbatim>\<open>map_user_page\<close> refines the update of a partial map: with the pager invariant and room for
  three tables it returns 0 and the page map gains exactly the entry for the page of \<open>gv\<close>, or, when the page
  is already mapped to a different frame, returns -1 and the page map is unchanged.  Either way the invariant holds
  again and no host memory outside the pager's 16 MiB changes.\<close>

theorem map_user_page_refines:
  assumes "pager_ok p" "tables_used p + 3 \<le> 4096" "gv \<noteq> 0"
    "h < host_pml4_p p \<or> host_pml4_p p + ELKVM_SYSTEM_MEMSIZE \<le> h"
    "h AND ELKVM_PAGE_MASK = gv AND ELKVM_PAGE_MASK" "host_to_guest_physical p h \<noteq> 0"
  shows "\<exists>err p'. map_user_page p h gv opts = Inr (err, p') \<and> pager_ok p' \<and> outside_same p p'
    \<and> err = (if \<exists>e. pt_view p (vpn gv) = Some e \<and> pte_addr e \<noteq> page_begin (host_to_guest_physical p h) then -1 else 0)
    \<and> pt_view p' = (if err = 0 then (pt_view p)(vpn gv \<mapsto> entry_value (host_to_guest_physical p h) opts) else pt_view p)"
proof -
  have inv: "pt_inv p" "chunks_inv p"
    using assms(1) by (simp_all add: pager_ok_def)
  obtain err p' where "map_user_page p h gv opts = Inr (err, p')" "pt_inv p'"
    "err = (if \<exists>e. pt_view p (vpn gv) = Some e \<and> pte_addr e \<noteq> page_begin (host_to_guest_physical p h) then -1 else 0)"
    "pt_view p' = (if err = 0 then (pt_view p)(vpn gv \<mapsto> entry_value (host_to_guest_physical p h) opts) else pt_view p)"
    "pager_frame p' = pager_frame p" "outside_same p p'"
    by (rule map_user_page_walk [OF inv(1) add_need [OF assms(2)] assms(3-5) refl assms(6)])
  then show ?thesis
    using inv frame_to_guest(3) [of p' p] by (auto simp: pager_ok_def)
qed

theorem map_user_page_refines_witness:
  "\<exists>p'. map_user_page sample_pager 0x12000000 0x400000 3 = Inr (0, p') \<and> pager_ok p'
    \<and> pt_view p' = [vpn 0x400000 \<mapsto> entry_value 0x2000000 3]"
  using map_user_page_refines [OF sample_ok(1), of "0x400000" "0x12000000" 3]
  by (auto simp: sample_pager_facts sample_phys ELKVM_SYSTEM_MEMSIZE_def ELKVM_PAGE_MASK_def)

text \<open>C3. \<^verbatim>\<open>free_page\<close> refines the removal of one page from the map: it returns 0 and removes the page when it is
  mapped, and returns -1 and changes nothing when it is not.\<close>

theorem free_page_refines:
  assumes "pager_ok p" "gv \<noteq> 0"
  shows "\<exists>p'. free_page p gv = Inr (if pt_view p (vpn gv) = None then -1 else 0, p') \<and> pager_ok p'
    \<and> pt_view p' = (pt_view p)(vpn gv := None) \<and> outside_same p p'"
proof -
  have inv: "pt_inv p" "chunks_inv p"
    using assms(1) by (simp_all add: pager_ok_def)
  obtain err p' where "free_page p gv = Inr (err, p')" "pt_inv p'" "err = (if pt_view p (vpn gv) = None then -1 else 0)"
    "pt_view p' = (pt_view p)(vpn gv := None)" "pager_frame p' = pager_frame p" "outside_same p p'"
    by (rule free_page_walk [OF inv(1) assms(2)])
  then show ?thesis
    using inv frame_to_guest(3) [of p' p] by (auto simp: pager_ok_def)
qed

theorem free_page_refines_witness:
  "\<exists>p'. free_page sample_pager 0x400000 = Inr (-1, p') \<and> pt_view p' = Map.empty"
  using free_page_refines [OF sample_ok(1), of "0x400000"] by (auto simp: sample_pager_facts)

text \<open>C2. A page mapped by \<^verbatim>\<open>map_user_page\<close> is found by \<^verbatim>\<open>get_host_p\<close>: the guest address translates to the very
  host pointer that was mapped, through the TLB as well, and every translation that existed before is kept.\<close>

theorem map_then_get_host_p:
  assumes "pager_ok p" "tlb_ok p" "tables_used p + 3 \<le> 4096" "page_begin gv \<noteq> 0"
    "c \<in> set (chunks p)" "page_mappable p c h gv"
  shows "\<exists>p' p''. map_user_page p h gv opts = Inr (0, p') \<and> get_host_p p' gv = Inr (h, p'') \<and> tlb_ok p''
    \<and> (\<forall>b. host_of p b \<noteq> 0 \<longrightarrow> host_of p' b = host_of p b)"
proof -
  have inv: "pt_inv p" "chunks_inv p"
    using assms(1) by (simp_all add: pager_ok_def)
  have pm: "contains_address c h" "h AND 0xFFF = gv AND 0xFFF" "gv \<noteq> 0"
    using assms(6) by (simp_all add: page_mappable_def ELKVM_PAGE_MASK_def)
  define g where "g = host_to_guest_physical p h"
  obtain p' where p': "map_user_page p h gv opts = Inr (0, p')" "pt_inv p'"
    "pt_view p' = (pt_view p)(vpn gv \<mapsto> entry_value g opts)" "pager_frame p' = pager_frame p"
    using map_user_page_ok [OF inv(1) add_need [OF assms(3)] assms(6), of opts] by (metis g_def)
  have h: "host_of p' gv = h"
    by (rule map_then_walk [OF inv(2) p'(2,4) assms(5) pm(1) _ pm(2,3)]) (simp add: p'(3) g_def)
  have "unat g < 2 ^ 52"
    using host_to_guest_physical_in(4) [OF inv(2) assms(5) pm(1)] by (simp add: g_def)
  then have ext: "\<exists>e'. pt_view p' v = Some e' \<and> pte_addr e' = pte_addr e" if "pt_view p v = Some e" for v e
    using that assms(6) by (auto simp: p'(3) page_mappable_def pte_addr_entry_value pte_addr_page_begin g_def)
  have keep: "host_of p' b = host_of p b" if "host_of p b \<noteq> 0" for b
    using host_of_extend [OF inv(1) p'(2,4) ext that] .
  have "tlb_ok p'"
    using tlbc.coherent_extend [OF assms(2) [unfolded tlb_ok_def] keep] pager_frame_eqD(3) [OF p'(4)]
    by (simp add: tlb_ok_def)
  moreover have "pager_ok p'"
    using p'(2) inv(2) frame_to_guest(3) [OF p'(4)] by (simp add: pager_ok_def)
  ultimately obtain p'' where "get_host_p p' gv = Inr (h, p'')" "tlb_ok p''"
    using get_host_p_coherent [of p' gv] assms(4) h by metis
  then show ?thesis
    using p'(1) keep by blast
qed

theorem map_then_get_host_p_witness:
  "\<exists>p' p''. map_user_page sample_pager 0x12000000 0x400000 3 = Inr (0, p')
    \<and> get_host_p p' 0x400000 = Inr (0x12000000, p'')"
  using map_then_get_host_p [OF sample_ok _ _ _ sample_mappable0, of 3]
  by (auto simp: sample_pager_facts page_begin_def)


text \<open>C4. Translation through the TLB agrees with a walk of the page tables as long as the TLB is coherent,
  for every address outside guest page 0, and leaves the TLB coherent; a fresh TLB is coherent.\<close>

theorem get_host_p_agrees:
  assumes "pager_ok p" "tlb_ok p \<or> pg_tlb p = TLB" "page_begin gv \<noteq> 0"
  shows "\<exists>p'. get_host_p p gv = Inr (host_of p gv, p') \<and> walk_host_p p gv = Inr (host_of p gv)
    \<and> pager_ok p' \<and> tlb_ok p' \<and> pg_mem p' = pg_mem p \<and> host_of p' = host_of p"
proof -
  have "tlb_ok p"
    using assms(2) by (auto simp: tlb_ok_def tlbc.coherent_empty)
  moreover have "walk_host_p p gv = Inr (host_of p gv)"
    using walk_host_p_view [of p gv] assms(1,3) page_begin_nz by (auto simp: pager_ok_def host_of_def)
  ultimately show ?thesis
    using get_host_p_coherent [OF assms(1) _ assms(3)] by metis
qed

theorem get_host_p_agrees_witness:
  "\<exists>p'. get_host_p sample_pager 0x400000 = Inr (0, p') \<and> tlb_ok p'"
proof -
  have "host_of sample_pager 0x400000 = 0"
    using host_of_view [of sample_pager "0x400000"] by (simp add: sample_pager_facts)
  then show ?thesis
    using get_host_p_agrees [OF sample_ok(1), of "0x400000"] sample_ok(2) by (auto simp: page_begin_def)
qed

text \<open>C12. \<^verbatim>\<open>free_page\<close> never invalidates the TLB: after a guest page has been translated once, unmapping it
  succeeds, a page-table walk finds nothing, and yet \<^verbatim>\<open>get_host_p\<close> still returns the old host pointer.\<close>

theorem get_host_p_stale_after_free:
  assumes "pager_ok p" "tlb_ok p" "page_begin gv \<noteq> 0" "host_of p gv \<noteq> 0"
  shows "\<exists>p1 p2 p3. get_host_p p gv = Inr (host_of p gv, p1) \<and> free_page p1 gv = Inr (0, p2)
    \<and> host_of p2 gv = 0 \<and> get_host_p p2 gv = Inr (host_of p gv, p3)"
proof -
  have gv: "gv \<noteq> 0"
    using assms(3) page_begin_nz by blast
  have inv: "pt_inv p"
    using assms(1) by (simp add: pager_ok_def)
  obtain p1 where p1: "get_host_p p gv = Inr (host_of p gv, p1)" "pager_ok p1" "tlb_ok p1" "host_of p1 = host_of p"
    using get_host_p_coherent [OF assms(1-3)] by metis
  then have inv1: "pt_inv p1"
    by (simp add: pager_ok_def)
  have some: "pt_view p1 (vpn gv) \<noteq> None"
    using host_of_view [OF inv1 gv] p1(4) assms(4) by (cases "pt_view p1 (vpn gv)") simp_all
  obtain p2 where p2: "free_page p1 gv = Inr (0, p2)" "pt_inv p2" "pt_view p2 = (pt_view p1)(vpn gv := None)"
      "pager_frame p2 = pager_frame p1"
    using free_page_walk [OF inv1 gv] some by metis
  have "host_of p2 gv = 0"
    using host_of_view [OF p2(2) gv] by (simp add: p2(3))
  moreover have "page_begin (host_of p gv) OR (gv AND 0xFFF) = host_of p gv"
    using host_of_paged [OF assms(1)] assms(3,4) unfolding tlbc.paged_def by metis
  then have "fst (TLB_find (pg_tlb p2) gv) = host_of p gv"
    using get_host_p_enters [OF inv gv p1(1) assms(4)] pager_frame_eqD(3) [OF p2(4)] by auto
  then have "\<exists>p3. get_host_p p2 gv = Inr (host_of p gv, p3)"
    using get_host_p_hit [OF gv _ assms(4)] by blast
  ultimately show ?thesis
    using p1(1) p2(1) by blast
qed

theorem get_host_p_stale_after_free_witness:
  "\<exists>p p1 p2 p3. map_user_page sample_pager 0x12000000 0x400000 3 = Inr (0, p)
    \<and> get_host_p p 0x400000 = Inr (0x12000000, p1) \<and> free_page p1 0x400000 = Inr (0, p2)
    \<and> host_of p2 0x400000 = 0 \<and> get_host_p p2 0x400000 = Inr (0x12000000, p3)"
proof -
  obtain p where p: "map_user_page sample_pager 0x12000000 0x400000 3 = Inr (0, p)" "pt_inv p"
    "pt_view p = (pt_view sample_pager)(vpn 0x400000 \<mapsto> entry_value (host_to_guest_physical sample_pager 0x12000000) 3)"
    "pager_frame p = pager_frame sample_pager"
    using map_user_page_ok [OF sample_pager_facts(2) add_need sample_mappable0, of 3] sample_pager_facts(3) by auto
  have h: "host_of p 0x400000 = 0x12000000"
    using map_then_walk [OF sample_pager_facts(6) p(2,4), of sample_chunk "0x12000000" "0x400000" 3] sample_mappable0
    by (simp add: p(3) sample_pager_facts page_mappable_def)
  have "pager_ok p" "tlb_ok p"
    using p(2) sample_pager_facts(6,9) frame_to_guest(3) [OF p(4)] pager_frame_eqD(3) [OF p(4)]
    by (simp_all add: pager_ok_def tlb_ok_def tlbc.coherent_empty)
  then show ?thesis
    using get_host_p_stale_after_free [of p "0x400000"] p(1) h by (auto simp: page_begin_def)
qed

text \<open>C13. With a fresh TLB, \<^verbatim>\<open>get_host_p\<close> answers every non-null address of guest page 0 with the guest
  address itself: the zero-initialised TLB slot is taken for a hit on page 0, whatever the page tables say.\<close>

theorem get_host_p_page_zero:
  assumes "pg_tlb p = TLB" "gv \<noteq> 0" "page_begin gv = 0"
  shows "\<exists>p'. get_host_p p gv = Inr (gv, p')"
proof (rule get_host_p_hit [OF assms(2) _ assms(2)])
  have "gv AND 0xFFF = gv"
    using page_begin_plus_offset [of gv] assms(3) by simp
  then show "fst (TLB_find (pg_tlb p) gv) = gv"
    using assms(3) unfolding assms(1) TLB_find_def TLB_def Let_def ELKVM_PAGE_MASK_def page_begin_fold by simp
qed

theorem get_host_p_page_zero_witness:
  "\<exists>p'. get_host_p sample_pager 0x10 = Inr (0x10, p') \<and> pt_view sample_pager (vpn 0x10) = None"
  using get_host_p_page_zero [OF sample_pager_facts(9), of "0x10"]
  by (simp add: page_begin_def sample_pager_facts)


text \<open>C6. \<^verbatim>\<open>map_region\<close> maps every page of its range: when each page is mappable and the tables have room, it
  returns 0, page \<open>k\<close> of the range is mapped to the frame of host page \<open>k\<close> with the options given, and no other
  page changes.\<close>

theorem map_region_maps:
  assumes "pager_ok p" "tables_used p + 3 * areas gv (unat pages) \<le> 4096"
    "\<And>k. k < unat pages \<Longrightarrow> page_mappable p c (h + of_nat (4096 * k)) (gv + of_nat (4096 * k))"
  shows "\<exists>p'. map_region p h gv pages opts = Inr (0, p') \<and> pager_ok p' \<and> outside_same p p'
    \<and> (\<forall>k<unat pages. pt_view p' (vpn (gv + of_nat (4096 * k))) =
         Some (entry_value (host_to_guest_physical p (h + of_nat (4096 * k))) opts))
    \<and> (\<forall>v. (\<forall>k<unat pages. v \<noteq> vpn (gv + of_nat (4096 * k))) \<longrightarrow> pt_view p' v = pt_view p v)"
proof -
  have inv: "pt_inv p" "chunks_inv p"
    using assms(1) by (simp_all add: pager_ok_def)
  obtain p' where "map_region_loop (unat pages) p h gv opts = Inr (0, p')" "pt_inv p'"
    "pager_frame p' = pager_frame p" "outside_same p p'"
    "\<forall>k<unat pages. pt_view p' (vpn (gv + of_nat (4096 * k))) =
         Some (entry_value (host_to_guest_physical p (h + of_nat (4096 * k))) opts)"
    "\<forall>v. (\<forall>k<unat pages. v \<noteq> vpn (gv + of_nat (4096 * k))) \<longrightarrow> pt_view p' v = pt_view p v"
    using map_region_loop_spec [OF inv(1) add_areas [OF assms(2)] assms(3), of opts] by blast
  then show ?thesis
    using inv(2) frame_to_guest(3) [of p' p] unfolding map_region_def pager_ok_def by blast
qed

theorem map_region_maps_witness:
  "\<exists>p'. map_region sample_pager 0x12000000 0x400000 2 1 = Inr (0, p')
    \<and> pt_view p' (vpn (0x400000 + of_nat (4096 * 1))) =
       Some (entry_value (host_to_guest_physical sample_pager (0x12000000 + of_nat (4096 * 1))) 1)"
proof -
  have "page_mappable sample_pager sample_chunk (0x12000000 + of_nat (4096 * k)) (0x400000 + of_nat (4096 * k))"
    if "k < unat (2 :: u32)" for k
    using sample_mappable [of k] that by simp
  from map_region_maps [OF sample_ok(1) sample_room this, where opts = 1]
  obtain p' where m: "map_region sample_pager 0x12000000 0x400000 2 1 = Inr (0, p')"
    "\<forall>k<unat (2 :: u32). pt_view p' (vpn (0x400000 + of_nat (4096 * k))) =
       Some (entry_value (host_to_guest_physical sample_pager (0x12000000 + of_nat (4096 * k))) 1)"
    by blast
  then show ?thesis
    using m(2) [rule_format, of 1] by (intro exI [of _ p']) simp
qed

text \<open>C7. \<^verbatim>\<open>unmap_region\<close> on a fully mapped range returns 0 and removes exactly the pages of the range.\<close>

theorem unmap_region_unmaps:
  assumes "pager_ok p" "\<And>k. k < unat pages \<Longrightarrow> gv + of_nat (4096 * k) \<noteq> 0"
    "\<And>k. k < unat pages \<Longrightarrow> pt_view p (vpn (gv + of_nat (4096 * k))) \<noteq> None"
  shows "\<exists>p'. unmap_region p gv pages = Inr (0, p') \<and> pager_ok p' \<and> outside_same p p'
    \<and> (\<forall>v. pt_view p' v = (if \<exists>k<unat pages. v = vpn (gv + of_nat (4096 * k)) then None else pt_view p v))"
proof -
  have inv: "pt_inv p" "chunks_inv p"
    using assms(1) by (simp_all add: pager_ok_def)
  have "unat pages \<le> 2 ^ 36"
    using unat_less_power [of pages] by simp
  then obtain p' where "unmap_region_loop (unat pages) p gv = Inr (0, p')" "pt_inv p'"
    "pager_frame p' = pager_frame p" "outside_same p p'"
    "\<forall>v. pt_view p' v = (if \<exists>k<unat pages. v = vpn (gv + of_nat (4096 * k)) then None else pt_view p v)"
    using unmap_region_loop_spec [OF inv(1) _ assms(2,3)] by blast
  then show ?thesis
    using inv(2) frame_to_guest(3) [of p' p] unfolding unmap_region_def pager_ok_def by blast
qed

theorem unmap_region_unmaps_witness:
  "\<exists>p p'. map_region sample_pager 0x12000000 0x400000 2 1 = Inr (0, p)
    \<and> unmap_region p 0x400000 2 = Inr (0, p') \<and> pt_view p' (vpn 0x400000) = None"
proof -
  have pm: "page_mappable sample_pager sample_chunk (0x12000000 + of_nat (4096 * k)) (0x400000 + of_nat (4096 * k))"
    if "k < unat (2 :: u32)" for k
    using sample_mappable [of k] that by simp
  obtain p where p: "map_region_loop (unat (2 :: u32)) sample_pager 0x12000000 0x400000 1 = Inr (0, p)" "pt_inv p"
    "pager_frame p = pager_frame sample_pager"
    "\<And>k. k < unat (2 :: u32) \<Longrightarrow> pt_view p (vpn (0x400000 + of_nat (4096 * k))) =
         Some (entry_value (host_to_guest_physical sample_pager (0x12000000 + of_nat (4096 * k))) 1)"
    using map_region_loop_spec [OF sample_pager_facts(2) add_areas [OF sample_room] pm, where opts = 1] by blast
  have nz: "(0x400000 :: u64) + of_nat (4096 * k) \<noteq> 0" if "k < unat (2 :: u32)" for k
    using sample_mappable [of k] that by (simp add: page_mappable_def)
  have some: "pt_view p (vpn (0x400000 + of_nat (4096 * k))) \<noteq> None" if "k < unat (2 :: u32)" for k
    using p(4) [OF that] by simp
  have "pager_ok p"
    using p(2) sample_pager_facts(6) frame_to_guest(3) [OF p(3)] by (simp add: pager_ok_def)
  from unmap_region_unmaps [OF this nz some]
  obtain p' where p': "unmap_region p 0x400000 2 = Inr (0, p')"
    "\<forall>v. pt_view p' v = (if \<exists>k<unat (2 :: u32). v = vpn (0x400000 + of_nat (4096 * k)) then None else pt_view p v)"
    by blast
  then have "pt_view p' (vpn 0x400000) = None"
    using exI [of "\<lambda>k. k < unat (2 :: u32) \<and> vpn 0x400000 = vpn (0x400000 + of_nat (4096 * k))" 0] by simp
  with p(1) p'(1) show ?thesis
    unfolding map_region_def by blast
qed


text \<open>C11. The search of \<^verbatim>\<open>map_kernel_page\<close> ends as soon as the page table of the kernel base has a free slot:
  it returns the address of the first unmapped kernel page, maps the given host page there, and changes no
  other page.\<close>

theorem map_kernel_page_first_free:
  assumes "pager_ok p" "tables_used p + 3 \<le> 4096" "guest_next_free p = KERNEL_SPACE_BOTTOM" "k < 512"
    "gv = KERNEL_SPACE_BOTTOM OR (host_to_guest_physical p h AND 0xFFF)"
    "\<And>l. l < k \<Longrightarrow> pt_view p (vpn (gv + of_nat (4096 * l))) \<noteq> None"
    "pt_view p (vpn (gv + of_nat (4096 * k))) = None"
  shows "\<exists>p'. map_kernel_page p h opts = Some (Inr (gv + of_nat (4096 * k), p')) \<and> pager_ok p' \<and> outside_same p p'
    \<and> pt_view p' = (pt_view p)(vpn (gv + of_nat (4096 * k)) \<mapsto> entry_value (host_to_guest_physical p h) opts)"
proof -
  have inv: "pt_inv p" "chunks_inv p"
    using assms(1) by (simp_all add: pager_ok_def)
  have base: "page_aligned KERNEL_SPACE_BOTTOM"
    by (simp add: page_aligned_iff KERNEL_SPACE_BOTTOM_def)
  have gv: "gv = (guest_next_free p AND NOT 0xFFF) OR (host_to_guest_physical p h AND 0xFFF)"
    using base assms(3,5) by (simp only: page_aligned_def)
  have pb: "page_begin gv = KERNEL_SPACE_BOTTOM"
    using page_begin_plus [OF base] assms(5) by simp
  then have nz: "gv \<noteq> 0"
    using page_begin_nz [of gv] by (simp add: KERNEL_SPACE_BOTTOM_def)
  have "tbl_index gv 12 = tbl_index KERNEL_SPACE_BOTTOM 12"
    using vpn_page_begin [of gv KERNEL_SPACE_BOTTOM] pb base by (simp add: vpn_eq_iff)
  then have "tbl_index gv 12 + k < 512"
    using assms(4) by (simp add: tbl_index_nat KERNEL_SPACE_BOTTOM_def)
  from map_kernel_page_finds [OF inv(1) add_need [OF assms(2)] gv nz this assms(6,7), of opts] show ?thesis
    using inv(2) frame_to_guest(3) unfolding pager_ok_def by blast
qed

theorem map_kernel_page_first_free_witness:
  "\<exists>p'. map_kernel_page sample_pager 0x12000000 1 = Some (Inr (KERNEL_SPACE_BOTTOM, p'))
    \<and> pt_view p' = [vpn KERNEL_SPACE_BOTTOM \<mapsto> entry_value 0x2000000 1]"
  using map_kernel_page_first_free [OF sample_ok(1) _ sample_pager_facts(8), of 0 KERNEL_SPACE_BOTTOM "0x12000000" 1]
  by (auto simp: sample_pager_facts sample_phys)

text \<open>C8. \<^verbatim>\<open>set_pml4\<close> on a page-aligned base inside the first chunk with 16 MiB to spare establishes the page-table
  invariant with an empty page map, one table in use and the kernel base as the next free address, and returns the
  guest-physical address of the PML4.\<close>

theorem set_pml4_establishes:
  assumes "chunks_inv p" "chunks p = c # cs" "page_aligned base" "userspace_addr c \<le> base"
    "unat base + 0x1000000 \<le> unat (userspace_addr c) + unat (memory_size c)"
  shows "\<exists>p'. set_pml4 p base = Inr (ucast (host_to_guest_physical p base), p') \<and> pager_ok p'
    \<and> pt_view p' = Map.empty \<and> tables_used p' = 1 \<and> guest_next_free p' = KERNEL_SPACE_BOTTOM"
proof -
  have c: "c \<in> set (chunks p)" "chunk_ok c"
    using assms(1,2) by (simp_all add: chunks_inv_def)
  then have "contains_address c base"
    using assms(4,5) by (simp add: contains_address_unat word_le_nat_alt)
  moreover have "guest_phys_addr c = 0"
    using assms(1,2) by (simp add: chunks_inv_def unat_eq_0)
  ultimately have "host_to_guest_physical p base = base - userspace_addr c"
    using host_to_guest_physical_in(1) [OF assms(1) c(1)] by simp
  then show ?thesis
    using set_pml4_spec [OF assms] unfolding pager_ok_def by metis
qed

theorem set_pml4_establishes_witness:
  "\<exists>p'. set_pml4 sample_bare 0x10000000 = Inr (0, p') \<and> pager_ok p' \<and> pt_view p' = Map.empty"
proof -
  have "page_aligned (0x10000000 :: u64)"
    by (simp add: page_aligned_iff)
  then show ?thesis
    using set_pml4_establishes [OF sample_bare_inv, of sample_chunk "[]" "0x10000000"]
    by (auto simp: sample_bare_def sample_chunk_def host_to_guest_physical_def find_chunk_for_host_p_def contains_address_def)
qed

text \<open>C9. Creating a chunk keeps the chunk invariant on every path (unaligned size, failed allocation, empty chunk,
  failed or successful registration): chunks stay page granular, contiguous in guest-physical memory, disjoint in host
  memory, and use pairwise distinct KVM slots below the limit of 125.\<close>

theorem create_mem_chunk_keeps_inv:
  assumes "chunks_inv p" "memalign_ok am" "unat (total_memsz p) + unat sz \<le> 2 ^ 52"
    "create_mem_chunk am ioctl p sz = Inr (err, h, p')"
  shows "chunks_inv p' \<and> distinct (map slot (chunks p')) \<and> (\<forall>c \<in> set (chunks p'). slot c < KVM_MEMORY_SLOTS)"
proof -
  have inv: "chunks_inv p'"
    by (rule create_mem_chunk_inv [OF assms])
  then have "distinct (map slot (chunks p'))"
    by (simp add: chunks_inv_def slots_inv_def)
  with inv chunks_inv_slot [OF inv] show ?thesis
    by simp
qed

theorem create_mem_chunk_keeps_inv_witness:
  "\<exists>p p'. PagerX86_64 3 (\<lambda>_. 0) TLB = Inr p
    \<and> create_mem_chunk sample_memalign (\<lambda>_. 0) p 0x8000000 = Inr (0, 0x10000000, p') \<and> chunks_inv p'"
proof -
  define p where "p = projr (PagerX86_64 3 (\<lambda>_. 0) TLB)"
  have p: "PagerX86_64 3 (\<lambda>_. 0) TLB = Inr p"
    by (simp add: p_def PagerX86_64_def)
  have inv: "chunks_inv p"
    by (simp add: p_def PagerX86_64_def chunks_inv_def slots_inv_def)
  have "create_mem_chunk sample_memalign (\<lambda>_. 0) p 0x8000000 =
      Inr (0, 0x10000000, p\<lparr>total_memsz := 0x8000000, chunks := [sample_chunk]\<rparr>)"
    by (simp add: create_mem_chunk_def p_def PagerX86_64_def sample_memalign_def alloc_chunk_def map_chunk_to_kvm_def
        Let_def KVM_MEMORY_SLOTS_def page_aligned_def sample_chunk_def)
  from create_mem_chunk_keeps_inv [OF inv sample_memalign_ok _ this] this p show ?thesis
    by (auto simp: p_def PagerX86_64_def)
qed

text \<open>C10. Guest-physical and host addresses correspond: for a host address inside a chunk,
  \<^verbatim>\<open>host_to_guest_physical\<close> gives a guest-physical address of the same chunk and page offset, and the chunk
  search of \<^verbatim>\<open>get_host_p\<close> leads back to the host address.\<close>

theorem host_phys_roundtrip:
  assumes "chunks_inv p" "c \<in> set (chunks p)" "contains_address c h"
  shows "phys_to_host p (host_to_guest_physical p h) = h
    \<and> contains_phys_address c (host_to_guest_physical p h)
    \<and> host_to_guest_physical p h AND 0xFFF = h AND 0xFFF"
  using phys_to_host_roundtrip [OF assms] host_to_guest_physical_in(3) [OF assms] host_page_offset [OF assms] by simp

theorem host_phys_roundtrip_witness:
  "phys_to_host sample_bare (host_to_guest_physical sample_bare 0x12000123) = 0x12000123"
  using host_phys_roundtrip [OF sample_bare_inv, of sample_chunk "0x12000123"]
  by (simp add: sample_bare_def sample_chunk_def contains_address_def)

end
