(* ===== verification/Memory_Props.thy ===== *)
theory Memory_Props
  imports Heap_Maps Pager_Props
begin

text \<open>
  Properties of the region manager and of the heap manager, and the concrete machine their witnesses use: the manager the
  constructor builds on a host that grants one chunk of 128 MiB.
\<close>

section \<open>A concrete manager\<close>

definition sample_rm :: rmgr where
  "sample_rm = projr (RegionManager sample_memalign (\<lambda>_. 0) 3 (\<lambda>_. 0) TLB)"

lemma sample_rm_facts:
  "RegionManager sample_memalign (\<lambda>_. 0) 3 (\<lambda>_. 0) TLB = Inr sample_rm" "mem_ok sample_rm"
  "pt_view (rm_pager sample_rm) = Map.empty" "tables_used (rm_pager sample_rm) = 1"
  "total_memsz (rm_pager sample_rm) = 0x8000000" "\<exists>a. allocated_regions sample_rm = [a] \<and> pager_region sample_rm a"
proof -
  obtain rm where rm: "RegionManager sample_memalign (\<lambda>_. 0) 3 (\<lambda>_. 0) TLB = Inr rm" "mem_ok rm" "pt_view (rm_pager rm) = Map.empty"
    "tables_used (rm_pager rm) = 1" "total_memsz (rm_pager rm) = ELKVM_SYSTEM_MEMGROW"
    "\<exists>a. allocated_regions rm = [a] \<and> pager_region rm a"
    by (rule RegionManager_establishes_mem_ok [of 3 sample_memalign "0x10000000" "\<lambda>_. 0" "\<lambda>_. 0"])
      (auto simp: sample_memalign_ok, auto simp: sample_memalign_def ELKVM_SYSTEM_MEMGROW_def)
  then show "RegionManager sample_memalign (\<lambda>_. 0) 3 (\<lambda>_. 0) TLB = Inr sample_rm" "mem_ok sample_rm"
    "pt_view (rm_pager sample_rm) = Map.empty" "tables_used (rm_pager sample_rm) = 1"
    "total_memsz (rm_pager sample_rm) = 0x8000000" "\<exists>a. allocated_regions sample_rm = [a] \<and> pager_region sample_rm a"
    by (simp_all add: sample_rm_def ELKVM_SYSTEM_MEMGROW_def)
qed

text \<open>A manager whose allocated regions do not fill its chunks has a free region of at least a page.\<close>

lemma free_region_left:
  assumes inv: "rm_inv rm" and less: "(\<Sum>a \<in> set (allocated_regions rm). unat (reg_size (rm_store rm a))) < unat (total_memsz (rm_pager rm))"
  obtains a where "a \<in> free_ids rm" "0x1000 \<le> reg_size (rm_store rm a)"
proof -
  have ti: "tiles (chunks (rm_pager rm)) (rm_store rm) (live_ids rm)" and ch: "chunks_inv (rm_pager rm)"
    using inv by (simp_all add: rm_inv_def)
  have "free_ids rm \<noteq> {}"
  proof
    assume "free_ids rm = {}"
    then have "live_ids rm = set (allocated_regions rm)"
      by (simp add: live_ids_def)
    then show False
      using tilesD(5) [OF ti] less ch by (simp add: chunks_inv_def)
  qed
  then obtain a where a: "a \<in> free_ids rm"
    by blast
  have "region_wf (rm_store rm a)"
    using tilesD(2) [OF ti] a by (simp add: live_ids_def)
  then have "4096 dvd unat (reg_size (rm_store rm a))" "0 < unat (reg_size (rm_store rm a))"
    by (simp_all add: region_wf_def page_aligned_iff word_less_nat_alt)
  then have "4096 \<le> unat (reg_size (rm_store rm a))"
    by (rule dvd_imp_le)
  then show ?thesis
    using that [OF a] by (simp add: word_le_nat_alt)
qed

lemma sample_rm_free:
  obtains a where "a \<in> free_ids sample_rm" "0x1000 \<le> reg_size (rm_store sample_rm a)"
proof -
  obtain s where s: "allocated_regions sample_rm = [s]" "pager_region sample_rm s"
    using sample_rm_facts(6) by blast
  show ?thesis
    by (rule free_region_left [of sample_rm])
      (use s sample_rm_facts(2,5) that in \<open>auto simp: mem_ok_def mem_inv_def pager_region_def ELKVM_PAGER_MEMSIZE_def\<close>)
qed


section \<open>Allocation\<close>

text \<open>C14. The constructor of the region manager establishes the memory invariant when the host grants the first
  chunk: the page tables lie in the first allocated region at the start of the first chunk, no guest page is mapped, and
  regions tile the chunk.\<close>

theorem RegionManager_establishes:
  assumes "0 < fd" "memalign_ok am" "am [] ELKVM_SYSTEM_MEMGROW = Inr h" "\<forall>c. ioctl c = 0"
  shows "\<exists>rm a. RegionManager am ioctl fd m TLB = Inr rm \<and> mem_ok rm \<and> pt_view (rm_pager rm) = Map.empty
    \<and> allocated_regions rm = [a] \<and> pager_region rm a"
  by (rule RegionManager_establishes_mem_ok [OF assms, of m]) blast

theorem RegionManager_establishes_witness:
  "\<exists>rm. RegionManager sample_memalign (\<lambda>_. 0) 3 (\<lambda>_. 0) TLB = Inr rm \<and> mem_ok rm"
proof -
  have "sample_memalign [] ELKVM_SYSTEM_MEMGROW = Inr 0x10000000"
    by (simp add: sample_memalign_def ELKVM_SYSTEM_MEMGROW_def)
  then show ?thesis
    using RegionManager_establishes [OF _ sample_memalign_ok, of 3 "0x10000000" "\<lambda>_. 0" "\<lambda>_. 0"] by auto
qed

text \<open>C15. \<^verbatim>\<open>allocate_region\<close> hands out a region of the page-rounded size that is new, apart from every other live
  region and leaves all other allocated regions as they were; it aborts only when no free region is large enough and the
  host cannot add a chunk.\<close>

theorem allocate_region_correct:
  assumes "rm_inv rm" "memalign_ok am" "0 < sz" "unat (total_memsz (rm_pager rm)) + unat sz + 0x8000000 \<le> 2 ^ 52"
  shows "case allocate_region am ioctl rm sz purpose of
      Inr (b, rm') \<Rightarrow> rm_inv rm' \<and> b \<notin> set (allocated_regions rm) \<and> allocated_regions rm' = allocated_regions rm @ [b]
        \<and> reg_size (rm_store rm' b) = pagesize_align sz \<and> \<not> reg_free (rm_store rm' b)
        \<and> (\<forall>x \<in> set (allocated_regions rm). rm_store rm' x = rm_store rm x
            \<and> reg_bytes (rm_store rm' x) \<inter> reg_bytes (rm_store rm' b) = {})
    | Inl e \<Rightarrow> e = Abort \<and> (\<forall>a \<in> free_ids rm. reg_size (rm_store rm a) < sz)
        \<and> (\<forall>rm'. add_chunk am ioctl rm sz purpose \<noteq> Inr (0, rm'))"
  using allocate_region_cases [OF assms, of ioctl purpose]
proof (elim disjE exE conjE)
  fix b rm'
  assume run: "allocate_region am ioctl rm sz purpose = Inr (b, rm')" and al: "allocated rm sz b rm'"
  have inv: "rm_inv rm'" and live: "allocated_regions rm' = allocated_regions rm @ [b]" and new: "b \<notin> set (allocated_regions rm)"
    using al by (simp_all add: allocated_def)
  have "reg_bytes (rm_store rm' x) \<inter> reg_bytes (rm_store rm' b) = {}" if "x \<in> set (allocated_regions rm)" for x
    using allocated_apart [OF inv, of x b] live new that by auto
  moreover have "\<not> reg_free (rm_store rm' b)"
    using lists_okD(2) [of rm' b] inv live by (simp add: rm_inv_def)
  ultimately show ?thesis
    using run al by (simp add: allocated_def)
qed (simp add: not_le)

theorem allocate_region_correct_witness:
  "\<exists>b rm'. allocate_region sample_memalign (\<lambda>_. 0) sample_rm 0x800 ''heap'' = Inr (b, rm') \<and> rm_inv rm'
    \<and> reg_size (rm_store rm' b) = 0x1000"
proof -
  have inv: "rm_inv sample_rm"
    using sample_rm_facts(2) by (simp add: mem_ok_def mem_inv_def)
  obtain a where a: "a \<in> free_ids sample_rm" "0x1000 \<le> reg_size (rm_store sample_rm a)"
    by (rule sample_rm_free)
  then have "\<not> reg_size (rm_store sample_rm a) < 0x800"
    by (simp add: not_less word_le_nat_alt)
  then show ?thesis
    using allocate_region_correct [OF inv sample_memalign_ok, of "0x800" "\<lambda>_. 0" "''heap''"] a(1) sample_rm_facts(5)
    by (auto simp: pagesize_align_def ELKVM_PAGE_MASK_def ELKVM_PAGESIZE_def split: sum.splits prod.splits)
qed

text \<open>C16. In any history of allocations and releases that does not abort, a region that is allocated at the start and
  never released stays allocated and keeps its bytes, and all allocated regions stay apart.\<close>

theorem allocation_history_safe:
  assumes "rm_inv rm" "ra.history am ioctl ops rm = Inr rm'"
  shows "rm_inv rm'
    \<and> (\<forall>a \<in> set (allocated_regions rm). Inr a \<notin> set ops \<longrightarrow>
         a \<in> set (allocated_regions rm') \<and> region_block rm' a = region_block rm a)
    \<and> (\<forall>a \<in> set (allocated_regions rm'). \<forall>b \<in> set (allocated_regions rm').
         a \<noteq> b \<longrightarrow> region_block rm' a \<inter> region_block rm' b = {})"
  using ra.history_inv [OF assms] ra.history_keeps [OF assms] ra.live_apart by blast

theorem allocation_history_safe_witness:
  "\<exists>rm'. ra.history sample_memalign (\<lambda>_. 0) [Inl (0x800, ''heap'')] sample_rm = Inr rm' \<and> rm_inv rm'"
proof -
  have inv: "rm_inv sample_rm"
    using sample_rm_facts(2) by (simp add: mem_ok_def mem_inv_def)
  obtain a where a: "a \<in> free_ids sample_rm" "0x1000 \<le> reg_size (rm_store sample_rm a)"
    by (rule sample_rm_free)
  then have "0x800 \<le> reg_size (rm_store sample_rm a)"
    by (simp add: word_le_nat_alt)
  then obtain b rm' where run: "allocate_region sample_memalign (\<lambda>_. 0) sample_rm 0x800 ''heap'' = Inr (b, rm')"
    using allocate_region_cases [OF inv sample_memalign_ok, of "0x800" "\<lambda>_. 0" "''heap''"] a(1) sample_rm_facts(5) by auto
  have "ra.history sample_memalign (\<lambda>_. 0) [Inl (0x800, ''heap'')] sample_rm = Inr rm'"
    by (simp only: ra.history.simps sum.case) (simp add: run rm_request_ok_def sample_rm_facts(5) sample_memalign_ok)
  then show ?thesis
    using allocation_history_safe [OF inv] by blast
qed

text \<open>C17. Memory that has been freed is reused: after \<^verbatim>\<open>free_region\<close> any request up to the size of the freed region is
  served without asking the host for memory, whatever the host would answer.\<close>

theorem freed_memory_is_reused:
  assumes "rm_inv rm" "a \<in> set (allocated_regions rm)" "0 < sz" "sz \<le> reg_size (rm_store rm a)"
  shows "\<exists>rm1 b rm2. free_region rm a = Inr rm1 \<and> allocate_region am ioctl rm1 sz purpose = Inr (b, rm2)
    \<and> rm_inv rm2 \<and> rm_pager rm2 = rm_pager rm"
proof -
  note rl = released_inv [OF assms(1,2)]
  have size: "reg_size (rm_store (released rm a) a) = reg_size (rm_store rm a)"
    by (simp add: released_def)
  obtain x rm1 where f: "find_free_region (released rm a) sz = (Some x, rm1)"
    using find_free_region_None [of "released rm a" sz _ a] rl(1,3) size assms(4)
    by (cases "find_free_region (released rm a) sz"; cases "fst (find_free_region (released rm a) sz)") (auto simp: rm_inv_def)
  obtain b rm2 where "carve_region rm1 x sz purpose = Inr (b, rm2)" "allocated (released rm a) sz b rm2"
      "rm_pager rm2 = rm_pager (released rm a)"
    by (rule allocate_found [OF rl(1) f assms(3)])
  then show ?thesis
    using f rl(4) assms(2) by (auto simp: free_region_eq allocate_region_def allocated_def)
qed

theorem freed_memory_is_reused_witness:
  "\<exists>a rm1 b rm2. free_region sample_rm a = Inr rm1
    \<and> allocate_region (\<lambda>_ _. Inl 12) (\<lambda>_. 0) rm1 0x1000000 ''again'' = Inr (b, rm2)"
proof -
  obtain s where s: "allocated_regions sample_rm = [s]" "pager_region sample_rm s"
    using sample_rm_facts(6) by blast
  then show ?thesis
    using freed_memory_is_reused [of sample_rm s "0x1000000" "\<lambda>_ _. Inl 12" "\<lambda>_. 0" "''again''"] sample_rm_facts(2)
    by (auto simp: mem_ok_def mem_inv_def pager_region_def ELKVM_PAGER_MEMSIZE_def)
qed

section \<open>Mappings of the heap\<close>

text \<open>C18. \<^verbatim>\<open>create_mapping\<close> with a fresh region appends one well-formed mapping of the page-rounded length whose every byte
  translates to the byte of its region, keeps every translation that existed, and keeps the memory invariant.\<close>

theorem create_mapping_maps:
  assumes "mem_ok (heap_rm h)" "memalign_ok am" "0 < len" "unat len + 4096 < 2 ^ 64"
    "unat (total_memsz (heap_pager h)) + unat (pagesize_align len) + 0x8000000 \<le> 2 ^ 52"
    "allocate_region am ioctl (heap_rm h) (pagesize_align len) (''mapping with fd: '' @ dec_int fd) = Inr (a, rm1)"
    "create_ok (heap_rm h) addr (pagesize_align len) prot a rm1"
  shows "\<exists>h' m. heap_create_mapping am ioctl h addr len prot flags fd off None = Inr (InMmap (length (mappings_for_mmap h)), h')
    \<and> mappings_for_mmap h' = mappings_for_mmap h @ [m] \<and> mappings_for_brk h' = mappings_for_brk h
    \<and> mem_ok (heap_rm h') \<and> mapping_wf (heap_rm h') m \<and> m_length m = pagesize_align len
    \<and> (\<forall>i < unat (pagesize_align len). host_of (heap_pager h') (m_addr m + of_nat i) = m_host_p m + of_nat i)
    \<and> (\<forall>b. host_of (heap_pager h) b \<noteq> 0 \<longrightarrow> host_of (heap_pager h') b = host_of (heap_pager h) b)"
proof (rule create_mapping_ok [OF assms, of flags off])
  fix h' m
  assume "heap_create_mapping am ioctl h addr len prot flags fd off None = Inr (InMmap (length (mappings_for_mmap h)), h')"
    "mappings_for_mmap h' = mappings_for_mmap h @ [m]" "mappings_for_brk h' = mappings_for_brk h"
    "mem_ok (heap_rm h')" "mapping_wf (heap_rm h') m" "translated (heap_pager h') m" "m_length m = pagesize_align len"
    "unat (m_pages m) = unat (pagesize_align len) div 4096"
    "\<And>b. host_of (heap_pager h) b \<noteq> 0 \<Longrightarrow> host_of (heap_pager h') b = host_of (heap_pager h) b"
  moreover have "4096 * (unat (pagesize_align len) div 4096) = unat (pagesize_align len)"
    using page_aligned_pagesize_align [of len] by (simp add: page_aligned_iff)
  ultimately show ?thesis
    unfolding translated_def by auto
qed

lemma sample_alloc:
  obtains a rm1 where "allocate_region sample_memalign (\<lambda>_. 0) sample_rm 0x1000 name = Inr (a, rm1)"
proof -
  have inv: "rm_inv sample_rm"
    using sample_rm_facts(2) by (simp add: mem_ok_def mem_inv_def)
  obtain a where a: "a \<in> free_ids sample_rm" "0x1000 \<le> reg_size (rm_store sample_rm a)"
    by (rule sample_rm_free)
  then show ?thesis
    using allocate_region_cases [OF inv sample_memalign_ok, of "0x1000" "\<lambda>_. 0" name] that sample_rm_facts(5) by auto
qed

lemma sample_create_ok: "create_ok sample_rm 0x400000 0x1000 PROT_READ a rm1"
  using areas_le [of "0x400000" 1] by (simp add: create_ok_def page_aligned_def PROT_READ_def sample_rm_facts(3,4))

theorem create_mapping_maps_witness:
  "\<exists>h' m. heap_create_mapping sample_memalign (\<lambda>_. 0) (HeapManager sample_rm) 0x400000 0x800 PROT_READ MAP_ANONYMOUS (-1) 0 None
      = Inr (InMmap 0, h') \<and> mappings_for_mmap h' = [m]
    \<and> (\<forall>i < 0x1000. host_of (heap_pager h') (m_addr m + of_nat i) = m_host_p m + of_nat i)"
proof -
  obtain a rm1 where al: "allocate_region sample_memalign (\<lambda>_. 0) sample_rm 0x1000 (''mapping with fd: '' @ dec_int (-1)) = Inr (a, rm1)"
    by (rule sample_alloc)
  have len: "pagesize_align 0x800 = 0x1000"
    by (simp add: pagesize_align_def ELKVM_PAGE_MASK_def ELKVM_PAGESIZE_def)
  show ?thesis
    using create_mapping_maps [of "HeapManager sample_rm" sample_memalign "0x800" "\<lambda>_. 0" "-1" a rm1 "0x400000" PROT_READ MAP_ANONYMOUS 0]
      sample_rm_facts(2,5) sample_memalign_ok al sample_create_ok
    by (auto simp: len HeapManager_def heap_pager_def)
qed

text \<open>C19. Unmapping a mapping right after it was created undoes it: \<^verbatim>\<open>unmap\<close> returns 0, the mapping lists and the page map
  are as before the creation, and the region is free again.\<close>

theorem create_unmap_roundtrip:
  assumes "mem_ok (heap_rm h)" "memalign_ok am" "0 < len" "unat len + 4096 < 2 ^ 64"
    "unat (total_memsz (heap_pager h)) + unat (pagesize_align len) + 0x8000000 \<le> 2 ^ 52"
    "allocate_region am ioctl (heap_rm h) (pagesize_align len) (''mapping with fd: '' @ dec_int fd) = Inr (a, rm1)"
    "create_ok (heap_rm h) addr (pagesize_align len) prot a rm1" "addr \<noteq> 0" "unat addr + unat (pagesize_align len) < 2 ^ 64"
    "\<forall>x \<in> set (mappings_for_brk h) \<union> set (mappings_for_mmap h). m_host_p x \<noteq> reg_host_p (rm_store rm1 a)"
  shows "\<exists>ref h1 h2. heap_create_mapping am ioctl h addr len prot flags fd off None = Inr (ref, h1)
    \<and> heap_unmap h1 ref = Inr (0, h2) \<and> mappings_for_mmap h2 = mappings_for_mmap h \<and> mappings_for_brk h2 = mappings_for_brk h
    \<and> curbrk h2 = curbrk h \<and> pt_view (heap_pager h2) = pt_view (heap_pager h) \<and> mem_inv (heap_rm h2)
    \<and> set (allocated_regions (heap_rm h2)) = set (allocated_regions (heap_rm h)) \<and> a \<in> free_ids (heap_rm h2)"
proof (rule create_mapping_ok [OF assms(1-7), of flags off])
  fix h1 m
  assume cr: "heap_create_mapping am ioctl h addr len prot flags fd off None = Inr (InMmap (length (mappings_for_mmap h)), h1)"
    and m: "mappings_for_mmap h1 = mappings_for_mmap h @ [m]" "mappings_for_brk h1 = mappings_for_brk h" "curbrk h1 = curbrk h"
      "mem_ok (heap_rm h1)" "mapping_wf (heap_rm h1) m" "translated (heap_pager h1) m" "m_length m = pagesize_align len"
      "m_addr m = (if addr = 0 then reg_host_p (rm_store rm1 a) else addr)" "m_region m = a"
      "unat (m_pages m) = unat (pagesize_align len) div 4096"
      "set (allocated_regions (heap_rm h1)) = insert a (set (allocated_regions (heap_rm h)))" "a \<notin> set (allocated_regions (heap_rm h))"
      "\<And>v. (\<And>k. k < unat (m_pages m) \<Longrightarrow> v \<noteq> vpn (m_addr m + of_nat (4096 * k))) \<Longrightarrow> pt_view (heap_pager h1) v = pt_view (heap_pager h) v"
      "m_host_p m = reg_host_p (rm_store rm1 a)" "\<not> pager_region (heap_rm h1) a"
  define l where "l = pagesize_align len"
  have l: "page_aligned l" "0 < l" "unat l = 4096 * (unat l div 4096)"
    using pagesize_align_pos [of len] assms(3,4) page_aligned_pagesize_align [of len] by (simp_all add: l_def page_aligned_iff)
  have l0: "0 < unat l div 4096"
    using l(2,3) by (cases "unat l div 4096") (simp_all add: word_less_nat_alt)
  have c: "tables_used (rm_pager (heap_rm h)) + 3 * areas addr (unat l div 4096) \<le> 4096"
    "\<And>k. k < unat l div 4096 \<Longrightarrow> pt_view (heap_pager h) (vpn (addr + of_nat (4096 * k))) = None"
    using assms(7,8) unfolding create_ok_def Let_def l_def heap_pager_def by auto
  have geo: "unat (m_length m) = 4096 * unat (m_pages m)" "0 < m_pages m" "m_pages m \<le> 2 ^ 20"
      "unat (m_addr m) + unat (m_length m) < 2 ^ 64" "0 < m_addr m"
    using m(7,8,10) l l0 c(1) areas_ge [of "unat l div 4096" addr] assms(8,9) by (auto simp: l_def [symmetric] word_less_nat_alt word_le_nat_alt unat_gt_0)
  obtain h2 where h2: "heap_unmap h1 (InMmap (length (mappings_for_mmap h))) = Inr (0, h2)" "mappings_for_mmap h2 = mappings_for_mmap h @ []"
    "mappings_for_brk h2 = mappings_for_brk h1" "curbrk h2 = curbrk h1" "mem_inv (heap_rm h2)"
    "set (allocated_regions (heap_rm h2)) = set (allocated_regions (heap_rm h1)) - {m_region m}" "m_region m \<in> free_ids (heap_rm h2)"
    "\<And>v. pt_view (heap_pager h2) v =
      (if \<exists>k<unat (m_pages m). v = vpn (m_addr m + of_nat (4096 * k)) then None else pt_view (heap_pager h1) v)"
    by (rule heap_unmap_ok [of h1 "mappings_for_mmap h" m "[]"])
      (use m geo assms(10) in \<open>auto simp: mem_ok_def\<close>)
  have "pt_view (heap_pager h2) v = pt_view (heap_pager h) v" for v
    using h2(8) [of v] m(8,10,13) c(2) assms(8) by (auto simp: l_def)
  then show ?thesis
    using cr h2 m(2,3,9,11,12) by auto
qed

theorem create_unmap_roundtrip_witness:
  "\<exists>ref h1 h2. heap_create_mapping sample_memalign (\<lambda>_. 0) (HeapManager sample_rm) 0x400000 0x800 PROT_READ MAP_ANONYMOUS (-1) 0 None
      = Inr (ref, h1) \<and> heap_unmap h1 ref = Inr (0, h2) \<and> pt_view (heap_pager h2) = Map.empty"
proof -
  obtain a rm1 where al: "allocate_region sample_memalign (\<lambda>_. 0) sample_rm 0x1000 (''mapping with fd: '' @ dec_int (-1)) = Inr (a, rm1)"
    by (rule sample_alloc)
  have len: "pagesize_align 0x800 = 0x1000"
    by (simp add: pagesize_align_def ELKVM_PAGE_MASK_def ELKVM_PAGESIZE_def)
  show ?thesis
    using create_unmap_roundtrip [of "HeapManager sample_rm" sample_memalign "0x800" "\<lambda>_. 0" "-1" a rm1 "0x400000" PROT_READ MAP_ANONYMOUS 0]
      sample_rm_facts(2,3,5) sample_memalign_ok al sample_create_ok
    by (auto simp: len HeapManager_def heap_pager_def)
qed

section \<open>The start of the program break\<close>

lemma unat_next_page:
  assumes "unat a + 4096 < 2 ^ 64"
  shows "unat (next_page a) = unat a - unat a mod 4096 + 4096"
proof -
  have "unat (page_begin a + 0x1000) = unat (page_begin a) + 4096"
    using assms by (simp add: unat_page_begin unat_plus_if')
  then show ?thesis
    unfolding next_page_def ELKVM_PAGESIZE_def page_begin_def [symmetric] unat_page_begin .
qed

lemma heap_init_cases:
  fixes h a sz
  defines "r \<equiv> rm_store (heap_rm h) a"
  assumes "\<not> reg_free r" "page_aligned (reg_addr r)" "0 < reg_addr r" "0 < sz" "reg_size r = pagesize_align sz"
    "unat (reg_addr r) + unat sz + 8192 < 2 ^ 64"
  shows "if page_aligned sz then heap_init h a sz = Inl Abort
    else \<exists>h'. heap_init h a sz = Inr (0, h') \<and> curbrk h' = reg_addr r + reg_size r \<and> length (mappings_for_brk h') = length (mappings_for_brk h) + 1
      \<and> heap_rm h' = update_region (heap_rm h) a (set_guest_addr (reg_addr r) r)"
proof -
  obtain q t where qt: "unat sz = 4096 * q + t" "t < 4096"
    by (metis mod_less_divisor mult_div_mod_eq zero_less_numeral)
  obtain k where k: "unat (reg_addr r) = 4096 * k"
    using assms(3) by (auto simp: page_aligned_iff elim: dvdE)
  have al: "page_aligned sz \<longleftrightarrow> t = 0"
    using qt by (auto simp: page_aligned_iff dvd_eq_mod_eq_0)
  have b: "unat sz \<le> 2 ^ 64 - 4096"
    using assms(7) by simp
  have size: "unat (reg_size r) = (if t = 0 then 4096 * q else 4096 * q + 4096)"
  proof -
    have "(4096 * q + t + 4095) div 4096 = (if t = 0 then q else q + 1)"
      using qt(2) by (auto intro!: div_nat_eqI)
    then show ?thesis
      using unat_pagesize_align [OF b] qt by (simp add: assms(6))
  qed
  have add: "unat (reg_addr r + sz) = 4096 * (k + q) + t"
    using assms(7) k qt by (simp add: unat_plus_if')
  have np: "unat (next_page (reg_addr r + sz)) = 4096 * (k + q) + 4096"
  proof -
    have "(4096 * (k + q) + t) mod 4096 = t"
      using qt(2) by (simp only: mod_mult_self4 mod_less)
    then show ?thesis
      using unat_next_page [of "reg_addr r + sz"] add assms(7) k qt by simp
  qed
  then have np1: "unat (next_page (reg_addr r + sz) - 1) = 4096 * (k + q) + 4095"
    by (simp add: unat_sub_if')
  have top: "unat (reg_addr r + reg_size r) = 4096 * k + unat (reg_size r)"
    using size k qt assms(7) by (simp add: unat_plus_if' split: if_splits)
  define r' where "r' = set_guest_addr (reg_addr r) r"
  have "region_contains_guest r' (next_page (reg_addr r + sz) - 1) \<longleftrightarrow> t \<noteq> 0"
    using np1 top size k by (simp add: region_contains_guest_def word_le_nat_alt word_less_nat_alt r'_def)
  moreover have "next_page (reg_addr r + sz) = reg_addr r + reg_size r" if "t \<noteq> 0"
    using np top size that by (simp add: word_unat_eq_iff)
  moreover have "sz \<le> reg_size r"
    using le_pagesize_align [OF b] assms(6) by simp
  ultimately show ?thesis
    using assms(2,4) al
    by (auto simp: heap_init_def Mapping_def r_def r'_def update_region_def Let_def bindE_assertE)
qed

text \<open>C20. \<^verbatim>\<open>HeapManager::init\<close>, called with a data region of the page-rounded size, sets the break to the end of the region,
  unless the size is a multiple of the page size: then the initial break lies one page beyond the region and the
  assertion on it fails.\<close>

theorem heap_init_ragged_only:
  fixes h a sz
  defines "r \<equiv> rm_store (heap_rm h) a"
  assumes "\<not> reg_free r" "page_aligned (reg_addr r)" "0 < reg_addr r" "0 < sz" "reg_size r = pagesize_align sz"
    "unat (reg_addr r) + unat sz + 8192 < 2 ^ 64"
  shows "if page_aligned sz then heap_init h a sz = Inl Abort
    else \<exists>h'. heap_init h a sz = Inr (0, h') \<and> curbrk h' = reg_addr r + reg_size r \<and> length (mappings_for_brk h') = length (mappings_for_brk h) + 1"
  using heap_init_cases [of h a sz] assms by (auto split: if_splits)

theorem heap_init_ragged_only_witness:
  "\<exists>h r. heap_init h 0 0x2000 = Inl Abort \<and> rm_store (heap_rm h) 0 = r \<and> reg_size r = 0x2000 \<and> \<not> reg_free r"
proof -
  define r where "r = set_guest_addr 0x600000 (set_used (Region 0x10000000 0x2000 ''ELF PHdr''))"
  define h where "h = HeapManager (sample_rm\<lparr>rm_store := (\<lambda>_. r)\<rparr>)"
  have "rm_store (heap_rm h) 0 = r"
    by (simp add: h_def HeapManager_def)
  moreover have "pagesize_align 0x2000 = 0x2000" "page_aligned (0x600000 :: u64)" "page_aligned (0x2000 :: u64)"
    by (simp_all add: pagesize_align_def ELKVM_PAGE_MASK_def page_aligned_def)
  ultimately show ?thesis
    using heap_init_ragged_only [of h 0 "0x2000"] by (intro exI [of _ h] exI [of _ r]) (simp add: r_def)
qed



section \<open>Slicing\<close>

text \<open>C22. \<^verbatim>\<open>Region::slice_center\<close> cuts a region into three disjoint well-formed regions that together are the region; the tail
  begins \<open>off + len\<close> bytes into the host memory, but its guest address is only \<open>off\<close> bytes beyond the guest address of
  the region.\<close>

theorem slice_center_partitions:
  assumes "region_wf r" "page_aligned off" "0 < off" "page_aligned len" "0 < len"
    "unat off + unat len < unat (reg_size r)" "unat (reg_size r) < 2 ^ 63"
  shows "\<exists>tail mid rest. slice_center r off len = Inr (tail, mid, rest)
    \<and> region_wf tail \<and> region_wf mid \<and> region_wf rest
    \<and> reg_bytes rest \<union> reg_bytes mid \<union> reg_bytes tail = reg_bytes r
    \<and> reg_bytes rest \<inter> reg_bytes mid = {} \<and> reg_bytes mid \<inter> reg_bytes tail = {} \<and> reg_bytes rest \<inter> reg_bytes tail = {}
    \<and> reg_host_p tail - reg_host_p r = off + len \<and> reg_addr tail - reg_addr r = off"
  by (rule slice_center_ok [OF assms]) (simp add: algebra_simps)

theorem slice_center_partitions_witness:
  "\<exists>tail mid rest. slice_center (set_guest_addr 0x400000 (Region 0x10000000 0x4000 ''r'')) 0x1000 0x1000 = Inr (tail, mid, rest)
    \<and> reg_host_p tail = 0x10002000 \<and> reg_addr tail = 0x401000"
proof -
  have "region_wf (set_guest_addr 0x400000 (Region 0x10000000 0x4000 ''r''))" "page_aligned (0x1000 :: u64)"
    by (simp_all add: region_wf_def page_aligned_def)
  from slice_center_partitions [OF this(1,2) _ this(2)] show ?thesis
    by (auto simp: diff_eq_eq)
qed

end
