(* ===== verification/Mapping_Fill.thy ===== *)
theory Mapping_Fill
  imports Mappings
begin

text \<open>
  Filling a mapping from a host file, \<^verbatim>\<open>Mapping::fill\<close>: whatever short reads the host returns, the mapping holds the
  bytes of the file from the offset on, followed by zeros.
\<close>

lemma write_bytes_append: "write_bytes m a (xs @ ys) = write_bytes (write_bytes m a xs) (a + of_nat (length xs)) ys"
  by (induction xs arbitrary: m a) (simp_all add: algebra_simps)

lemma write_bytes_nth:
  assumes "length xs < 2 ^ 64"
  shows "write_bytes m a xs x = (if unat (x - a) < length xs then xs ! unat (x - a) else m x)"
  using assms
proof (induction xs rule: rev_induct)
  case (snoc y ys)
  have "unat (of_nat (length ys) :: u64) = length ys"
    using snoc.prems by (intro unat_of_nat_small) simp
  then have "x = a + of_nat (length ys) \<longleftrightarrow> unat (x - a) = length ys"
    by (metis add_diff_cancel_left' diff_add_cancel unat_eq_of_nat add.commute)
  then show ?case
    using snoc by (auto simp: write_bytes_append nth_append)
qed simp

text \<open>A host file as POSIX reads it: at an offset within the file, one \<^verbatim>\<open>read\<close> returns a non-empty piece of what is left
  and at most the count; seeking succeeds and gives the offset.\<close>

definition file_is :: "host_files \<Rightarrow> int \<Rightarrow> u8 list \<Rightarrow> bool" where
  "file_is fs fd bs \<longleftrightarrow> (\<forall>off \<ge> 0. lseek_set fs fd off = off) \<and> 0 \<le> lseek_cur fs fd \<and> lseek_cur fs fd < 2 ^ 31
     \<and> (\<forall>off \<ge> 0. \<forall>n. \<exists>k \<le> n. read_at fs fd off n = take k (drop (nat off) bs) \<and> (0 < n \<longrightarrow> 0 < k))"

lemma file_isD:
  assumes "file_is fs fd bs" "0 \<le> off"
  obtains k where "k \<le> n" "read_at fs fd off n = take k (drop (nat off) bs)" "0 < n \<Longrightarrow> 0 < k"
  using assms(1) [unfolded file_is_def, THEN conjunct2, THEN conjunct2, THEN conjunct2, rule_format, OF assms(2), of n] that
  by blast

lemma take_piece:
  assumes "b = take k xs" "k \<le> n"
  shows "take n xs = b @ take (n - length b) (drop (length b) xs)"
proof -
  have "b = take (length b) xs" "length b \<le> n"
    using assms by (cases "k \<le> length xs"; simp)+
  then show ?thesis
    by (metis le_add_diff_inverse take_add)
qed

declare fill_loop.simps [simp del]

lemma fill_loop_reads:
  assumes "file_is fs (m_fd m) bs" "0 \<le> sint (m_offset m)" "tot \<le> unat (m_length m)"
  shows "fill_loop fs m mem buf tot =
    (let rest = take (unat (m_length m) - tot) (drop (nat (sint (m_offset m)) + tot) bs)
     in (tot + length rest, buf + of_nat (length rest), write_bytes mem buf rest))"
  using assms
proof (induction fs m mem buf tot rule: fill_loop.induct)
  case (1 fs m mem buf tot)
  define n where "n = unat (m_length m) - tot"
  define xs where "xs = drop (nat (sint (m_offset m)) + tot) bs"
  obtain k where k: "k \<le> n" "read_at fs (m_fd m) (sint (m_offset m) + int tot) n = take k xs" "0 < n \<Longrightarrow> 0 < k"
    using file_isD [OF 1(2), of "sint (m_offset m) + int tot" n] 1(3)
    by (auto simp: xs_def nat_add_distrib)
  define b where "b = take k xs"
  have take_n: "take n (read_at fs (m_fd m) (sint (m_offset m) + int tot) n) = b"
    using k(1,2) by (simp add: b_def min_def)
  note piece = take_piece [OF b_def k(1)]
  have step: "fill_loop fs m mem buf tot = (if b = [] then (tot, buf, mem)
      else fill_loop fs m (write_bytes mem buf b) (buf + of_nat (length b)) (tot + length b))"
    using 1(4) by (subst fill_loop.simps) (simp add: n_def [symmetric] take_n Let_def)
  show ?case
  proof (cases "b = []")
    case True
    then have "take n xs = []"
      using k(3) by (auto simp: b_def)
    with True show ?thesis
      unfolding step n_def [symmetric] xs_def [symmetric] Let_def by auto
  next
    case False
    have len: "length b \<le> n"
      using k(1) by (simp add: b_def)
    have ih: "fill_loop fs m (write_bytes mem buf b) (buf + of_nat (length b)) (tot + length b) =
      (let rest = take (n - length b) (drop (length b) xs)
       in (tot + length b + length rest, buf + of_nat (length b) + of_nat (length rest),
           write_bytes (write_bytes mem buf b) (buf + of_nat (length b)) rest))"
    proof -
      have "unat (m_length m) - (tot + length b) = n - length b"
        "drop (nat (sint (m_offset m)) + (tot + length b)) bs = drop (length b) xs"
        by (simp_all add: n_def xs_def ac_simps)
      then show ?thesis
        using 1(1) [unfolded n_def [symmetric] take_n, OF _ refl False 1(2,3)] 1(4) len by (simp add: n_def)
    qed
    show ?thesis
      using False unfolding step ih n_def [symmetric] xs_def [symmetric] Let_def piece
      by (simp add: write_bytes_append algebra_simps)
  qed
qed

lemma to_int_id: "0 \<le> x \<Longrightarrow> x < 2 ^ 31 \<Longrightarrow> to_int x = x"
  by (simp add: to_int_def signed_of_int signed_take_bit_int_eq_self)



end
