(* ===== verification/Guest_Write.thy ===== *)
theory Guest_Write
  imports Heap_Maps
begin

text \<open>
  Stores of the library into guest memory.  A store that leaves the pager's own region alone changes no page table, so it
  keeps the memory invariant and every translation; a store into an allocated region other than the pager's is such a store.
\<close>

lemma word_offset:
  fixes x h :: u64
  assumes "unat h + n \<le> 2 ^ 64" "unat (x - h) < n"
  shows "unat x = unat h + unat (x - h)"
proof -
  define d where "d = x - h"
  have "unat (h + d) = unat h + unat d"
    using assms unfolding d_def [symmetric] by (simp add: unat_plus_if')
  then show ?thesis
    by (simp add: d_def)
qed

section \<open>Stores outside the page tables\<close>

definition tables_same :: "pager \<Rightarrow> memory \<Rightarrow> bool" where
  "tables_same p m \<longleftrightarrow> (\<forall>a. unat (a - host_pml4_p p) < 0x1000000 \<longrightarrow> m a = pg_mem p a)"

lemma pte_tables_same:
  assumes "tables_same p m" "t < 4096" "i < 512"
  shows "pte (p\<lparr>pg_mem := m\<rparr>) t i = pte p t i"
proof -
  have "m (cell_addr p t i + k) = pg_mem p (cell_addr p t i + k)" if k: "k < 8" for k
  proof -
    have o: "4096 * t + 8 * i + unat k < 0x1000000"
      using assms(2,3) k by (simp add: word_less_nat_alt)
    have "cell_addr p t i + k - host_pml4_p p = of_nat (4096 * t + 8 * i + unat k)"
      by (simp add: cell_addr_def)
    moreover have "unat (of_nat (4096 * t + 8 * i + unat k) :: u64) = 4096 * t + 8 * i + unat k"
      by (rule unat_of_nat_small) (use o in simp)
    ultimately have "unat (cell_addr p t i + k - host_pml4_p p) < 0x1000000"
      using o by (simp only:)
    then show ?thesis
      using assms(1) unfolding tables_same_def by blast
  qed
  then show ?thesis
    by (subst pte_upd_mem, subst pte_def) (rule read64_cong)
qed

lemma tables_same_inv:
  assumes inv: "pt_inv p" and same: "tables_same p m"
  shows "pt_inv (p\<lparr>pg_mem := m\<rparr>)" "pt_view (p\<lparr>pg_mem := m\<rparr>) = pt_view p"
    "tables_used (p\<lparr>pg_mem := m\<rparr>) = tables_used p" "host_of (p\<lparr>pg_mem := m\<rparr>) = host_of p"
proof -
  define p' where "p' = p\<lparr>pg_mem := m\<rparr>"
  obtain path where t: "pt_geom (tables_used p) p" "pt_tree path (tables_used p) p"
    using inv by (rule pt_invE)
  have n: "tables_used p \<le> 4096"
    using pt_geomD(8) [OF t(1)] .
  have pte: "pte p' s i = pte p s i" if "s < tables_used p" "i < 512" for s i
    using pte_tables_same [OF same, of s i] that n by (simp add: p'_def)
  have fields: "tbl_addr p' = tbl_addr p" "next_tbl p' = next_tbl p"
    by (simp_all add: fun_eq_iff tbl_addr_def next_tbl_def p'_def)
  have links: "pt_links path (tables_used p) p'"
    using pt_treeD(2) [OF t(2)] pte unfolding pt_links_def fields by auto
  have t': "pt_geom (tables_used p) p'" "pt_tree path (tables_used p) p'"
    using t(1) pt_treeD(1) [OF t(2)] links by (simp_all add: p'_def pt_tree_def)
  show inv': "pt_inv (p\<lparr>pg_mem := m\<rparr>)" and "tables_used (p\<lparr>pg_mem := m\<rparr>) = tables_used p"
    using pt_invI [OF t'] tables_used_geom [OF t'(1)] by (simp_all add: p'_def)
  have look: "pt_lookup p' gv = pt_lookup p gv" if gv: "gv \<noteq> 0" for gv
  proof (cases "\<exists>u<tables_used p. path u = vpath gv")
    case True
    then obtain u where u: "u < tables_used p" "path u = vpath gv" by blast
    show ?thesis
      using lookup_leaf [OF t u gv] lookup_leaf [OF t' u gv] pte [OF u(1), of "tbl_index gv 12"] by simp
  next
    case False
    then show ?thesis
      using lookup_no_leaf [OF t _ gv] lookup_no_leaf [OF t' _ gv] by auto
  qed
  show view: "pt_view (p\<lparr>pg_mem := m\<rparr>) = pt_view p"
    unfolding p'_def [symmetric]
  proof (rule view_eqI)
    show "pt_lookup p' gv = pt_view p (vpn gv)" if "gv \<noteq> 0" for gv
      using look [OF that] lookup_view [OF inv that] by simp
    show "pt_view p v = None" if "\<not> v < 0x1000000000" for v
      using that by (simp add: pt_view_def)
  qed
  show "host_of (p\<lparr>pg_mem := m\<rparr>) = host_of p"
  proof
    fix gv
    show "host_of (p\<lparr>pg_mem := m\<rparr>) gv = host_of p gv"
    proof (cases "gv = 0")
      case True
      then show ?thesis
        by (simp add: host_of_def walk_host_p_def page_table_walk_def)
    next
      case False
      then show ?thesis
        using host_of_view [OF inv False] host_of_view [OF inv' False] view by (simp add: phys_to_host_def cong: option.case_cong)
    qed
  qed
qed

section \<open>Stores into an allocated region\<close>

definition store_mem :: "memory \<Rightarrow> rmgr \<Rightarrow> rmgr" where
  "store_mem m rm = rm\<lparr>rm_pager := (rm_pager rm)\<lparr>pg_mem := m\<rparr>\<rparr>"

lemma store_mem_fields [simp]:
  "rm_store (store_mem m rm) = rm_store rm" "allocated_regions (store_mem m rm) = allocated_regions rm"
  "freelists (store_mem m rm) = freelists rm" "rm_next (store_mem m rm) = rm_next rm"
  "rm_pager (store_mem m rm) = (rm_pager rm)\<lparr>pg_mem := m\<rparr>"
  "pager_region (store_mem m rm) a = pager_region rm a" "region_block (store_mem m rm) a = region_block rm a"
  by (simp_all add: store_mem_def pager_region_def region_block_def)

lemma store_mem_ok:
  assumes ok: "mem_ok rm" and same: "tables_same (rm_pager rm) m"
  shows "mem_ok (store_mem m rm)" "host_of (rm_pager (store_mem m rm)) = host_of (rm_pager rm)"
    "pt_view (rm_pager (store_mem m rm)) = pt_view (rm_pager rm)"
    "tables_used (rm_pager (store_mem m rm)) = tables_used (rm_pager rm)"
proof -
  have inv: "pt_inv (rm_pager rm)" "mem_inv rm" "tlb_ok (rm_pager rm)"
    using ok by (simp_all add: mem_ok_def mem_inv_def pager_ok_def)
  note s = tables_same_inv [OF inv(1) same]
  show "host_of (rm_pager (store_mem m rm)) = host_of (rm_pager rm)"
      "pt_view (rm_pager (store_mem m rm)) = pt_view (rm_pager rm)"
      "tables_used (rm_pager (store_mem m rm)) = tables_used (rm_pager rm)"
    by (simp_all add: s)
  have "mem_inv (rm\<lparr>rm_pager := (rm_pager rm)\<lparr>pg_mem := m\<rparr>\<rparr>)"
    by (rule mem_inv_frame [OF inv(2) _ s(1)]) (simp add: pager_frame_def)
  then show "mem_ok (store_mem m rm)"
    using inv(3) by (simp add: mem_ok_def store_mem_def tlb_ok_def s(4))
qed

definition writes_within :: "rmgr \<Rightarrow> rid \<Rightarrow> memory \<Rightarrow> bool" where
  "writes_within rm a m \<longleftrightarrow> (\<forall>x. m x \<noteq> pg_mem (rm_pager rm) x \<longrightarrow> unat x \<in> region_block rm a)"

lemma writes_within_tables:
  assumes ok: "mem_inv rm" and a: "a \<in> set (allocated_regions rm)" "\<not> pager_region rm a" and w: "writes_within rm a m"
  shows "tables_same (rm_pager rm) m"
  unfolding tables_same_def
proof (intro allI impI)
  fix x assume x: "unat (x - host_pml4_p (rm_pager rm)) < 0x1000000"
  show "m x = pg_mem (rm_pager rm) x"
  proof (rule ccontr)
    assume "m x \<noteq> pg_mem (rm_pager rm) x"
    then have "x < host_pml4_p (rm_pager rm) \<or> host_pml4_p (rm_pager rm) + ELKVM_SYSTEM_MEMSIZE \<le> x"
      using allocated_outside(1) [OF ok a, of x] w by (auto simp: writes_within_def)
    moreover obtain path where "pt_geom (tables_used (rm_pager rm)) (rm_pager rm)"
      using ok by (auto simp: mem_inv_def pager_ok_def pt_inv_def)
    then have "unat (host_pml4_p (rm_pager rm)) + 0x1000000 < 2 ^ 64"
      by (auto simp: pt_geom_def Let_def)
    then have x1: "unat x = unat (host_pml4_p (rm_pager rm)) + unat (x - host_pml4_p (rm_pager rm))"
      "unat (host_pml4_p (rm_pager rm) + ELKVM_SYSTEM_MEMSIZE) = unat (host_pml4_p (rm_pager rm)) + 0x1000000"
      using word_offset [OF _ x] by (simp_all add: unat_plus_if' ELKVM_SYSTEM_MEMSIZE_def)
    ultimately show False
      using x unfolding word_less_nat_alt word_le_nat_alt x1 by linarith
  qed
qed

text \<open>An eight-byte store at a guest address translated into a region.\<close>

lemma write64_within:
  assumes "unat h + 8 \<le> 2 ^ 64" "{unat h ..< unat h + 8} \<subseteq> region_block rm a"
  shows "writes_within rm a (write64 (pg_mem (rm_pager rm)) h v)"
  unfolding writes_within_def
proof (intro allI impI)
  fix x assume "write64 (pg_mem (rm_pager rm)) h v x \<noteq> pg_mem (rm_pager rm) x"
  then have "\<not> 8 \<le> x - h"
    using write64_outside by metis
  then have d: "unat (x - h) < 8"
    by (simp add: word_le_nat_alt)
  then have "unat x \<in> {unat h ..< unat h + 8}"
    unfolding atLeastLessThan_iff using word_offset [OF assms(1) d] by linarith
  then show "unat x \<in> region_block rm a"
    using assms(2) by blast
qed

section \<open>Placing a new region in the guest\<close>

text \<open>The pattern of the stack, the loader and the environment: allocate a region, map its pages at a guest address and
  record the address in the region.\<close>

definition placed :: "rmgr \<Rightarrow> u64 \<Rightarrow> guestptr \<Rightarrow> rid \<Rightarrow> rmgr \<Rightarrow> bool" where
  "placed rm sz gv a rm' \<longleftrightarrow> mem_ok rm' \<and> a \<notin> set (allocated_regions rm)
     \<and> allocated_regions rm' = allocated_regions rm @ [a] \<and> \<not> pager_region rm' a
     \<and> reg_size (rm_store rm' a) = sz \<and> reg_addr (rm_store rm' a) = gv
     \<and> (\<forall>x \<in> set (allocated_regions rm). rm_store rm' x = rm_store rm x)
     \<and> (\<forall>off < unat sz. host_of (rm_pager rm') (gv + of_nat off) = reg_host_p (rm_store rm' a) + of_nat off)
     \<and> (\<forall>b. host_of (rm_pager rm) b \<noteq> 0 \<longrightarrow> host_of (rm_pager rm') b = host_of (rm_pager rm) b)
     \<and> (\<forall>v. (\<forall>k < unat sz div 4096. v \<noteq> vpn (gv + of_nat (4096 * k))) \<longrightarrow> pt_view (rm_pager rm') v = pt_view (rm_pager rm) v)
     \<and> outside_same (rm_pager rm) (rm_pager rm') \<and> host_pml4_p (rm_pager rm') = host_pml4_p (rm_pager rm)
     \<and> tables_used (rm_pager rm') \<le> tables_used (rm_pager rm) + 3 * areas gv (unat sz div 4096)"

lemma placedD:
  assumes "placed rm sz gv a rm'"
  shows "mem_ok rm'" "a \<notin> set (allocated_regions rm)" "allocated_regions rm' = allocated_regions rm @ [a]"
    "\<not> pager_region rm' a" "reg_size (rm_store rm' a) = sz" "reg_addr (rm_store rm' a) = gv"
    "\<And>x. x \<in> set (allocated_regions rm) \<Longrightarrow> rm_store rm' x = rm_store rm x"
    "\<And>off. off < unat sz \<Longrightarrow> host_of (rm_pager rm') (gv + of_nat off) = reg_host_p (rm_store rm' a) + of_nat off"
    "\<And>b. host_of (rm_pager rm) b \<noteq> 0 \<Longrightarrow> host_of (rm_pager rm') b = host_of (rm_pager rm) b"
    "tables_used (rm_pager rm') \<le> tables_used (rm_pager rm) + 3 * areas gv (unat sz div 4096)"
    "host_pml4_p (rm_pager rm') = host_pml4_p (rm_pager rm)"
  using assms unfolding placed_def by blast+

lemma allocate_and_map:
  assumes ok: "mem_ok rm" and am: "memalign_ok am" and sz: "0 < sz" "page_aligned sz"
    and room: "unat (total_memsz (rm_pager rm)) + unat sz + 0x8000000 \<le> 2 ^ 52"
    and al: "allocate_region am ioctl rm sz purpose = Inr (a, rm1)"
    and gv: "page_aligned gv" "0 < gv" "unat gv + unat sz \<le> 2 ^ 64"
    and tab: "tables_used (rm_pager rm) + 3 * areas gv (unat sz div 4096) \<le> 4096"
    and free: "\<And>k. k < unat sz div 4096 \<Longrightarrow> pt_view (rm_pager rm) (vpn (gv + of_nat (4096 * k))) = None"
  obtains p' where "map_region (rm_pager rm1) (reg_host_p (rm_store rm1 a)) gv (of_nat (unat sz div 4096)) opts = Inr (0, p')"
    "placed rm sz gv a (update_region (rm1\<lparr>rm_pager := p'\<rparr>) a (set_guest_addr gv (rm_store rm1 a)))" "pager_frame p' = pager_frame (rm_pager rm1)"
proof -
  note ak = allocate_keeps_mem_ok [OF ok am sz(1) room al]
  define n where "n = unat sz div 4096"
  have n: "4096 * n = unat sz" "0 < n"
    using sz by (auto simp: n_def page_aligned_iff word_less_nat_alt elim: dvdE)
  have r: "a \<in> set (allocated_regions rm1)" "reg_size (rm_store rm1 a) = sz" "a \<notin> set (allocated_regions rm)"
      "allocated_regions rm1 = allocated_regions rm @ [a]" "\<forall>x \<in> set (allocated_regions rm). rm_store rm1 x = rm_store rm x"
    using ak(2) sz(2) by (simp_all add: allocated_def)
  have np: "\<not> pager_region rm1 a"
    using new_not_pager_region [OF _ ak(2) _ ak(5)] ok ak(1) by (simp add: mem_ok_def)
  have n1: "4096 * n \<le> unat (reg_size (rm_store rm1 a))" "unat gv + 4096 * n \<le> 2 ^ 64"
    using n r(2) gv(3) by simp_all
  have tab1: "tables_used (rm_pager rm1) + 3 * areas gv n \<le> 4096"
    using tab ak(6) by (simp add: n_def)
  have same: "free_or_same (rm_pager rm1) (reg_host_p (rm_store rm1 a) + of_nat (4096 * k)) (gv + of_nat (4096 * k))" if "k < n" for k
    using free [of k] that ak(4) by (simp add: free_or_same_def n_def)
  obtain p' where p': "map_region (rm_pager rm1) (reg_host_p (rm_store rm1 a)) gv (of_nat n) opts = Inr (0, p')"
    "mem_ok (rm1\<lparr>rm_pager := p'\<rparr>)" "pager_frame p' = pager_frame (rm_pager rm1)" "outside_same (rm_pager rm1) p'"
    "\<And>off. off < 4096 * n \<Longrightarrow> host_of p' (gv + of_nat off) = reg_host_p (rm_store rm1 a) + of_nat off"
    "\<And>b. host_of (rm_pager rm1) b \<noteq> 0 \<Longrightarrow> host_of p' b = host_of (rm_pager rm1) b"
    "\<And>v. (\<And>k. k < n \<Longrightarrow> v \<noteq> vpn (gv + of_nat (4096 * k))) \<Longrightarrow> pt_view p' v = pt_view (rm_pager rm1) v"
    "tables_used p' \<le> tables_used (rm_pager rm1) + 3 * areas gv n"
    using map_region_allocated [OF ak(1) r(1) np gv(1,2) n1(2,1) n(2) tab1 same] by metis
  define rm2 where "rm2 = rm1\<lparr>rm_pager := p'\<rparr>"
  define rm' where "rm' = update_region rm2 a (set_guest_addr gv (rm_store rm2 a))"
  note ug = update_guest_addr [of rm2 a gv, folded rm'_def]
  have "placed rm sz gv a rm'"
    unfolding placed_def
  proof (intro conjI allI ballI impI)
    show "mem_ok rm'" "allocated_regions rm' = allocated_regions rm @ [a]" "reg_addr (rm_store rm' a) = gv"
      "reg_size (rm_store rm' a) = sz" "\<not> pager_region rm' a" "a \<notin> set (allocated_regions rm)"
      using ug p'(2) r np pager_frame_eqD(1) [OF p'(3)] by (simp_all add: rm2_def pager_region_def)
    show "rm_store rm' x = rm_store rm x" if "x \<in> set (allocated_regions rm)" for x
      using r(3,5) that by (auto simp: rm'_def rm2_def update_region_def)
    show "host_of (rm_pager rm') (gv + of_nat off) = reg_host_p (rm_store rm' a) + of_nat off" if "off < unat sz" for off
      using p'(5) [of off] that n ug(4,5) by (simp add: rm2_def)
    show "host_of (rm_pager rm') b = host_of (rm_pager rm) b" if "host_of (rm_pager rm) b \<noteq> 0" for b
      using p'(6) [of b] ak(3) that ug(4) by (simp add: rm2_def)
    show "pt_view (rm_pager rm') v = pt_view (rm_pager rm) v"
      if "\<forall>k < unat sz div 4096. v \<noteq> vpn (gv + of_nat (4096 * k))" for v
      using p'(7) [of v] that ak(4) ug(4) by (simp add: rm2_def n_def)
    show "outside_same (rm_pager rm) (rm_pager rm')"
      using p'(4) ak(5,7) ug(4) by (simp add: rm2_def outside_same_def)
    show "host_pml4_p (rm_pager rm') = host_pml4_p (rm_pager rm)"
      using pager_frame_eqD(1) [OF p'(3)] ak(5) ug(4) by (simp add: rm2_def)
    show "tables_used (rm_pager rm') \<le> tables_used (rm_pager rm) + 3 * areas gv (unat sz div 4096)"
      using p'(8) ak(6) ug(4) by (simp add: rm2_def n_def)
  qed
  then show ?thesis
    using that [of p'] p'(1,3) by (simp add: rm'_def rm2_def n_def)
qed

section \<open>Loads and stores of the library\<close>

definition store64 :: "rmgr \<Rightarrow> hostptr \<Rightarrow> u64 \<Rightarrow> rmgr" where
  "store64 rm h val = store_mem (write64 (pg_mem (rm_pager rm)) h val) rm"

definition translate :: "rmgr \<Rightarrow> guestptr \<Rightarrow> (hostptr \<times> rmgr) res" where
  "translate rm gv = bindE (get_host_p (rm_pager rm) gv) (\<lambda>(h, p). Inr (h, rm\<lparr>rm_pager := p\<rparr>))"

section \<open>Translation through the TLB\<close>

definition set_tlb :: "tlb \<Rightarrow> rmgr \<Rightarrow> rmgr" where
  "set_tlb t rm = rm\<lparr>rm_pager := (rm_pager rm)\<lparr>pg_tlb := t\<rparr>\<rparr>"

lemma set_tlb_fields [simp]:
  "rm_store (set_tlb t rm) = rm_store rm" "allocated_regions (set_tlb t rm) = allocated_regions rm"
  "pager_region (set_tlb t rm) a = pager_region rm a" "region_block (set_tlb t rm) a = region_block rm a"
  "rm_pager (set_tlb t rm) = (rm_pager rm)\<lparr>pg_tlb := t\<rparr>"
  by (simp_all add: set_tlb_def pager_region_def region_block_def)

lemma translate_ok:
  assumes ok: "mem_ok rm" and gv: "page_begin gv \<noteq> 0"
  obtains t where "translate rm gv = Inr (host_of (rm_pager rm) gv, set_tlb t rm)" "mem_ok (set_tlb t rm)"
proof -
  have inv: "pager_ok (rm_pager rm)" "tlb_ok (rm_pager rm)" "mem_inv rm" "pt_inv (rm_pager rm)"
    using ok by (simp_all add: mem_ok_def mem_inv_def pager_ok_def)
  note c = tlbc.cached_translation [OF host_of_paged [OF inv(1)] inv(2) [unfolded tlb_ok_def] gv]
  define t where "t = snd (tlbc.cached (host_of (rm_pager rm)) (pg_tlb (rm_pager rm)) gv)"
  have gv0: "gv \<noteq> 0"
    using page_begin_nz [OF gv] .
  have "translate rm gv = Inr (host_of (rm_pager rm) gv, set_tlb t rm)"
    using get_host_p_cached [OF inv(4) gv0] c by (simp add: translate_def set_tlb_def t_def)
  moreover have "mem_ok (set_tlb t rm)"
    using inv(1,3) c by (auto simp: mem_ok_def mem_inv_def rm_inv_def lists_ok_def live_ids_def free_ids_def tlb_ok_def t_def set_tlb_def pager_region_def)
  ultimately show ?thesis
    using that by blast
qed

lemma region_byte:
  assumes "rm_inv rm" "a \<in> set (allocated_regions rm)" "off < unat (reg_size (rm_store rm a))"
  shows "unat (reg_host_p (rm_store rm a) + of_nat off) = unat (reg_host_p (rm_store rm a)) + off"
    "reg_host_p (rm_store rm a) + of_nat off \<noteq> 0" "unat (reg_host_p (rm_store rm a) + of_nat off) \<in> region_block rm a"
proof -
  have wf: "region_wf (rm_store rm a)" and nz: "reg_host_p (rm_store rm a) \<noteq> 0"
    using allocated_wf [OF assms(1,2)] allocated_host_nz [OF assms(1,2)] by simp_all
  have "unat (of_nat off :: u64) = off"
    using assms(3) unat_less_power [of "reg_size (rm_store rm a)"] by (intro unat_of_nat_small) simp
  then show u: "unat (reg_host_p (rm_store rm a) + of_nat off) = unat (reg_host_p (rm_store rm a)) + off"
    using wf assms(3) by (simp add: unat_plus_if' region_wf_def)
  then show "reg_host_p (rm_store rm a) + of_nat off \<noteq> 0"
    using nz unat_eq_zero by force
  show "unat (reg_host_p (rm_store rm a) + of_nat off) \<in> region_block rm a"
    using assms(3) by (simp add: u region_block_def reg_bytes_def)
qed

lemma store64_ok:
  assumes ok: "mem_ok rm" and a: "a \<in> set (allocated_regions rm)" "\<not> pager_region rm a"
    and h: "unat h + 8 \<le> 2 ^ 64" "{unat h ..< unat h + 8} \<subseteq> region_block rm a"
  shows "mem_ok (store64 rm h val)" "host_of (rm_pager (store64 rm h val)) = host_of (rm_pager rm)"
    "pt_view (rm_pager (store64 rm h val)) = pt_view (rm_pager rm)"
    "read64 (pg_mem (rm_pager (store64 rm h val))) h = val"
    "\<And>x. unat x \<notin> region_block rm a \<Longrightarrow> pg_mem (rm_pager (store64 rm h val)) x = pg_mem (rm_pager rm) x"
proof -
  have inv: "mem_inv rm"
    using ok by (simp add: mem_ok_def)
  note w = write64_within [OF h, of val]
  note s = store_mem_ok [OF ok writes_within_tables [OF inv a w], folded store64_def]
  show "mem_ok (store64 rm h val)" "host_of (rm_pager (store64 rm h val)) = host_of (rm_pager rm)"
      "pt_view (rm_pager (store64 rm h val)) = pt_view (rm_pager rm)"
    by (rule s)+
  show "read64 (pg_mem (rm_pager (store64 rm h val))) h = val"
    by (simp add: store64_def)
  show "pg_mem (rm_pager (store64 rm h val)) x = pg_mem (rm_pager rm) x" if "unat x \<notin> region_block rm a" for x
    using w that by (auto simp: store64_def writes_within_def)
qed

section \<open>Allocation that succeeds\<close>

definition alloc_ready :: "memalign \<Rightarrow> kvm_set_region \<Rightarrow> rmgr \<Rightarrow> u64 \<Rightarrow> bool" where
  "alloc_ready am ioctl rm sz \<longleftrightarrow> (\<exists>a \<in> free_ids rm. sz \<le> reg_size (rm_store rm a))
     \<or> length (chunks (rm_pager rm)) < 125 \<and> (\<exists>h. am (chunks (rm_pager rm)) (grow_size sz) = Inr h) \<and> (\<forall>c. ioctl c = 0)"

lemma alloc_ready_tlb [simp]: "alloc_ready am ioctl (set_tlb t rm) sz = alloc_ready am ioctl rm sz"
  by (simp add: alloc_ready_def free_ids_def set_tlb_def)

lemma alloc_ready_total:
  assumes inv: "rm_inv rm" and am: "memalign_ok am" and sz: "0 < sz"
    and room: "unat (total_memsz (rm_pager rm)) + unat sz + 0x8000000 \<le> 2 ^ 52" and r: "alloc_ready am ioctl rm sz"
  obtains a rm1 where "allocate_region am ioctl rm sz purpose = Inr (a, rm1)"
proof -
  have "\<exists>rm'. add_chunk am ioctl rm sz purpose = Inr (0, rm')" if "\<forall>a \<in> free_ids rm. \<not> sz \<le> reg_size (rm_store rm a)"
    using r that add_chunk_total [OF _ _ room, of am _ ioctl purpose] inv unfolding alloc_ready_def rm_inv_def by blast
  then show ?thesis
    using allocate_region_cases [OF inv am sz room, of ioctl purpose] that by blast
qed

end
