(* ===== verification/Stack.thy ===== *)
theory Stack
  imports Guest_Write
begin

text \<open>
  The stacks of a virtual CPU, class \<^verbatim>\<open>Stack\<close> of \<^verbatim>\<open>src/src/stack.cc\<close>: the user stack grows downward from
  \<^verbatim>\<open>LINUX_64_STACK_BASE\<close> in regions of 2 MiB, and one page is the kernel (interrupt) stack.  The region manager is shared
  (\<^verbatim>\<open>shared_ptr\<close>), so the operations take and return it.
\<close>

section \<open>Definitions\<close>

definition LINUX_64_STACK_BASE :: u64 where "LINUX_64_STACK_BASE = 0x800000000000"
definition ELKVM_STACK_GROW :: u64 where "ELKVM_STACK_GROW = 0x200000"

record stack =
  stack_regions :: "rid list"
  kernel_stack :: "rid option"
  stack_base :: guestptr

definition kernel_base :: "rmgr \<Rightarrow> stack \<Rightarrow> guestptr res" where
  "kernel_base rm st = (case kernel_stack st of None \<Rightarrow> Inl Fault | Some a \<Rightarrow> Inr (reg_addr (rm_store rm a)))"

definition user_base :: "stack \<Rightarrow> guestptr" where
  "user_base st = stack_base st"

text \<open>\<open>allocate_region\<close> never returns a null pointer: it returns a region or the process is aborted.\<close>

definition expand :: "memalign \<Rightarrow> kvm_set_region \<Rightarrow> rmgr \<Rightarrow> stack \<Rightarrow> (int \<times> rmgr \<times> stack) res" where
  "expand am ioctl rm st =
     (let st1 = st\<lparr>stack_base := stack_base st - ELKVM_STACK_GROW\<rparr> in
      bindE (allocate_region am ioctl rm ELKVM_STACK_GROW ''ELKVM stack'') (\<lambda>(a, rm1).
      bindE (map_region (rm_pager rm1) (reg_host_p (rm_store rm1 a)) (stack_base st1)
               (ucast (ELKVM_STACK_GROW div ELKVM_PAGESIZE)) PT_OPT_WRITE) (\<lambda>(err, p).
      let rm2 = rm1\<lparr>rm_pager := p\<rparr> in
      if err \<noteq> 0 then Inr (err, rm2, st1)
      else Inr (0, update_region rm2 a (set_guest_addr (stack_base st1) (rm_store rm2 a)),
                st1\<lparr>stack_regions := stack_regions st1 @ [a]\<rparr>))))"

definition new_stack :: "memalign \<Rightarrow> kvm_set_region \<Rightarrow> rmgr \<Rightarrow> (stack \<times> rmgr) res option" where
  "new_stack am ioctl rm =
     bindO (Some (expand am ioctl rm \<lparr>stack_regions = [], kernel_stack = None, stack_base = LINUX_64_STACK_BASE\<rparr>)) (\<lambda>(err, rm1, st1).
     bindO (Some (assertE (err = 0))) (\<lambda>_.
     bindO (Some (allocate_region am ioctl rm1 ELKVM_PAGESIZE ''kernel stack'')) (\<lambda>(k, rm2).
     bindO (map_kernel_page (rm_pager rm2) (reg_host_p (rm_store rm2 k)) PT_OPT_WRITE) (\<lambda>(kstack_addr, p).
     bindO (Some (assertE (kstack_addr \<noteq> 0))) (\<lambda>_.
     let rm3 = rm2\<lparr>rm_pager := p\<rparr>
     in Some (Inr (st1\<lparr>kernel_stack := Some k\<rparr>,
                   update_region rm3 k (set_guest_addr kstack_addr (rm_store rm3 k)))))))))"

definition pushq :: "memalign \<Rightarrow> kvm_set_region \<Rightarrow> rmgr \<Rightarrow> stack \<Rightarrow> guestptr \<Rightarrow> u64 \<Rightarrow> (int \<times> rmgr \<times> stack) res" where
  "pushq am ioctl rm st rsp val =
     bindE (translate rm rsp) (\<lambda>(host_p, rm1).
     if host_p = 0
     then bindE (expand am ioctl rm1 st) (\<lambda>(err, rm2, st2).
          if err \<noteq> 0 then Inr (err, rm2, st2)
          else bindE (translate rm2 rsp) (\<lambda>(host_p2, rm3).
               bindE (assertE (host_p2 \<noteq> 0)) (\<lambda>_.
               Inr (0, store64 rm3 host_p2 val, st2))))
     else Inr (0, store64 rm1 host_p val, st))"

definition popq :: "rmgr \<Rightarrow> guestptr \<Rightarrow> (u64 \<times> rmgr) res" where
  "popq rm rsp =
     bindE (translate rm rsp) (\<lambda>(host_p, rm1).
     bindE (assertE (host_p \<noteq> 0)) (\<lambda>_.
     Inr (read64 (pg_mem (rm_pager rm1)) host_p, rm1)))"

text \<open>\<^verbatim>\<open>pages_from_size\<close> returns an \<^verbatim>\<open>int\<close>, which is sign-extended to \<^verbatim>\<open>uint64_t\<close> here; \<^verbatim>\<open>back()\<close> of an empty vector is undefined.\<close>

definition is_stack_expansion :: "rmgr \<Rightarrow> stack \<Rightarrow> guestptr \<Rightarrow> bool res" where
  "is_stack_expansion rm st pfla =
     (if stack_regions st = [] then Inl Fault
      else
        let stack_top = page_begin (reg_addr (rm_store rm (last (stack_regions st)))) in
        if stack_top < pfla then Inr False
        else Inr ((scast (pages_from_size (stack_top - page_begin pfla)) :: u64) < 200))"

definition stack_grow :: "memalign \<Rightarrow> kvm_set_region \<Rightarrow> rmgr \<Rightarrow> stack \<Rightarrow> guestptr \<Rightarrow> (bool \<times> rmgr \<times> stack) res" where
  "stack_grow am ioctl rm st pfla =
     bindE (is_stack_expansion rm st pfla) (\<lambda>b.
     if b then bindE (expand am ioctl rm st) (\<lambda>(err, rm1, st1).
               bindE (assertE (err = 0)) (\<lambda>_. Inr (True, rm1, st1)))
     else Inr (False, rm, st))"

section \<open>Invariant\<close>

text \<open>The regions of the stack lie one below the other without gaps, and each of their bytes is mapped.\<close>

definition stack_addr :: "nat \<Rightarrow> guestptr" where
  "stack_addr n = LINUX_64_STACK_BASE - of_nat (0x200000 * n)"

definition stack_region :: "rmgr \<Rightarrow> nat \<Rightarrow> rid \<Rightarrow> bool" where
  "stack_region rm i a \<longleftrightarrow> a \<in> set (allocated_regions rm) \<and> \<not> pager_region rm a
     \<and> reg_size (rm_store rm a) = ELKVM_STACK_GROW \<and> reg_addr (rm_store rm a) = stack_addr (Suc i)
     \<and> (\<forall>off < 0x200000. host_of (rm_pager rm) (stack_addr (Suc i) + of_nat off) = reg_host_p (rm_store rm a) + of_nat off)"

definition stack_inv :: "rmgr \<Rightarrow> stack \<Rightarrow> bool" where
  "stack_inv rm st \<longleftrightarrow> stack_base st = stack_addr (length (stack_regions st))
     \<and> length (stack_regions st) < 2 ^ 26 \<and> (\<forall>i < length (stack_regions st). stack_region rm i (stack_regions st ! i))"

definition stack_room :: "rmgr \<Rightarrow> stack \<Rightarrow> bool" where
  "stack_room rm st \<longleftrightarrow> Suc (length (stack_regions st)) < 2 ^ 26 \<and> tables_used (rm_pager rm) + 3 \<le> 4096
     \<and> unat (total_memsz (rm_pager rm)) + 0x8200000 \<le> 2 ^ 52
     \<and> (\<forall>k<512. pt_view (rm_pager rm) (vpn (stack_addr (Suc (length (stack_regions st))) + of_nat (4096 * k))) = None)"

lemma unat_stack_addr: "n < 2 ^ 26 \<Longrightarrow> unat (stack_addr n) = 2 ^ 47 - 0x200000 * n"
proof -
  assume n: "n < 2 ^ 26"
  have "unat (of_nat (0x200000 * n) :: u64) = 0x200000 * n"
    by (rule unat_of_nat_small) (use n in simp)
  then show ?thesis
    using n unfolding stack_addr_def LINUX_64_STACK_BASE_def by (subst unat_sub) (simp_all add: word_le_nat_alt del: of_nat_mult)
qed

lemma stack_addr_step: "stack_addr n - ELKVM_STACK_GROW = stack_addr (Suc n)"
  by (simp add: stack_addr_def ELKVM_STACK_GROW_def algebra_simps)

lemma stack_addr_aligned:
  assumes "n < 2 ^ 26"
  shows "page_aligned (stack_addr n)" "0 < stack_addr n" "unat (stack_addr n) + 0x200000 \<le> 2 ^ 64" "areas (stack_addr n) 512 = 1"
proof -
  have u: "unat (stack_addr n) = 0x200000 * (2 ^ 26 - n)"
    unfolding unat_stack_addr [OF assms] by (simp add: diff_mult_distrib2)
  have "(4096 :: nat) dvd 0x200000 * (2 ^ 26 - n)"
    by (rule dvd_mult2) simp
  then show "page_aligned (stack_addr n)"
    by (simp only: page_aligned_iff u)
  show "0 < stack_addr n"
    using assms u by (simp add: word_less_nat_alt)
  show "unat (stack_addr n) + 0x200000 \<le> 2 ^ 64"
    using u assms by simp
  have "tbl_index (stack_addr n) 12 = 0x200000 * (2 ^ 26 - n) div 4096 mod 512"
    unfolding tbl_index_nat u by simp
  also have "(0x200000 :: nat) * (2 ^ 26 - n) = 4096 * (512 * (2 ^ 26 - n))"
    unfolding mult.assoc [symmetric] by simp
  also have "4096 * (512 * (2 ^ 26 - n)) div 4096 mod 512 = 512 * (2 ^ 26 - n) mod 512"
    by (simp only: nonzero_mult_div_cancel_left [OF zero_neq_numeral [symmetric]])
  also have "\<dots> = 0" by simp
  finally show "areas (stack_addr n) 512 = 1"
    by (simp add: areas_def)
qed

lemma stack_inv_tlb [simp]: "stack_inv (set_tlb t rm) st = stack_inv rm st" "stack_room (set_tlb t rm) st = stack_room rm st"
  by (simp_all add: stack_inv_def stack_region_def stack_room_def)

section \<open>Expanding the stack\<close>

lemma stack_regionD:
  assumes "stack_region rm i a"
  shows "a \<in> set (allocated_regions rm)" "\<not> pager_region rm a" "reg_size (rm_store rm a) = ELKVM_STACK_GROW"
    "reg_addr (rm_store rm a) = stack_addr (Suc i)"
    "\<And>off. off < 0x200000 \<Longrightarrow> host_of (rm_pager rm) (stack_addr (Suc i) + of_nat off) = reg_host_p (rm_store rm a) + of_nat off"
  using assms by (simp_all add: stack_region_def)

lemma stack_region_keep:
  assumes inv: "stack_region rm i x" and ok: "mem_ok rm" and p: "placed rm sz gv a rm'"
  shows "stack_region rm' i x"
  unfolding stack_region_def
proof (intro conjI allI impI)
  note D = stack_regionD [OF inv] and P = placedD [OF p]
  have st: "rm_store rm' x = rm_store rm x"
    using P(7) D(1) by simp
  show "x \<in> set (allocated_regions rm')" "\<not> pager_region rm' x"
    using D(1,2) P(3,11) st by (simp_all add: pager_region_def)
  show "reg_size (rm_store rm' x) = ELKVM_STACK_GROW" "reg_addr (rm_store rm' x) = stack_addr (Suc i)"
    using D st by simp_all
  fix off :: nat assume off: "off < 0x200000"
  have "off < unat (reg_size (rm_store rm x))"
    using off D(3) by (simp add: ELKVM_STACK_GROW_def)
  then have "host_of (rm_pager rm) (stack_addr (Suc i) + of_nat off) \<noteq> 0"
    using region_byte(2) [OF _ D(1)] ok D(5) [OF off] by (simp add: mem_ok_def mem_inv_def)
  then show "host_of (rm_pager rm') (stack_addr (Suc i) + of_nat off) = reg_host_p (rm_store rm' x) + of_nat off"
    using P(9) D(5) [OF off] st by simp
qed

lemma stack_inv_keep: "stack_inv rm st \<Longrightarrow> mem_ok rm \<Longrightarrow> placed rm sz gv a rm' \<Longrightarrow> stack_inv rm' st"
  by (auto simp: stack_inv_def intro: stack_region_keep)

lemma stack_inv_placed:
  assumes inv: "stack_inv rm st" and ok: "mem_ok rm" and n: "Suc (length (stack_regions st)) < 2 ^ 26"
    and p: "placed rm ELKVM_STACK_GROW (stack_addr (Suc (length (stack_regions st)))) a rm'"
  shows "stack_inv rm' (st\<lparr>stack_base := stack_addr (Suc (length (stack_regions st))), stack_regions := stack_regions st @ [a]\<rparr>)"
proof -
  have "stack_region rm' (length (stack_regions st)) a"
    using placedD(3-6,8) [OF p] by (simp add: stack_region_def ELKVM_STACK_GROW_def)
  then show ?thesis
    using stack_inv_keep [OF inv ok p] n by (auto simp: stack_inv_def nth_append less_Suc_eq)
qed

lemma expand_ok:
  assumes ok: "mem_ok rm" and inv: "stack_inv rm st" and room: "stack_room rm st" and am: "memalign_ok am"
    and al: "allocate_region am ioctl rm ELKVM_STACK_GROW ''ELKVM stack'' = Inr (a, rm1)"
  obtains rm' st' where "expand am ioctl rm st = Inr (0, rm', st')"
    "st' = st\<lparr>stack_base := stack_addr (Suc (length (stack_regions st))), stack_regions := stack_regions st @ [a]\<rparr>"
    "placed rm ELKVM_STACK_GROW (stack_addr (Suc (length (stack_regions st)))) a rm'" "stack_inv rm' st'"
    "pager_frame (rm_pager rm') = pager_frame (rm_pager rm1)"
proof -
  let ?n = "Suc (length (stack_regions st))"
  have n: "?n < 2 ^ 26" and tab: "tables_used (rm_pager rm) + 3 \<le> 4096"
    and mem: "unat (total_memsz (rm_pager rm)) + 0x8200000 \<le> 2 ^ 52"
    and free: "\<And>k. k < 512 \<Longrightarrow> pt_view (rm_pager rm) (vpn (stack_addr ?n + of_nat (4096 * k))) = None"
    using room by (simp_all add: stack_room_def)
  note sa = stack_addr_aligned [OF n]
  have g: "0 < ELKVM_STACK_GROW" "page_aligned ELKVM_STACK_GROW" "unat ELKVM_STACK_GROW = 0x200000" "unat ELKVM_STACK_GROW div 4096 = 512"
    by (simp_all add: ELKVM_STACK_GROW_def page_aligned_iff)
  obtain p' where p': "map_region (rm_pager rm1) (reg_host_p (rm_store rm1 a)) (stack_addr ?n) (of_nat (unat ELKVM_STACK_GROW div 4096)) PT_OPT_WRITE = Inr (0, p')"
    "placed rm ELKVM_STACK_GROW (stack_addr ?n) a (update_region (rm1\<lparr>rm_pager := p'\<rparr>) a (set_guest_addr (stack_addr ?n) (rm_store rm1 a)))"
    "pager_frame p' = pager_frame (rm_pager rm1)"
  proof (rule allocate_and_map [OF ok am g(1,2) _ al sa(1,2), where opts = PT_OPT_WRITE])
    show "unat (total_memsz (rm_pager rm)) + unat ELKVM_STACK_GROW + 0x8000000 \<le> 2 ^ 52" using mem g by simp
    show "unat (stack_addr ?n) + unat ELKVM_STACK_GROW \<le> 2 ^ 64" using sa(3) g by simp
    show "tables_used (rm_pager rm) + 3 * areas (stack_addr ?n) (unat ELKVM_STACK_GROW div 4096) \<le> 4096" using tab sa(4) g by simp
    show "pt_view (rm_pager rm) (vpn (stack_addr ?n + of_nat (4096 * k))) = None" if "k < unat ELKVM_STACK_GROW div 4096" for k
      using free that g by simp
  qed blast
  have base: "stack_base st - ELKVM_STACK_GROW = stack_addr ?n"
    using inv stack_addr_step by (simp add: stack_inv_def)
  have pages: "ucast (ELKVM_STACK_GROW div ELKVM_PAGESIZE) = (of_nat (unat ELKVM_STACK_GROW div 4096) :: u32)"
    by (simp add: ELKVM_STACK_GROW_def ELKVM_PAGESIZE_def)
  show ?thesis
  proof (rule that)
    show "expand am ioctl rm st = Inr (0, update_region (rm1\<lparr>rm_pager := p'\<rparr>) a (set_guest_addr (stack_addr ?n) (rm_store rm1 a)),
        st\<lparr>stack_base := stack_addr ?n, stack_regions := stack_regions st @ [a]\<rparr>)"
      using al p'(1) by (simp add: expand_def base pages Let_def del: of_nat_mult)
  qed (use p'(2,3) stack_inv_placed [OF inv ok n p'(2)] in \<open>simp_all add: update_region_def\<close>)
qed

section \<open>Pushing and popping\<close>

lemma stack_cell:
  assumes inv: "stack_inv rm st" and ok: "mem_ok rm"
    and g: "unat (stack_base st) \<le> unat g" "unat g + 8 \<le> 2 ^ 47" "8 dvd unat g"
  obtains a where "a \<in> set (allocated_regions rm)" "\<not> pager_region rm a" "host_of (rm_pager rm) g \<noteq> 0"
    "unat (host_of (rm_pager rm) g) + 8 \<le> 2 ^ 64" "{unat (host_of (rm_pager rm) g) ..< unat (host_of (rm_pager rm) g) + 8} \<subseteq> region_block rm a"
proof -
  define q r where "q = unat g div 0x200000" and "r = unat g mod 0x200000"
  define i where "i = 2 ^ 26 - 1 - q"
  let ?n = "length (stack_regions st)"
  have n: "?n < 2 ^ 26" "stack_base st = stack_addr ?n"
    using inv by (simp_all add: stack_inv_def)
  have g': "unat g = 0x200000 * q + r" "r < 0x200000"
    by (simp_all add: q_def r_def)
  have q: "q < 2 ^ 26"
    using g(2) g'(1) by simp
  have b: "2 ^ 47 - 0x200000 * ?n \<le> unat g"
    using g(1) unat_stack_addr [OF n(1)] n(2) by simp
  have i: "i < ?n" "Suc i < 2 ^ 26 + 1" "2 ^ 47 - 0x200000 * Suc i = 0x200000 * q"
    using b g' q n(1) by (simp_all add: i_def)
  have r8: "r + 8 \<le> 0x200000"
  proof -
    have "8 dvd r"
      unfolding r_def using g(3) by (rule dvd_mod) simp
    then obtain s where "r = 8 * s" ..
    then show ?thesis
      using g'(2) by simp
  qed
  have sr: "stack_region rm i (stack_regions st ! i)"
    using inv i(1) by (simp add: stack_inv_def)
  note D = stack_regionD [OF sr]
  have "unat (stack_addr (Suc i)) = 0x200000 * q"
    using unat_stack_addr [of "Suc i"] i(1,3) n(1) by simp
  moreover have "unat (of_nat r :: u64) = r"
    using g'(2) by (intro unat_of_nat_small) simp
  ultimately have "unat (stack_addr (Suc i) + of_nat r) = unat g"
    using g' g(2) by (simp add: unat_plus_if')
  then have "g = stack_addr (Suc i) + of_nat r"
    by (metis unsigned_word_eqI)
  then have h: "host_of (rm_pager rm) g = reg_host_p (rm_store rm (stack_regions st ! i)) + of_nat r"
    using D(5) g'(2) by simp
  have rm: "rm_inv rm"
    using ok by (simp add: mem_ok_def mem_inv_def)
  have sz: "unat (reg_size (rm_store rm (stack_regions st ! i))) = 0x200000"
    using D(3) by (simp add: ELKVM_STACK_GROW_def)
  have rb: "r < unat (reg_size (rm_store rm (stack_regions st ! i)))"
    using sz g'(2) by simp
  note R = region_byte [OF rm D(1) rb, folded h]
  have wf: "region_wf (rm_store rm (stack_regions st ! i))"
    by (rule allocated_wf [OF rm D(1)])
  have "{unat (host_of (rm_pager rm) g) ..< unat (host_of (rm_pager rm) g) + 8} \<subseteq> region_block rm (stack_regions st ! i)"
    using R(1) r8 sz by (auto simp: region_block_def reg_bytes_def)
  then show ?thesis
    using that [OF D(1,2) R(2)] R(1) wf sz r8 by (simp add: region_wf_def)
qed

lemma stack_inv_store64:
  assumes "host_of (rm_pager (store64 rm h val)) = host_of (rm_pager rm)"
  shows "stack_inv (store64 rm h val) st = stack_inv rm st"
  using assms by (simp add: stack_inv_def stack_region_def store64_def)

lemma page_begin_stack:
  assumes "0x1000 \<le> unat g"
  shows "page_begin g \<noteq> 0"
proof
  assume "page_begin g = 0"
  then have "unat (page_begin g) = 0" by simp
  then show False
    using assms unat_page_begin [of g] by (simp add: div_greater_zero_iff)
qed

text \<open>The state after a push of \<open>val\<close> at \<open>g\<close>: the value can be popped, and translations and the stack are kept.\<close>

definition pushed :: "rmgr \<Rightarrow> guestptr \<Rightarrow> u64 \<Rightarrow> rmgr \<Rightarrow> stack \<Rightarrow> bool" where
  "pushed rm g val rm' st' \<longleftrightarrow> mem_ok rm' \<and> stack_inv rm' st' \<and> (\<exists>rm''. popq rm' g = Inr (val, rm'') \<and> mem_ok rm'')
     \<and> (\<forall>b. host_of (rm_pager rm) b \<noteq> 0 \<longrightarrow> host_of (rm_pager rm') b = host_of (rm_pager rm) b)
     \<and> (\<exists>a \<in> set (allocated_regions rm'). \<not> pager_region rm' a \<and> unat (host_of (rm_pager rm') g) \<in> region_block rm' a
          \<and> (\<forall>x. unat x \<notin> region_block rm' a \<longrightarrow> 0x1000000 \<le> unat (x - host_pml4_p (rm_pager rm))
               \<longrightarrow> pg_mem (rm_pager rm') x = pg_mem (rm_pager rm) x))"

lemma store_pushed:
  assumes ok: "mem_ok rm" and inv: "stack_inv rm st"
    and g: "unat (stack_base st) \<le> unat g" "unat g + 8 \<le> 2 ^ 47" "8 dvd unat g"
  shows "host_of (rm_pager rm) g \<noteq> 0" "page_begin g \<noteq> 0" "pushed rm g val (store64 rm (host_of (rm_pager rm) g) val) st"
proof -
  obtain a where a: "a \<in> set (allocated_regions rm)" "\<not> pager_region rm a" "host_of (rm_pager rm) g \<noteq> 0"
    "unat (host_of (rm_pager rm) g) + 8 \<le> 2 ^ 64" "{unat (host_of (rm_pager rm) g) ..< unat (host_of (rm_pager rm) g) + 8} \<subseteq> region_block rm a"
    by (rule stack_cell [OF inv ok g])
  show "host_of (rm_pager rm) g \<noteq> 0" by (rule a(3))
  have n: "length (stack_regions st) < 2 ^ 26"
    using inv by (simp add: stack_inv_def)
  then show pb: "page_begin g \<noteq> 0"
    using g(1) unat_stack_addr [OF n] inv by (intro page_begin_stack) (simp add: stack_inv_def)
  define rm' where "rm' = store64 rm (host_of (rm_pager rm) g) val"
  note s = store64_ok [OF ok a(1,2,4,5), where val = val, folded rm'_def]
  have f: "allocated_regions rm' = allocated_regions rm" "pager_region rm' a = pager_region rm a" "region_block rm' a = region_block rm a"
    by (simp_all add: rm'_def store64_def)
  obtain t where t: "translate rm' g = Inr (host_of (rm_pager rm') g, set_tlb t rm')" "mem_ok (set_tlb t rm')"
    by (rule translate_ok [OF s(1) pb])
  have "popq rm' g = Inr (val, set_tlb t rm')"
    using t(1) a(3) s(2,4) by (simp add: popq_def)
  moreover have "stack_inv rm' st"
    using inv s(2) stack_inv_store64 [of rm "host_of (rm_pager rm) g" val st] by (simp add: rm'_def)
  moreover have "unat (host_of (rm_pager rm) g) \<in> region_block rm a"
    using a(5) by auto
  ultimately show "pushed rm g val rm' st"
    unfolding pushed_def using s(1,2,5) t(2) a(1,2) f by metis
qed

lemma pushq_mapped:
  assumes ok: "mem_ok rm" and inv: "stack_inv rm st"
    and g: "unat (stack_base st) \<le> unat g" "unat g + 8 \<le> 2 ^ 47" "8 dvd unat g"
  obtains rm' where "pushq am ioctl rm st g val = Inr (0, rm', st)" "pushed rm g val rm' st"
proof -
  note sp = store_pushed [OF ok inv g]
  obtain t where t: "translate rm g = Inr (host_of (rm_pager rm) g, set_tlb t rm)" "mem_ok (set_tlb t rm)"
    by (rule translate_ok [OF ok sp(2)])
  have "pushed (set_tlb t rm) g val (store64 (set_tlb t rm) (host_of (rm_pager rm) g) val) st"
    using store_pushed(3) [OF t(2) _ g, of val] inv by simp
  then have "pushed rm g val (store64 (set_tlb t rm) (host_of (rm_pager rm) g) val) st"
    by (simp add: pushed_def)
  then show ?thesis
    using that [of "store64 (set_tlb t rm) (host_of (rm_pager rm) g) val"] t(1) sp(1) by (simp add: pushq_def)
qed

lemma pushq_expands:
  assumes ok: "mem_ok rm" and inv: "stack_inv rm st" and am: "memalign_ok am" and room: "stack_room rm st"
    and r: "alloc_ready am ioctl rm ELKVM_STACK_GROW" and un: "host_of (rm_pager rm) g = 0"
    and g: "unat (stack_addr (Suc (length (stack_regions st)))) \<le> unat g" "unat g + 8 \<le> 2 ^ 47" "8 dvd unat g"
  obtains rm' st' where "pushq am ioctl rm st g val = Inr (0, rm', st')" "pushed rm g val rm' st'"
    "length (stack_regions st') = Suc (length (stack_regions st))"
proof -
  let ?n = "Suc (length (stack_regions st))"
  have "?n < 2 ^ 26"
    using room by (simp add: stack_room_def)
  then have pb: "page_begin g \<noteq> 0"
    using g(1) unat_stack_addr [of ?n] by (intro page_begin_stack) simp
  obtain t where t: "translate rm g = Inr (0, set_tlb t rm)" "mem_ok (set_tlb t rm)"
    using translate_ok [OF ok pb] un by metis
  have inv1: "stack_inv (set_tlb t rm) st" "stack_room (set_tlb t rm) st" "rm_inv (set_tlb t rm)"
      "alloc_ready am ioctl (set_tlb t rm) ELKVM_STACK_GROW"
    using inv room t(2) r by (simp_all add: mem_ok_def mem_inv_def)
  have mem: "unat (total_memsz (rm_pager (set_tlb t rm))) + unat ELKVM_STACK_GROW + 0x8000000 \<le> 2 ^ 52" "0 < ELKVM_STACK_GROW"
    using room by (simp_all add: stack_room_def ELKVM_STACK_GROW_def)
  obtain a rm1 where al: "allocate_region am ioctl (set_tlb t rm) ELKVM_STACK_GROW ''ELKVM stack'' = Inr (a, rm1)"
    by (rule alloc_ready_total [OF inv1(3) am mem(2,1) inv1(4)])
  obtain rm2 st2 where e: "expand am ioctl (set_tlb t rm) st = Inr (0, rm2, st2)"
    "st2 = st\<lparr>stack_base := stack_addr ?n, stack_regions := stack_regions st @ [a]\<rparr>"
    "placed (set_tlb t rm) ELKVM_STACK_GROW (stack_addr ?n) a rm2" "stack_inv rm2 st2"
    by (rule expand_ok [OF t(2) inv1(1,2) am al])
  note P = placedD [OF e(3)]
  have g2: "unat (stack_base st2) \<le> unat g"
    using g(1) e(2) by simp
  note sp = store_pushed [OF P(1) e(4) g2 g(2,3)]
  obtain t2 where t2: "translate rm2 g = Inr (host_of (rm_pager rm2) g, set_tlb t2 rm2)" "mem_ok (set_tlb t2 rm2)"
    by (rule translate_ok [OF P(1) pb])
  define rm' where "rm' = store64 (set_tlb t2 rm2) (host_of (rm_pager rm2) g) val"
  have run: "pushq am ioctl rm st g val = Inr (0, rm', st2)"
    using t(1) e(1) t2(1) sp(1) by (simp add: pushq_def rm'_def)
  have "pushed (set_tlb t2 rm2) g val rm' st2"
    using store_pushed(3) [OF t2(2) _ g2 g(2,3), of val] e(4) by (simp add: rm'_def)
  moreover have "outside_same (rm_pager (set_tlb t rm)) (rm_pager rm2)"
    using e(3) by (simp add: placed_def)
  ultimately have "pushed rm g val rm' st2"
    using P(9,11) by (auto simp: pushed_def outside_same_def)
  then show ?thesis
    using that run e(2) by simp
qed

end
