(* ===== verification/Kvm_Regs.thy ===== *)
theory Kvm_Regs
  imports Elkvm_Prelude "HOL-Library.Multiset"
begin

text \<open>
  The register state of a virtual CPU and its exchange with the hypervisor: class \<^verbatim>\<open>KVM::VCPU\<close> of
  \<^verbatim>\<open>src/src/kvm.cc\<close> and the segment type of \<^verbatim>\<open>include/elkvm/vcpu.h\<close>.  The structures of \<^verbatim>\<open>linux/kvm.h\<close> keep
  the width of each field.  The kernel side is the record \<open>kvm_ops\<close> of what each \<^verbatim>\<open>ioctl\<close> answers, a parameter; the
  kernel's own state of the CPU is a value of the type parameter that the operations thread through.
\<close>

section \<open>Registers\<close>

datatype Reg_t = RAX | RBX | RCX | RDX | RSI | RDI | RSP | RBP | R8 | R9 | R10 | R11 | R12 | R13 | R14 | R15
  | RIP | RFLAGS | CR0 | CR2 | CR3 | CR4 | CR8 | EFER | APIC_BASE

datatype Seg_t = CS | DS | ES | FS | GS | SS | TR | LDT | GDT | IDT

record kvm_regs =
  r_rax :: u64  r_rbx :: u64  r_rcx :: u64  r_rdx :: u64
  r_rsi :: u64  r_rdi :: u64  r_rsp :: u64  r_rbp :: u64
  r_r8 :: u64  r_r9 :: u64  r_r10 :: u64  r_r11 :: u64
  r_r12 :: u64  r_r13 :: u64  r_r14 :: u64  r_r15 :: u64
  r_rip :: u64  r_rflags :: u64

record kvm_segment =
  ks_base :: u64  ks_limit :: u32  ks_selector :: u16  ks_type :: u8
  ks_present :: u8  ks_dpl :: u8  ks_db :: u8  ks_s :: u8  ks_l :: u8  ks_g :: u8  ks_avl :: u8

record kvm_dtable =
  dt_base :: u64
  dt_limit :: u16

record kvm_sregs =
  s_cs :: kvm_segment  s_ds :: kvm_segment  s_es :: kvm_segment  s_fs :: kvm_segment
  s_gs :: kvm_segment  s_ss :: kvm_segment  s_tr :: kvm_segment  s_ldt :: kvm_segment
  s_gdt :: kvm_dtable  s_idt :: kvm_dtable
  s_cr0 :: u64  s_cr2 :: u64  s_cr3 :: u64  s_cr4 :: u64  s_cr8 :: u64  s_efer :: u64  s_apic_base :: u64
  s_interrupt_bitmap :: "u64 list"

text \<open>Class \<^verbatim>\<open>Segment\<close>: all fields have the width of a parameter of the guest's ABI.\<close>

record Segment =
  sg_selector :: u64  sg_base :: u64  sg_limit :: u64  sg_type :: u64  sg_present :: u64  sg_dpl :: u64
  sg_db :: u64  sg_s :: u64  sg_l :: u64  sg_g :: u64  sg_avl :: u64

definition Segment_of :: "u64 \<Rightarrow> u64 \<Rightarrow> Segment" where
  "Segment_of b limit = \<lparr>sg_selector = 0, sg_base = b, sg_limit = limit, sg_type = 0, sg_present = 0, sg_dpl = 0,
     sg_db = 0, sg_s = 0, sg_l = 0, sg_g = 0, sg_avl = 0\<rparr>"

definition mk_Segment :: "u64 \<Rightarrow> u64 \<Rightarrow> u64 \<Rightarrow> u64 \<Rightarrow> u64 \<Rightarrow> u64 \<Rightarrow> u64 \<Rightarrow> u64 \<Rightarrow> u64 \<Rightarrow> u64 \<Rightarrow> u64 \<Rightarrow> Segment" where
  "mk_Segment selector b limit type present dpl db s l g avl =
     \<lparr>sg_selector = selector, sg_base = b, sg_limit = limit, sg_type = type, sg_present = present, sg_dpl = dpl,
      sg_db = db, sg_s = s, sg_l = l, sg_g = g, sg_avl = avl\<rparr>"

section \<open>The hypervisor\<close>

text \<open>The memory \<^verbatim>\<open>struct kvm_run\<close> that the kernel shares: the exit reason and the first word of the union
  that \<^verbatim>\<open>hw.hardware_exit_reason\<close> and \<^verbatim>\<open>fail_entry.hardware_entry_failure_reason\<close> both name.\<close>

record kvm_run =
  run_exit_reason :: u32
  run_hw_reason :: u64

text \<open>
  What the kernel answers: the requests that return a register file give \<open>Inr\<close> its contents or \<open>Inl\<close> the error
  number, those that set one give \<open>Inr\<close> the new kernel state or \<open>Inl\<close> the error number.  The MSR requests return the
  count the \<^verbatim>\<open>ioctl\<close> returns (negative for an error).  \<open>op_run\<close> runs the guest: it returns the error number (0 for
  success), the contents of the shared \<^verbatim>\<open>kvm_run\<close>, the guest's effect on memory and the new kernel state.
\<close>

record 'k kvm_ops =
  op_get_regs :: "'k \<Rightarrow> int + kvm_regs"
  op_set_regs :: "kvm_regs \<Rightarrow> 'k \<Rightarrow> int + 'k"
  op_get_sregs :: "'k \<Rightarrow> int + kvm_sregs"
  op_set_sregs :: "kvm_sregs \<Rightarrow> 'k \<Rightarrow> int + 'k"
  op_get_msrs :: "u32 \<Rightarrow> 'k \<Rightarrow> int \<times> u64"
  op_set_msrs :: "u32 \<Rightarrow> u64 \<Rightarrow> 'k \<Rightarrow> int \<times> 'k"
  op_set_guest_debug :: "u32 \<Rightarrow> 'k \<Rightarrow> int \<times> 'k"
  op_run :: "'k \<Rightarrow> memory \<Rightarrow> int \<times> kvm_run \<times> memory \<times> 'k"

record 'k kvm_vcpu =
  kv_fd :: int
  kv_regs :: kvm_regs
  kv_sregs :: kvm_sregs
  kv_run :: kvm_run
  kv_debug_control :: u32
  kv_kernel :: 'k

definition zero_regs :: kvm_regs where
  "zero_regs = \<lparr>r_rax = 0, r_rbx = 0, r_rcx = 0, r_rdx = 0, r_rsi = 0, r_rdi = 0, r_rsp = 0, r_rbp = 0,
     r_r8 = 0, r_r9 = 0, r_r10 = 0, r_r11 = 0, r_r12 = 0, r_r13 = 0, r_r14 = 0, r_r15 = 0, r_rip = 0, r_rflags = 0\<rparr>"

definition zero_segment :: kvm_segment where
  "zero_segment = \<lparr>ks_base = 0, ks_limit = 0, ks_selector = 0, ks_type = 0, ks_present = 0, ks_dpl = 0, ks_db = 0,
     ks_s = 0, ks_l = 0, ks_g = 0, ks_avl = 0\<rparr>"

definition zero_dtable :: kvm_dtable where
  "zero_dtable = \<lparr>dt_base = 0, dt_limit = 0\<rparr>"

definition zero_sregs :: kvm_sregs where
  "zero_sregs = \<lparr>s_cs = zero_segment, s_ds = zero_segment, s_es = zero_segment, s_fs = zero_segment, s_gs = zero_segment,
     s_ss = zero_segment, s_tr = zero_segment, s_ldt = zero_segment, s_gdt = zero_dtable, s_idt = zero_dtable,
     s_cr0 = 0, s_cr2 = 0, s_cr3 = 0, s_cr4 = 0, s_cr8 = 0, s_efer = 0, s_apic_base = 0,
     s_interrupt_bitmap = [0, 0, 0, 0]\<rparr>"

text \<open>The constructor: \<open>fd\<close> is the answer of \<^verbatim>\<open>KVM_CREATE_VCPU\<close> and \<open>run\<close> the fresh \<^verbatim>\<open>kvm_run\<close> that \<^verbatim>\<open>mmap\<close> maps
  (\<open>None\<close> when it returns a null pointer).\<close>

definition KVM_VCPU :: "int \<Rightarrow> kvm_run option \<Rightarrow> 'k \<Rightarrow> 'k kvm_vcpu res" where
  "KVM_VCPU fd run k =
     bindE (assertE (0 < fd)) (\<lambda>_.
     case run of
       None \<Rightarrow> Inl Abort
     | Some r \<Rightarrow> Inr \<lparr>kv_fd = fd, kv_regs = zero_regs, kv_sregs = zero_sregs, kv_run = r, kv_debug_control = 0,
                     kv_kernel = k\<rparr>)"


section \<open>Access to single registers\<close>

primrec get_reg :: "'k kvm_vcpu \<Rightarrow> Reg_t \<Rightarrow> u64" where
  "get_reg v RAX = r_rax (kv_regs v)"
| "get_reg v RBX = r_rbx (kv_regs v)"
| "get_reg v RCX = r_rcx (kv_regs v)"
| "get_reg v RDX = r_rdx (kv_regs v)"
| "get_reg v RSI = r_rsi (kv_regs v)"
| "get_reg v RDI = r_rdi (kv_regs v)"
| "get_reg v RSP = r_rsp (kv_regs v)"
| "get_reg v RBP = r_rbp (kv_regs v)"
| "get_reg v R8 = r_r8 (kv_regs v)"
| "get_reg v R9 = r_r9 (kv_regs v)"
| "get_reg v R10 = r_r10 (kv_regs v)"
| "get_reg v R11 = r_r11 (kv_regs v)"
| "get_reg v R12 = r_r12 (kv_regs v)"
| "get_reg v R13 = r_r13 (kv_regs v)"
| "get_reg v R14 = r_r14 (kv_regs v)"
| "get_reg v R15 = r_r15 (kv_regs v)"
| "get_reg v RIP = r_rip (kv_regs v)"
| "get_reg v RFLAGS = r_rflags (kv_regs v)"
| "get_reg v CR0 = s_cr0 (kv_sregs v)"
| "get_reg v CR2 = s_cr2 (kv_sregs v)"
| "get_reg v CR3 = s_cr3 (kv_sregs v)"
| "get_reg v CR4 = s_cr4 (kv_sregs v)"
| "get_reg v CR8 = s_cr8 (kv_sregs v)"
| "get_reg v EFER = s_efer (kv_sregs v)"
| "get_reg v APIC_BASE = s_apic_base (kv_sregs v)"

abbreviation upd_regs :: "(kvm_regs \<Rightarrow> kvm_regs) \<Rightarrow> 'k kvm_vcpu \<Rightarrow> 'k kvm_vcpu" where
  "upd_regs f v \<equiv> v\<lparr>kv_regs := f (kv_regs v)\<rparr>"

abbreviation upd_sregs :: "(kvm_sregs \<Rightarrow> kvm_sregs) \<Rightarrow> 'k kvm_vcpu \<Rightarrow> 'k kvm_vcpu" where
  "upd_sregs f v \<equiv> v\<lparr>kv_sregs := f (kv_sregs v)\<rparr>"

primrec set_reg :: "Reg_t \<Rightarrow> u64 \<Rightarrow> 'k kvm_vcpu \<Rightarrow> 'k kvm_vcpu" where
  "set_reg RAX val v = upd_regs (\<lambda>r. r\<lparr>r_rax := val\<rparr>) v"
| "set_reg RBX val v = upd_regs (\<lambda>r. r\<lparr>r_rbx := val\<rparr>) v"
| "set_reg RCX val v = upd_regs (\<lambda>r. r\<lparr>r_rcx := val\<rparr>) v"
| "set_reg RDX val v = upd_regs (\<lambda>r. r\<lparr>r_rdx := val\<rparr>) v"
| "set_reg RSI val v = upd_regs (\<lambda>r. r\<lparr>r_rsi := val\<rparr>) v"
| "set_reg RDI val v = upd_regs (\<lambda>r. r\<lparr>r_rdi := val\<rparr>) v"
| "set_reg RSP val v = upd_regs (\<lambda>r. r\<lparr>r_rsp := val\<rparr>) v"
| "set_reg RBP val v = upd_regs (\<lambda>r. r\<lparr>r_rbp := val\<rparr>) v"
| "set_reg R8 val v = upd_regs (\<lambda>r. r\<lparr>r_r8 := val\<rparr>) v"
| "set_reg R9 val v = upd_regs (\<lambda>r. r\<lparr>r_r9 := val\<rparr>) v"
| "set_reg R10 val v = upd_regs (\<lambda>r. r\<lparr>r_r10 := val\<rparr>) v"
| "set_reg R11 val v = upd_regs (\<lambda>r. r\<lparr>r_r11 := val\<rparr>) v"
| "set_reg R12 val v = upd_regs (\<lambda>r. r\<lparr>r_r12 := val\<rparr>) v"
| "set_reg R13 val v = upd_regs (\<lambda>r. r\<lparr>r_r13 := val\<rparr>) v"
| "set_reg R14 val v = upd_regs (\<lambda>r. r\<lparr>r_r14 := val\<rparr>) v"
| "set_reg R15 val v = upd_regs (\<lambda>r. r\<lparr>r_r15 := val\<rparr>) v"
| "set_reg RIP val v = upd_regs (\<lambda>r. r\<lparr>r_rip := val\<rparr>) v"
| "set_reg RFLAGS val v = upd_regs (\<lambda>r. r\<lparr>r_rflags := val\<rparr>) v"
| "set_reg CR0 val v = upd_sregs (\<lambda>r. r\<lparr>s_cr0 := val\<rparr>) v"
| "set_reg CR2 val v = upd_sregs (\<lambda>r. r\<lparr>s_cr2 := val\<rparr>) v"
| "set_reg CR3 val v = upd_sregs (\<lambda>r. r\<lparr>s_cr3 := val\<rparr>) v"
| "set_reg CR4 val v = upd_sregs (\<lambda>r. r\<lparr>s_cr4 := val\<rparr>) v"
| "set_reg CR8 val v = upd_sregs (\<lambda>r. r\<lparr>s_cr8 := val\<rparr>) v"
| "set_reg EFER val v = upd_sregs (\<lambda>r. r\<lparr>s_efer := val\<rparr>) v"
| "set_reg APIC_BASE val v = upd_sregs (\<lambda>r. r\<lparr>s_apic_base := val\<rparr>) v"

section \<open>Exchange with the hypervisor\<close>

definition get_regs :: "'k kvm_ops \<Rightarrow> 'k kvm_vcpu \<Rightarrow> int \<times> 'k kvm_vcpu" where
  "get_regs ops v =
     (case op_get_regs ops (kv_kernel v) of
        Inl errno \<Rightarrow> (- errno, v)
      | Inr r \<Rightarrow> (0, v\<lparr>kv_regs := r\<rparr>))"

definition get_sregs :: "'k kvm_ops \<Rightarrow> 'k kvm_vcpu \<Rightarrow> int \<times> 'k kvm_vcpu" where
  "get_sregs ops v =
     (case op_get_sregs ops (kv_kernel v) of
        Inl errno \<Rightarrow> (- errno, v)
      | Inr r \<Rightarrow> (0, v\<lparr>kv_sregs := r\<rparr>))"

definition set_regs :: "'k kvm_ops \<Rightarrow> 'k kvm_vcpu \<Rightarrow> int \<times> 'k kvm_vcpu" where
  "set_regs ops v =
     (case op_set_regs ops (kv_regs v) (kv_kernel v) of
        Inl errno \<Rightarrow> (- errno, v)
      | Inr k \<Rightarrow> (0, v\<lparr>kv_kernel := k\<rparr>))"

definition set_sregs :: "'k kvm_ops \<Rightarrow> 'k kvm_vcpu \<Rightarrow> int \<times> 'k kvm_vcpu" where
  "set_sregs ops v =
     (case op_set_sregs ops (kv_sregs v) (kv_kernel v) of
        Inl errno \<Rightarrow> (- errno, v)
      | Inr k \<Rightarrow> (0, v\<lparr>kv_kernel := k\<rparr>))"

text \<open>The four words of the interrupt bitmap; an index past them reads outside the array.\<close>

definition get_interrupt_bitmap :: "'k kvm_vcpu \<Rightarrow> nat \<Rightarrow> u64 res" where
  "get_interrupt_bitmap v idx =
     (if idx < length (s_interrupt_bitmap (kv_sregs v)) then Inr (s_interrupt_bitmap (kv_sregs v) ! idx) else Inl Fault)"

definition get_msr :: "'k kvm_ops \<Rightarrow> 'k kvm_vcpu \<Rightarrow> u32 \<Rightarrow> u64 res" where
  "get_msr ops v idx =
     (let (err, data) = op_get_msrs ops idx (kv_kernel v)
      in bindE (assertE (0 \<le> err)) (\<lambda>_. Inr data))"

definition set_msr :: "'k kvm_ops \<Rightarrow> u32 \<Rightarrow> u64 \<Rightarrow> 'k kvm_vcpu \<Rightarrow> 'k kvm_vcpu res" where
  "set_msr ops idx data v =
     (let (err, k) = op_set_msrs ops idx data (kv_kernel v)
      in bindE (assertE (0 \<le> err)) (\<lambda>_. Inr (v\<lparr>kv_kernel := k\<rparr>)))"

section \<open>Segments\<close>

definition set_dtable :: "Segment \<Rightarrow> kvm_dtable \<Rightarrow> kvm_dtable" where
  "set_dtable seg ptr = ptr\<lparr>dt_base := sg_base seg, dt_limit := ucast (sg_limit seg)\<rparr>"

definition set_segment :: "Segment \<Rightarrow> kvm_segment \<Rightarrow> kvm_segment" where
  "set_segment seg ptr =
     ptr\<lparr>ks_base := sg_base seg, ks_limit := ucast (sg_limit seg), ks_selector := ucast (sg_selector seg),
         ks_type := ucast (sg_type seg), ks_present := ucast (sg_present seg), ks_dpl := ucast (sg_dpl seg),
         ks_db := ucast (sg_db seg), ks_s := ucast (sg_s seg), ks_l := ucast (sg_l seg), ks_g := ucast (sg_g seg),
         ks_avl := ucast (sg_avl seg)\<rparr>"

definition get_dtable :: "kvm_dtable \<Rightarrow> Segment" where
  "get_dtable ptr = Segment_of (dt_base ptr) (ucast (dt_limit ptr))"

definition get_segment :: "kvm_segment \<Rightarrow> Segment" where
  "get_segment ptr =
     mk_Segment (ucast (ks_selector ptr)) (ks_base ptr) (ucast (ks_limit ptr)) (ucast (ks_type ptr)) (ucast (ks_present ptr))
       (ucast (ks_dpl ptr)) (ucast (ks_db ptr)) (ucast (ks_s ptr)) (ucast (ks_l ptr)) (ucast (ks_g ptr)) (ucast (ks_avl ptr))"

primrec get_seg :: "'k kvm_vcpu \<Rightarrow> Seg_t \<Rightarrow> Segment" where
  "get_seg v CS = get_segment (s_cs (kv_sregs v))"
| "get_seg v DS = get_segment (s_ds (kv_sregs v))"
| "get_seg v ES = get_segment (s_es (kv_sregs v))"
| "get_seg v FS = get_segment (s_fs (kv_sregs v))"
| "get_seg v GS = get_segment (s_gs (kv_sregs v))"
| "get_seg v SS = get_segment (s_ss (kv_sregs v))"
| "get_seg v TR = get_segment (s_tr (kv_sregs v))"
| "get_seg v LDT = get_segment (s_ldt (kv_sregs v))"
| "get_seg v GDT = get_dtable (s_gdt (kv_sregs v))"
| "get_seg v IDT = get_dtable (s_idt (kv_sregs v))"

primrec set_seg :: "Seg_t \<Rightarrow> Segment \<Rightarrow> 'k kvm_vcpu \<Rightarrow> 'k kvm_vcpu" where
  "set_seg CS seg v = upd_sregs (\<lambda>r. r\<lparr>s_cs := set_segment seg (s_cs r)\<rparr>) v"
| "set_seg DS seg v = upd_sregs (\<lambda>r. r\<lparr>s_ds := set_segment seg (s_ds r)\<rparr>) v"
| "set_seg ES seg v = upd_sregs (\<lambda>r. r\<lparr>s_es := set_segment seg (s_es r)\<rparr>) v"
| "set_seg FS seg v = upd_sregs (\<lambda>r. r\<lparr>s_fs := set_segment seg (s_fs r)\<rparr>) v"
| "set_seg GS seg v = upd_sregs (\<lambda>r. r\<lparr>s_gs := set_segment seg (s_gs r)\<rparr>) v"
| "set_seg SS seg v = upd_sregs (\<lambda>r. r\<lparr>s_ss := set_segment seg (s_ss r)\<rparr>) v"
| "set_seg TR seg v = upd_sregs (\<lambda>r. r\<lparr>s_tr := set_segment seg (s_tr r)\<rparr>) v"
| "set_seg LDT seg v = upd_sregs (\<lambda>r. r\<lparr>s_ldt := set_segment seg (s_ldt r)\<rparr>) v"
| "set_seg GDT seg v = upd_sregs (\<lambda>r. r\<lparr>s_gdt := set_dtable seg (s_gdt r)\<rparr>) v"
| "set_seg IDT seg v = upd_sregs (\<lambda>r. r\<lparr>s_idt := set_dtable seg (s_idt r)\<rparr>) v"

section \<open>Running and debugging\<close>

definition KVM_EXIT_HYPERCALL :: u32 where "KVM_EXIT_HYPERCALL = 3"
definition hypercall_exit :: int where "hypercall_exit = 1"

definition vcpu_run :: "'k kvm_ops \<Rightarrow> 'k kvm_vcpu \<Rightarrow> memory \<Rightarrow> int \<times> 'k kvm_vcpu \<times> memory" where
  "vcpu_run ops v m =
     (let (errno, r, m1, k) = op_run ops (kv_kernel v) m;
          v1 = v\<lparr>kv_run := r, kv_kernel := k\<rparr>
      in (if errno \<noteq> 0 \<and> errno = EINTR then - EINTR
          else if errno \<noteq> 0 \<and> errno \<noteq> EAGAIN then -1
          else if run_exit_reason r = KVM_EXIT_HYPERCALL then hypercall_exit
          else 0, v1, m1))"

definition exit_reason :: "'k kvm_vcpu \<Rightarrow> u32" where
  "exit_reason v = run_exit_reason (kv_run v)"

definition hardware_exit_reason :: "'k kvm_vcpu \<Rightarrow> u64" where
  "hardware_exit_reason v = run_hw_reason (kv_run v)"

definition hardware_entry_failure_reason :: "'k kvm_vcpu \<Rightarrow> u64" where
  "hardware_entry_failure_reason v = run_hw_reason (kv_run v)"

definition KVM_GUESTDBG_ENABLE :: u32 where "KVM_GUESTDBG_ENABLE = 0x1"
definition KVM_GUESTDBG_SINGLESTEP :: u32 where "KVM_GUESTDBG_SINGLESTEP = 0x2"
definition KVM_GUESTDBG_USE_SW_BP :: u32 where "KVM_GUESTDBG_USE_SW_BP = 0x10000"

definition set_debug :: "'k kvm_ops \<Rightarrow> 'k kvm_vcpu \<Rightarrow> int \<times> 'k kvm_vcpu" where
  "set_debug ops v =
     (let (err, k) = op_set_guest_debug ops (kv_debug_control v) (kv_kernel v) in (err, v\<lparr>kv_kernel := k\<rparr>))"

definition enable_debug :: "'k kvm_ops \<Rightarrow> 'k kvm_vcpu \<Rightarrow> int \<times> 'k kvm_vcpu" where
  "enable_debug ops v = set_debug ops (v\<lparr>kv_debug_control := kv_debug_control v OR KVM_GUESTDBG_ENABLE\<rparr>)"

definition singlestep :: "'k kvm_ops \<Rightarrow> 'k kvm_vcpu \<Rightarrow> int \<times> 'k kvm_vcpu" where
  "singlestep ops v =
     set_debug ops (v\<lparr>kv_debug_control := kv_debug_control v OR (KVM_GUESTDBG_ENABLE OR KVM_GUESTDBG_SINGLESTEP)\<rparr>)"

definition singlestep_off :: "'k kvm_ops \<Rightarrow> 'k kvm_vcpu \<Rightarrow> int \<times> 'k kvm_vcpu" where
  "singlestep_off ops v =
     set_debug ops (v\<lparr>kv_debug_control := kv_debug_control v AND NOT KVM_GUESTDBG_SINGLESTEP\<rparr>)"

definition enable_software_breakpoints :: "'k kvm_ops \<Rightarrow> 'k kvm_vcpu \<Rightarrow> int \<times> 'k kvm_vcpu" where
  "enable_software_breakpoints ops v =
     set_debug ops (v\<lparr>kv_debug_control := kv_debug_control v OR (KVM_GUESTDBG_ENABLE OR KVM_GUESTDBG_USE_SW_BP)\<rparr>)"

section \<open>Opening the device\<close>

record elkvm_opts =
  opt_argc :: int
  opt_argv :: "hostptr"
  opt_environ :: "hostptr"
  opt_debug :: bool
  opt_fd :: int
  opt_run_struct_size :: int

definition KVM_EXPECT_VERSION :: int where "KVM_EXPECT_VERSION = 12"

text \<open>\<open>dev\<close> is the answer of \<^verbatim>\<open>open\<close> on the device (\<open>Inl\<close> the error number), \<open>version\<close> and \<open>msize\<close> those of the two requests.\<close>

definition kvm_init :: "int + int \<Rightarrow> int \<Rightarrow> int \<Rightarrow> elkvm_opts \<Rightarrow> int \<times> elkvm_opts" where
  "kvm_init dev version msize opts =
     (case dev of
        Inl errno \<Rightarrow> (- errno, opts\<lparr>opt_fd := -1\<rparr>)
      | Inr fd \<Rightarrow>
          let opts1 = opts\<lparr>opt_fd := fd\<rparr> in
          if version \<noteq> KVM_EXPECT_VERSION then (- ENOPROTOOPT, opts1)
          else
            let opts2 = opts1\<lparr>opt_run_struct_size := msize\<rparr> in
            if opt_run_struct_size opts2 \<le> 0 then (- EIO, opts2) else (0, opts2))"

definition elkvm_init :: "int + int \<Rightarrow> int \<Rightarrow> int \<Rightarrow> elkvm_opts \<Rightarrow> int \<Rightarrow> hostptr \<Rightarrow> hostptr \<Rightarrow> int \<times> elkvm_opts" where
  "elkvm_init dev version msize opts argc argv envp =
     kvm_init dev version msize (opts\<lparr>opt_argc := argc, opt_argv := argv, opt_environ := envp\<rparr>)"

definition elkvm_cleanup :: "elkvm_opts \<Rightarrow> int \<times> elkvm_opts" where
  "elkvm_cleanup opts = (0, opts\<lparr>opt_fd := 0, opt_run_struct_size := 0\<rparr>)"

section \<open>The register file interface\<close>

text \<open>A register file: reading after a write gives the written value, cut to what the register holds (\<open>norm\<close>), writes
  to other registers are not seen, and writes to different registers commute.\<close>

locale register_file =
  fixes get :: "'s \<Rightarrow> 'r \<Rightarrow> 'v"
    and put :: "'r \<Rightarrow> 'v \<Rightarrow> 's \<Rightarrow> 's"
    and norm :: "'r \<Rightarrow> 'v \<Rightarrow> 'v"
  assumes get_put: "get (put r x s) q = (if q = r then norm r x else get s q)"
    and put_put: "put r x (put r y s) = put r x s"
    and put_comm: "r \<noteq> q \<Longrightarrow> put r x (put q y s) = put q y (put r x s)"
    and put_get: "put r (get s r) s = s"
begin

primrec puts :: "('r \<times> 'v) list \<Rightarrow> 's \<Rightarrow> 's" where
  "puts [] s = s"
| "puts (w # ws) s = puts ws (put (fst w) (snd w) s)"

lemma norm_get: "norm r (get s r) = get s r"
  using get_put [of r "get s r" s r] by (simp add: put_get)

lemma get_puts: "get (puts ws s) q = (case map_of (rev ws) q of None \<Rightarrow> get s q | Some x \<Rightarrow> norm q x)"
  by (induction ws arbitrary: s) (auto simp: get_put map_add_def split: option.split)

lemma put_puts: "r \<notin> fst ` set ws \<Longrightarrow> put r x (puts ws s) = puts ws (put r x s)"
  by (induction ws arbitrary: s) (auto simp: put_comm)

lemma puts_append: "puts (xs @ ys) s = puts ys (puts xs s)"
  by (induction xs arbitrary: s) simp_all

lemma puts_order:
  assumes "distinct (map fst xs)" "mset xs = mset ys"
  shows "puts xs s = puts ys s"
  using assms
proof (induction xs arbitrary: ys s)
  case (Cons w xs)
  obtain as bs where ys: "ys = as @ w # bs"
    using Cons.prems(2) by (metis list.set_intros(1) mset_eq_setD split_list)
  then have m: "mset xs = mset (as @ bs)"
    using Cons.prems(2) by simp
  then have "fst w \<notin> fst ` set as"
    using Cons.prems(1) by (metis Un_iff distinct.simps(2) image_Un list.simps(9) list.set_map mset_eq_setD set_append)
  then have "puts ys s = puts (as @ bs) (put (fst w) (snd w) s)"
    by (simp add: ys puts_append put_puts)
  also have "\<dots> = puts xs (put (fst w) (snd w) s)"
    using Cons.IH [OF _ m] Cons.prems(1) by simp
  finally show ?case by simp
qed simp

end

lemma get_set_reg: "get_reg (set_reg r x v) q = (if q = r then x else get_reg v q)"
  by (cases r; cases q) simp_all

interpretation gpr: register_file get_reg set_reg "\<lambda>_ x. x"
proof
  fix r q :: Reg_t and x y :: u64 and v :: "'k kvm_vcpu"
  show "get_reg (set_reg r x v) q = (if q = r then x else get_reg v q)"
    by (rule get_set_reg)
  show "set_reg r x (set_reg r y v) = set_reg r x v"
    by (cases r) simp_all
  show "set_reg r (get_reg v r) v = v"
    by (cases r) simp_all
  show "set_reg r x (set_reg q y v) = set_reg q y (set_reg r x v)" if "r \<noteq> q"
    using that by (cases r; cases q) simp_all
qed

text \<open>What a segment register keeps of a \<^verbatim>\<open>Segment\<close>: the descriptor tables hold a base and a 16-bit limit, the
  others hold every field at its width.\<close>

definition seg_norm :: "Seg_t \<Rightarrow> Segment \<Rightarrow> Segment" where
  "seg_norm s seg =
     (if s = GDT \<or> s = IDT then Segment_of (sg_base seg) (take_bit 16 (sg_limit seg))
      else seg\<lparr>sg_selector := take_bit 16 (sg_selector seg), sg_limit := take_bit 32 (sg_limit seg),
               sg_type := take_bit 8 (sg_type seg), sg_present := take_bit 8 (sg_present seg),
               sg_dpl := take_bit 8 (sg_dpl seg), sg_db := take_bit 8 (sg_db seg), sg_s := take_bit 8 (sg_s seg),
               sg_l := take_bit 8 (sg_l seg), sg_g := take_bit 8 (sg_g seg), sg_avl := take_bit 8 (sg_avl seg)\<rparr>)"

lemma ucast_ucast_down:
  "(ucast (ucast (x :: u64) :: u32) :: u64) = take_bit 32 x" "(ucast (ucast (x :: u64) :: u16) :: u64) = take_bit 16 x"
  "(ucast (ucast (x :: u64) :: u8) :: u64) = take_bit 8 x"
  "ucast (ucast (a :: u32) :: u64) = a" "ucast (ucast (b :: u16) :: u64) = b" "ucast (ucast (c :: u8) :: u64) = c"
  by (rule bit_word_eqI; auto simp: bit_simps dest: bit_imp_le_length)+

lemma get_set_segment: "get_segment (set_segment seg k) = seg_norm CS seg"
  by (simp add: get_segment_def set_segment_def seg_norm_def mk_Segment_def ucast_ucast_down)

lemma get_set_dtable: "get_dtable (set_dtable seg k) = seg_norm GDT seg"
  by (simp add: get_dtable_def set_dtable_def seg_norm_def ucast_ucast_down)

lemma segment_set_get: "set_segment seg (set_segment seg' k) = set_segment seg k" "set_segment (get_segment k) k = k"
  "set_dtable seg (set_dtable seg' d) = set_dtable seg d" "set_dtable (get_dtable d) d = d"
  by (simp_all add: set_segment_def get_segment_def mk_Segment_def set_dtable_def get_dtable_def Segment_of_def ucast_ucast_down)

lemma seg_norm_simps [simp]:
  "seg_norm DS = seg_norm CS" "seg_norm ES = seg_norm CS" "seg_norm FS = seg_norm CS" "seg_norm GS = seg_norm CS"
  "seg_norm SS = seg_norm CS" "seg_norm TR = seg_norm CS" "seg_norm LDT = seg_norm CS" "seg_norm IDT = seg_norm GDT"
  by (simp_all add: seg_norm_def fun_eq_iff)

interpretation seg: register_file get_seg set_seg seg_norm
proof
  fix r q :: Seg_t and x y :: Segment and v :: "'k kvm_vcpu"
  show "get_seg (set_seg r x v) q = (if q = r then seg_norm r x else get_seg v q)"
    by (cases r; cases q) (simp_all add: get_set_segment get_set_dtable)
  show "set_seg r x (set_seg r y v) = set_seg r x v"
    by (cases r) (simp_all add: segment_set_get)
  show "set_seg r (get_seg v r) v = v"
    by (cases r) (simp_all add: segment_set_get)
  show "set_seg r x (set_seg q y v) = set_seg q y (set_seg r x v)" if "r \<noteq> q"
    using that by (cases r; cases q) simp_all
qed

section \<open>Properties\<close>

lemma get_seg_set_reg [simp]: "get_seg (set_reg r x v) q = get_seg v q"
  by (cases r; cases q) simp_all

lemma get_reg_set_seg [simp]: "get_reg (set_seg q seg v) r = get_reg v r"
  by (cases q; cases r) simp_all

lemma get_seg_puts: "get_seg (gpr.puts ws v) q = get_seg v q"
  by (induction ws arbitrary: v) simp_all

definition seg_fits :: "Seg_t \<Rightarrow> Segment \<Rightarrow> bool" where
  "seg_fits s seg \<longleftrightarrow>
     (if s = GDT \<or> s = IDT then unat (sg_limit seg) < 2 ^ 16 \<and> seg = Segment_of (sg_base seg) (sg_limit seg)
      else unat (sg_limit seg) < 2 ^ 32 \<and> unat (sg_selector seg) < 2 ^ 16
        \<and> (\<forall>f \<in> {sg_type, sg_present, sg_dpl, sg_db, sg_s, sg_l, sg_g, sg_avl}. unat (f seg) < 2 ^ 8))"

lemma take_bit_id_iff: "take_bit n (x :: u64) = x \<longleftrightarrow> unat x < 2 ^ n" if "n < 64"
proof
  assume "take_bit n x = x"
  then have "unat x = take_bit n (unat x)"
    by (metis unsigned_take_bit_eq)
  then show "unat x < 2 ^ n"
    by (metis take_bit_nat_less_exp)
next
  assume "unat x < 2 ^ n"
  then have "unat (take_bit n x) = unat x"
    by (simp add: unsigned_take_bit_eq take_bit_nat_eq_self)
  then show "take_bit n x = x"
    by (rule unsigned_word_eqI)
qed

lemma seg_norm_id_iff: "seg_norm s seg = seg \<longleftrightarrow> seg_fits s seg"
proof (cases "s = GDT \<or> s = IDT")
  case True
  have "Segment_of (sg_base seg) (take_bit 16 (sg_limit seg)) = seg \<longleftrightarrow>
      take_bit 16 (sg_limit seg) = sg_limit seg \<and> seg = Segment_of (sg_base seg) (sg_limit seg)"
    by (cases seg) (auto simp: Segment_of_def)
  then show ?thesis
    using True by (auto simp: seg_norm_def seg_fits_def take_bit_id_iff)
next
  case False
  then show ?thesis
    by (cases seg) (auto simp: seg_norm_def seg_fits_def take_bit_id_iff)
qed


text \<open>C27. A segment read back from its register is the segment that was set exactly when every field fits the width the
  hypervisor structure gives it: a 16-bit limit and nothing but the base for the descriptor tables, and a 32-bit limit, a
  16-bit selector and 8-bit attributes for the others.  No other register changes.\<close>

theorem segment_roundtrip_iff:
  "(get_seg (set_seg s seg v) s = seg \<longleftrightarrow> seg_fits s seg)
    \<and> (\<forall>q. q \<noteq> s \<longrightarrow> get_seg (set_seg s seg v) q = get_seg v q)
    \<and> get_reg (set_seg s seg v) r = get_reg v r"
  by (simp add: seg.get_put seg_norm_id_iff)

theorem segment_roundtrip_iff_witness:
  "\<forall>v :: unit kvm_vcpu. get_seg (set_seg GDT (Segment_of 0xFFFF800000000000 0x30) v) GDT = Segment_of 0xFFFF800000000000 0x30
    \<and> get_seg (set_seg GDT (Segment_of 0xFFFF800000000000 0x30) v) CS = get_seg v CS"
proof -
  define seg where "seg = Segment_of 0xFFFF800000000000 0x30"
  have "seg_fits GDT seg"
    by (simp add: seg_fits_def seg_def Segment_of_def)
  then show ?thesis
    using segment_roundtrip_iff [of GDT seg] unfolding seg_def [symmetric] by blast
qed

end
