(* ===== verification/Vcpu.thy ===== *)
theory Vcpu
  imports Stack Kvm_Regs
begin

text \<open>
  A virtual CPU, class \<^verbatim>\<open>VCPU\<close> of \<^verbatim>\<open>src/src/vcpu.cc\<close>: the hypervisor registers, the stacks, and the single-step flag.
  The region manager is shared and passed along; printing is left out.
\<close>

section \<open>Definitions\<close>

record 'k vcpu =
  is_singlestepping :: bool
  kvm_vcpu :: "'k kvm_vcpu"
  vcpu_stack :: stack

definition VCPU_CR0_FLAG_PAGING :: u64 where "VCPU_CR0_FLAG_PAGING = 0x80000000"
definition VCPU_CR0_FLAG_CACHE_DISABLE :: u64 where "VCPU_CR0_FLAG_CACHE_DISABLE = 0x40000000"
definition VCPU_CR0_FLAG_NOT_WRITE_THROUGH :: u64 where "VCPU_CR0_FLAG_NOT_WRITE_THROUGH = 0x20000000"
definition VCPU_CR0_FLAG_PROTECTED :: u64 where "VCPU_CR0_FLAG_PROTECTED = 0x1"
definition VCPU_CR4_FLAG_OSFXSR :: u64 where "VCPU_CR4_FLAG_OSFXSR = 0x200"
definition VCPU_CR4_FLAG_PAE :: u64 where "VCPU_CR4_FLAG_PAE = 0x20"
definition VCPU_EFER_FLAG_SCE :: u64 where "VCPU_EFER_FLAG_SCE = 0x1"
definition VCPU_EFER_FLAG_LME :: u64 where "VCPU_EFER_FLAG_LME = 0x100"
definition VCPU_EFER_FLAG_NXE :: u64 where "VCPU_EFER_FLAG_NXE = 0x800"

definition upd_kvm :: "('k kvm_vcpu \<Rightarrow> 'k kvm_vcpu) \<Rightarrow> 'k vcpu \<Rightarrow> 'k vcpu" where
  "upd_kvm f v = v\<lparr>kvm_vcpu := f (kvm_vcpu v)\<rparr>"

definition lift_kvm :: "('k kvm_vcpu \<Rightarrow> int \<times> 'k kvm_vcpu) \<Rightarrow> 'k vcpu \<Rightarrow> int \<times> 'k vcpu" where
  "lift_kvm f v = (let (err, kv) = f (kvm_vcpu v) in (err, v\<lparr>kvm_vcpu := kv\<rparr>))"

definition vcpu_get_regs :: "'k kvm_ops \<Rightarrow> 'k vcpu \<Rightarrow> int \<times> 'k vcpu" where
  "vcpu_get_regs ops = lift_kvm (get_regs ops)"

definition vcpu_get_sregs :: "'k kvm_ops \<Rightarrow> 'k vcpu \<Rightarrow> int \<times> 'k vcpu" where
  "vcpu_get_sregs ops = lift_kvm (get_sregs ops)"

definition vcpu_set_regs :: "'k kvm_ops \<Rightarrow> 'k vcpu \<Rightarrow> int \<times> 'k vcpu" where
  "vcpu_set_regs ops = lift_kvm (set_regs ops)"

definition vcpu_set_sregs :: "'k kvm_ops \<Rightarrow> 'k vcpu \<Rightarrow> int \<times> 'k vcpu" where
  "vcpu_set_sregs ops = lift_kvm (set_sregs ops)"

definition vcpu_get_reg :: "'k vcpu \<Rightarrow> Reg_t \<Rightarrow> u64" where
  "vcpu_get_reg v r = get_reg (kvm_vcpu v) r"

definition vcpu_set_reg :: "Reg_t \<Rightarrow> u64 \<Rightarrow> 'k vcpu \<Rightarrow> 'k vcpu" where
  "vcpu_set_reg r val = upd_kvm (set_reg r val)"

definition vcpu_interrupt_bitmap :: "'k vcpu \<Rightarrow> nat \<Rightarrow> u64 res" where
  "vcpu_interrupt_bitmap v idx = get_interrupt_bitmap (kvm_vcpu v) idx"

definition vcpu_get_msr :: "'k kvm_ops \<Rightarrow> 'k vcpu \<Rightarrow> u32 \<Rightarrow> u64 res" where
  "vcpu_get_msr ops v idx = get_msr ops (kvm_vcpu v) idx"

definition vcpu_set_msr :: "'k kvm_ops \<Rightarrow> u32 \<Rightarrow> u64 \<Rightarrow> 'k vcpu \<Rightarrow> 'k vcpu res" where
  "vcpu_set_msr ops idx data v = bindE (set_msr ops idx data (kvm_vcpu v)) (\<lambda>kv. Inr (v\<lparr>kvm_vcpu := kv\<rparr>))"

definition vcpu_get_seg :: "'k vcpu \<Rightarrow> Seg_t \<Rightarrow> Segment" where
  "vcpu_get_seg v s = get_seg (kvm_vcpu v) s"

definition vcpu_set_seg :: "Seg_t \<Rightarrow> Segment \<Rightarrow> 'k vcpu \<Rightarrow> 'k vcpu" where
  "vcpu_set_seg s seg = upd_kvm (set_seg s seg)"

text \<open>The result of \<^verbatim>\<open>set_regs\<close> is ignored.\<close>

definition set_entry_point :: "'k kvm_ops \<Rightarrow> guestptr \<Rightarrow> 'k vcpu \<Rightarrow> 'k vcpu" where
  "set_entry_point ops rip v = snd (vcpu_set_regs ops (vcpu_set_reg RIP rip v))"

definition initialize_regs :: "'k kvm_vcpu \<Rightarrow> 'k kvm_vcpu" where
  "initialize_regs v =
     (let v = set_reg RFLAGS 0x2 v;
          v = set_reg CR0 (VCPU_CR0_FLAG_PAGING OR VCPU_CR0_FLAG_CACHE_DISABLE OR VCPU_CR0_FLAG_NOT_WRITE_THROUGH
                           OR VCPU_CR0_FLAG_PROTECTED) v;
          v = set_reg CR2 0x0 v;
          v = set_reg CR3 0x0 v;
          v = set_reg CR4 (VCPU_CR4_FLAG_OSFXSR OR VCPU_CR4_FLAG_PAE) v;
          v = set_reg CR8 0x0 v;
          v = set_reg EFER (VCPU_EFER_FLAG_NXE OR VCPU_EFER_FLAG_LME OR VCPU_EFER_FLAG_SCE) v;
          v = set_reg APIC_BASE 0xfee00900 v;
          v = set_seg CS (mk_Segment 0x13 0x0 0xFFFFFFFF 0xb 0x1 0x3 0x0 0x1 0x1 0x1 0x0) v;
          v = set_seg DS (mk_Segment 0x18 0x0 0xFFFFFFF 0x3 0x1 0x0 0x0 0x1 0x1 0x1 0x0) v;
          v = set_seg ES (mk_Segment 0x0 0x0 0xFFFFF 0x3 0x1 0x0 0x0 0x1 0x0 0x0 0x0) v;
          v = set_seg FS (mk_Segment 0x0 0x0 0xFFFFF 0x3 0x1 0x0 0x0 0x1 0x0 0x0 0x0) v;
          v = set_seg GS (mk_Segment 0x0 0x10000 0xFFFFF 0x3 0x1 0x0 0x0 0x1 0x0 0x0 0x0) v;
          v = set_seg TR (mk_Segment 0x0 0x0 0xFFFF 0xb 0x1 0x0 0x0 0x0 0x1 0x0 0x0) v;
          v = set_seg LDT (mk_Segment 0x0 0x0 0xFFFF 0x2 0x1 0x0 0x0 0x0 0x0 0x0 0x0) v
      in set_seg SS (mk_Segment 0xb 0x0 0xFFFFFFFF 0x3 0x1 0x3 0x0 0x1 0x1 0x1 0x0) v)"

definition init_rsp :: "'k vcpu \<Rightarrow> 'k vcpu" where
  "init_rsp v = vcpu_set_reg RSP (user_base (vcpu_stack v)) v"

text \<open>The constructor; \<open>fd\<close>, \<open>run\<close> and \<open>k\<close> are what the kernel gives for the new CPU.\<close>

definition new_vcpu :: "memalign \<Rightarrow> kvm_set_region \<Rightarrow> int \<Rightarrow> kvm_run option \<Rightarrow> 'k \<Rightarrow> rmgr \<Rightarrow> ('k vcpu \<times> rmgr) res option" where
  "new_vcpu am ioctl fd run k rm =
     bindO (Some (KVM_VCPU fd run k)) (\<lambda>kv.
     bindO (new_stack am ioctl rm) (\<lambda>(st, rm1).
     Some (Inr (init_rsp \<lparr>is_singlestepping = False, kvm_vcpu = initialize_regs kv, vcpu_stack = st\<rparr>, rm1))))"

definition handle_stack_expansion :: "memalign \<Rightarrow> kvm_set_region \<Rightarrow> rmgr \<Rightarrow> 'k vcpu \<Rightarrow> (int \<times> rmgr \<times> 'k vcpu) res" where
  "handle_stack_expansion am ioctl rm v =
     bindE (expand am ioctl rm (vcpu_stack v)) (\<lambda>(_, rm1, st). Inr (1, rm1, v\<lparr>vcpu_stack := st\<rparr>))"

definition pop :: "rmgr \<Rightarrow> 'k vcpu \<Rightarrow> (u64 \<times> rmgr \<times> 'k vcpu) res" where
  "pop rm v =
     (let rsp = vcpu_get_reg v RSP in
      bindE (popq rm rsp) (\<lambda>(val, rm1). Inr (val, rm1, vcpu_set_reg RSP (rsp + 8) v)))"

text \<open>The result of \<^verbatim>\<open>pushq\<close> is ignored.\<close>

definition push :: "memalign \<Rightarrow> kvm_set_region \<Rightarrow> rmgr \<Rightarrow> 'k vcpu \<Rightarrow> u64 \<Rightarrow> (rmgr \<times> 'k vcpu) res" where
  "push am ioctl rm v val =
     (let rsp = vcpu_get_reg v RSP - 8;
          v1 = vcpu_set_reg RSP rsp v
      in bindE (pushq am ioctl rm (vcpu_stack v1) rsp val) (\<lambda>(_, rm1, st). Inr (rm1, v1\<lparr>vcpu_stack := st\<rparr>)))"

definition run :: "'k kvm_ops \<Rightarrow> 'k vcpu \<Rightarrow> memory \<Rightarrow> int \<times> 'k vcpu \<times> memory" where
  "run ops v m = (let (r, kv, m1) = vcpu_run ops (kvm_vcpu v) m in (r, v\<lparr>kvm_vcpu := kv\<rparr>, m1))"

definition KVM_EXIT_SHUTDOWN :: u32 where "KVM_EXIT_SHUTDOWN = 8"

text \<open>Every case of \<^verbatim>\<open>handle_vm_exit\<close> prints a message and returns false; after a shutdown the registers are fetched first.\<close>

definition handle_vm_exit :: "'k kvm_ops \<Rightarrow> 'k vcpu \<Rightarrow> bool \<times> 'k vcpu" where
  "handle_vm_exit ops v =
     (if exit_reason (kvm_vcpu v) = KVM_EXIT_SHUTDOWN
      then (False, snd (vcpu_get_sregs ops (snd (vcpu_get_regs ops v))))
      else (False, v))"

definition vcpu_singlestep :: "'k kvm_ops \<Rightarrow> 'k vcpu \<Rightarrow> int \<times> 'k vcpu" where
  "vcpu_singlestep ops v = lift_kvm (singlestep ops) (v\<lparr>is_singlestepping := True\<rparr>)"

definition vcpu_singlestep_off :: "'k kvm_ops \<Rightarrow> 'k vcpu \<Rightarrow> int \<times> 'k vcpu" where
  "vcpu_singlestep_off ops v = lift_kvm (singlestep_off ops) (v\<lparr>is_singlestepping := False\<rparr>)"

definition vcpu_enable_debug :: "'k kvm_ops \<Rightarrow> 'k vcpu \<Rightarrow> int \<times> 'k vcpu" where
  "vcpu_enable_debug ops = lift_kvm (enable_debug ops)"

definition vcpu_enable_software_breakpoints :: "'k kvm_ops \<Rightarrow> 'k vcpu \<Rightarrow> int \<times> 'k vcpu" where
  "vcpu_enable_software_breakpoints ops = lift_kvm (enable_software_breakpoints ops)"

definition CPUID_EXT_VMX :: u32 where "CPUID_EXT_VMX = 32"

text \<open>\<open>ecx\<close> is the word the instruction \<^verbatim>\<open>cpuid\<close> returns for function 1.\<close>

definition host_supports_vmx :: "u32 \<Rightarrow> bool" where
  "host_supports_vmx ecx \<longleftrightarrow> ecx AND CPUID_EXT_VMX \<noteq> 0"

definition print_flags :: "u64 \<Rightarrow> string" where
  "print_flags flags =
     (let f = (\<lambda>n s. if drop_bit n flags AND 0x1 \<noteq> 0 then s else '''')
      in '' ['' @ f 16 ''RF '' @ f 11 ''OF '' @ f 10 ''DF '' @ f 9 ''IF '' @ f 8 ''TF '' @ f 7 ''SF '' @ f 6 ''ZF ''
         @ f 4 ''AF '' @ f 2 ''PF '' @ f 0 ''CF'' @ '']'' @ [CHR 0x0A])"

section \<open>Register laws of the CPU\<close>

lemma vcpu_get_set_reg [simp]: "vcpu_get_reg (vcpu_set_reg r x v) q = (if q = r then x else vcpu_get_reg v q)"
  by (simp add: vcpu_get_reg_def vcpu_set_reg_def upd_kvm_def get_set_reg)

lemma vcpu_set_reg_fields [simp]:
  "vcpu_stack (vcpu_set_reg r x v) = vcpu_stack v" "is_singlestepping (vcpu_set_reg r x v) = is_singlestepping v"
  "vcpu_get_seg (vcpu_set_reg r x v) s = vcpu_get_seg v s"
  "vcpu_get_reg (v\<lparr>vcpu_stack := st\<rparr>) q = vcpu_get_reg v q"
  by (simp_all add: vcpu_set_reg_def upd_kvm_def vcpu_get_seg_def vcpu_get_reg_def)

lemma vcpu_set_set_reg [simp]: "vcpu_set_reg r x (vcpu_set_reg r y v) = vcpu_set_reg r x v"
  by (simp add: vcpu_set_reg_def upd_kvm_def gpr.put_put)

lemma vcpu_set_get_reg [simp]: "vcpu_set_reg r (vcpu_get_reg v r) v = v"
  by (simp add: vcpu_set_reg_def vcpu_get_reg_def upd_kvm_def gpr.put_get)

lemma vcpu_set_reg_stack: "vcpu_set_reg r x (v\<lparr>vcpu_stack := st\<rparr>) = (vcpu_set_reg r x v)\<lparr>vcpu_stack := st\<rparr>"
  by (simp add: vcpu_set_reg_def upd_kvm_def)

end
