(* ===== verification/Descriptors.thy ===== *)
theory Descriptors
  imports Vcpu
begin

text \<open>
  The descriptor tables of the guest: \<^verbatim>\<open>src/src/gdt.cc\<close>, \<^verbatim>\<open>src/src/tss.cc\<close> and \<^verbatim>\<open>src/src/idt.cc\<close>.  A descriptor is the
  packed structure of the header read as little-endian words, so that storing all its fields is a store of the words.
\<close>

section \<open>Kernel pages\<close>

text \<open>\<^verbatim>\<open>map_kernel_page\<close> of the first page of a region and \<^verbatim>\<open>set_guest_addr\<close>.\<close>

definition place_kernel_page :: "rmgr \<Rightarrow> rid \<Rightarrow> ptopt \<Rightarrow> rmgr res option" where
  "place_kernel_page rm a opts =
     bindO (map_kernel_page (rm_pager rm) (reg_host_p (rm_store rm a)) opts) (\<lambda>(gv, p).
     bindO (Some (assertE (gv \<noteq> 0))) (\<lambda>_.
     let rm1 = rm\<lparr>rm_pager := p\<rparr>
     in Some (Inr (update_region rm1 a (set_guest_addr gv (rm_store rm1 a))))))"

section \<open>Segment descriptors\<close>

record gdt_descriptor =
  gd_limit1 :: u16
  gd_base1 :: u16
  gd_base2 :: u8
  gd_access :: u8
  gd_limit2_flags :: u8
  gd_base3 :: u8

definition gdt_base :: "gdt_descriptor \<Rightarrow> u32" where
  "gdt_base e = ucast (gd_base1 e) OR push_bit 16 (ucast (gd_base2 e)) OR push_bit 24 (ucast (gd_base3 e))"

definition gdt_limit :: "gdt_descriptor \<Rightarrow> u32" where
  "gdt_limit e = ucast (gd_limit1 e) OR push_bit 16 (ucast (gd_limit2_flags e AND 0xF))"

definition gdt_flags :: "gdt_descriptor \<Rightarrow> u8" where
  "gdt_flags e = drop_bit 4 (gd_limit2_flags e)"

definition gdt_word :: "gdt_descriptor \<Rightarrow> u64" where
  "gdt_word e = ucast (gd_limit1 e) OR push_bit 16 (ucast (gd_base1 e)) OR push_bit 32 (ucast (gd_base2 e))
     OR push_bit 40 (ucast (gd_access e)) OR push_bit 48 (ucast (gd_limit2_flags e)) OR push_bit 56 (ucast (gd_base3 e))"

definition gdt_of_word :: "u64 \<Rightarrow> gdt_descriptor" where
  "gdt_of_word w = \<lparr>gd_limit1 = ucast w, gd_base1 = ucast (drop_bit 16 w), gd_base2 = ucast (drop_bit 32 w),
     gd_access = ucast (drop_bit 40 w), gd_limit2_flags = ucast (drop_bit 48 w), gd_base3 = ucast (drop_bit 56 w)\<rparr>"

definition GDT_SEGMENT_WRITEABLE :: u8 where "GDT_SEGMENT_WRITEABLE = 2"
definition GDT_SEGMENT_READABLE :: u8 where "GDT_SEGMENT_READABLE = 2"
definition GDT_SEGMENT_DIRECTION_BIT :: u8 where "GDT_SEGMENT_DIRECTION_BIT = 4"
definition GDT_SEGMENT_EXECUTABLE :: u8 where "GDT_SEGMENT_EXECUTABLE = 8"
definition GDT_SEGMENT_BIT :: u8 where "GDT_SEGMENT_BIT = 16"
definition GDT_SEGMENT_PRIVILEDGE_USER :: u8 where "GDT_SEGMENT_PRIVILEDGE_USER = 96"
definition GDT_SEGMENT_PRESENT :: u8 where "GDT_SEGMENT_PRESENT = 128"
definition GDT_SEGMENT_LONG :: u8 where "GDT_SEGMENT_LONG = 2"
definition GDT_SEGMENT_PAGE_GRANULARITY :: u8 where "GDT_SEGMENT_PAGE_GRANULARITY = 8"
definition GDT_NUM_ENTRIES :: u64 where "GDT_NUM_ENTRIES = 8"

definition segment_descriptor :: "u32 \<Rightarrow> u32 \<Rightarrow> u8 \<Rightarrow> u8 \<Rightarrow> gdt_descriptor" where
  "segment_descriptor b limit access flags =
     \<lparr>gd_limit1 = ucast (limit AND 0xFFFF), gd_base1 = ucast (b AND 0xFFFF), gd_base2 = ucast (drop_bit 16 b AND 0xFF),
      gd_access = access, gd_limit2_flags = ucast (drop_bit 16 limit AND 0xF) OR push_bit 4 flags,
      gd_base3 = ucast (drop_bit 24 b)\<rparr>"

definition elkvm_gdt_create_segment_descriptor :: "memory \<Rightarrow> hostptr \<Rightarrow> u32 \<Rightarrow> u32 \<Rightarrow> u8 \<Rightarrow> u8 \<Rightarrow> int \<times> memory" where
  "elkvm_gdt_create_segment_descriptor m entry b limit access flags =
     (if b AND 0xFFF00000 \<noteq> 0 then (- EINVAL, m)
      else (0, write64 m entry (gdt_word (segment_descriptor b limit access flags))))"

section \<open>The task state segment\<close>

definition sizeof_tss64 :: u64 where "sizeof_tss64 = 104"

definition tss_setup_mem :: "memory \<Rightarrow> hostptr \<Rightarrow> guestptr \<Rightarrow> memory" where
  "tss_setup_mem m tss kstack =
     (let m = memset m tss 0 sizeof_tss64;
          m = write64 m (tss + 36) (kstack + ELKVM_PAGESIZE);
          m = write64 m (tss + 4) 0xFFFFFFFFFFFFFFFF
      in write64 m (tss + 20) 0x00007FFFFFFFFFFF)"

definition elkvm_tss_setup64 :: "'k vcpu \<Rightarrow> rmgr \<Rightarrow> rid \<Rightarrow> (int \<times> rmgr) res option" where
  "elkvm_tss_setup64 v rm r =
     bindO (place_kernel_page rm r 0) (\<lambda>rm1.
     bindO (Some (kernel_base rm1 (vcpu_stack v))) (\<lambda>kb.
     Some (Inr (0, store_mem (tss_setup_mem (pg_mem (rm_pager rm1)) (reg_host_p (rm_store rm1 r)) kb) rm1))))"

definition elkvm_tss_setup32 :: "memory \<Rightarrow> hostptr \<Rightarrow> u32 \<Rightarrow> int \<times> memory" where
  "elkvm_tss_setup32 m tss kernel_data_selector =
     (let m = memset m tss 0 104;
          m = write16 m (tss + 8) (ucast kernel_data_selector)
      in (0, write32 m (tss + 4) 0x1042))"

section \<open>The global descriptor table\<close>

definition VCPU_MSR_STAR :: u32 where "VCPU_MSR_STAR = 0xC0000081"

definition gdt_user_segments :: "memory \<Rightarrow> hostptr \<Rightarrow> memory" where
  "gdt_user_segments m b =
     (let m = memset m b 0 8;
          m = snd (elkvm_gdt_create_segment_descriptor m (b + 8) 0 0xFFFFFFFF
                (GDT_SEGMENT_PRESENT OR GDT_SEGMENT_WRITEABLE OR GDT_SEGMENT_BIT OR GDT_SEGMENT_PRIVILEDGE_USER)
                (GDT_SEGMENT_PAGE_GRANULARITY OR GDT_SEGMENT_LONG));
          m = snd (elkvm_gdt_create_segment_descriptor m (b + 16) 0 0xFFFFFFFF
                (GDT_SEGMENT_READABLE OR GDT_SEGMENT_EXECUTABLE OR GDT_SEGMENT_BIT OR GDT_SEGMENT_PRESENT
                 OR GDT_SEGMENT_PRIVILEDGE_USER OR GDT_SEGMENT_DIRECTION_BIT)
                (GDT_SEGMENT_PAGE_GRANULARITY OR GDT_SEGMENT_LONG))
      in snd (elkvm_gdt_create_segment_descriptor m (b + 24) 0 0xFFFFFFFF
                (GDT_SEGMENT_WRITEABLE OR GDT_SEGMENT_BIT OR GDT_SEGMENT_PRESENT)
                (GDT_SEGMENT_PAGE_GRANULARITY OR GDT_SEGMENT_LONG)))"

definition gdt_system_segments :: "memory \<Rightarrow> hostptr \<Rightarrow> guestptr \<Rightarrow> memory" where
  "gdt_system_segments m b tss =
     (let m = snd (elkvm_gdt_create_segment_descriptor m (b + 32) (ucast (tss AND 0xFFFFFFFF)) (ucast sizeof_tss64)
                (0x9 OR GDT_SEGMENT_PRESENT) GDT_SEGMENT_LONG);
          m = write64 m (b + 40) (drop_bit 32 tss);
          m = snd (elkvm_gdt_create_segment_descriptor m (b + 48) 0 0xFFFFFFFF
                (GDT_SEGMENT_READABLE OR GDT_SEGMENT_EXECUTABLE OR GDT_SEGMENT_BIT OR GDT_SEGMENT_PRESENT
                 OR GDT_SEGMENT_DIRECTION_BIT)
                (GDT_SEGMENT_PAGE_GRANULARITY OR GDT_SEGMENT_LONG))
      in snd (elkvm_gdt_create_segment_descriptor m (b + 56) 0 0xFFFFFFFF
                (GDT_SEGMENT_WRITEABLE OR GDT_SEGMENT_BIT OR GDT_SEGMENT_PRESENT)
                (GDT_SEGMENT_PAGE_GRANULARITY OR GDT_SEGMENT_LONG)))"

text \<open>The selectors are the offsets of the entries: 8 for the user stack, 0x20 for the task state segment and 0x30 for the
  kernel code.\<close>

definition star_value :: u64 where
  "star_value = (let ss_selector = 0x8; kernel_cs_selector = 0x30 in
     push_bit 48 ((ss_selector - 0x8) OR 0x3) OR push_bit 32 kernel_cs_selector)"

definition load_gdt_regs :: "'k kvm_ops \<Rightarrow> 'k vcpu \<Rightarrow> guestptr \<Rightarrow> guestptr \<Rightarrow> (bool \<times> 'k vcpu) res" where
  "load_gdt_regs ops v gdt tss =
     bindE (vcpu_set_msr ops VCPU_MSR_STAR star_value v) (\<lambda>v1.
     let (err, v2) = vcpu_get_sregs ops v1 in
     if err \<noteq> 0 then Inr (False, v2)
     else
       let v3 = vcpu_set_seg GDT (Segment_of gdt (GDT_NUM_ENTRIES * 8 - 1)) v2;
           v4 = vcpu_set_seg TR (mk_Segment 0x20 tss sizeof_tss64 0xb 0x1 0x0 0x0 0x0 0x1 0x0 0x0) v3;
           (err, v5) = vcpu_set_sregs ops v4
       in Inr (err = 0, v5))"

text \<open>The result is \<open>None\<close> for the null pointer that reports a failed exchange of the registers.\<close>

definition elkvm_gdt_setup ::
  "'k kvm_ops \<Rightarrow> memalign \<Rightarrow> kvm_set_region \<Rightarrow> rmgr \<Rightarrow> 'k vcpu \<Rightarrow> (rid option \<times> rmgr \<times> 'k vcpu) res option" where
  "elkvm_gdt_setup ops am ioctl rm v =
     bindO (Some (allocate_region am ioctl rm (GDT_NUM_ENTRIES * 8) ''ELKVM GDT'')) (\<lambda>(g, rm1).
     bindO (place_kernel_page rm1 g 0) (\<lambda>rm2.
     let b = reg_host_p (rm_store rm2 g);
         rm3 = store_mem (gdt_user_segments (pg_mem (rm_pager rm2)) b) rm2
     in
     bindO (Some (allocate_region am ioctl rm3 sizeof_tss64 ''ELKVM TSS'')) (\<lambda>(t, rm4).
     bindO (elkvm_tss_setup64 v rm4 t) (\<lambda>(err, rm5).
     if err \<noteq> 0 then Some (Inr (None, rm5, v))
     else
       let tss = reg_addr (rm_store rm5 t);
           rm6 = store_mem (gdt_system_segments (pg_mem (rm_pager rm5)) b tss) rm5
       in
       bindO (Some (load_gdt_regs ops v (reg_addr (rm_store rm6 g)) tss)) (\<lambda>(ok, v1).
       Some (Inr (if ok then Some g else None, rm6, v1)))))))"

section \<open>The interrupt descriptor table\<close>

record kvm_idt_entry =
  idt_offset1 :: u16
  idt_selector :: u16
  idt_idx :: u8
  idt_flags :: u8
  idt_offset2 :: u16
  idt_offset3 :: u32
  idt_reserved :: u32

definition idt_entry_offset :: "kvm_idt_entry \<Rightarrow> u64" where
  "idt_entry_offset e = ucast (idt_offset1 e) OR push_bit 16 (ucast (idt_offset2 e)) OR push_bit 32 (ucast (idt_offset3 e))"

definition idt_words :: "kvm_idt_entry \<Rightarrow> u64 \<times> u64" where
  "idt_words e =
     (ucast (idt_offset1 e) OR push_bit 16 (ucast (idt_selector e)) OR push_bit 32 (ucast (idt_idx e))
        OR push_bit 40 (ucast (idt_flags e)) OR push_bit 48 (ucast (idt_offset2 e)),
      ucast (idt_offset3 e) OR push_bit 32 (ucast (idt_reserved e)))"

definition idt_of_words :: "u64 \<Rightarrow> u64 \<Rightarrow> kvm_idt_entry" where
  "idt_of_words lo hi = \<lparr>idt_offset1 = ucast lo, idt_selector = ucast (drop_bit 16 lo), idt_idx = ucast (drop_bit 32 lo),
     idt_flags = ucast (drop_bit 40 lo), idt_offset2 = ucast (drop_bit 48 lo), idt_offset3 = ucast hi,
     idt_reserved = ucast (drop_bit 32 hi)\<rparr>"

definition INTERRUPT_ENTRY_PRESENT :: u8 where "INTERRUPT_ENTRY_PRESENT = 128"
definition IT_TRAP_GATE :: u8 where "IT_TRAP_GATE = 0xF"
definition IT_LONG_IDT :: u8 where "IT_LONG_IDT = 8"

definition make_idt_entry :: "u64 \<Rightarrow> kvm_idt_entry" where
  "make_idt_entry offset =
     \<lparr>idt_offset1 = ucast (offset AND 0xFFFF), idt_selector = 0x0030, idt_idx = 0x1,
      idt_flags = INTERRUPT_ENTRY_PRESENT OR IT_TRAP_GATE OR IT_LONG_IDT,
      idt_offset2 = ucast (drop_bit 16 offset AND 0xFFFF), idt_offset3 = ucast (drop_bit 32 offset), idt_reserved = 0\<rparr>"

definition write_idt_entry :: "memory \<Rightarrow> hostptr \<Rightarrow> kvm_idt_entry \<Rightarrow> memory" where
  "write_idt_entry m p e = write64 (write64 m p (fst (idt_words e))) (p + 8) (snd (idt_words e))"

primrec idt_loop :: "nat \<Rightarrow> memory \<Rightarrow> hostptr \<Rightarrow> guestptr \<Rightarrow> memory" where
  "idt_loop 0 m b handler = m"
| "idt_loop (Suc i) m b handler =
     write_idt_entry (idt_loop i m b handler) (b + of_nat (16 * i)) (make_idt_entry (handler + of_nat (9 * i)))"

definition elkvm_idt_setup ::
  "'k kvm_ops \<Rightarrow> memalign \<Rightarrow> kvm_set_region \<Rightarrow> rmgr \<Rightarrow> 'k vcpu \<Rightarrow> rid \<Rightarrow> (int \<times> rmgr \<times> 'k vcpu) res option" where
  "elkvm_idt_setup ops am ioctl rm v default_handler =
     bindO (Some (allocate_region am ioctl rm (256 * 16) ''anon region'')) (\<lambda>(r, rm1).
     let rm2 = store_mem (idt_loop 48 (pg_mem (rm_pager rm1)) (reg_host_p (rm_store rm1 r))
                            (reg_addr (rm_store rm1 default_handler))) rm1
     in
     bindO (place_kernel_page rm2 r 0) (\<lambda>rm3.
     let (err, v1) = vcpu_set_sregs ops (vcpu_set_seg IDT (Segment_of (reg_addr (rm_store rm3 r)) 0xFFF) v)
     in Some (Inr (err, rm3, v1))))"

end
