(* ===== verification/Descriptor_Mem.thy ===== *)
theory Descriptor_Mem
  imports Descriptors
begin

text \<open>
  The descriptor tables in memory: the encoding of the descriptors is a bijection on their fields, a kernel page is placed in
  the first free page of kernel space, and a table written through the host is what the guest reads through its page tables.
\<close>

section \<open>Encoding of descriptors\<close>

lemma gdt_of_gdt_word: "gdt_of_word (gdt_word e) = e"
proof -
  have "ucast (gdt_word e) = gd_limit1 e" "ucast (drop_bit 16 (gdt_word e)) = gd_base1 e"
    "ucast (drop_bit 32 (gdt_word e)) = gd_base2 e" "ucast (drop_bit 40 (gdt_word e)) = gd_access e"
    "ucast (drop_bit 48 (gdt_word e)) = gd_limit2_flags e" "ucast (drop_bit 56 (gdt_word e)) = gd_base3 e"
    by (rule bit_word_eqI; auto simp: gdt_word_def bit_simps dest: bit_imp_le_length)+
  then show ?thesis
    by (cases e) (simp add: gdt_of_word_def)
qed

lemma segment_descriptor_fields:
  "gdt_base (segment_descriptor b limit access flags) = b"
  "gdt_limit (segment_descriptor b limit access flags) = take_bit 20 limit"
  "gdt_flags (segment_descriptor b limit access flags) = take_bit 4 flags"
  "gd_access (segment_descriptor b limit access flags) = access"
proof -
  have m: "(0xFFFF :: u32) = mask 16" "(0xFF :: u32) = mask 8" "(0xF :: u32) = mask 4" "(0xF :: u8) = mask 4"
    by (simp_all add: mask_eq_exp_minus_1)
  show "gdt_base (segment_descriptor b limit access flags) = b"
  proof (rule bit_word_eqI)
    fix n assume "n < LENGTH(32)"
    then consider "n < 16" | "16 \<le> n \<and> n < 24" | "24 \<le> n \<and> n < 32" by fastforce
    then show "bit (gdt_base (segment_descriptor b limit access flags)) n \<longleftrightarrow> bit b n"
      unfolding gdt_base_def segment_descriptor_def m by cases (auto simp: bit_simps)
  qed
  show "gdt_limit (segment_descriptor b limit access flags) = take_bit 20 limit"
  proof (rule bit_word_eqI)
    fix n assume "n < LENGTH(32)"
    then consider "n < 16" | "16 \<le> n \<and> n < 20" | "20 \<le> n \<and> n < 32" by fastforce
    then show "bit (gdt_limit (segment_descriptor b limit access flags)) n \<longleftrightarrow> bit (take_bit 20 limit) n"
      unfolding gdt_limit_def segment_descriptor_def m by cases (auto simp: bit_simps)
  qed
  show "gdt_flags (segment_descriptor b limit access flags) = take_bit 4 flags"
    unfolding gdt_flags_def segment_descriptor_def m by (rule bit_word_eqI) (auto simp: bit_simps)
  show "gd_access (segment_descriptor b limit access flags) = access"
    by (simp add: segment_descriptor_def)
qed

lemma idt_of_idt_words: "idt_of_words (fst (idt_words e)) (snd (idt_words e)) = e"
proof -
  have "ucast (fst (idt_words e)) = idt_offset1 e" "ucast (drop_bit 16 (fst (idt_words e))) = idt_selector e"
    "ucast (drop_bit 32 (fst (idt_words e))) = idt_idx e" "ucast (drop_bit 40 (fst (idt_words e))) = idt_flags e"
    "ucast (drop_bit 48 (fst (idt_words e))) = idt_offset2 e" "ucast (snd (idt_words e)) = idt_offset3 e"
    "ucast (drop_bit 32 (snd (idt_words e))) = idt_reserved e"
    by (rule bit_word_eqI; auto simp: idt_words_def bit_simps dest: bit_imp_le_length)+
  then show ?thesis
    by (cases e) (simp add: idt_of_words_def)
qed

lemma make_idt_entry_offset: "idt_entry_offset (make_idt_entry off) = off"
proof (rule bit_word_eqI)
  have m: "(0xFFFF :: u64) = mask 16"
    by (simp add: mask_eq_exp_minus_1)
  fix n assume "n < LENGTH(64)"
  then consider "n < 16" | "16 \<le> n \<and> n < 32" | "32 \<le> n \<and> n < 64" by fastforce
  then show "bit (idt_entry_offset (make_idt_entry off)) n \<longleftrightarrow> bit off n"
    unfolding idt_entry_offset_def make_idt_entry_def m by cases (auto simp: bit_simps)
qed

lemma and_FFF00000: "(b :: u32) AND 0xFFF00000 = 0 \<longleftrightarrow> unat b < 2 ^ 20"
proof -
  have m: "(0xFFF00000 :: u32) = NOT (mask 20)"
    by (simp add: mask_eq_exp_minus_1)
  have "unat (b AND 0xFFF00000) = 2 ^ 20 * (unat b div 2 ^ 20)"
    unfolding m unat_and_not_mask by (rule minus_mod_eq_mult_div)
  then show ?thesis
    by (simp add: div_eq_0_iff flip: unat_eq_0)
qed

section \<open>Placing kernel pages\<close>

text \<open>The first \<open>k\<close> pages of kernel space are mapped, the other pages of its first table are free.\<close>

definition kernel_page :: "nat \<Rightarrow> guestptr" where
  "kernel_page k = KERNEL_SPACE_BOTTOM + of_nat (4096 * k)"

definition kernel_slots :: "rmgr \<Rightarrow> nat \<Rightarrow> bool" where
  "kernel_slots rm k \<longleftrightarrow> guest_next_free (rm_pager rm) = KERNEL_SPACE_BOTTOM
     \<and> (\<forall>l<k. pt_view (rm_pager rm) (vpn (kernel_page l)) \<noteq> None)
     \<and> (\<forall>l. k \<le> l \<longrightarrow> l < 512 \<longrightarrow> pt_view (rm_pager rm) (vpn (kernel_page l)) = None)"

definition kernel_placed :: "rmgr \<Rightarrow> rid \<Rightarrow> nat \<Rightarrow> rmgr \<Rightarrow> bool" where
  "kernel_placed rm a k rm' \<longleftrightarrow> mem_ok rm' \<and> kernel_slots rm' (Suc k)
     \<and> (\<exists>p. rm' = update_region (rm\<lparr>rm_pager := p\<rparr>) a (set_guest_addr (kernel_page k) (rm_store rm a))
            \<and> pager_frame p = pager_frame (rm_pager rm))
     \<and> (\<forall>off < 4096. host_of (rm_pager rm') (kernel_page k + of_nat off) = reg_host_p (rm_store rm a) + of_nat off)
     \<and> (\<forall>b. host_of (rm_pager rm) b \<noteq> 0 \<longrightarrow> host_of (rm_pager rm') b = host_of (rm_pager rm) b)
     \<and> (\<forall>v. v \<noteq> vpn (kernel_page k) \<longrightarrow> pt_view (rm_pager rm') v = pt_view (rm_pager rm) v)
     \<and> outside_same (rm_pager rm) (rm_pager rm') \<and> tables_used (rm_pager rm') \<le> tables_used (rm_pager rm) + 3"

lemma unat_kernel_page: "k < 512 \<Longrightarrow> unat (kernel_page k) = 0xFFFF800000000000 + 4096 * k"
proof -
  assume k: "k < 512"
  have "unat (of_nat (4096 * k) :: u64) = 4096 * k"
    by (rule unat_of_nat_small) (use k in simp)
  then show ?thesis
    using k by (simp add: kernel_page_def KERNEL_SPACE_BOTTOM_def unat_plus_if' del: of_nat_mult)
qed

lemma kernel_page_facts:
  assumes "k < 512"
  shows "page_aligned (kernel_page k)" "0 < kernel_page k" "unat (kernel_page k) + 4096 * 1 \<le> 2 ^ 64"
  using unat_kernel_page [OF assms] assms by (simp_all add: page_aligned_iff word_less_nat_alt)

lemma kernel_page_ok:
  assumes ok: "mem_ok rm" and a: "a \<in> set (allocated_regions rm)" "\<not> pager_region rm a"
    and ks: "kernel_slots rm k" and k: "k < 512" and tab: "tables_used (rm_pager rm) + 3 \<le> 4096"
  obtains rm' where "place_kernel_page rm a opts = Some (Inr rm')" "kernel_placed rm a k rm'"
proof -
  let ?p = "rm_pager rm" and ?H = "reg_host_p (rm_store rm a)" and ?g = "kernel_page k"
  have inv: "chunks_inv ?p" "pt_inv ?p" "tlb_ok ?p" "rm_inv rm" "mem_inv rm"
    using ok by (simp_all add: mem_ok_def mem_inv_def pager_ok_def)
  have wf: "region_wf (rm_store rm a)"
    by (rule allocated_wf [OF inv(4) a(1)])
  have n: "4096 * 1 \<le> unat (reg_size (rm_store rm a))"
    using wf by (auto simp: region_wf_def page_aligned_iff word_less_nat_alt dest: dvd_imp_le)
  have fr: "pt_view ?p (vpn ?g) = None" "guest_next_free ?p = KERNEL_SPACE_BOTTOM"
    using ks k by (simp_all add: kernel_slots_def)
  have same: "free_or_same ?p (?H + of_nat (4096 * l)) (?g + of_nat (4096 * l))" if "l < 1" for l
    using fr(1) that by (simp add: free_or_same_def)
  obtain c where c: "c \<in> set (chunks ?p)" "\<And>off. off < 4096 * 1 \<Longrightarrow> contains_address c (?H + of_nat off)"
    by (rule allocated_pages_mappable [OF inv(5) a kernel_page_facts [OF k] n _ same]) simp_all
  define ph where "ph = host_to_guest_physical ?p ?H"
  have "ph AND 0xFFF = 0"
    using host_page_offset [OF inv(1) c(1), of ?H] c(2) [of 0] wf by (simp add: ph_def region_wf_def page_aligned_iff_offset)
  moreover have "page_aligned KERNEL_SPACE_BOTTOM"
    by (simp add: page_aligned_iff KERNEL_SPACE_BOTTOM_def)
  ultimately have gv: "KERNEL_SPACE_BOTTOM = (guest_next_free ?p AND NOT 0xFFF) OR (ph AND 0xFFF)"
    by (simp add: fr(2) page_aligned_def)
  have idx: "tbl_index KERNEL_SPACE_BOTTOM 12 + k < 512" "KERNEL_SPACE_BOTTOM \<noteq> 0"
    using k by (simp_all add: tbl_index_nat KERNEL_SPACE_BOTTOM_def)
  have sl: "\<And>l. l < k \<Longrightarrow> pt_view ?p (vpn (KERNEL_SPACE_BOTTOM + of_nat (4096 * l))) \<noteq> None"
    "pt_view ?p (vpn (KERNEL_SPACE_BOTTOM + of_nat (4096 * k))) = None"
    using ks k by (simp_all add: kernel_slots_def kernel_page_def)
  obtain p' where p': "map_kernel_page ?p ?H opts = Some (Inr (?g, p'))" "pt_inv p'"
    "pt_view p' = (pt_view ?p)(vpn ?g \<mapsto> entry_value ph opts)" "pager_frame p' = pager_frame ?p" "outside_same ?p p'"
    "tables_used p' \<le> tables_used ?p + tables_needed ?p KERNEL_SPACE_BOTTOM"
    using map_kernel_page_finds [OF inv(2) add_need [OF tab] gv [unfolded ph_def] idx(2,1) sl, of opts]
    unfolding kernel_page_def [symmetric] ph_def by blast
  have v: "\<forall>l<1. pt_view p' (vpn (?g + of_nat (4096 * l))) = Some (entry_value (host_to_guest_physical ?p (?H + of_nat (4096 * l))) opts)"
    "\<forall>v. (\<forall>l<1. v \<noteq> vpn (?g + of_nat (4096 * l))) \<longrightarrow> pt_view p' v = pt_view ?p v"
    by (simp_all add: p'(3) ph_def)
  note mp = mapped_pages [OF ok a kernel_page_facts [OF k] n _ same p'(2,4) v, simplified]
  define rm' where "rm' = update_region (rm\<lparr>rm_pager := p'\<rparr>) a (set_guest_addr ?g (rm_store rm a))"
  note ug = update_guest_addr [of "rm\<lparr>rm_pager := p'\<rparr>" a ?g, simplified, folded rm'_def]
  have "?g \<noteq> 0"
    using kernel_page_facts(2) [OF k] by auto
  then have "place_kernel_page rm a opts = Some (Inr rm')"
    using p'(1) by (simp add: place_kernel_page_def rm'_def Let_def)
  moreover have "kernel_placed rm a k rm'"
    unfolding kernel_placed_def
  proof (intro conjI allI impI)
    show "mem_ok rm'"
      by (rule ug(1) [OF mp(1)])
    have "vpn (kernel_page l) \<noteq> vpn ?g" if "l < 512" "l \<noteq> k" for l
      using vpn_add_inj [of KERNEL_SPACE_BOTTOM l k] that k unfolding kernel_page_def by auto
    then show "kernel_slots rm' (Suc k)"
      using ks k pager_frame_eqD [OF p'(4)] p'(3) ug(4) p'(4)
      by (auto simp: kernel_slots_def less_Suc_eq pager_frame_def)
    show "\<exists>p. rm' = update_region (rm\<lparr>rm_pager := p\<rparr>) a (set_guest_addr ?g (rm_store rm a)) \<and> pager_frame p = pager_frame ?p"
      using p'(4) rm'_def by blast
    show "tables_used (rm_pager rm') \<le> tables_used ?p + 3"
      using p'(6) tables_needed_le [of ?p KERNEL_SPACE_BOTTOM] ug(4) by simp
  qed (use mp p' ug(4) in simp_all)
  ultimately show ?thesis
    using that by blast
qed

section \<open>Words of a region\<close>

lemma read64_bytes:
  assumes "\<And>k. k < 8 \<Longrightarrow> m (p + of_nat k) = m' (p + of_nat k)"
  shows "read64 m p = read64 m' p"
proof (rule read64_cong)
  fix k :: u64 assume "k < 8"
  then have "unat k < 8"
    by (simp add: word_less_nat_alt)
  from assms [OF this] show "m (p + k) = m' (p + k)"
    by simp
qed

definition region_word :: "rmgr \<Rightarrow> rid \<Rightarrow> nat \<Rightarrow> u64" where
  "region_word rm a off = read64 (pg_mem (rm_pager rm)) (reg_host_p (rm_store rm a) + of_nat off)"

lemma region_word_outside:
  assumes inv: "mem_inv rm" and a: "a \<in> set (allocated_regions rm)" "\<not> pager_region rm a"
    and off: "off + 8 \<le> unat (reg_size (rm_store rm a))" and same: "outside_same (rm_pager rm) p"
  shows "read64 (pg_mem p) (reg_host_p (rm_store rm a) + of_nat off) = region_word rm a off"
  unfolding region_word_def
proof (rule read64_bytes)
  fix k :: nat assume k: "k < 8"
  have e: "reg_host_p (rm_store rm a) + of_nat off + of_nat k = reg_host_p (rm_store rm a) + of_nat (off + k)"
    by simp
  have "off + k < unat (reg_size (rm_store rm a))"
    using off k by simp
  then have b: "unat (reg_host_p (rm_store rm a) + of_nat (off + k)) \<in> region_block rm a"
    using region_byte(3) [OF _ a(1), of "off + k"] inv by (simp add: mem_inv_def del: of_nat_add)
  have w: "writes_within rm a (\<lambda>x. if unat x \<in> region_block rm a then pg_mem (rm_pager rm) x + 1 else pg_mem (rm_pager rm) x)"
    by (simp add: writes_within_def)
  have "\<not> unat (reg_host_p (rm_store rm a) + of_nat (off + k) - host_pml4_p (rm_pager rm)) < 0x1000000"
    using writes_within_tables [OF inv a w] b unfolding tables_same_def by fastforce
  then show "pg_mem p (reg_host_p (rm_store rm a) + of_nat off + of_nat k) = pg_mem (rm_pager rm) (reg_host_p (rm_store rm a) + of_nat off + of_nat k)"
    unfolding e using same by (simp add: outside_same_def)
qed

lemma cells_apart_off:
  assumes "x < 2 ^ 32" "y < 2 ^ 32" "x + 8 \<le> y \<or> y + 8 \<le> x"
  shows "cells_apart (b + of_nat x) (b + of_nat y :: u64)"
proof -
  have "b + of_nat x - (b + of_nat y) = of_nat x - (of_nat y :: u64)" "b + of_nat y - (b + of_nat x) = of_nat y - (of_nat x :: u64)"
    by simp_all
  then show ?thesis
    using assms unat_of_nat_diff [OF assms(1,2)] unat_of_nat_diff [OF assms(2,1)]
    by (auto simp: cells_apart_def word_le_nat_alt)
qed

lemma read64_write64_off:
  assumes "x < 2 ^ 32" "y < 2 ^ 32" "x = y \<or> x + 8 \<le> y \<or> y + 8 \<le> x"
  shows "read64 (write64 m (b + of_nat x) v) (b + of_nat y) = (if x = y then v else read64 m (b + of_nat y))"
  using assms read64_write64_apart [OF cells_apart_off [of x y b]] by auto

lemma write64_off_outside:
  assumes "x + 8 \<le> n" "n \<le> 2 ^ 32" "n \<le> unat (a - b)"
  shows "write64 m (b + of_nat x) v a = m a"
proof (rule write64_outside)
  have ux: "unat (of_nat x :: u64) = x"
    using assms by (intro unat_of_nat_small) simp
  have e: "a - (b + of_nat x) = (a - b) - of_nat x"
    by simp
  have "unat ((a - b) - of_nat x) = unat (a - b) - x"
    using assms ux by (subst unat_sub) (simp_all add: word_le_nat_alt)
  then show "8 \<le> a - (b + of_nat x)"
    unfolding e word_le_nat_alt using assms by simp
qed

section \<open>The interrupt descriptor table\<close>

lemma idt_loop_outside: "i \<le> 256 \<Longrightarrow> 16 * i \<le> unat (a - b) \<Longrightarrow> idt_loop i m b h a = m a"
proof (induction i)
  case (Suc i)
  have e: "b + of_nat (16 * i) + 8 = b + of_nat (16 * i + 8)"
    by simp
  show ?case
    unfolding idt_loop.simps write_idt_entry_def e
    using Suc write64_off_outside [of "16 * i + 8" "16 * Suc i" a b] write64_off_outside [of "16 * i" "16 * Suc i" a b] by simp
qed simp

lemma idt_loop_words:
  assumes "i \<le> 256" "j < i"
  shows "read64 (idt_loop i m b h) (b + of_nat (16 * j)) = fst (idt_words (make_idt_entry (h + of_nat (9 * j))))
    \<and> read64 (idt_loop i m b h) (b + of_nat (16 * j + 8)) = snd (idt_words (make_idt_entry (h + of_nat (9 * j))))"
  using assms
proof (induction i)
  case (Suc i)
  have e: "b + of_nat (16 * i) + 8 = b + of_nat (16 * i + 8)"
    by simp
  show ?case
  proof (cases "j = i")
    case True
    then show ?thesis
      unfolding idt_loop.simps write_idt_entry_def e using Suc.prems
      by (simp add: read64_write64_off del: of_nat_mult of_nat_add)
  next
    case False
    then show ?thesis
      unfolding idt_loop.simps write_idt_entry_def e using Suc
      by (simp add: read64_write64_off del: of_nat_mult of_nat_add)
  qed
qed simp

section \<open>A new region for a table\<close>

definition fresh_region :: "rmgr \<Rightarrow> u64 \<Rightarrow> rid \<Rightarrow> rmgr \<Rightarrow> bool" where
  "fresh_region rm sz a rm1 \<longleftrightarrow> mem_ok rm1 \<and> allocated rm sz a rm1 \<and> \<not> pager_region rm1 a
     \<and> pg_mem (rm_pager rm1) = pg_mem (rm_pager rm) \<and> host_pml4_p (rm_pager rm1) = host_pml4_p (rm_pager rm)
     \<and> guest_next_free (rm_pager rm1) = guest_next_free (rm_pager rm) \<and> pt_view (rm_pager rm1) = pt_view (rm_pager rm)
     \<and> tables_used (rm_pager rm1) = tables_used (rm_pager rm)
     \<and> (\<forall>b. host_of (rm_pager rm) b \<noteq> 0 \<longrightarrow> host_of (rm_pager rm1) b = host_of (rm_pager rm) b)"

lemma fresh_region_ok:
  assumes ok: "mem_ok rm" and am: "memalign_ok am" and r: "alloc_ready am ioctl rm sz" and sz: "0 < sz"
    and room: "unat (total_memsz (rm_pager rm)) + unat sz + 0x8000000 \<le> 2 ^ 52"
  obtains a rm1 where "allocate_region am ioctl rm sz purpose = Inr (a, rm1)" "fresh_region rm sz a rm1"
proof -
  have inv: "rm_inv rm" "mem_inv rm"
    using ok by (simp_all add: mem_ok_def mem_inv_def)
  obtain a rm1 where al: "allocate_region am ioctl rm sz purpose = Inr (a, rm1)"
    by (rule alloc_ready_total [OF inv(1) am sz room r])
  note ak = allocate_keeps_mem_ok [OF ok am sz room al]
  have np: "\<not> pager_region rm1 a"
    using new_not_pager_region [OF inv(2) ak(2) _ ak(5)] ak(1) by (simp add: mem_ok_def)
  have "guest_next_free p' = guest_next_free p" if mc: "more_chunks p p'" for p p'
  proof -
    obtain c where e: "p' = p\<lparr>total_memsz := total_memsz p', chunks := chunks p @ [c], free_slots := free_slots p'\<rparr>"
      using mc unfolding more_chunks_def by blast
    show ?thesis
      by (subst e) simp
  qed
  then have "guest_next_free (rm_pager rm1) = guest_next_free (rm_pager rm)"
    using allocate_region_pager [OF inv(1) am sz room al] by metis
  then show ?thesis
    using that [OF al] ak np unfolding fresh_region_def by blast
qed


lemma fresh_regionD:
  assumes "fresh_region rm sz a rm1"
  shows "mem_ok rm1" "a \<in> set (allocated_regions rm1)" "\<not> pager_region rm1 a" "reg_size (rm_store rm1 a) = pagesize_align sz"
    "pg_mem (rm_pager rm1) = pg_mem (rm_pager rm)" "tables_used (rm_pager rm1) = tables_used (rm_pager rm)"
    "\<And>x. x \<in> set (allocated_regions rm) \<Longrightarrow> x \<in> set (allocated_regions rm1) \<and> rm_store rm1 x = rm_store rm x \<and> x \<noteq> a"
    "kernel_slots rm k \<Longrightarrow> kernel_slots rm1 k"
    "\<And>b. host_of (rm_pager rm) b \<noteq> 0 \<Longrightarrow> host_of (rm_pager rm1) b = host_of (rm_pager rm) b"
  using assms by (auto simp: fresh_region_def allocated_def kernel_slots_def)

lemma kernel_slots_store_mem:
  assumes "mem_ok rm" "tables_same (rm_pager rm) m" "kernel_slots rm k"
  shows "kernel_slots (store_mem m rm) k"
  using assms(3) store_mem_ok(3) [OF assms(1,2)] by (simp add: kernel_slots_def)

lemma kernel_placedD:
  assumes "kernel_placed rm a k rm'"
  shows "mem_ok rm'" "kernel_slots rm' (Suc k)" "reg_addr (rm_store rm' a) = kernel_page k"
    "reg_host_p (rm_store rm' a) = reg_host_p (rm_store rm a)" "\<And>x. x \<noteq> a \<Longrightarrow> rm_store rm' x = rm_store rm x"
    "reg_size (rm_store rm' a) = reg_size (rm_store rm a)"
    "allocated_regions rm' = allocated_regions rm" "\<And>x. pager_region rm' x = pager_region rm x" "host_pml4_p (rm_pager rm') = host_pml4_p (rm_pager rm)"
    "\<And>off. off < 4096 \<Longrightarrow> host_of (rm_pager rm') (kernel_page k + of_nat off) = reg_host_p (rm_store rm a) + of_nat off"
    "\<And>b. host_of (rm_pager rm) b \<noteq> 0 \<Longrightarrow> host_of (rm_pager rm') b = host_of (rm_pager rm) b"
    "outside_same (rm_pager rm) (rm_pager rm')" "tables_used (rm_pager rm') \<le> tables_used (rm_pager rm) + 3"
proof -
  obtain p where p: "rm' = update_region (rm\<lparr>rm_pager := p\<rparr>) a (set_guest_addr (kernel_page k) (rm_store rm a))"
    "pager_frame p = pager_frame (rm_pager rm)"
    using assms unfolding kernel_placed_def by blast
  show "reg_addr (rm_store rm' a) = kernel_page k" "reg_size (rm_store rm' a) = reg_size (rm_store rm a)"
    "reg_host_p (rm_store rm' a) = reg_host_p (rm_store rm a)" "\<And>x. x \<noteq> a \<Longrightarrow> rm_store rm' x = rm_store rm x"
    "allocated_regions rm' = allocated_regions rm" "\<And>x. pager_region rm' x = pager_region rm x" "host_pml4_p (rm_pager rm') = host_pml4_p (rm_pager rm)"
    using pager_frame_eqD(1) [OF p(2)]
    by (simp_all add: p(1) update_region_def set_guest_addr_def pager_region_def)
qed (use assms in \<open>auto simp: kernel_placed_def\<close>)

section \<open>Setting up the interrupt descriptor table\<close>

definition idt_entry_at :: "rmgr \<Rightarrow> guestptr \<Rightarrow> nat \<Rightarrow> kvm_idt_entry" where
  "idt_entry_at rm t i =
     idt_of_words (read64 (pg_mem (rm_pager rm)) (host_of (rm_pager rm) (t + of_nat (16 * i))))
       (read64 (pg_mem (rm_pager rm)) (host_of (rm_pager rm) (t + of_nat (16 * i + 8))))"

lemma idt_loop_within:
  assumes inv: "rm_inv rm" and a: "a \<in> set (allocated_regions rm)" and n: "16 * i \<le> unat (reg_size (rm_store rm a))" "i \<le> 256"
  shows "writes_within rm a (idt_loop i (pg_mem (rm_pager rm)) (reg_host_p (rm_store rm a)) h)"
  unfolding writes_within_def
proof (intro allI impI)
  fix x assume "idt_loop i (pg_mem (rm_pager rm)) (reg_host_p (rm_store rm a)) h x \<noteq> pg_mem (rm_pager rm) x"
  then have "\<not> 16 * i \<le> unat (x - reg_host_p (rm_store rm a))"
    using idt_loop_outside [OF n(2)] by metis
  then have "unat (x - reg_host_p (rm_store rm a)) < unat (reg_size (rm_store rm a))"
    using n by simp
  from region_byte(3) [OF inv a this] show "unat x \<in> region_block rm a"
    by simp
qed

lemma region_word_kernel_placed:
  assumes k: "kernel_placed rm a k rm'" and ok: "mem_ok rm" and x: "x \<in> set (allocated_regions rm)" "\<not> pager_region rm x"
    and off: "off + 8 \<le> unat (reg_size (rm_store rm x))"
  shows "region_word rm' x off = region_word rm x off"
proof -
  have "reg_host_p (rm_store rm' x) = reg_host_p (rm_store rm x)"
    using kernel_placedD(4,5) [OF k] by (cases "x = a") auto
  then show ?thesis
    using region_word_outside [OF _ x off kernel_placedD(12) [OF k]] ok by (simp add: region_word_def mem_ok_def)
qed

lemma idt_setup_correct:
  assumes ok: "mem_ok rm" and am: "memalign_ok am" and r: "alloc_ready am ioctl rm 4096"
    and room: "unat (total_memsz (rm_pager rm)) + 4096 + 0x8000000 \<le> 2 ^ 52"
    and ks: "kernel_slots rm k" "k < 512" and tab: "tables_used (rm_pager rm) + 3 \<le> 4096"
    and h: "handler \<in> set (allocated_regions rm)"
  shows "\<exists>rm' err v'. elkvm_idt_setup ops am ioctl rm v handler = Some (Inr (err, rm', v')) \<and> mem_ok rm'
    \<and> kernel_slots rm' (Suc k) \<and> vcpu_get_seg v' IDT = Segment_of (kernel_page k) 0xFFF
    \<and> (\<forall>i<48. idt_entry_at rm' (kernel_page k) i = make_idt_entry (reg_addr (rm_store rm handler) + of_nat (9 * i)))
    \<and> (\<forall>b. host_of (rm_pager rm) b \<noteq> 0 \<longrightarrow> host_of (rm_pager rm') b = host_of (rm_pager rm) b)"
proof -
  obtain a rm1 where al: "allocate_region am ioctl rm (256 * 16) ''anon region'' = Inr (a, rm1)" and f: "fresh_region rm 4096 a rm1"
    using fresh_region_ok [OF ok am r _ , of "''anon region''"] room by auto
  note fr = fresh_regionD [OF f]
  define H where "H = reg_host_p (rm_store rm1 a)"
  define g where "g = reg_addr (rm_store rm handler)"
  define m where "m = idt_loop 48 (pg_mem (rm_pager rm1)) H g"
  have sz: "unat (reg_size (rm_store rm1 a)) = 4096"
    by (simp add: fr(4) pagesize_align_def ELKVM_PAGE_MASK_def ELKVM_PAGESIZE_def)
  have inv: "rm_inv rm1" "mem_inv rm1"
    using fr(1) by (simp_all add: mem_ok_def mem_inv_def)
  have ts: "tables_same (rm_pager rm1) m"
    unfolding m_def H_def by (rule writes_within_tables [OF inv(2) fr(2,3) idt_loop_within [OF inv(1) fr(2)]]) (simp_all add: sz)
  note sm = store_mem_ok [OF fr(1) ts]
  obtain rm' where pk: "place_kernel_page (store_mem m rm1) a 0 = Some (Inr rm')" and kp: "kernel_placed (store_mem m rm1) a k rm'"
    using kernel_page_ok [OF sm(1) _ _ kernel_slots_store_mem [OF fr(1) ts fr(8) [OF ks(1)]] ks(2), of a 0] fr(2,3,6) sm(4) tab by auto
  note kd = kernel_placedD [OF kp]
  obtain err v' where sv: "vcpu_set_sregs ops (vcpu_set_seg IDT (Segment_of (reg_addr (rm_store rm' a)) 0xFFF) v) = (err, v')"
    by fastforce
  have run: "elkvm_idt_setup ops am ioctl rm v handler = Some (Inr (err, rm', v'))"
    using al pk sv fr(7) [OF h] by (simp add: elkvm_idt_setup_def m_def H_def g_def Let_def)
  have seg: "vcpu_get_seg v' IDT = Segment_of (kernel_page k) 0xFFF"
    using sv kd(3) by (auto simp: vcpu_set_sregs_def lift_kvm_def set_sregs_def vcpu_get_seg_def vcpu_set_seg_def upd_kvm_def get_dtable_def set_dtable_def
        Segment_of_def split: sum.splits)
  have ent: "idt_entry_at rm' (kernel_page k) i = make_idt_entry (g + of_nat (9 * i))" if i: "i < 48" for i
  proof -
    have "read64 (pg_mem (rm_pager rm')) (host_of (rm_pager rm') (kernel_page k + of_nat off)) = read64 m (H + of_nat off)"
      if "off + 8 \<le> 4096" for off
      using region_word_kernel_placed [OF kp sm(1), of a off] that sz fr(2,3) kd(4,10)
      by (simp add: region_word_def H_def)
    then show ?thesis
      using idt_loop_words [of 48 i "pg_mem (rm_pager rm1)" H g] i
      by (simp add: idt_entry_at_def m_def idt_of_idt_words del: of_nat_add of_nat_mult)
  qed
  have "\<forall>b. host_of (rm_pager rm) b \<noteq> 0 \<longrightarrow> host_of (rm_pager rm') b = host_of (rm_pager rm) b"
    using fr(9) kd(11) sm(2) by simp
  then show ?thesis
    using run kd(1,2) seg ent g_def by blast
qed

end
