(* ===== verification/Vm.thy ===== *)
theory Vm
  imports Descriptor_Mem
begin

text \<open>
  The virtual machine of \<^verbatim>\<open>src/src/vm_internals.cc\<close>, its signals (\<^verbatim>\<open>src/src/signal.cc\<close>) and interrupts
  (\<^verbatim>\<open>src/src/interrupt.cc\<close>).  The state is one record: the region manager is shared by the heap manager and the CPUs and is
  held in the heap.  Host memory is the memory of the pager; \<open>vm_errno\<close> is \<^verbatim>\<open>errno\<close> and \<open>vm_world\<close> is
  the state of the host system that system calls change.
\<close>

section \<open>State\<close>

record flat =
  flat_region :: "rid option"
  flat_size :: u64

type_synonym rlimit = "u64 \<times> u64"
type_synonym sigaction = "u8 list"

record ('k, 'w) vm =
  vm_cpus :: "'k vcpu list"
  vm_debug :: bool
  vm_gdt :: "rid option"
  vm_heap :: heap
  vm_fd :: int
  vm_argc :: int
  vm_argv :: hostptr
  vm_environ :: hostptr
  vm_run_struct_size :: int
  vm_rlimits :: "rlimit list"
  vm_sigs :: "sigaction list"
  vm_cleanup :: flat
  pending_signals :: "int list"
  num_pending_signals :: int
  vm_errno :: int
  vm_world :: 'w

text \<open>The host: aligned allocation and the memory slots of the virtual machine, the interface to a virtual CPU, files and
  \<^verbatim>\<open>sigaction\<close>.\<close>

record ('k, 'w) host =
  host_memalign :: memalign
  host_set_region :: kvm_set_region
  host_kvm :: "'k kvm_ops"
  host_fs :: host_files
  host_sigaction :: "int \<Rightarrow> 'w \<Rightarrow> int \<times> 'w"

section \<open>Operations on the state\<close>

text \<open>An operation may fail or run forever.\<close>

type_synonym ('s, 'a) op = "'s \<Rightarrow> ('a \<times> 's) res option"

definition retS :: "'a \<Rightarrow> ('s, 'a) op" where
  "retS a s = Some (Inr (a, s))"

definition bindS :: "('s, 'a) op \<Rightarrow> ('a \<Rightarrow> ('s, 'b) op) \<Rightarrow> ('s, 'b) op" where
  "bindS f g s = bindO (f s) (\<lambda>(a, s1). g a s1)"

definition failS :: "failure \<Rightarrow> ('s, 'a) op" where
  "failS e s = Some (Inl e)"

definition assertS :: "bool \<Rightarrow> ('s, unit) op" where
  "assertS b = (if b then retS () else failS Abort)"

definition liftS :: "'a res \<Rightarrow> ('s, 'a) op" where
  "liftS r s = Some (bindE r (\<lambda>a. Inr (a, s)))"

definition getS :: "('s \<Rightarrow> 'a) \<Rightarrow> ('s, 'a) op" where
  "getS f s = Some (Inr (f s, s))"

definition modS :: "('s \<Rightarrow> 's) \<Rightarrow> ('s, unit) op" where
  "modS f s = Some (Inr ((), f s))"

lemma op_simps [simp]:
  "bindS (retS a) g s = g a s" "bindS (failS e) g s = Some (Inl e)"
  "bindS (liftS (Inr a)) g s = g a s" "bindS (liftS (Inl e)) g s = Some (Inl e)"
  "bindS (getS f) g s = g (f s) s" "bindS (modS u) h s = h () (u s)"
  "bindS (assertS True) h s = h () s" "bindS (assertS False) h s = Some (Inl Abort)"
  by (simp_all add: bindS_def retS_def failS_def liftS_def getS_def modS_def assertS_def)

lemma bindS_assoc: "bindS (bindS f g) h = bindS f (\<lambda>a. bindS (g a) h)"
proof
  show "bindS (bindS f g) h s = bindS f (\<lambda>a. bindS (g a) h) s" for s
    by (simp add: bindS_def bindO_def split: option.split sum.split prod.split)
qed

lemma bindS_eq: "f s = Some (Inr (a, s1)) \<Longrightarrow> bindS f g s = g a s1"
  by (simp add: bindS_def)

lemma bindS_eq_Inl: "f s = Some (Inl e) \<Longrightarrow> bindS f g s = Some (Inl e)"
  by (simp add: bindS_def)

section \<open>Components of the machine\<close>

definition vm_rm :: "('k, 'w) vm \<Rightarrow> rmgr" where
  "vm_rm vm = heap_rm (vm_heap vm)"

definition set_vm_rm :: "rmgr \<Rightarrow> ('k, 'w) vm \<Rightarrow> ('k, 'w) vm" where
  "set_vm_rm rm vm = vm\<lparr>vm_heap := set_rm rm (vm_heap vm)\<rparr>"

definition vm_mem :: "('k, 'w) vm \<Rightarrow> memory" where
  "vm_mem vm = pg_mem (rm_pager (vm_rm vm))"

definition set_vm_mem :: "memory \<Rightarrow> ('k, 'w) vm \<Rightarrow> ('k, 'w) vm" where
  "set_vm_mem m vm = set_vm_rm (store_mem m (vm_rm vm)) vm"

text \<open>\<^verbatim>\<open>cpus.at\<close> throws when there is no such CPU.\<close>

definition get_vcpu :: "nat \<Rightarrow> ('k, 'w) vm \<Rightarrow> 'k vcpu res" where
  "get_vcpu i vm = (if i < length (vm_cpus vm) then Inr (vm_cpus vm ! i) else Inl (Throw 0))"

definition put_vcpu :: "nat \<Rightarrow> 'k vcpu \<Rightarrow> ('k, 'w) vm \<Rightarrow> ('k, 'w) vm" where
  "put_vcpu i v vm = vm\<lparr>vm_cpus := (vm_cpus vm)[i := v]\<rparr>"

definition vcpuS :: "nat \<Rightarrow> (('k, 'w) vm, 'k vcpu) op" where
  "vcpuS i vm = Some (bindE (get_vcpu i vm) (\<lambda>v. Inr (v, vm)))"

definition host_p :: "guestptr \<Rightarrow> (('k, 'w) vm, hostptr) op" where
  "host_p gv vm = Some (bindE (translate (vm_rm vm) gv) (\<lambda>(h, rm). Inr (h, set_vm_rm rm vm)))"

definition vm_push :: "('k, 'w) host \<Rightarrow> nat \<Rightarrow> u64 \<Rightarrow> (('k, 'w) vm, unit) op" where
  "vm_push host i val vm =
     Some (bindE (get_vcpu i vm) (\<lambda>v.
     bindE (push (host_memalign host) (host_set_region host) (vm_rm vm) v val) (\<lambda>(rm, v1).
     Inr ((), put_vcpu i v1 (set_vm_rm rm vm)))))"

definition vm_pop :: "nat \<Rightarrow> (('k, 'w) vm, u64) op" where
  "vm_pop i vm =
     Some (bindE (get_vcpu i vm) (\<lambda>v.
     bindE (pop (vm_rm vm) v) (\<lambda>(val, rm, v1).
     Inr (val, put_vcpu i v1 (set_vm_rm rm vm)))))"

definition vm_set_reg :: "nat \<Rightarrow> Reg_t \<Rightarrow> u64 \<Rightarrow> (('k, 'w) vm, unit) op" where
  "vm_set_reg i r val vm = Some (bindE (get_vcpu i vm) (\<lambda>v. Inr ((), put_vcpu i (vcpu_set_reg r val v) vm)))"

definition vm_get_reg :: "nat \<Rightarrow> Reg_t \<Rightarrow> (('k, 'w) vm, u64) op" where
  "vm_get_reg i r vm = Some (bindE (get_vcpu i vm) (\<lambda>v. Inr (vcpu_get_reg v r, vm)))"

definition vm_get_sregs :: "('k, 'w) host \<Rightarrow> nat \<Rightarrow> (('k, 'w) vm, int) op" where
  "vm_get_sregs host i vm =
     Some (bindE (get_vcpu i vm) (\<lambda>v. let (err, v1) = vcpu_get_sregs (host_kvm host) v in Inr (err, put_vcpu i v1 vm)))"

definition vm_set_sregs :: "('k, 'w) host \<Rightarrow> nat \<Rightarrow> (('k, 'w) vm, int) op" where
  "vm_set_sregs host i vm =
     Some (bindE (get_vcpu i vm) (\<lambda>v. let (err, v1) = vcpu_set_sregs (host_kvm host) v in Inr (err, put_vcpu i v1 vm)))"

definition vm_address_mapped :: "('k, 'w) vm \<Rightarrow> guestptr \<Rightarrow> bool" where
  "vm_address_mapped vm a = address_mapped (vm_heap vm) a"

definition vm_find_mapping :: "('k, 'w) vm \<Rightarrow> guestptr \<Rightarrow> mref res" where
  "vm_find_mapping vm a =
     bindE (heap_contains_address (vm_heap vm) a) (\<lambda>b. if b then heap_find_mapping (vm_heap vm) a else Inl Abort)"

definition vm_eq :: "('k, 'w) vm \<Rightarrow> ('k, 'w) vm \<Rightarrow> bool" where
  "vm_eq lhs rhs \<longleftrightarrow> vm_fd lhs = vm_fd rhs"

definition get_hypercall_type :: "nat \<Rightarrow> (('k, 'w) vm, u32) op" where
  "get_hypercall_type i = bindS (vm_pop i) (\<lambda>x. retS (ucast x))"

definition elkvm_emulate_vmcall :: "nat \<Rightarrow> (('k, 'w) vm, unit) op" where
  "elkvm_emulate_vmcall i = bindS (vm_get_reg i RIP) (\<lambda>rip. vm_set_reg i RIP (rip + 3))"

section \<open>Resource limits and memory slots\<close>

definition RLIMIT_NLIMITS :: int where "RLIMIT_NLIMITS = 16"

text \<open>The constructor reads every limit of the host; a limit that cannot be read fails an assertion.\<close>

definition new_rlimits :: "(int \<Rightarrow> int \<times> rlimit) \<Rightarrow> rlimit list res" where
  "new_rlimits getrlimit =
     (let rs = map getrlimit [0..RLIMIT_NLIMITS - 1]
      in bindE (assertE (list_all (\<lambda>r. fst r = 0) rs)) (\<lambda>_. Inr (map snd rs)))"

definition get_rlimit :: "int \<Rightarrow> ('k, 'w) vm \<Rightarrow> rlimit res" where
  "get_rlimit i vm = bindE (assertE (0 \<le> i \<and> i < RLIMIT_NLIMITS)) (\<lambda>_. Inr (vm_rlimits vm ! nat i))"

definition set_rlimit :: "int \<Rightarrow> rlimit \<Rightarrow> ('k, 'w) vm \<Rightarrow> ('k, 'w) vm res" where
  "set_rlimit i rlim vm =
     bindE (assertE (0 \<le> i \<and> i < RLIMIT_NLIMITS)) (\<lambda>_. Inr (vm\<lparr>vm_rlimits := (vm_rlimits vm)[nat i := rlim]\<rparr>))"

text \<open>\<^verbatim>\<open>chunk_remap\<close>: the slot is deleted, the old block is freed and a new block takes its place.\<close>

definition chunk_remap :: "('k, 'w) host \<Rightarrow> nat \<Rightarrow> u64 \<Rightarrow> (('k, 'w) vm, int) op" where
  "chunk_remap host num newsize vm =
     (let p = rm_pager (vm_rm vm); cs = chunks p in
      if \<not> num < length cs then Some (Inl (Throw 0))
      else
        let c0 = (cs ! num)\<lparr>memory_size := 0\<rparr> in
        if host_set_region host c0 \<noteq> 0 then Some (Inl Abort)
        else case host_memalign host (cs[num := c0]) newsize of
            Inl err \<Rightarrow> Some (Inl Abort)
          | Inr h \<Rightarrow>
              let c1 = c0\<lparr>memory_size := newsize, userspace_addr := h\<rparr> in
              if host_set_region host c1 \<noteq> 0 then Some (Inl Abort)
              else Some (Inr (0, set_vm_rm ((vm_rm vm)\<lparr>rm_pager := p\<lparr>chunks := cs[num := c1]\<rparr>\<rparr>) vm)))"

end
