(* ===== verification/Signals.thy ===== *)
theory Signals
  imports Vm
begin

text \<open>
  Signals (\<^verbatim>\<open>src/src/signal.cc\<close>) and interrupts (\<^verbatim>\<open>src/src/interrupt.cc\<close>).  A \<^verbatim>\<open>struct sigaction\<close> is its 152 bytes, the handler
  in the first eight.
\<close>

section \<open>Signals\<close>

definition NSIG :: int where "NSIG = 65"
definition SIGRTMIN :: int where "SIGRTMIN = 34"
definition sizeof_sigaction :: nat where "sizeof_sigaction = 152"

text \<open>The handler of the host stores the signal in an array of 32 without a check.\<close>

definition elkvm_signal_handler :: "int \<Rightarrow> ('k, 'w) vm \<Rightarrow> ('k, 'w) vm res" where
  "elkvm_signal_handler signum vm =
     (if \<not> (0 \<le> num_pending_signals vm \<and> nat (num_pending_signals vm) < length (pending_signals vm)) then Inl Fault
      else Inr (vm\<lparr>pending_signals := (pending_signals vm)[nat (num_pending_signals vm) := signum],
                   num_pending_signals := num_pending_signals vm + 1\<rparr>))"

text \<open>The array of actions has one entry per signal number; a number outside is undefined behaviour.\<close>

definition get_sig :: "int \<Rightarrow> ('k, 'w) vm \<Rightarrow> sigaction res" where
  "get_sig s vm = (if 0 \<le> s \<and> nat s < length (vm_sigs vm) then Inr (vm_sigs vm ! nat s) else Inl Fault)"

definition adjust_signum :: "int \<Rightarrow> int" where
  "adjust_signum s = (if 32 \<le> s \<and> s \<le> 64 then s mod 32 + SIGRTMIN else s)"

definition save_oldact :: "int \<Rightarrow> hostptr \<Rightarrow> (('k, 'w) vm, unit) op" where
  "save_oldact s oldact =
     (if oldact \<noteq> 0
      then bindS (getS (get_sig s)) (\<lambda>r. bindS (liftS r) (\<lambda>sa. modS (\<lambda>vm. set_vm_mem (write_bytes (vm_mem vm) oldact sa) vm)))
      else retS ())"

definition install_act :: "('k, 'w) host \<Rightarrow> int \<Rightarrow> hostptr \<Rightarrow> (('k, 'w) vm, unit) op" where
  "install_act host s act =
     (if act \<noteq> 0
      then bindS (getS (get_sig s)) (\<lambda>r. bindS (liftS r) (\<lambda>_.
           bindS (modS (\<lambda>vm. vm\<lparr>vm_sigs := (vm_sigs vm)[nat s := read_bytes (vm_mem vm) act sizeof_sigaction]\<rparr>)) (\<lambda>_.
           bindS (getS (\<lambda>vm. host_sigaction host s (vm_world vm))) (\<lambda>(err, w).
           bindS (modS (\<lambda>vm. vm\<lparr>vm_world := w\<rparr>)) (\<lambda>_.
           assertS (err = 0))))))
      else retS ())"

definition signal_register :: "('k, 'w) host \<Rightarrow> int \<Rightarrow> hostptr \<Rightarrow> hostptr \<Rightarrow> (('k, 'w) vm, int) op" where
  "signal_register host signum act oldact =
     bindS (assertS (signum < NSIG)) (\<lambda>_.
     let s = adjust_signum signum in
     bindS (save_oldact s oldact) (\<lambda>_.
     bindS (install_act host s act) (\<lambda>_.
     retS 0)))"

definition sa_handler :: "sigaction \<Rightarrow> u64" where
  "sa_handler sa = read64 (write_bytes (\<lambda>_. 0) 0 sa) 0"

definition cleanup_address :: "('k, 'w) vm \<Rightarrow> guestptr res" where
  "cleanup_address vm =
     (case flat_region (vm_cleanup vm) of None \<Rightarrow> Inl Fault | Some a \<Rightarrow> Inr (reg_addr (rm_store (vm_rm vm) a)))"

text \<open>The last signal caught is delivered first.  The frame holds the old \<^verbatim>\<open>rax\<close>, the address of the clean-up code and on top
  the handler, to which the return from the hypercall jumps.\<close>

definition signal_deliver :: "('k, 'w) host \<Rightarrow> (('k, 'w) vm, int) op" where
  "signal_deliver host =
     bindS (getS num_pending_signals) (\<lambda>n.
     if n \<le> 0 then retS 0
     else
       bindS (vcpuS 0) (\<lambda>_.
       bindS (modS (\<lambda>vm. vm\<lparr>num_pending_signals := n - 1\<rparr>)) (\<lambda>_.
       bindS (getS (\<lambda>vm. if nat (n - 1) < length (pending_signals vm) then Inr (pending_signals vm ! nat (n - 1)) else Inl Fault)) (\<lambda>r.
       bindS (liftS r) (\<lambda>signum.
       bindS (vm_get_reg 0 RAX) (\<lambda>rax.
       bindS (vm_push host 0 rax) (\<lambda>_.
       bindS (getS cleanup_address) (\<lambda>r.
       bindS (liftS r) (\<lambda>c.
       bindS (vm_push host 0 c) (\<lambda>_.
       bindS (getS (get_sig signum)) (\<lambda>r.
       bindS (liftS r) (\<lambda>sa.
       bindS (vm_push host 0 (sa_handler sa)) (\<lambda>_.
       bindS (vm_set_reg 0 RDI (of_int signum)) (\<lambda>_.
       retS 0))))))))))))))"

section \<open>Interrupts\<close>

definition success :: int where "success = 0"
definition failure :: int where "failure = 1"
definition debug_trap :: u64 where "debug_trap = 0x01"
definition stack_segment_fault :: u64 where "stack_segment_fault = 0x0c"
definition general_protection_fault :: u64 where "general_protection_fault = 0x0d"
definition page_fault :: u64 where "page_fault = 0x0e"

definition handle_stack_segment_fault :: "u64 \<Rightarrow> int" where "handle_stack_segment_fault code = failure"
definition handle_general_protection_fault :: "u64 \<Rightarrow> int" where "handle_general_protection_fault code = failure"

definition handle_debug_trap :: "('k, 'w) host \<Rightarrow> nat \<Rightarrow> u64 \<Rightarrow> (('k, 'w) vm, int) op" where
  "handle_debug_trap host i code = bindS (vm_push host i code) (\<lambda>_. retS success)"

definition handle_segfault :: "guestptr \<Rightarrow> int res" where
  "handle_segfault pfla = (if pfla \<le> 0x1000 then Inl (Exit 1) else Inr failure)"

definition vm_handle_stack_expansion :: "('k, 'w) host \<Rightarrow> nat \<Rightarrow> (('k, 'w) vm, int) op" where
  "vm_handle_stack_expansion host i vm =
     Some (bindE (get_vcpu i vm) (\<lambda>v.
     bindE (handle_stack_expansion (host_memalign host) (host_set_region host) (vm_rm vm) v) (\<lambda>(r, rm, v1).
     Inr (r, put_vcpu i v1 (set_vm_rm rm vm)))))"

definition handle_page_fault :: "('k, 'w) host \<Rightarrow> nat \<Rightarrow> u64 \<Rightarrow> (('k, 'w) vm, int) op" where
  "handle_page_fault host i code =
     bindS (vm_get_sregs host i) (\<lambda>err.
     bindS (assertS (err = 0)) (\<lambda>_.
     bindS (vm_get_reg i CR2) (\<lambda>pfla.
     bindS (liftS (handle_segfault pfla)) (\<lambda>_.
     bindS (vm_handle_stack_expansion host i) (\<lambda>r.
     if r \<noteq> 0 then retS success
     else bindS (host_p pfla) (\<lambda>_. retS failure))))))"

text \<open>In debug mode the special registers are read and the word above the stack pointer must be mapped; the printing itself is
  left out.\<close>

definition debug_interrupt :: "('k, 'w) host \<Rightarrow> nat \<Rightarrow> (('k, 'w) vm, unit) op" where
  "debug_interrupt host i =
     bindS (vm_get_sregs host i) (\<lambda>_.
     bindS (vm_get_reg i RSP) (\<lambda>stack_p.
     bindS (host_p stack_p) (\<lambda>h.
     assertS (h \<noteq> 0))))"

definition handle_interrupt :: "('k, 'w) host \<Rightarrow> nat \<Rightarrow> (('k, 'w) vm, int) op" where
  "handle_interrupt host i =
     bindS (vm_pop i) (\<lambda>interrupt_vector.
     bindS (getS vm_debug) (\<lambda>dbg.
     bindS (if dbg then debug_interrupt host i else retS ()) (\<lambda>_.
     bindS (vm_pop i) (\<lambda>err_code.
     if interrupt_vector = debug_trap then handle_debug_trap host i err_code
     else if interrupt_vector = stack_segment_fault then retS (handle_stack_segment_fault err_code)
     else if interrupt_vector = general_protection_fault then retS (handle_general_protection_fault err_code)
     else if interrupt_vector = page_fault then handle_page_fault host i err_code
     else retS failure))))"

end
