(* ===== verification/Syscall_Abi.thy ===== *)
theory Syscall_Abi
  imports Signals
begin

text \<open>
  The interface of system calls: parameters and result in registers (\<^verbatim>\<open>X86_64_ABI\<close> of \<^verbatim>\<open>src/src/syscall.cc\<close>), and the
  handlers a monitor supplies (\<^verbatim>\<open>elkvm_handlers\<close> of \<^verbatim>\<open>src/include/elkvm/elkvm.h\<close>).  A handler is code of the monitor or of
  the host: it takes its C arguments and acts on host memory, \<^verbatim>\<open>errno\<close> and the state of the host.  A null pointer is
  \<open>None\<close>.  Debug output is left out.
\<close>

section \<open>Parameters\<close>

definition get_parameter :: "'k vcpu \<Rightarrow> nat \<Rightarrow> u64 res" where
  "get_parameter v pos =
     bindE (assertE (pos \<le> 6)) (\<lambda>_.
     Inr (if pos = 0 then vcpu_get_reg v RAX
          else if pos = 1 then vcpu_get_reg v RDI
          else if pos = 2 then vcpu_get_reg v RSI
          else if pos = 3 then vcpu_get_reg v RDX
          else if pos = 4 then vcpu_get_reg v R10
          else if pos = 5 then vcpu_get_reg v R8
          else vcpu_get_reg v R9))"

definition set_syscall_return :: "nat \<Rightarrow> u64 \<Rightarrow> (('k, 'w) vm, unit) op" where
  "set_syscall_return i val = vm_set_reg i RAX val"

definition param :: "nat \<Rightarrow> (('k, 'w) vm, u64) op" where
  "param pos = bindS (vcpuS 0) (\<lambda>v. liftS (get_parameter v pos))"

definition unpack_syscall1 :: "(('k, 'w) vm, u64) op" where
  "unpack_syscall1 = param 1"

definition unpack_syscall2 :: "(('k, 'w) vm, u64 \<times> u64) op" where
  "unpack_syscall2 = bindS (param 1) (\<lambda>a. bindS (param 2) (\<lambda>b. retS (a, b)))"

definition unpack_syscall3 :: "(('k, 'w) vm, u64 \<times> u64 \<times> u64) op" where
  "unpack_syscall3 = bindS (param 1) (\<lambda>a. bindS (param 2) (\<lambda>b. bindS (param 3) (\<lambda>c. retS (a, b, c))))"

definition unpack_syscall4 :: "(('k, 'w) vm, u64 \<times> u64 \<times> u64 \<times> u64) op" where
  "unpack_syscall4 =
     bindS (param 1) (\<lambda>a. bindS (param 2) (\<lambda>b. bindS (param 3) (\<lambda>c. bindS (param 4) (\<lambda>d. retS (a, b, c, d)))))"

definition unpack_syscall5 :: "(('k, 'w) vm, u64 \<times> u64 \<times> u64 \<times> u64 \<times> u64) op" where
  "unpack_syscall5 =
     bindS (param 1) (\<lambda>a. bindS (param 2) (\<lambda>b. bindS (param 3) (\<lambda>c. bindS (param 4) (\<lambda>d. bindS (param 5) (\<lambda>e.
     retS (a, b, c, d, e))))))"

definition unpack_syscall6 :: "(('k, 'w) vm, u64 \<times> u64 \<times> u64 \<times> u64 \<times> u64 \<times> u64) op" where
  "unpack_syscall6 =
     bindS (param 1) (\<lambda>a. bindS (param 2) (\<lambda>b. bindS (param 3) (\<lambda>c. bindS (param 4) (\<lambda>d. bindS (param 5) (\<lambda>e.
     bindS (param 6) (\<lambda>f. retS (a, b, c, d, e, f)))))))"

section \<open>Handlers\<close>

type_synonym 'w env = "memory \<times> int \<times> 'w"

datatype (plugins only: size) ('w, 'r) hcall = HCall (run_hcall: "'w env \<Rightarrow> ('r \<times> 'w env) res")

text \<open>The fields of \<^verbatim>\<open>elkvm_handlers\<close>, in groups.\<close>

record 'w file_handlers =
  h_read :: "(u32 \<Rightarrow> hostptr \<Rightarrow> u64 \<Rightarrow> ('w, u64) hcall) option"
  h_write :: "(u32 \<Rightarrow> hostptr \<Rightarrow> u64 \<Rightarrow> ('w, u64) hcall) option"
  h_open :: "(hostptr \<Rightarrow> u32 \<Rightarrow> u32 \<Rightarrow> ('w, u64) hcall) option"
  h_close :: "(u32 \<Rightarrow> ('w, u64) hcall) option"
  h_stat :: "(hostptr \<Rightarrow> hostptr \<Rightarrow> ('w, u64) hcall) option"
  h_fstat :: "(u32 \<Rightarrow> hostptr \<Rightarrow> ('w, u64) hcall) option"
  h_lstat :: "(hostptr \<Rightarrow> hostptr \<Rightarrow> ('w, u64) hcall) option"
  h_poll :: "(hostptr \<Rightarrow> u64 \<Rightarrow> u32 \<Rightarrow> ('w, u64) hcall) option"
  h_lseek :: "(u32 \<Rightarrow> u64 \<Rightarrow> u32 \<Rightarrow> ('w, u64) hcall) option"
  h_ioctl :: "(u32 \<Rightarrow> u64 \<Rightarrow> hostptr \<Rightarrow> ('w, u64) hcall) option"
  h_readv :: "(u32 \<Rightarrow> (hostptr \<times> u64) list \<Rightarrow> u32 \<Rightarrow> ('w, u64) hcall) option"
  h_writev :: "(u32 \<Rightarrow> (hostptr \<times> u64) list \<Rightarrow> u32 \<Rightarrow> ('w, u64) hcall) option"
  h_access :: "(hostptr \<Rightarrow> u32 \<Rightarrow> ('w, u64) hcall) option"
  h_pipe :: "(hostptr \<Rightarrow> ('w, u64) hcall) option"
  h_dup :: "(u32 \<Rightarrow> ('w, u64) hcall) option"
  h_fcntl :: "(u32 \<Rightarrow> u32 \<Rightarrow> u64 \<Rightarrow> ('w, u64) hcall) option"

record 'w dir_handlers =
  h_truncate :: "(hostptr \<Rightarrow> u64 \<Rightarrow> ('w, u64) hcall) option"
  h_ftruncate :: "(u32 \<Rightarrow> u64 \<Rightarrow> ('w, u64) hcall) option"
  h_getdents :: "(u32 \<Rightarrow> hostptr \<Rightarrow> u32 \<Rightarrow> ('w, u32) hcall) option"
  h_getcwd :: "(hostptr \<Rightarrow> u64 \<Rightarrow> ('w, hostptr) hcall) option"
  h_chdir :: "(hostptr \<Rightarrow> ('w, u32) hcall) option"
  h_fchdir :: "(u32 \<Rightarrow> ('w, u32) hcall) option"
  h_mkdir :: "(hostptr \<Rightarrow> u32 \<Rightarrow> ('w, u64) hcall) option"
  h_unlink :: "(hostptr \<Rightarrow> ('w, u64) hcall) option"
  h_readlink :: "(hostptr \<Rightarrow> hostptr \<Rightarrow> u64 \<Rightarrow> ('w, u64) hcall) option"
  h_statfs :: "(hostptr \<Rightarrow> hostptr \<Rightarrow> ('w, u64) hcall) option"
  h_fstatfs :: "(u32 \<Rightarrow> hostptr \<Rightarrow> ('w, u32) hcall) option"
  h_openat :: "(u32 \<Rightarrow> hostptr \<Rightarrow> u32 \<Rightarrow> ('w, u32) hcall) option"

record 'w mem_handlers =
  h_mmap_before :: "(c_mapping \<Rightarrow> ('w, u64 \<times> c_mapping) hcall) option"
  h_mmap_after :: "(c_mapping \<Rightarrow> ('w, u64 \<times> c_mapping) hcall) option"
  h_mprotect :: "(hostptr \<Rightarrow> u64 \<Rightarrow> u32 \<Rightarrow> ('w, u64) hcall) option"
  h_munmap :: "(c_mapping \<Rightarrow> ('w, u64) hcall) option"

record 'w proc_handlers =
  h_sigaction :: "(u32 \<Rightarrow> hostptr \<Rightarrow> hostptr \<Rightarrow> ('w, u64) hcall) option"
  h_sigprocmask :: "(u32 \<Rightarrow> hostptr \<Rightarrow> hostptr \<Rightarrow> ('w, u64) hcall) option"
  h_getpid :: "('w, u64) hcall option"
  h_getuid :: "('w, u64) hcall option"
  h_getgid :: "('w, u64) hcall option"
  h_geteuid :: "('w, u64) hcall option"
  h_getegid :: "('w, u64) hcall option"
  h_uname :: "(hostptr \<Rightarrow> ('w, u64) hcall) option"
  h_setrlimit :: "(u32 \<Rightarrow> hostptr \<Rightarrow> ('w, u64) hcall) option"
  h_gettid :: "('w, u64) hcall option"
  h_futex :: "(hostptr \<Rightarrow> u32 \<Rightarrow> u32 \<Rightarrow> hostptr \<Rightarrow> hostptr \<Rightarrow> u32 \<Rightarrow> ('w, u64) hcall) option"
  h_set_tid_address :: "(hostptr \<Rightarrow> ('w, u64) hcall) option"
  h_exit_group :: "(u32 \<Rightarrow> ('w, unit) hcall) option"
  h_tgkill :: "(u32 \<Rightarrow> u32 \<Rightarrow> u32 \<Rightarrow> ('w, u64) hcall) option"
  h_set_robust_list :: "(hostptr \<Rightarrow> u64 \<Rightarrow> ('w, u64) hcall) option"

record 'w time_handlers =
  h_nanosleep :: "(hostptr \<Rightarrow> hostptr \<Rightarrow> ('w, u64) hcall) option"
  h_gettimeofday :: "(hostptr \<Rightarrow> hostptr \<Rightarrow> ('w, u64) hcall) option"
  h_getrusage :: "(u32 \<Rightarrow> hostptr \<Rightarrow> ('w, u64) hcall) option"
  h_times :: "(hostptr \<Rightarrow> ('w, u64) hcall) option"
  h_time :: "(hostptr \<Rightarrow> ('w, u64) hcall) option"
  h_clock_gettime :: "(u32 \<Rightarrow> hostptr \<Rightarrow> ('w, u64) hcall) option"
  h_clock_getres :: "(u32 \<Rightarrow> hostptr \<Rightarrow> ('w, u32) hcall) option"

record 'w net_handlers =
  h_socket :: "(u32 \<Rightarrow> u32 \<Rightarrow> u32 \<Rightarrow> ('w, u64) hcall) option"
  h_accept :: "(u32 \<Rightarrow> hostptr \<Rightarrow> hostptr \<Rightarrow> ('w, u64) hcall) option"
  h_bind :: "(u32 \<Rightarrow> hostptr \<Rightarrow> u32 \<Rightarrow> ('w, u64) hcall) option"
  h_listen :: "(u32 \<Rightarrow> u32 \<Rightarrow> ('w, u64) hcall) option"
  h_getsockname :: "(u32 \<Rightarrow> hostptr \<Rightarrow> hostptr \<Rightarrow> ('w, u64) hcall) option"
  h_setsockopt :: "(u32 \<Rightarrow> u32 \<Rightarrow> u32 \<Rightarrow> hostptr \<Rightarrow> u32 \<Rightarrow> ('w, u64) hcall) option"
  h_epoll_create :: "(u32 \<Rightarrow> ('w, u64) hcall) option"
  h_epoll_ctl :: "(u32 \<Rightarrow> u32 \<Rightarrow> u32 \<Rightarrow> hostptr \<Rightarrow> ('w, u64) hcall) option"
  h_epoll_wait :: "(u32 \<Rightarrow> hostptr \<Rightarrow> u32 \<Rightarrow> u32 \<Rightarrow> ('w, u64) hcall) option"

record 'w handlers =
  h_file :: "'w file_handlers"
  h_dir :: "'w dir_handlers"
  h_mem :: "'w mem_handlers"
  h_proc :: "'w proc_handlers"
  h_clock :: "'w time_handlers"
  h_net :: "'w net_handlers"

section \<open>Calling a handler\<close>

definition call :: "('w, 'r) hcall \<Rightarrow> (('k, 'w) vm, 'r) op" where
  "call f vm =
     Some (bindE (run_hcall f (vm_mem vm, vm_errno vm, vm_world vm)) (\<lambda>(r, m, e, w).
     Inr (r, (set_vm_mem m vm)\<lparr>vm_errno := e, vm_world := w\<rparr>)))"

text \<open>A system call with a test for a missing handler, and one that jumps through the null pointer.\<close>

definition need :: "'a option \<Rightarrow> ('a \<Rightarrow> ('s, u64) op) \<Rightarrow> ('s, u64) op" where
  "need h f = (case h of None \<Rightarrow> retS (of_int (- ENOSYS)) | Some g \<Rightarrow> f g)"

definition must :: "'a option \<Rightarrow> ('a \<Rightarrow> ('s, u64) op) \<Rightarrow> ('s, u64) op" where
  "must h f = (case h of None \<Rightarrow> failS Fault | Some g \<Rightarrow> f g)"

definition ret_errno :: "(('k, 'w) vm, u64) op" where
  "ret_errno = bindS (getS vm_errno) (\<lambda>e. retS (of_int (- e)))"

definition host_p_or_null :: "guestptr \<Rightarrow> (('k, 'w) vm, hostptr) op" where
  "host_p_or_null p = (if p \<noteq> 0 then host_p p else retS 0)"

end
