(* ===== verification/Syscalls.thy ===== *)
theory Syscalls
  imports Syscall_Abi
begin

text \<open>
  The system calls of \<^verbatim>\<open>src/src/syscall.cc\<close> and the files \<^verbatim>\<open>src/src/syscalls-*.cc\<close>: each unpacks its parameters, translates
  the pointers among them to host addresses and calls the handler.  Results and errors are 64-bit words as they are returned
  to the guest.
\<close>

section \<open>Reading and writing\<close>

lemma bindS_mono [partial_function_mono]:
  assumes "mono_option (\<lambda>F. f F s)" "\<And>a s1. mono_option (\<lambda>F. g F a s1)"
  shows "mono_option (\<lambda>F. bindS (f F) (g F) s)"
  using assms unfolding monotone_def bindS_def by (fastforce intro!: bindO_mono)

definition same_regionS :: "hostptr \<Rightarrow> hostptr \<Rightarrow> (('k, 'w) vm, bool) op" where
  "same_regionS p q vm = Some (bindE (same_region (vm_rm vm) p q) (\<lambda>b. Inr (b, vm)))"

text \<open>The region of a host address; using the null pointer that stands for no region is a fault.\<close>

definition region_at :: "hostptr \<Rightarrow> (('k, 'w) vm, region) op" where
  "region_at p vm = Some (case find_region (vm_rm vm) p of None \<Rightarrow> Inl Fault | Some a \<Rightarrow> Inr (rm_store (vm_rm vm) a, vm))"

partial_function (option) read_loop ::
  "(u32 \<Rightarrow> hostptr \<Rightarrow> u64 \<Rightarrow> ('w, u64) hcall) \<Rightarrow> u32 \<Rightarrow> hostptr \<Rightarrow> guestptr \<Rightarrow> guestptr \<Rightarrow> u64 \<Rightarrow> u64
     \<Rightarrow> ('k, 'w) vm \<Rightarrow> (u64 \<times> ('k, 'w) vm) res option" where
  "read_loop rd fd bend buf_p mark_p current_count result vm =
     bindS (host_p mark_p) (\<lambda>host_begin_mark vm.
     bindS (region_at host_begin_mark) (\<lambda>r vm.
     bindS (assertS (mark_p = buf_p \<or> host_begin_mark = reg_host_p r)) (\<lambda>_ vm.
     let host_end_mark = last_valid_address r in
     bindS (assertS (host_begin_mark < host_end_mark)) (\<lambda>_ vm.
     let newcount = host_end_mark - host_begin_mark;
         newcount = (if current_count <s newcount then current_count else newcount) in
     bindS (call (rd fd host_begin_mark newcount)) (\<lambda>in_result vm.
     if in_result <s 0 then bindS (getS vm_errno) (\<lambda>e. retS (of_int e)) vm
     else if in_result <s newcount then Some (Inr (result + in_result, vm))
     else
       bindS (same_regionS host_begin_mark bend) (\<lambda>same vm.
       if same
       then bindS (assertS (current_count - in_result = 0)) (\<lambda>_. retS (result + in_result)) vm
       else read_loop rd fd bend buf_p (mark_p + in_result) (current_count - in_result) (result + in_result) vm) vm) vm) vm) vm) vm) vm"

definition elkvm_do_read :: "'w handlers \<Rightarrow> (('k, 'w) vm, u64) op" where
  "elkvm_do_read h = need (h_read (h_file h)) (\<lambda>rd.
     bindS unpack_syscall3 (\<lambda>(fd, buf_p, count).
     bindS (assertS (buf_p \<noteq> 0)) (\<lambda>_.
     bindS (host_p buf_p) (\<lambda>buf.
     bindS (host_p (buf_p + count - 1)) (\<lambda>bend.
     bindS (same_regionS buf bend) (\<lambda>same.
     if \<not> same then
       bindS (getS (\<lambda>vm. host_address_mapped (vm_rm vm) bend)) (\<lambda>mapped.
       bindS (assertS mapped) (\<lambda>_.
       read_loop rd (ucast fd) bend buf_p buf_p count 0))
     else call (rd (ucast fd) buf count)))))))"

partial_function (option) write_loop ::
  "(u32 \<Rightarrow> hostptr \<Rightarrow> u64 \<Rightarrow> ('w, u64) hcall) \<Rightarrow> u32 \<Rightarrow> hostptr \<Rightarrow> u64 \<Rightarrow> region \<Rightarrow> hostptr \<Rightarrow> u64 \<Rightarrow> u64
     \<Rightarrow> ('k, 'w) vm \<Rightarrow> (u64 \<times> ('k, 'w) vm) res option" where
  "write_loop wr fd buf cnt r current_buf remaining_count tot vm =
     (if \<not> region_contains r (current_buf + remaining_count - 1) then
        bindS (liftS (space_after_address r current_buf)) (\<lambda>space vm.
        bindS (call (wr fd current_buf space)) (\<lambda>result vm.
        if result <s 0 then ret_errno vm
        else
          bindS (region_at (current_buf + result)) (\<lambda>r1 vm.
          write_loop wr fd buf cnt r1 (current_buf + result) (remaining_count - result) (tot + result) vm) vm) vm) vm
      else
        bindS (assertS (region_contains r (buf + cnt - 1))) (\<lambda>_ vm.
        bindS (call (wr fd current_buf remaining_count)) (\<lambda>result vm.
        if result <s 0 then ret_errno vm else Some (Inr (tot + result, vm))) vm) vm)"

definition elkvm_do_write :: "'w handlers \<Rightarrow> (('k, 'w) vm, u64) op" where
  "elkvm_do_write h = need (h_write (h_file h)) (\<lambda>wr.
     bindS unpack_syscall3 (\<lambda>(fd, buf_p, count).
     bindS (assertS (buf_p \<noteq> 0)) (\<lambda>_.
     bindS (host_p buf_p) (\<lambda>buf.
     bindS (getS (\<lambda>vm. find_region (vm_rm vm) buf)) (\<lambda>a.
     bindS (assertS (a \<noteq> None)) (\<lambda>_.
     bindS (getS (\<lambda>vm. rm_store (vm_rm vm) (the a))) (\<lambda>r.
     write_loop wr (ucast fd) buf count r buf count 0)))))))"

section \<open>Files\<close>

definition elkvm_do_open :: "'w handlers \<Rightarrow> (('k, 'w) vm, u64) op" where
  "elkvm_do_open h = need (h_open (h_file h)) (\<lambda>f.
     bindS unpack_syscall3 (\<lambda>(pathname_p, flags, mode).
     bindS (assertS (pathname_p \<noteq> 0)) (\<lambda>_.
     bindS (host_p pathname_p) (\<lambda>pathname.
     call (f pathname (ucast flags) (ucast mode))))))"

definition elkvm_do_close :: "'w handlers \<Rightarrow> (('k, 'w) vm, u64) op" where
  "elkvm_do_close h = need (h_close (h_file h)) (\<lambda>f. bindS unpack_syscall1 (\<lambda>fd. call (f (ucast fd))))"

definition elkvm_do_stat :: "'w handlers \<Rightarrow> (('k, 'w) vm, u64) op" where
  "elkvm_do_stat h = need (h_stat (h_file h)) (\<lambda>f.
     bindS unpack_syscall2 (\<lambda>(path_p, buf_p).
     bindS (assertS (path_p \<noteq> 0)) (\<lambda>_.
     bindS (host_p path_p) (\<lambda>path.
     bindS (assertS (buf_p \<noteq> 0)) (\<lambda>_.
     bindS (host_p buf_p) (\<lambda>buf.
     call (f path buf)))))))"

definition elkvm_do_fstat :: "'w handlers \<Rightarrow> (('k, 'w) vm, u64) op" where
  "elkvm_do_fstat h = need (h_fstat (h_file h)) (\<lambda>f.
     bindS unpack_syscall2 (\<lambda>(fd, buf_p).
     bindS (assertS (buf_p \<noteq> 0)) (\<lambda>_.
     bindS (host_p buf_p) (\<lambda>buf.
     call (f (ucast fd) buf)))))"

definition elkvm_do_lstat :: "'w handlers \<Rightarrow> (('k, 'w) vm, u64) op" where
  "elkvm_do_lstat h = need (h_lstat (h_file h)) (\<lambda>f.
     bindS unpack_syscall2 (\<lambda>(path_p, buf_p).
     bindS (assertS (path_p \<noteq> 0)) (\<lambda>_.
     bindS (host_p path_p) (\<lambda>path.
     bindS (assertS (buf_p \<noteq> 0)) (\<lambda>_.
     bindS (host_p buf_p) (\<lambda>buf.
     call (f path buf)))))))"

definition elkvm_do_lseek :: "'w handlers \<Rightarrow> (('k, 'w) vm, u64) op" where
  "elkvm_do_lseek h = need (h_lseek (h_file h)) (\<lambda>f.
     bindS unpack_syscall3 (\<lambda>(fd, off, whence). call (f (ucast fd) off (ucast whence))))"

definition elkvm_do_ioctl :: "'w handlers \<Rightarrow> (('k, 'w) vm, u64) op" where
  "elkvm_do_ioctl h = need (h_ioctl (h_file h)) (\<lambda>f.
     bindS unpack_syscall3 (\<lambda>(fd, request, argp_p).
     bindS (host_p argp_p) (\<lambda>argp.
     bindS (call (f (ucast fd) request argp)) (\<lambda>result.
     if result <s 0 then ret_errno else retS result))))"

text \<open>The vector of buffers is copied with translated addresses; reading it through a null pointer is a fault.\<close>

primrec host_iov_loop :: "nat \<Rightarrow> hostptr \<Rightarrow> nat \<Rightarrow> (('k, 'w) vm, (hostptr \<times> u64) list) op" where
  "host_iov_loop 0 guest_iov i = retS []"
| "host_iov_loop (Suc n) guest_iov i =
     (if guest_iov = 0 then failS Fault
      else
        bindS (getS (\<lambda>vm. (read64 (vm_mem vm) (guest_iov + of_nat (16 * i)), read64 (vm_mem vm) (guest_iov + of_nat (16 * i + 8))))) (\<lambda>(b, len).
        bindS (assertS (b \<noteq> 0)) (\<lambda>_.
        bindS (host_p b) (\<lambda>hb.
        bindS (host_iov_loop n guest_iov (Suc i)) (\<lambda>rest.
        retS ((hb, len) # rest))))))"

definition elkvm_get_host_iov :: "guestptr \<Rightarrow> u64 \<Rightarrow> (('k, 'w) vm, (hostptr \<times> u64) list) op" where
  "elkvm_get_host_iov iov_p iovcnt =
     bindS (assertS (iov_p \<noteq> 0)) (\<lambda>_.
     bindS (host_p iov_p) (\<lambda>guest_iov.
     host_iov_loop (unat iovcnt) guest_iov 0))"

definition elkvm_do_readv :: "'w handlers \<Rightarrow> (('k, 'w) vm, u64) op" where
  "elkvm_do_readv h = need (h_readv (h_file h)) (\<lambda>f.
     bindS unpack_syscall3 (\<lambda>(fd, iov_p, iovcnt).
     bindS (elkvm_get_host_iov iov_p iovcnt) (\<lambda>host_iov.
     call (f (ucast fd) host_iov (ucast iovcnt)))))"

definition elkvm_do_writev :: "'w handlers \<Rightarrow> (('k, 'w) vm, u64) op" where
  "elkvm_do_writev h = need (h_writev (h_file h)) (\<lambda>f.
     bindS unpack_syscall3 (\<lambda>(fd, iov_p, iovcnt).
     bindS (elkvm_get_host_iov iov_p iovcnt) (\<lambda>host_iov.
     call (f (ucast fd) host_iov (ucast iovcnt)))))"

definition EFAULT :: int where "EFAULT = 14"

definition elkvm_do_access :: "'w handlers \<Rightarrow> (('k, 'w) vm, u64) op" where
  "elkvm_do_access h = need (h_access (h_file h)) (\<lambda>f.
     bindS unpack_syscall2 (\<lambda>(path_p, mode).
     bindS (assertS (path_p \<noteq> 0)) (\<lambda>_.
     bindS (host_p path_p) (\<lambda>pathname.
     if pathname = 0 then retS (of_int (- EFAULT))
     else
       bindS (call (f pathname (ucast mode))) (\<lambda>result.
       if result \<noteq> 0 then ret_errno else retS 0)))))"

definition elkvm_do_pipe :: "'w handlers \<Rightarrow> (('k, 'w) vm, u64) op" where
  "elkvm_do_pipe h = need (h_pipe (h_file h)) (\<lambda>f.
     bindS unpack_syscall1 (\<lambda>pipefd_p.
     bindS (host_p pipefd_p) (\<lambda>pipefd.
     bindS (assertS (pipefd \<noteq> 0)) (\<lambda>_.
     bindS (call (f pipefd)) (\<lambda>result.
     if result \<noteq> 0 then ret_errno else retS 0)))))"

text \<open>\<^verbatim>\<open>dup\<close> returns the negated \<^verbatim>\<open>errno\<close> whatever the result.\<close>

definition elkvm_do_dup :: "'w handlers \<Rightarrow> (('k, 'w) vm, u64) op" where
  "elkvm_do_dup h = need (h_dup (h_file h)) (\<lambda>f.
     bindS unpack_syscall1 (\<lambda>oldfd.
     bindS (call (f (ucast oldfd))) (\<lambda>result.
     ret_errno)))"

definition F_GETLK :: u64 where "F_GETLK = 5"
definition F_SETLK :: u64 where "F_SETLK = 6"
definition F_SETLKW :: u64 where "F_SETLKW = 7"
definition F_SETOWN_EX :: u64 where "F_SETOWN_EX = 15"
definition F_GETOWN_EX :: u64 where "F_GETOWN_EX = 16"

definition elkvm_do_fcntl :: "'w handlers \<Rightarrow> (('k, 'w) vm, u64) op" where
  "elkvm_do_fcntl h = need (h_fcntl (h_file h)) (\<lambda>f.
     bindS unpack_syscall3 (\<lambda>(fd, cmd, arg_p).
     if cmd = F_GETOWN_EX \<or> cmd = F_SETOWN_EX \<or> cmd = F_GETLK \<or> cmd = F_SETLK \<or> cmd = F_SETLKW
     then bindS (host_p arg_p) (\<lambda>a. call (f (ucast fd) (ucast cmd) a))
     else call (f (ucast fd) (ucast cmd) arg_p)))"

end
