(* ===== verification/Syscalls_Mem.thy ===== *)
theory Syscalls_Mem
  imports Syscalls
begin

text \<open>
  The system calls that change the memory of the guest: \<^verbatim>\<open>mmap\<close>, \<^verbatim>\<open>munmap\<close>, \<^verbatim>\<open>brk\<close> and \<^verbatim>\<open>mremap\<close> of
  \<^verbatim>\<open>src/src/syscall.cc\<close> and \<^verbatim>\<open>mprotect\<close> of \<^verbatim>\<open>src/src/syscalls-mprotect.cc\<close>.
\<close>

definition heapS :: "(heap \<Rightarrow> ('a \<times> heap) res) \<Rightarrow> (('k, 'w) vm, 'a) op" where
  "heapS f vm = Some (bindE (f (vm_heap vm)) (\<lambda>(a, h). Inr (a, vm\<lparr>vm_heap := h\<rparr>)))"

definition derefS :: "mref \<Rightarrow> (('k, 'w) vm, mapping) op" where
  "derefS r = heapS (\<lambda>h. bindE (deref h r) (\<lambda>m. Inr (m, h)))"

section \<open>mmap\<close>

definition sync_mapping :: "('k, 'w) host \<Rightarrow> mref \<Rightarrow> c_mapping \<Rightarrow> (('k, 'w) vm, unit) op" where
  "sync_mapping host ref cm = heapS (\<lambda>h.
     bindE (deref h ref) (\<lambda>m.
     bindE (sync_back (host_fs host) (heap_rm h) m (pg_mem (heap_pager h)) cm) (\<lambda>(m1, rm, mem).
     Inr ((), put_ref ref m1 (set_rm (store_mem mem rm) h)))))"

definition mmap_correct :: "('k, 'w) host \<Rightarrow> (c_mapping \<Rightarrow> ('w, u64 \<times> c_mapping) hcall) \<Rightarrow> mref \<Rightarrow> (('k, 'w) vm, u64) op" where
  "mmap_correct host f ref =
     bindS (derefS ref) (\<lambda>m.
     bindS (call (f (c_mapping_of m))) (\<lambda>(result, cm).
     bindS (liftS (mapping_diff m cm)) (\<lambda>remap.
     bindS (if remap \<noteq> 0 then bindS (heapS (\<lambda>h. heap_unmap h ref)) (\<lambda>err. assertS (err = 0)) else retS ()) (\<lambda>_.
     bindS (sync_mapping host ref cm) (\<lambda>_.
     bindS (if remap \<noteq> 0 then bindS (heapS (\<lambda>h. map_ref h ref)) (\<lambda>err. assertS (err = 0)) else retS ()) (\<lambda>_.
     retS result))))))"

definition fill_mapping :: "('k, 'w) host \<Rightarrow> mref \<Rightarrow> (('k, 'w) vm, unit) op" where
  "fill_mapping host ref = heapS (\<lambda>h.
     bindE (deref h ref) (\<lambda>m.
     if anonymous m then Inr ((), h)
     else bindE (fill (host_fs host) m (pg_mem (heap_pager h))) (\<lambda>(_, mem).
          Inr ((), set_pager ((heap_pager h)\<lparr>pg_mem := mem\<rparr>) h))))"

definition elkvm_do_mmap :: "('k, 'w) host \<Rightarrow> 'w handlers \<Rightarrow> (('k, 'w) vm, u64) op" where
  "elkvm_do_mmap host h =
     bindS unpack_syscall6 (\<lambda>(addr, len, prot, flags, fd, off).
     bindS (heapS (\<lambda>hp. get_mapping (host_memalign host) (host_set_region host) (host_fs host) hp addr len (ucast prot) (ucast flags)
                          (sint (ucast fd :: u32)) off)) (\<lambda>ref.
     bindS (case h_mmap_before (h_mem h) of None \<Rightarrow> retS 0 | Some f \<Rightarrow> mmap_correct host f ref) (\<lambda>result.
     bindS (fill_mapping host ref) (\<lambda>_.
     bindS (case h_mmap_after (h_mem h) of
              None \<Rightarrow> retS result
            | Some f \<Rightarrow> bindS (derefS ref) (\<lambda>m. bindS (call (f (c_mapping_of m))) (\<lambda>(result, _). retS result))) (\<lambda>result.
     if result <s 0 then ret_errno
     else bindS (derefS ref) (\<lambda>m. retS (m_addr m)))))))"

section \<open>munmap, mremap and brk\<close>

definition elkvm_do_munmap :: "(('k, 'w) vm, u64) op" where
  "elkvm_do_munmap =
     bindS unpack_syscall2 (\<lambda>(addr_p, len).
     bindS (host_p_or_null addr_p) (\<lambda>addr1.
     bindS (heapS (\<lambda>h. bindE (heap_find_mapping_host h addr1) (\<lambda>ref. Inr (ref, h)))) (\<lambda>ref.
     bindS (heapS (\<lambda>h. unmap_pages h ref addr_p (pages_from_size len))) (\<lambda>_.
     retS 0))))"

definition elkvm_do_mremap :: "('k, 'w) host \<Rightarrow> (('k, 'w) vm, u64) op" where
  "elkvm_do_mremap host =
     bindS unpack_syscall5 (\<lambda>(old_address_p, old_size, new_size, flags, new_address_p).
     bindS (host_p_or_null old_address_p) (\<lambda>old_address.
     bindS (host_p_or_null new_address_p) (\<lambda>new_address.
     bindS (heapS (\<lambda>h. bindE (heap_find_mapping_host h old_address) (\<lambda>ref. Inr (ref, h)))) (\<lambda>ref.
     heapS (\<lambda>h. remap (host_memalign host) (host_set_region host) (host_fs host) h ref new_address_p new_size (ucast flags))))))"

definition elkvm_do_brk :: "('k, 'w) host \<Rightarrow> (('k, 'w) vm, u64) op" where
  "elkvm_do_brk host =
     bindS unpack_syscall1 (\<lambda>user_brk_req.
     if user_brk_req = 0 then getS (\<lambda>vm. curbrk (vm_heap vm))
     else
       bindS (heapS (\<lambda>h. brk (host_memalign host) (host_set_region host) h user_brk_req)) (\<lambda>err.
       if err \<noteq> 0 then retS (of_int err) else getS (\<lambda>vm. curbrk (vm_heap vm))))"

section \<open>mprotect\<close>

text \<open>The fields of the mapping are read before the split, which may move it.\<close>

definition slice_and_recreate :: "('k, 'w) host \<Rightarrow> mref \<Rightarrow> guestptr \<Rightarrow> u64 \<Rightarrow> u32 \<Rightarrow> heap \<Rightarrow> heap res" where
  "slice_and_recreate host ref a len prot h =
     bindE (deref h ref) (\<lambda>m.
     bindE (heap_slice (host_memalign host) (host_set_region host) h ref a len) (\<lambda>h1.
     bindE (heap_create_mapping (host_memalign host) (host_set_region host) h1 a len prot (m_flags m) (m_fd m) (m_offset m) None) (\<lambda>(_, h2).
     Inr h2)))"

definition elkvm_do_mprotect :: "('k, 'w) host \<Rightarrow> (('k, 'w) vm, u64) op" where
  "elkvm_do_mprotect host =
     bindS unpack_syscall3 (\<lambda>(a, len, prot).
     bindS (assertS (page_aligned a)) (\<lambda>_.
     bindS (getS (\<lambda>vm. address_mapped (vm_heap vm) a)) (\<lambda>mapped.
     if \<not> mapped then retS (of_int (- EINVAL))
     else
       bindS (heapS (\<lambda>h.
         bindE (heap_find_mapping h a) (\<lambda>ref.
         bindE (deref h ref) (\<lambda>m.
         bindE (assertE (len \<le> m_length m)) (\<lambda>_.
         if m_length m \<noteq> len
         then bindE (slice_and_recreate host ref a len (ucast prot) h) (\<lambda>h1. Inr (0, h1))
         else map_ref (put_ref ref (mprotect (ucast prot) m) h) ref))))) (\<lambda>err.
       retS (of_int err)))))"

end
