(* ===== verification/Syscalls_Misc.thy ===== *)
theory Syscalls_Misc
  imports Syscalls_Mem
begin

text \<open>
  The system calls on directories, processes, signals, time, limits and sockets, and the stubs of the calls that are not
  implemented, which end the process.
\<close>

section \<open>Directories\<close>

definition elkvm_do_truncate :: "'w handlers \<Rightarrow> (('k, 'w) vm, u64) op" where
  "elkvm_do_truncate h = need (h_truncate (h_dir h)) (\<lambda>f.
     bindS unpack_syscall2 (\<lambda>(path_p, len). bindS (host_p path_p) (\<lambda>path. call (f path len))))"

definition elkvm_do_ftruncate :: "'w handlers \<Rightarrow> (('k, 'w) vm, u64) op" where
  "elkvm_do_ftruncate h = need (h_ftruncate (h_dir h)) (\<lambda>f.
     bindS unpack_syscall2 (\<lambda>(fd, len). call (f (ucast fd) len)))"

definition elkvm_do_getdents :: "'w handlers \<Rightarrow> (('k, 'w) vm, u64) op" where
  "elkvm_do_getdents h = need (h_getdents (h_dir h)) (\<lambda>f.
     bindS unpack_syscall3 (\<lambda>(fd, dirp_p, cnt).
     bindS (host_p_or_null dirp_p) (\<lambda>dirp.
     bindS (call (f (ucast fd) dirp (ucast cnt))) (\<lambda>res.
     if res <s 0 then ret_errno else retS (scast res)))))"

text \<open>On failure \<^verbatim>\<open>getcwd\<close> returns \<^verbatim>\<open>errno\<close> itself.\<close>

definition elkvm_do_getcwd :: "'w handlers \<Rightarrow> (('k, 'w) vm, u64) op" where
  "elkvm_do_getcwd h = need (h_getcwd (h_dir h)) (\<lambda>f.
     bindS unpack_syscall2 (\<lambda>(buf_p, sz).
     bindS (host_p buf_p) (\<lambda>buf.
     bindS (call (f buf sz)) (\<lambda>result.
     if result = 0 then bindS (getS vm_errno) (\<lambda>e. retS (of_int e)) else retS 0))))"

definition elkvm_do_chdir :: "'w handlers \<Rightarrow> (('k, 'w) vm, u64) op" where
  "elkvm_do_chdir h =
     bindS unpack_syscall1 (\<lambda>path.
     bindS (host_p_or_null path) (\<lambda>local_path.
     must (h_chdir (h_dir h)) (\<lambda>f. bindS (call (f local_path)) (\<lambda>r. retS (scast r)))))"

definition elkvm_do_fchdir :: "'w handlers \<Rightarrow> (('k, 'w) vm, u64) op" where
  "elkvm_do_fchdir h =
     bindS unpack_syscall1 (\<lambda>path. must (h_fchdir (h_dir h)) (\<lambda>f. bindS (call (f (ucast path))) (\<lambda>r. retS (scast r))))"

definition elkvm_do_mkdir :: "'w handlers \<Rightarrow> (('k, 'w) vm, u64) op" where
  "elkvm_do_mkdir h = need (h_mkdir (h_dir h)) (\<lambda>f.
     bindS unpack_syscall2 (\<lambda>(pathname_p, mode).
     bindS (assertS (pathname_p \<noteq> 0)) (\<lambda>_.
     bindS (host_p pathname_p) (\<lambda>pathname.
     call (f pathname (ucast mode))))))"

definition elkvm_do_unlink :: "'w handlers \<Rightarrow> (('k, 'w) vm, u64) op" where
  "elkvm_do_unlink h = need (h_unlink (h_dir h)) (\<lambda>f.
     bindS unpack_syscall1 (\<lambda>pathname_p.
     bindS (assertS (pathname_p \<noteq> 0)) (\<lambda>_.
     bindS (host_p pathname_p) (\<lambda>pathname.
     call (f pathname)))))"

definition elkvm_do_readlink :: "'w handlers \<Rightarrow> (('k, 'w) vm, u64) op" where
  "elkvm_do_readlink h = need (h_readlink (h_dir h)) (\<lambda>f.
     bindS unpack_syscall3 (\<lambda>(path_p, buf_p, bufsiz).
     bindS (host_p path_p) (\<lambda>path.
     bindS (host_p buf_p) (\<lambda>buf.
     call (f path buf bufsiz)))))"

definition elkvm_do_statfs :: "'w handlers \<Rightarrow> (('k, 'w) vm, u64) op" where
  "elkvm_do_statfs h = need (h_statfs (h_dir h)) (\<lambda>f.
     bindS unpack_syscall2 (\<lambda>(path_p, buf_p).
     bindS (host_p_or_null path_p) (\<lambda>path.
     bindS (host_p_or_null buf_p) (\<lambda>buf.
     bindS (call (f path buf)) (\<lambda>res.
     if (ucast res :: u32) = 0 then retS 0 else ret_errno)))))"

definition elkvm_do_fstatfs :: "'w handlers \<Rightarrow> (('k, 'w) vm, u64) op" where
  "elkvm_do_fstatfs h = need (h_fstatfs (h_dir h)) (\<lambda>f.
     bindS unpack_syscall2 (\<lambda>(fd, buf_p).
     bindS (host_p_or_null buf_p) (\<lambda>buf.
     bindS (call (f (ucast fd) buf)) (\<lambda>result.
     retS (scast result)))))"

definition elkvm_do_openat :: "'w handlers \<Rightarrow> (('k, 'w) vm, u64) op" where
  "elkvm_do_openat h = need (h_openat (h_dir h)) (\<lambda>f.
     bindS unpack_syscall3 (\<lambda>(dirfd, pathname_p, flags).
     bindS (host_p_or_null pathname_p) (\<lambda>pathname.
     bindS (call (f (ucast dirfd) pathname (ucast flags))) (\<lambda>res.
     if res <s 0 then ret_errno else retS (scast res)))))"

section \<open>Processes\<close>

definition elkvm_do_getpid :: "'w handlers \<Rightarrow> (('k, 'w) vm, u64) op" where
  "elkvm_do_getpid h = need (h_getpid (h_proc h)) call"

definition elkvm_do_getuid :: "'w handlers \<Rightarrow> (('k, 'w) vm, u64) op" where
  "elkvm_do_getuid h = need (h_getuid (h_proc h)) call"

definition elkvm_do_getgid :: "'w handlers \<Rightarrow> (('k, 'w) vm, u64) op" where
  "elkvm_do_getgid h = need (h_getgid (h_proc h)) call"

definition elkvm_do_geteuid :: "'w handlers \<Rightarrow> (('k, 'w) vm, u64) op" where
  "elkvm_do_geteuid h = need (h_geteuid (h_proc h)) call"

definition elkvm_do_getegid :: "'w handlers \<Rightarrow> (('k, 'w) vm, u64) op" where
  "elkvm_do_getegid h = need (h_getegid (h_proc h)) call"

definition elkvm_do_gettid :: "'w handlers \<Rightarrow> (('k, 'w) vm, u64) op" where
  "elkvm_do_gettid h = need (h_gettid (h_proc h)) call"

definition elkvm_do_uname :: "'w handlers \<Rightarrow> (('k, 'w) vm, u64) op" where
  "elkvm_do_uname h = need (h_uname (h_proc h)) (\<lambda>f.
     bindS unpack_syscall1 (\<lambda>bufp.
     bindS (assertS (bufp \<noteq> 0)) (\<lambda>_.
     bindS (host_p bufp) (\<lambda>buf.
     bindS (assertS (buf \<noteq> 0)) (\<lambda>_.
     call (f buf))))))"

definition elkvm_do_futex :: "'w handlers \<Rightarrow> (('k, 'w) vm, u64) op" where
  "elkvm_do_futex h = need (h_futex (h_proc h)) (\<lambda>f.
     bindS unpack_syscall6 (\<lambda>(uaddr_p, opc, val, timeout_p, uaddr2_p, val3).
     bindS (host_p_or_null uaddr_p) (\<lambda>uaddr.
     bindS (host_p_or_null timeout_p) (\<lambda>timeout.
     bindS (host_p_or_null uaddr2_p) (\<lambda>uaddr2.
     bindS (call (f uaddr (ucast opc) (ucast val) timeout uaddr2 (ucast val3))) (\<lambda>result.
     if result \<noteq> 0 then ret_errno else retS result))))))"

definition elkvm_do_set_tid_address :: "'w handlers \<Rightarrow> (('k, 'w) vm, u64) op" where
  "elkvm_do_set_tid_address h = need (h_set_tid_address (h_proc h)) (\<lambda>f.
     bindS unpack_syscall1 (\<lambda>tidptr_p.
     bindS (assertS (tidptr_p \<noteq> 0)) (\<lambda>_.
     bindS (host_p tidptr_p) (\<lambda>tidptr.
     bindS (assertS (tidptr \<noteq> 0)) (\<lambda>_.
     call (f tidptr))))))"

definition elkvm_do_exit_group :: "'w handlers \<Rightarrow> (('k, 'w) vm, u64) op" where
  "elkvm_do_exit_group h =
     bindS unpack_syscall1 (\<lambda>status.
     must (h_exit_group (h_proc h)) (\<lambda>f.
     bindS (call (f (ucast status))) (\<lambda>_. retS (of_int (- ENOSYS)))))"

definition elkvm_do_tgkill :: "'w handlers \<Rightarrow> (('k, 'w) vm, u64) op" where
  "elkvm_do_tgkill h = need (h_tgkill (h_proc h)) (\<lambda>f.
     bindS unpack_syscall3 (\<lambda>(tgid, tid, sig). call (f (ucast tgid) (ucast tid) (ucast sig))))"

definition elkvm_do_set_robust_list :: "'w handlers \<Rightarrow> (('k, 'w) vm, u64) op" where
  "elkvm_do_set_robust_list h = need (h_set_robust_list (h_proc h)) (\<lambda>f.
     bindS unpack_syscall2 (\<lambda>(head_p, len).
     bindS (assertS (head_p \<noteq> 0)) (\<lambda>_.
     bindS (host_p head_p) (\<lambda>head.
     call (f head len)))))"

section \<open>Signals and limits\<close>

text \<open>The handler decides whether the library registers the action.\<close>

definition elkvm_do_sigaction :: "('k, 'w) host \<Rightarrow> 'w handlers \<Rightarrow> (('k, 'w) vm, u64) op" where
  "elkvm_do_sigaction host h = need (h_sigaction (h_proc h)) (\<lambda>f.
     bindS unpack_syscall3 (\<lambda>(signum, act_p, oldact_p).
     bindS (host_p_or_null act_p) (\<lambda>act.
     bindS (host_p_or_null oldact_p) (\<lambda>oldact.
     bindS (call (f (ucast signum) act oldact)) (\<lambda>ok.
     if ok \<noteq> 0
     then bindS (signal_register host (sint (ucast signum :: u32)) act oldact) (\<lambda>err. retS (of_int err))
     else retS 0)))))"

definition elkvm_do_sigprocmask :: "'w handlers \<Rightarrow> (('k, 'w) vm, u64) op" where
  "elkvm_do_sigprocmask h = need (h_sigprocmask (h_proc h)) (\<lambda>f.
     bindS unpack_syscall3 (\<lambda>(how, set_p, oldset_p).
     bindS (host_p_or_null set_p) (\<lambda>sset.
     bindS (host_p_or_null oldset_p) (\<lambda>oldset.
     call (f (ucast how) sset oldset)))))"

text \<open>A \<^verbatim>\<open>struct rlimit\<close> is two words.\<close>

definition elkvm_do_getrlimit :: "(('k, 'w) vm, u64) op" where
  "elkvm_do_getrlimit =
     bindS unpack_syscall2 (\<lambda>(resource, rlim_p).
     bindS (assertS (rlim_p \<noteq> 0)) (\<lambda>_.
     bindS (host_p rlim_p) (\<lambda>rlim.
     bindS (getS (get_rlimit (sint (ucast resource :: u32)))) (\<lambda>r.
     bindS (liftS r) (\<lambda>(soft, hard).
     if rlim = 0 then failS Fault
     else
       bindS (modS (\<lambda>vm. set_vm_mem (write64 (write64 (vm_mem vm) rlim soft) (rlim + 8) hard) vm)) (\<lambda>_.
       retS 0))))))"

definition elkvm_do_setrlimit :: "'w handlers \<Rightarrow> (('k, 'w) vm, u64) op" where
  "elkvm_do_setrlimit h = need (h_setrlimit (h_proc h)) (\<lambda>f.
     bindS unpack_syscall2 (\<lambda>(resource, rlim_p).
     bindS (assertS (rlim_p \<noteq> 0)) (\<lambda>_.
     bindS (host_p rlim_p) (\<lambda>rlim.
     bindS (call (f (ucast resource) rlim)) (\<lambda>r.
     let err = (ucast r :: u32) in
     if err = 0 then
       if rlim = 0 then failS Fault
       else
         bindS (getS (\<lambda>vm. set_rlimit (sint (ucast resource :: u32)) (read64 (vm_mem vm) rlim, read64 (vm_mem vm) (rlim + 8)) vm)) (\<lambda>vm1.
         bindS (liftS vm1) (\<lambda>vm1.
         bindS (modS (\<lambda>_. vm1)) (\<lambda>_. retS 0)))
     else retS (scast err))))))"

section \<open>Thread-local storage\<close>

definition ARCH_SET_GS :: u64 where "ARCH_SET_GS = 0x1001"
definition ARCH_SET_FS :: u64 where "ARCH_SET_FS = 0x1002"
definition ARCH_GET_FS :: u64 where "ARCH_GET_FS = 0x1003"
definition ARCH_GET_GS :: u64 where "ARCH_GET_GS = 0x1004"

definition set_seg_base :: "Seg_t \<Rightarrow> u64 \<Rightarrow> (('k, 'w) vm, unit) op" where
  "set_seg_base s b =
     bindS (vcpuS 0) (\<lambda>v. modS (put_vcpu 0 (vcpu_set_seg s ((vcpu_get_seg v s)\<lparr>sg_base := b\<rparr>) v)))"

definition get_seg_base :: "Seg_t \<Rightarrow> hostptr \<Rightarrow> (('k, 'w) vm, unit) op" where
  "get_seg_base s p =
     bindS (vcpuS 0) (\<lambda>v. modS (\<lambda>vm. set_vm_mem (write64 (vm_mem vm) p (sg_base (vcpu_get_seg v s))) vm))"

definition elkvm_do_arch_prctl :: "('k, 'w) host \<Rightarrow> (('k, 'w) vm, u64) op" where
  "elkvm_do_arch_prctl host =
     bindS (vm_get_sregs host 0) (\<lambda>err.
     if err \<noteq> 0 then retS (of_int err)
     else
       bindS unpack_syscall2 (\<lambda>(code, user_addr).
       bindS (assertS (user_addr \<noteq> 0)) (\<lambda>_.
       bindS (host_p user_addr) (\<lambda>host_addr.
       bindS (assertS (host_addr \<noteq> 0)) (\<lambda>_.
       if code \<notin> {ARCH_SET_FS, ARCH_GET_FS, ARCH_SET_GS, ARCH_GET_GS} then retS (of_int (- EINVAL))
       else
         bindS (if code = ARCH_SET_FS then set_seg_base FS user_addr
                else if code = ARCH_GET_FS then get_seg_base FS host_addr
                else if code = ARCH_SET_GS then set_seg_base GS user_addr
                else get_seg_base GS host_addr) (\<lambda>_.
         bindS (vm_set_sregs host 0) (\<lambda>err. retS (of_int err))))))))"

section \<open>Time\<close>

definition elkvm_do_nanosleep :: "'w handlers \<Rightarrow> (('k, 'w) vm, u64) op" where
  "elkvm_do_nanosleep h = need (h_nanosleep (h_clock h)) (\<lambda>f.
     bindS unpack_syscall2 (\<lambda>(req_p, rem_p).
     bindS (host_p_or_null req_p) (\<lambda>req.
     bindS (host_p_or_null rem_p) (\<lambda>rm.
     call (f req rm)))))"

text \<open>\<^verbatim>\<open>UNIMPLEMENTED_SYSCALL\<close> ends the process.\<close>

definition unimplemented_syscall :: "('s, u64) op" where
  "unimplemented_syscall = failS (Exit 1)"

definition elkvm_do_gettimeofday :: "'w handlers \<Rightarrow> (('k, 'w) vm, u64) op" where
  "elkvm_do_gettimeofday h =
     (case h_gettimeofday (h_clock h) of
        None \<Rightarrow> unimplemented_syscall
      | Some f \<Rightarrow>
          bindS unpack_syscall2 (\<lambda>(tv_p, tz_p).
          bindS (host_p_or_null tv_p) (\<lambda>tv.
          bindS (host_p_or_null tz_p) (\<lambda>tz.
          call (f tv tz)))))"

definition RUSAGE_SELF :: u64 where "RUSAGE_SELF = 0"

definition elkvm_do_getrusage :: "'w handlers \<Rightarrow> (('k, 'w) vm, u64) op" where
  "elkvm_do_getrusage h = need (h_getrusage (h_clock h)) (\<lambda>f.
     bindS unpack_syscall2 (\<lambda>(who, usage_p).
     bindS (assertS (usage_p \<noteq> 0)) (\<lambda>_.
     bindS (assertS (who = RUSAGE_SELF)) (\<lambda>_.
     bindS (host_p usage_p) (\<lambda>usage.
     call (f (ucast who) usage))))))"

definition elkvm_do_times :: "'w handlers \<Rightarrow> (('k, 'w) vm, u64) op" where
  "elkvm_do_times h = need (h_times (h_clock h)) (\<lambda>f.
     bindS unpack_syscall1 (\<lambda>buf_p.
     bindS (assertS (buf_p \<noteq> 0)) (\<lambda>_.
     bindS (host_p buf_p) (\<lambda>buf.
     bindS (assertS (buf \<noteq> 0)) (\<lambda>_.
     bindS (call (f buf)) (\<lambda>result.
     if result = -1 then ret_errno else retS result))))))"

definition elkvm_do_time :: "'w handlers \<Rightarrow> (('k, 'w) vm, u64) op" where
  "elkvm_do_time h = need (h_time (h_clock h)) (\<lambda>f.
     bindS unpack_syscall1 (\<lambda>time_p.
     bindS (host_p_or_null time_p) (\<lambda>t.
     call (f t))))"

definition elkvm_do_clock_gettime :: "'w handlers \<Rightarrow> (('k, 'w) vm, u64) op" where
  "elkvm_do_clock_gettime h = need (h_clock_gettime (h_clock h)) (\<lambda>f.
     bindS unpack_syscall2 (\<lambda>(clk_id, tp_p).
     bindS (assertS (tp_p \<noteq> 0)) (\<lambda>_.
     bindS (host_p tp_p) (\<lambda>tp.
     bindS (assertS (tp \<noteq> 0)) (\<lambda>_.
     call (f (ucast clk_id) tp))))))"

definition elkvm_do_clock_getres :: "'w handlers \<Rightarrow> (('k, 'w) vm, u64) op" where
  "elkvm_do_clock_getres h = need (h_clock_getres (h_clock h)) (\<lambda>f.
     bindS unpack_syscall2 (\<lambda>(clk_id, res_p).
     bindS (assertS (res_p \<noteq> 0)) (\<lambda>_.
     bindS (host_p res_p) (\<lambda>res.
     bindS (assertS (res \<noteq> 0)) (\<lambda>_.
     bindS (call (f (ucast clk_id) res)) (\<lambda>r. retS (scast r)))))))"

section \<open>Sockets and event polling\<close>

definition elkvm_do_socket :: "'w handlers \<Rightarrow> (('k, 'w) vm, u64) op" where
  "elkvm_do_socket h =
     bindS unpack_syscall3 (\<lambda>(domain, type, protocol).
     must (h_socket (h_net h)) (\<lambda>f. call (f (ucast domain) (ucast type) (ucast protocol))))"

definition elkvm_do_accept :: "'w handlers \<Rightarrow> (('k, 'w) vm, u64) op" where
  "elkvm_do_accept h =
     bindS unpack_syscall3 (\<lambda>(sock, a, len).
     bindS (host_p_or_null a) (\<lambda>local_addr.
     bindS (host_p_or_null len) (\<lambda>local_len.
     must (h_accept (h_net h)) (\<lambda>f. call (f (ucast sock) local_addr local_len)))))"

definition elkvm_do_bind :: "'w handlers \<Rightarrow> (('k, 'w) vm, u64) op" where
  "elkvm_do_bind h =
     bindS unpack_syscall3 (\<lambda>(sock, a, addrlen).
     bindS (host_p_or_null a) (\<lambda>local_addr.
     must (h_bind (h_net h)) (\<lambda>f. call (f (ucast sock) local_addr (ucast addrlen)))))"

definition elkvm_do_listen :: "'w handlers \<Rightarrow> (('k, 'w) vm, u64) op" where
  "elkvm_do_listen h =
     bindS unpack_syscall2 (\<lambda>(sock, backlog). must (h_listen (h_net h)) (\<lambda>f. call (f (ucast sock) (ucast backlog))))"

definition elkvm_do_getsockname :: "'w handlers \<Rightarrow> (('k, 'w) vm, u64) op" where
  "elkvm_do_getsockname h =
     bindS unpack_syscall3 (\<lambda>(sock, a, len).
     bindS (host_p_or_null a) (\<lambda>local_addr.
     bindS (host_p_or_null len) (\<lambda>local_len.
     must (h_getsockname (h_net h)) (\<lambda>f. call (f (ucast sock) local_addr local_len)))))"

definition elkvm_do_setsockopt :: "'w handlers \<Rightarrow> (('k, 'w) vm, u64) op" where
  "elkvm_do_setsockopt h =
     bindS unpack_syscall5 (\<lambda>(sock, lvl, optname, optval, optlen).
     bindS (host_p_or_null optval) (\<lambda>local_optval.
     must (h_setsockopt (h_net h)) (\<lambda>f. call (f (ucast sock) (ucast lvl) (ucast optname) local_optval (ucast optlen)))))"

definition elkvm_do_epoll_create :: "'w handlers \<Rightarrow> (('k, 'w) vm, u64) op" where
  "elkvm_do_epoll_create h =
     bindS unpack_syscall1 (\<lambda>sz. must (h_epoll_create (h_net h)) (\<lambda>f. call (f (ucast sz))))"

definition elkvm_do_epoll_wait :: "'w handlers \<Rightarrow> (('k, 'w) vm, u64) op" where
  "elkvm_do_epoll_wait h =
     bindS unpack_syscall4 (\<lambda>(epfd, events, maxev, timeout).
     bindS (host_p_or_null events) (\<lambda>local_events.
     must (h_epoll_wait (h_net h)) (\<lambda>f. call (f (ucast epfd) local_events (ucast maxev) (ucast timeout)))))"

definition elkvm_do_epoll_ctl :: "'w handlers \<Rightarrow> (('k, 'w) vm, u64) op" where
  "elkvm_do_epoll_ctl h =
     bindS unpack_syscall4 (\<lambda>(epfd, opc, fd, event).
     bindS (host_p_or_null event) (\<lambda>local_event.
     must (h_epoll_ctl (h_net h)) (\<lambda>f. call (f (ucast epfd) (ucast opc) (ucast fd) local_event))))"

end
