(* ===== verification/Vm_Run.thy ===== *)
theory Vm_Run
  imports Syscalls_Misc
begin

text \<open>
  The dispatch of hypercalls and system calls (\<^verbatim>\<open>src/src/syscall.cc\<close>), the handlers that pass calls on to the host
  (\<^verbatim>\<open>src/src/syscall_default.cc\<close>) and the loop that runs the machine (\<^verbatim>\<open>VM::run\<close> of \<^verbatim>\<open>src/src/vm.cc\<close>).
\<close>

section \<open>The table of system calls\<close>

text \<open>Entry \<open>n\<close> is the routine of system call number \<open>n\<close>.  The 210 routines of \<^verbatim>\<open>src/src/syscall-stubs.cc\<close> and
  \<^verbatim>\<open>src/src/syscalls-socket.cc\<close> that are not implemented have the same body.\<close>

definition elkvm_syscalls_low :: "('k, 'w) host \<Rightarrow> 'w handlers \<Rightarrow> (('k, 'w) vm, u64) op list" where
  "elkvm_syscalls_low host h =
     [elkvm_do_read h, elkvm_do_write h, elkvm_do_open h, elkvm_do_close h, elkvm_do_stat h, elkvm_do_fstat h,
     elkvm_do_lstat h, unimplemented_syscall, elkvm_do_lseek h, elkvm_do_mmap host h, elkvm_do_mprotect host,
     elkvm_do_munmap, elkvm_do_brk host, elkvm_do_sigaction host h, elkvm_do_sigprocmask h, unimplemented_syscall,
     elkvm_do_ioctl h, unimplemented_syscall, unimplemented_syscall, elkvm_do_readv h, elkvm_do_writev h,
     elkvm_do_access h, elkvm_do_pipe h, unimplemented_syscall, unimplemented_syscall, elkvm_do_mremap host] @ replicate
     6 unimplemented_syscall @ [elkvm_do_dup h, unimplemented_syscall, unimplemented_syscall, elkvm_do_nanosleep h] @
     replicate 3 unimplemented_syscall @ [elkvm_do_getpid h, unimplemented_syscall, elkvm_do_socket h,
     unimplemented_syscall, elkvm_do_accept h] @ replicate 5 unimplemented_syscall @ [elkvm_do_bind h, elkvm_do_listen
     h, elkvm_do_getsockname h, unimplemented_syscall, unimplemented_syscall, elkvm_do_setsockopt h] @ replicate 8
     unimplemented_syscall @ [elkvm_do_uname h] @ replicate 8 unimplemented_syscall @ [elkvm_do_fcntl h] @ replicate 3
     unimplemented_syscall @ [elkvm_do_truncate h, elkvm_do_ftruncate h, elkvm_do_getdents h, elkvm_do_getcwd h,
     elkvm_do_chdir h, elkvm_do_fchdir h, unimplemented_syscall, elkvm_do_mkdir h] @ replicate 3 unimplemented_syscall @
     [elkvm_do_unlink h, unimplemented_syscall, elkvm_do_readlink h] @ replicate 6 unimplemented_syscall @
     [elkvm_do_gettimeofday h, elkvm_do_getrlimit, elkvm_do_getrusage h, unimplemented_syscall, elkvm_do_times h,
     unimplemented_syscall, elkvm_do_getuid h, unimplemented_syscall, elkvm_do_getgid h, unimplemented_syscall,
     unimplemented_syscall, elkvm_do_geteuid h, elkvm_do_getegid h] @ replicate 28 unimplemented_syscall"

definition elkvm_syscalls_high :: "('k, 'w) host \<Rightarrow> 'w handlers \<Rightarrow> (('k, 'w) vm, u64) op list" where
  "elkvm_syscalls_high host h =
     [elkvm_do_statfs h, elkvm_do_fstatfs h] @ replicate 19 unimplemented_syscall @ [elkvm_do_arch_prctl host,
     unimplemented_syscall, elkvm_do_setrlimit h] @ replicate 25 unimplemented_syscall @ [elkvm_do_gettid h] @ replicate
     14 unimplemented_syscall @ [elkvm_do_time h, elkvm_do_futex h] @ replicate 10 unimplemented_syscall @
     [elkvm_do_epoll_create h] @ replicate 4 unimplemented_syscall @ [elkvm_do_set_tid_address h] @ replicate 9
     unimplemented_syscall @ [elkvm_do_clock_gettime h, elkvm_do_clock_getres h, unimplemented_syscall,
     elkvm_do_exit_group h, elkvm_do_epoll_wait h, elkvm_do_epoll_ctl h, elkvm_do_tgkill h] @ replicate 22
     unimplemented_syscall @ [elkvm_do_openat h] @ replicate 15 unimplemented_syscall @ [elkvm_do_set_robust_list h,
     unimplemented_syscall]"

definition elkvm_syscalls :: "('k, 'w) host \<Rightarrow> 'w handlers \<Rightarrow> (('k, 'w) vm, u64) op list" where
  "elkvm_syscalls host h = elkvm_syscalls_low host h @ elkvm_syscalls_high host h"

definition NUM_SYSCALLS :: u64 where "NUM_SYSCALLS = 313"
definition NR_exit_group :: u64 where "NR_exit_group = 231"
definition ELKVM_HYPERCALL_SYSCALL :: u64 where "ELKVM_HYPERCALL_SYSCALL = 1"
definition ELKVM_HYPERCALL_INTERRUPT :: u64 where "ELKVM_HYPERCALL_INTERRUPT = 2"
definition ELKVM_HYPERCALL_EXIT :: int where "ELKVM_HYPERCALL_EXIT = 0x42"

text \<open>The array has 313 entries of which those from 275 on are null; calling one, or the entry behind the last, is a fault.\<close>

definition syscall_routine :: "('k, 'w) host \<Rightarrow> 'w handlers \<Rightarrow> u64 \<Rightarrow> (('k, 'w) vm, u64) op" where
  "syscall_routine host h n =
     (if unat n < length (elkvm_syscalls host h :: (('k, 'w) vm, u64) op list) then elkvm_syscalls host h ! unat n else failS Fault)"

definition handle_syscall :: "('k, 'w) host \<Rightarrow> 'w handlers \<Rightarrow> nat \<Rightarrow> (('k, 'w) vm, int) op" where
  "handle_syscall host h i =
     bindS (vcpuS i) (\<lambda>v.
     bindS (liftS (get_parameter v 0)) (\<lambda>syscall_num.
     bindS (getS vm_debug) (\<lambda>dbg.
     if dbg \<and> NUM_SYSCALLS \<le> syscall_num then failS Fault
     else if NUM_SYSCALLS < syscall_num then
       bindS (set_syscall_return i (of_int (- ENOSYS))) (\<lambda>_. retS 0)
     else
       bindS (syscall_routine host h syscall_num) (\<lambda>result.
       if syscall_num = NR_exit_group then retS ELKVM_HYPERCALL_EXIT
       else bindS (set_syscall_return i result) (\<lambda>_. retS 0)))))"

section \<open>Hypercalls\<close>

text \<open>The monitor can watch a hypercall before and after it is processed; its functions may change the machine.\<close>

record ('k, 'w) hypercall_handlers =
  pre_handler :: "(nat \<Rightarrow> u64 \<Rightarrow> (('k, 'w) vm, u64) op) option"
  post_handler :: "(nat \<Rightarrow> u64 \<Rightarrow> (('k, 'w) vm, u64) op) option"

definition hypercall_null :: "('k, 'w) hypercall_handlers" where
  "hypercall_null = \<lparr>pre_handler = None, post_handler = None\<rparr>"

definition watch :: "(nat \<Rightarrow> u64 \<Rightarrow> (('k, 'w) vm, u64) op) option \<Rightarrow> nat \<Rightarrow> u64 \<Rightarrow> (('k, 'w) vm, unit) op" where
  "watch f i hc = (case f of None \<Rightarrow> retS () | Some g \<Rightarrow> bindS (g i hc) (\<lambda>_. retS ()))"

definition handle_hypercall ::
  "('k, 'w) host \<Rightarrow> ('k, 'w) hypercall_handlers \<Rightarrow> 'w handlers \<Rightarrow> nat \<Rightarrow> (('k, 'w) vm, int) op" where
  "handle_hypercall host hyp h i =
     bindS (get_hypercall_type i) (\<lambda>t.
     let hc = ucast t in
     bindS (watch (pre_handler hyp) i hc) (\<lambda>_.
     bindS (if hc = ELKVM_HYPERCALL_SYSCALL then handle_syscall host h i
            else if hc = ELKVM_HYPERCALL_INTERRUPT then handle_interrupt host i
            else retS 1) (\<lambda>err.
     if err \<noteq> 0 then retS err
     else
       bindS (watch (post_handler hyp) i hc) (\<lambda>_.
       bindS (elkvm_emulate_vmcall i) (\<lambda>_.
       bindS (signal_deliver host) (\<lambda>err.
       bindS (assertS (err = 0)) (\<lambda>_. retS 0)))))))"

text \<open>The call-back of a monitor for breakpoints, when there is one.\<close>

definition elkvm_handle_debug :: "(('k, 'w) vm, int) op option \<Rightarrow> (('k, 'w) vm, int) op" where
  "elkvm_handle_debug bp_callback = (case bp_callback of None \<Rightarrow> retS 0 | Some f \<Rightarrow> f)"

section \<open>Running\<close>

definition vm_set_regs :: "('k, 'w) host \<Rightarrow> nat \<Rightarrow> (('k, 'w) vm, int) op" where
  "vm_set_regs host i vm =
     Some (bindE (get_vcpu i vm) (\<lambda>v. let (err, v1) = vcpu_set_regs (host_kvm host) v in Inr (err, put_vcpu i v1 vm)))"

definition vm_get_regs :: "('k, 'w) host \<Rightarrow> nat \<Rightarrow> (('k, 'w) vm, int) op" where
  "vm_get_regs host i vm =
     Some (bindE (get_vcpu i vm) (\<lambda>v. let (err, v1) = vcpu_get_regs (host_kvm host) v in Inr (err, put_vcpu i v1 vm)))"

definition vm_vcpu_run :: "('k, 'w) host \<Rightarrow> nat \<Rightarrow> (('k, 'w) vm, int) op" where
  "vm_vcpu_run host i vm =
     Some (bindE (get_vcpu i vm) (\<lambda>v. let (r, v1, m) = run (host_kvm host) v (vm_mem vm) in Inr (r, put_vcpu i v1 (set_vm_mem m vm))))"

definition vm_handle_exit :: "('k, 'w) host \<Rightarrow> nat \<Rightarrow> (('k, 'w) vm, bool) op" where
  "vm_handle_exit host i vm =
     Some (bindE (get_vcpu i vm) (\<lambda>v. let (b, v1) = handle_vm_exit (host_kvm host) v in Inr (b, put_vcpu i v1 vm)))"

partial_function (option) vm_run ::
  "('k, 'w) host \<Rightarrow> ('k, 'w) hypercall_handlers \<Rightarrow> 'w handlers \<Rightarrow> ('k, 'w) vm \<Rightarrow> (int \<times> ('k, 'w) vm) res option" where
  "vm_run host hyp h vm =
     bindS (vm_set_regs host 0) (\<lambda>err vm.
     if err \<noteq> 0 then Some (Inr (err, vm))
     else
       bindS (vm_vcpu_run host 0) (\<lambda>exit_reason vm.
       if exit_reason < 0 then Some (Inr (exit_reason, vm))
       else
         bindS (vm_get_regs host 0) (\<lambda>err vm.
         if err \<noteq> 0 then Some (Inr (err, vm))
         else
           bindS (if exit_reason = hypercall_exit
                  then bindS (handle_hypercall host hyp h 0) (\<lambda>err. retS (err = 0))
                  else vm_handle_exit host 0) (\<lambda>is_running vm.
           if is_running then vm_run host hyp h vm else Some (Inr (0, vm))) vm) vm) vm) vm"

section \<open>Handlers that pass calls on\<close>

text \<open>The functions of the host, in the same shape as the handlers.  \<open>libc\<close> stands for the C library and the kernel.\<close>

definition allow_sigaction :: "u32 \<Rightarrow> hostptr \<Rightarrow> hostptr \<Rightarrow> ('w, u64) hcall" where
  "allow_sigaction signum act oldact = HCall (\<lambda>env. Inr (1, env))"

definition pass_fcntl :: "(u32 \<Rightarrow> u32 \<Rightarrow> u64 \<Rightarrow> ('w, u64) hcall) \<Rightarrow> u32 \<Rightarrow> u32 \<Rightarrow> u64 \<Rightarrow> ('w, u64) hcall" where
  "pass_fcntl fcntl fd cmd a =
     (if ucast cmd \<in> {F_GETOWN_EX, F_SETOWN_EX, F_GETLK, F_SETLK, F_SETLKW} then fcntl fd cmd a
      else fcntl fd cmd (scast (ucast a :: u32)))"

definition pass_exit_group :: "u32 \<Rightarrow> ('w, unit) hcall" where
  "pass_exit_group status = HCall (\<lambda>_. Inl (Exit (sint status)))"

definition default_handlers :: "'w handlers \<Rightarrow> 'w handlers" where
  "default_handlers libc = libc
     \<lparr>h_file := (h_file libc)\<lparr>h_poll := None, h_fcntl := map_option pass_fcntl (h_fcntl (h_file libc))\<rparr>,
      h_mem := (h_mem libc)\<lparr>h_mmap_before := None, h_mmap_after := None, h_mprotect := None\<rparr>,
      h_proc := (h_proc libc)\<lparr>h_sigaction := Some allow_sigaction, h_exit_group := Some pass_exit_group\<rparr>,
      h_clock := (h_clock libc)\<lparr>h_times := None\<rparr>\<rparr>"

end
