(* ===== verification/Frames.thy ===== *)
theory Frames
  imports Signals
begin

text \<open>
  The words on the guest stack.  A push that stays inside the mapped stack adds a word below the words of the stack and changes
  none of them, so the stack of a CPU refines a list of words; the frame of a signal is three such pushes.
\<close>

section \<open>Slots\<close>

definition stack_slot :: "stack \<Rightarrow> guestptr \<Rightarrow> bool" where
  "stack_slot st g \<longleftrightarrow> unat (stack_base st) \<le> unat g \<and> unat g + 8 \<le> 2 ^ 47 \<and> 8 dvd unat g"

lemma stack_slot_place:
  assumes inv: "stack_inv rm st" and s: "stack_slot st g"
  obtains i r where "i < length (stack_regions st)" "r + 8 \<le> 0x200000" "8 dvd r" "unat g + 0x200000 * Suc i = 2 ^ 47 + r"
    "host_of (rm_pager rm) g = reg_host_p (rm_store rm (stack_regions st ! i)) + of_nat r"
proof -
  define q r where "q = unat g div 0x200000" and "r = unat g mod 0x200000"
  define i where "i = 2 ^ 26 - 1 - q"
  let ?n = "length (stack_regions st)"
  have g: "unat (stack_base st) \<le> unat g" "unat g + 8 \<le> 2 ^ 47" "8 dvd unat g"
    using s by (simp_all add: stack_slot_def)
  have n: "?n < 2 ^ 26" "stack_base st = stack_addr ?n"
    using inv by (simp_all add: stack_inv_def)
  have g': "unat g = 0x200000 * q + r" "r < 0x200000"
    by (simp_all add: q_def r_def)
  have q: "q < 2 ^ 26"
    using g(2) g'(1) by simp
  have b: "2 ^ 47 - 0x200000 * ?n \<le> unat g"
    using g(1) unat_stack_addr [OF n(1)] n(2) by simp
  have i: "i < ?n" "2 ^ 47 - 0x200000 * Suc i = 0x200000 * q" "0x200000 * Suc i \<le> 2 ^ 47"
    using b g' q n(1) by (simp_all add: i_def)
  have d: "8 dvd r"
    unfolding r_def using g(3) by (rule dvd_mod) simp
  then obtain s where "r = 8 * s" ..
  then have r8: "r + 8 \<le> 0x200000"
    using g'(2) by simp
  have sr: "stack_region rm i (stack_regions st ! i)"
    using inv i(1) by (simp add: stack_inv_def)
  note D = stack_regionD [OF sr]
  have "unat (stack_addr (Suc i)) = 0x200000 * q"
    using unat_stack_addr [of "Suc i"] i(1,2) n(1) by simp
  moreover have "unat (of_nat r :: u64) = r"
    using g'(2) by (intro unat_of_nat_small) simp
  ultimately have "unat (stack_addr (Suc i) + of_nat r) = unat g"
    using g' g(2) by (simp add: unat_plus_if')
  then have "g = stack_addr (Suc i) + of_nat r"
    by (metis unsigned_word_eqI)
  then have "host_of (rm_pager rm) g = reg_host_p (rm_store rm (stack_regions st ! i)) + of_nat r"
    using D(5) g'(2) by simp
  moreover have "unat g + 0x200000 * Suc i = 2 ^ 47 + r"
    using i(2,3) g'(1) by linarith
  ultimately show ?thesis
    using that i(1) r8 d by blast
qed

lemma stack_regions_distinct:
  assumes inv: "stack_inv rm st" and i: "i < length (stack_regions st)" "j < length (stack_regions st)" "i \<noteq> j"
  shows "stack_regions st ! i \<noteq> stack_regions st ! j"
proof -
  have n: "length (stack_regions st) < 2 ^ 26"
    using inv by (simp add: stack_inv_def)
  have "stack_addr (Suc i) \<noteq> stack_addr (Suc j)"
  proof
    assume "stack_addr (Suc i) = stack_addr (Suc j)"
    then have "unat (stack_addr (Suc i)) = unat (stack_addr (Suc j))"
      by simp
    then show False
      using unat_stack_addr [of "Suc i"] unat_stack_addr [of "Suc j"] i n by simp
  qed
  then show ?thesis
    using inv i stack_regionD(4) unfolding stack_inv_def by metis
qed

lemma interval_apart:
  assumes "{a ..< a + n} \<inter> {b ..< b + n} = {}" "0 < (n :: nat)"
  shows "a + n \<le> b \<or> b + n \<le> a"
proof (rule ccontr)
  assume "\<not> (a + n \<le> b \<or> b + n \<le> a)"
  then have "max a b \<in> {a ..< a + n} \<inter> {b ..< b + n}"
    using assms(2) by auto
  then show False
    using assms(1) by simp
qed

lemma cells_apart_unat:
  assumes "unat (x :: u64) + 8 \<le> unat y \<and> unat y + 8 \<le> 2 ^ 64 \<or> unat y + 8 \<le> unat x \<and> unat x + 8 \<le> 2 ^ 64"
  shows "cells_apart x y"
proof -
  have *: "8 \<le> x - y \<and> 8 \<le> y - x" if "unat (x :: u64) + 8 \<le> unat y" "unat y + 8 \<le> 2 ^ 64" for x y
  proof -
    have "unat (y - x) = unat y - unat x"
      using that by (subst unat_sub) (simp_all add: word_le_nat_alt)
    moreover have "unat (x - y) = 2 ^ 64 - (unat y - unat x)"
      using that by (subst unat_sub_if') (simp add: word_le_nat_alt)
    ultimately show ?thesis
      using that unfolding word_le_nat_alt by (simp, linarith)
  qed
  then show ?thesis
    using assms *[of x y] *[of y x] by (auto simp: cells_apart_def)
qed

lemma stack_slots_apart:
  assumes inv: "stack_inv rm st" and ok: "mem_ok rm" and s: "stack_slot st g" "stack_slot st g'" and ne: "g \<noteq> g'"
  shows "cells_apart (host_of (rm_pager rm) g) (host_of (rm_pager rm) g')"
proof -
  obtain i r where i: "i < length (stack_regions st)" "r + 8 \<le> 0x200000" "8 dvd r" "unat g + 0x200000 * Suc i = 2 ^ 47 + r"
    "host_of (rm_pager rm) g = reg_host_p (rm_store rm (stack_regions st ! i)) + of_nat r"
    by (rule stack_slot_place [OF inv s(1)])
  obtain j t where j: "j < length (stack_regions st)" "t + 8 \<le> 0x200000" "8 dvd t" "unat g' + 0x200000 * Suc j = 2 ^ 47 + t"
    "host_of (rm_pager rm) g' = reg_host_p (rm_store rm (stack_regions st ! j)) + of_nat t"
    by (rule stack_slot_place [OF inv s(2)])
  show ?thesis
  proof (cases "i = j")
    case True
    then have "r \<noteq> t"
      using ne i(4) j(4) by (metis add_right_cancel unsigned_word_eqI)
    moreover obtain u v where "r = 8 * u" "t = 8 * v"
      using i(3) j(3) by (auto elim!: dvdE)
    ultimately have "r + 8 \<le> t \<or> t + 8 \<le> r"
      by auto
    then show ?thesis
      using cells_apart_off [of r t] i(2,5) j(2,5) True by simp
  next
    case False
    let ?a = "stack_regions st ! i" and ?b = "stack_regions st ! j"
    have rm: "rm_inv rm"
      using ok by (simp add: mem_ok_def mem_inv_def)
    have sr: "stack_region rm i ?a" "stack_region rm j ?b"
      using inv i(1) j(1) by (simp_all add: stack_inv_def)
    note A = stack_regionD [OF sr(1)] and B = stack_regionD [OF sr(2)]
    have sz: "unat (reg_size (rm_store rm ?a)) = 0x200000" "unat (reg_size (rm_store rm ?b)) = 0x200000"
      by (simp_all add: A(3) B(3) ELKVM_STACK_GROW_def)
    have wf: "region_wf (rm_store rm ?a)" "region_wf (rm_store rm ?b)"
      using allocated_wf [OF rm A(1)] allocated_wf [OF rm B(1)] .
    have h: "unat (host_of (rm_pager rm) g) = unat (reg_host_p (rm_store rm ?a)) + r"
        "unat (host_of (rm_pager rm) g') = unat (reg_host_p (rm_store rm ?b)) + t"
      using region_byte(1) [OF rm A(1), of r] region_byte(1) [OF rm B(1), of t] sz i(2,5) j(2,5) by simp_all
    have "region_block rm ?a \<inter> region_block rm ?b = {}"
      using allocated_apart [OF rm A(1) B(1) stack_regions_distinct [OF inv i(1) j(1) False]] by (simp add: region_block_def)
    then have "unat (reg_host_p (rm_store rm ?a)) + 0x200000 \<le> unat (reg_host_p (rm_store rm ?b))
        \<or> unat (reg_host_p (rm_store rm ?b)) + 0x200000 \<le> unat (reg_host_p (rm_store rm ?a))"
      unfolding region_block_def reg_bytes_def sz by (rule interval_apart) simp
    then show ?thesis
      using h i(2) j(2) wf sz by (intro cells_apart_unat) (auto simp: region_wf_def)
  qed
qed

section \<open>Words on the stack\<close>

definition stack_word :: "rmgr \<Rightarrow> guestptr \<Rightarrow> u64" where
  "stack_word rm g = read64 (pg_mem (rm_pager rm)) (host_of (rm_pager rm) g)"

text \<open>The regions, their guest addresses and all translations are the same.\<close>

definition same_layout :: "rmgr \<Rightarrow> rmgr \<Rightarrow> bool" where
  "same_layout rm rm' \<longleftrightarrow> rm_store rm' = rm_store rm \<and> allocated_regions rm' = allocated_regions rm
     \<and> host_of (rm_pager rm') = host_of (rm_pager rm) \<and> host_pml4_p (rm_pager rm') = host_pml4_p (rm_pager rm)"

lemma same_layout_trans: "same_layout rm rm1 \<Longrightarrow> same_layout rm1 rm2 \<Longrightarrow> same_layout rm rm2"
  by (simp add: same_layout_def)

lemma same_layout_stack: "same_layout rm rm' \<Longrightarrow> stack_inv rm' st = stack_inv rm st"
  by (simp add: same_layout_def stack_inv_def stack_region_def pager_region_def)

lemma stack_slot_nz:
  assumes "stack_inv rm st" "stack_slot st g"
  shows "page_begin g \<noteq> 0"
proof -
  have n: "length (stack_regions st) < 2 ^ 26"
    using assms(1) by (simp add: stack_inv_def)
  moreover have "2 ^ 47 - 0x200000 * length (stack_regions st) \<le> unat g"
    using assms unat_stack_addr [OF n] by (simp add: stack_inv_def stack_slot_def)
  ultimately have "0x1000 \<le> unat g"
    by simp
  then show ?thesis
    by (rule page_begin_stack)
qed

lemma vcpu_stack_same: "(vcpu_set_reg r x v)\<lparr>vcpu_stack := vcpu_stack v\<rparr> = vcpu_set_reg r x v"
  by (cases v) (simp add: vcpu_set_reg_def upd_kvm_def)

lemma push_word_mem:
  fixes v :: "'k vcpu"
  assumes ok: "mem_ok rm" and inv: "stack_inv rm (vcpu_stack v)" and g: "g = vcpu_get_reg v RSP - 8" "stack_slot (vcpu_stack v) g"
  obtains rm' where "push am ioctl rm v val = Inr (rm', vcpu_set_reg RSP g v)" "mem_ok rm'" "same_layout rm rm'"
    "stack_word rm' g = val" "\<And>g'. stack_slot (vcpu_stack v) g' \<Longrightarrow> g' \<noteq> g \<Longrightarrow> stack_word rm' g' = stack_word rm g'"
    "pg_mem (rm_pager rm') = write64 (pg_mem (rm_pager rm)) (host_of (rm_pager rm) g) val"
proof -
  have s: "unat (stack_base (vcpu_stack v)) \<le> unat g" "unat g + 8 \<le> 2 ^ 47" "8 dvd unat g"
    using g(2) by (simp_all add: stack_slot_def)
  note pb = stack_slot_nz [OF inv g(2)]
  obtain t where t: "translate rm g = Inr (host_of (rm_pager rm) g, set_tlb t rm)" "mem_ok (set_tlb t rm)"
    by (rule translate_ok [OF ok pb])
  have inv1: "stack_inv (set_tlb t rm) (vcpu_stack v)"
    using inv by simp
  obtain a where a: "a \<in> set (allocated_regions (set_tlb t rm))" "\<not> pager_region (set_tlb t rm) a" "host_of (rm_pager (set_tlb t rm)) g \<noteq> 0"
    "unat (host_of (rm_pager (set_tlb t rm)) g) + 8 \<le> 2 ^ 64"
    "{unat (host_of (rm_pager (set_tlb t rm)) g) ..< unat (host_of (rm_pager (set_tlb t rm)) g) + 8} \<subseteq> region_block (set_tlb t rm) a"
    by (rule stack_cell [OF inv1 t(2) s])
  define rm' where "rm' = store64 (set_tlb t rm) (host_of (rm_pager rm) g) val"
  note st = store64_ok [OF t(2) a(1,2,4,5), where val = val]
  have host: "host_of (rm_pager (set_tlb t rm)) = host_of (rm_pager rm)"
    by (simp add: set_tlb_def)
  show ?thesis
  proof (rule that)
    show "push am ioctl rm v val = Inr (rm', vcpu_set_reg RSP g v)"
      using t(1) a(3) g(1) host by (simp add: push_def pushq_def rm'_def Let_def vcpu_stack_same)
    show "mem_ok rm'" "same_layout rm rm'" "stack_word rm' g = val"
      using st host by (simp_all add: rm'_def same_layout_def stack_word_def store64_def)
    show "stack_word rm' g' = stack_word rm g'" if "stack_slot (vcpu_stack v) g'" "g' \<noteq> g" for g'
      using read64_write64_apart [OF stack_slots_apart [OF inv ok g(2) that(1)]] that(2) st(2) host
      by (simp add: rm'_def stack_word_def store64_def)
    show "pg_mem (rm_pager rm') = write64 (pg_mem (rm_pager rm)) (host_of (rm_pager rm) g) val"
      by (simp add: rm'_def store64_def)
  qed
qed

lemma push_word:
  fixes v :: "'k vcpu"
  assumes ok: "mem_ok rm" and inv: "stack_inv rm (vcpu_stack v)" and g: "g = vcpu_get_reg v RSP - 8" "stack_slot (vcpu_stack v) g"
  obtains rm' where "push am ioctl rm v val = Inr (rm', vcpu_set_reg RSP g v)" "mem_ok rm'" "same_layout rm rm'"
    "stack_word rm' g = val" "\<And>g'. stack_slot (vcpu_stack v) g' \<Longrightarrow> g' \<noteq> g \<Longrightarrow> stack_word rm' g' = stack_word rm g'"
  by (rule push_word_mem [OF assms]) (rule that)

lemma pop_word:
  fixes v :: "'k vcpu"
  assumes ok: "mem_ok rm" and inv: "stack_inv rm (vcpu_stack v)" and g: "g = vcpu_get_reg v RSP" "stack_slot (vcpu_stack v) g"
  obtains t where "pop rm v = Inr (stack_word rm g, set_tlb t rm, vcpu_set_reg RSP (g + 8) v)" "mem_ok (set_tlb t rm)"
    "same_layout rm (set_tlb t rm)" "\<And>g'. stack_word (set_tlb t rm) g' = stack_word rm g'"
proof -
  have s: "unat (stack_base (vcpu_stack v)) \<le> unat g" "unat g + 8 \<le> 2 ^ 47" "8 dvd unat g"
    using g(2) by (simp_all add: stack_slot_def)
  obtain t where t: "translate rm g = Inr (host_of (rm_pager rm) g, set_tlb t rm)" "mem_ok (set_tlb t rm)"
    by (rule translate_ok [OF ok stack_slot_nz [OF inv g(2)]])
  have nz: "host_of (rm_pager rm) g \<noteq> 0"
    using stack_cell [OF inv ok s] by metis
  have host: "host_of (rm_pager (set_tlb t rm)) = host_of (rm_pager rm)"
    by (simp add: set_tlb_def)
  show ?thesis
    by (rule that [of t])
      (use t nz host g(1) in \<open>simp_all add: pop_def popq_def Let_def stack_word_def same_layout_def\<close>)
qed

end
