(* ===== verification/Samples.thy ===== *)
theory Samples
  imports Memory_Props
begin

text \<open>The region manager of a fresh machine, evaluated: what its free list and its chunk are.  The witnesses of the
  properties start from it.\<close>

lemma search_lists_none: "(\<And>i. freelists rm i = []) \<Longrightarrow> search_lists n i rm sz = None"
  by (induction n arbitrary: i) simp_all

lemma search_lists_only:
  "i \<le> j \<Longrightarrow> j < i + n \<Longrightarrow> (\<And>k. k \<noteq> j \<Longrightarrow> freelists rm k = []) \<Longrightarrow> freelists rm j = [a] \<Longrightarrow> sz \<le> reg_size (rm_store rm a)
    \<Longrightarrow> search_lists n i rm sz = Some (j, a)"
proof (induction n arbitrary: i)
  case (Suc n)
  then show ?case
    by (cases "i = j") simp_all
qed simp

lemma set_pml4_chunks: "set_pml4 p b = Inr (x, p') \<Longrightarrow> chunks p' = chunks p \<and> guest_next_free p' = KERNEL_SPACE_BOTTOM
    \<and> pg_mem p' = memset (pg_mem p) b 0 ELKVM_SYSTEM_MEMSIZE \<and> host_pml4_p p' = b"
  by (cases "chunks p") (auto simp: set_pml4_def create_page_tables_def Let_def res_simps)

text \<open>A fresh manager has one free region: the first chunk without the 16 MiB of the page tables.\<close>

lemma fresh_manager_shape:
  assumes am: "am [] ELKVM_SYSTEM_MEMGROW = Inr h" and io: "\<forall>c. ioctl c = 0" and fd: "0 < fd"
    and run: "RegionManager am ioctl fd m TLB = Inr rm"
  shows "freelists rm 15 = [0]" "reg_size (rm_store rm 0) = 0x7000000" "guest_next_free (rm_pager rm) = KERNEL_SPACE_BOTTOM"
    "chunks (rm_pager rm) = [\<lparr>slot = 0, chunk_flags = 0, guest_phys_addr = 0, memory_size = ELKVM_SYSTEM_MEMGROW, userspace_addr = h\<rparr>]"
    "pg_mem (rm_pager rm) = memset m (reg_host_p (rm_store rm 1)) 0 ELKVM_SYSTEM_MEMSIZE" "host_pml4_p (rm_pager rm) = h"
proof -
  define p0 where "p0 = \<lparr>vmfd = fd, chunks = [], host_pml4_p = 0, host_next_free_tbl_p = 0,
             guest_next_free = NOT 0, total_memsz = 0, free_slots = [], pg_mem = m, pg_tlb = TLB\<rparr>"
  define rm0 where "rm0 = \<lparr>rm_store = (\<lambda>_. Region 0 0 ''''), rm_next = 0, allocated_regions = [], freelists = (\<lambda>_. []), rm_pager = p0\<rparr>"
  obtain rm1 where rm1: "add_chunk am ioctl rm0 0x1000000 ''ELKVM Pager Memory'' = Inr (0, rm1)"
    "rm_store rm1 0 = Region h 0x8000000 ''ELKVM Pager Memory''" "rm_next rm1 = 1"
    "freelists rm1 = (\<lambda>_. [])(15 := [0])" "pg_mem (rm_pager rm1) = m"
    "chunks (rm_pager rm1) = [\<lparr>slot = 0, chunk_flags = 0, guest_phys_addr = 0, memory_size = ELKVM_SYSTEM_MEMGROW, userspace_addr = h\<rparr>]"
    using am io
    by (simp add: rm0_def p0_def add_chunk_def create_mem_chunk_def grow_size_def ELKVM_SYSTEM_MEMGROW_def page_aligned_def
      ELKVM_PAGE_MASK_def ELKVM_PAGESIZE_def alloc_chunk_def map_chunk_to_kvm_def KVM_MEMORY_SLOTS_def make_region_def push_free_def get_freelist_idx_def)
  have idx: "get_freelist_idx 0x1000000 = 12"
    by (simp add: get_freelist_idx_def)
  have "freelists rm0 i = []" for i
    by (simp add: rm0_def)
  then have f0: "find_free_region rm0 0x1000000 = (None, rm0)"
    by (simp add: find_free_region_def search_lists_none)
  have "search_lists (n_freelists - 12) 12 rm1 0x1000000 = Some (15, 0)"
    by (rule search_lists_only) (simp_all add: n_freelists_def rm1 Region_def)
  then have f1: "find_free_region rm1 0x1000000 = (Some 0, rm1\<lparr>freelists := \<lambda>_. []\<rparr>)"
    by (simp add: find_free_region_def idx rm1 fun_upd_idem)
  obtain rm2 where rm2: "allocate_region am ioctl rm0 0x1000000 ''ELKVM Pager Memory'' = Inr (1, rm2)" "freelists rm2 15 = [0]" "reg_size (rm_store rm2 0) = 0x7000000"
    "rm_pager rm2 = rm_pager rm1" "reg_host_p (rm_store rm2 1) = h"
    using rm1(1)
    by (simp add: allocate_region_def f0 f1 carve_region_def rm1 Region_def pagesize_align_def slice_begin_def
        make_region_def update_region_def add_free_region_def use_region_def push_free_def get_freelist_idx_def set_used_def
        ELKVM_PAGE_MASK_def ELKVM_PAGESIZE_def next_page_def)
  obtain x p3 where p3: "set_pml4 (rm_pager rm2) (reg_host_p (rm_store rm2 1)) = Inr (x, p3)" "rm = rm2\<lparr>rm_pager := p3\<rparr>"
  proof -
    have "PagerX86_64 fd m TLB = Inr p0"
      using fd by (simp add: PagerX86_64_def p0_def)
    then show ?thesis
      using run rm2(1) that by (auto simp: RegionManager_def rm0_def [symmetric] ELKVM_PAGER_MEMSIZE_def res_simps)
  qed
  show "freelists rm 15 = [0]" "reg_size (rm_store rm 0) = 0x7000000" "guest_next_free (rm_pager rm) = KERNEL_SPACE_BOTTOM"
    "chunks (rm_pager rm) = [\<lparr>slot = 0, chunk_flags = 0, guest_phys_addr = 0, memory_size = ELKVM_SYSTEM_MEMGROW, userspace_addr = h\<rparr>]"
    "pg_mem (rm_pager rm) = memset m (reg_host_p (rm_store rm 1)) 0 ELKVM_SYSTEM_MEMSIZE" "host_pml4_p (rm_pager rm) = h"
    using set_pml4_chunks [OF p3(1)] rm1(5,6) rm2(2-5) by (simp_all add: p3(2))
qed

lemma sample_rm_shape:
  "freelists sample_rm 15 = [0]" "reg_size (rm_store sample_rm 0) = 0x7000000" "chunks (rm_pager sample_rm) = [sample_chunk]"
  "guest_next_free (rm_pager sample_rm) = KERNEL_SPACE_BOTTOM" "pg_mem (rm_pager sample_rm) = (\<lambda>_. 0)"
  using fresh_manager_shape [of sample_memalign "0x10000000" "\<lambda>_. 0" 3 "\<lambda>_. 0" sample_rm] sample_rm_facts(1)
  by (simp_all add: sample_memalign_def ELKVM_SYSTEM_MEMGROW_def sample_chunk_def memset_def)

end
