(* ===== verification/Vcpu_Props.thy ===== *)
theory Vcpu_Props
  imports Vcpu Samples
begin

text \<open>The properties of the virtual CPU and its stack.\<close>

lemma stack_below:
  assumes inv: "stack_inv rm st" and n: "Suc (length (stack_regions st)) < 2 ^ 26" and g: "unat (user_base st) \<le> unat g + 0x200000"
  shows "unat (stack_addr (Suc (length (stack_regions st)))) \<le> unat g"
  using assms unat_stack_addr [of "length (stack_regions st)"] unat_stack_addr [OF n]
  by (simp add: stack_inv_def user_base_def)

text \<open>C25. A value pushed on the stack of a CPU is popped again, also when the push has to expand the stack: the push
  succeeds, the pop returns the value and restores every register, the memory and stack invariants hold, and no
  translation of a guest address is lost.  The stack pointer is a multiple of eight in the user half, and the slot lies
  in the stack or in the 2 MiB below it.\<close>

theorem push_pop_roundtrip:
  assumes "mem_ok rm" "stack_inv rm (vcpu_stack v)" "memalign_ok am"
    and "g = vcpu_get_reg v RSP - 8" "8 dvd unat g" "unat g + 8 \<le> 2 ^ 47"
    and "unat (user_base (vcpu_stack v)) \<le> unat g
      \<or> host_of (rm_pager rm) g = 0 \<and> unat (user_base (vcpu_stack v)) \<le> unat g + 0x200000
        \<and> stack_room rm (vcpu_stack v) \<and> alloc_ready am ioctl rm ELKVM_STACK_GROW"
  shows "\<exists>rm1 v1 rm2 v2. push am ioctl rm v val = Inr (rm1, v1) \<and> mem_ok rm1 \<and> stack_inv rm1 (vcpu_stack v1)
    \<and> pop rm1 v1 = Inr (val, rm2, v2) \<and> mem_ok rm2 \<and> kvm_vcpu v2 = kvm_vcpu v
    \<and> (\<forall>b. host_of (rm_pager rm) b \<noteq> 0 \<longrightarrow> host_of (rm_pager rm1) b = host_of (rm_pager rm) b)"
proof -
  obtain rm1 st1 where p: "pushq am ioctl rm (vcpu_stack v) g val = Inr (0, rm1, st1)" "pushed rm g val rm1 st1"
  proof (cases "unat (user_base (vcpu_stack v)) \<le> unat g")
    case True
    show ?thesis
      by (rule pushq_mapped [OF assms(1,2) True [unfolded user_base_def] assms(6,5), of am ioctl val]) (rule that)
  next
    case False
    then have f: "host_of (rm_pager rm) g = 0" "unat (user_base (vcpu_stack v)) \<le> unat g + 0x200000"
        "stack_room rm (vcpu_stack v)" "alloc_ready am ioctl rm ELKVM_STACK_GROW"
      using assms(7) by simp_all
    have "Suc (length (stack_regions (vcpu_stack v))) < 2 ^ 26"
      using f(3) by (simp add: stack_room_def)
    from pushq_expands [OF assms(1,2,3) f(3,4,1) stack_below [OF assms(2) this f(2)] assms(6,5), of val] show ?thesis
      using that by blast
  qed
  then obtain rm2 where pop: "popq rm1 g = Inr (val, rm2)" "mem_ok rm2"
    by (auto simp: pushed_def)
  define v1 where "v1 = (vcpu_set_reg RSP g v)\<lparr>vcpu_stack := st1\<rparr>"
  have "push am ioctl rm v val = Inr (rm1, v1)"
    using p(1) assms(4) by (simp add: push_def v1_def)
  moreover have "pop rm1 v1 = Inr (val, rm2, vcpu_set_reg RSP (g + 8) v1)"
    using pop(1) by (simp add: pop_def v1_def)
  moreover have "kvm_vcpu (vcpu_set_reg RSP (g + 8) v1) = kvm_vcpu v"
    using assms(4) gpr.put_put gpr.put_get by (simp add: v1_def vcpu_set_reg_def upd_kvm_def vcpu_get_reg_def)
  moreover have "vcpu_stack v1 = st1"
    by (simp add: v1_def)
  ultimately show ?thesis
    using p(2) pop(2) unfolding pushed_def by metis
qed

definition sample_stack :: stack where
  "sample_stack = \<lparr>stack_regions = [], kernel_stack = None, stack_base = LINUX_64_STACK_BASE\<rparr>"

definition sample_vcpu :: "unit vcpu" where
  "sample_vcpu = \<lparr>is_singlestepping = False,
     kvm_vcpu = \<lparr>kv_fd = 4, kv_regs = zero_regs\<lparr>r_rsp := LINUX_64_STACK_BASE\<rparr>, kv_sregs = zero_sregs,
       kv_run = \<lparr>run_exit_reason = 0, run_hw_reason = 0\<rparr>, kv_debug_control = 0, kv_kernel = ()\<rparr>,
     vcpu_stack = sample_stack\<rparr>"

lemma sample_host_of: "host_of (rm_pager sample_rm) g = 0"
proof (cases "g = 0")
  case True
  then show ?thesis
    by (simp add: host_of_def walk_host_p_def page_table_walk_def)
next
  case False
  have "pt_inv (rm_pager sample_rm)"
    using sample_rm_facts(2) by (simp add: mem_ok_def mem_inv_def pager_ok_def)
  from host_of_view [OF this False] show ?thesis
    by (simp add: sample_rm_facts(3))
qed

lemma sample_stack_inv: "stack_inv rm sample_stack"
  by (simp add: stack_inv_def sample_stack_def stack_addr_def)

lemma sample_stack_room: "stack_room sample_rm sample_stack"
  by (simp add: stack_room_def sample_stack_def sample_rm_facts)

lemma sample_alloc_ready: "sz \<le> 0x7000000 \<Longrightarrow> alloc_ready sample_memalign ioctl sample_rm sz"
  unfolding alloc_ready_def free_ids_def
  by (rule disjI1, rule bexI [of _ 0]) (auto simp: sample_rm_shape n_freelists_def intro!: bexI [of _ 15])

theorem push_pop_roundtrip_witness:
  "\<exists>rm1 v1 rm2 v2. push sample_memalign (\<lambda>_. 0) sample_rm sample_vcpu 42 = Inr (rm1, v1) \<and> mem_ok rm1
    \<and> pop rm1 v1 = Inr (42, rm2, v2) \<and> kvm_vcpu v2 = kvm_vcpu sample_vcpu"
proof -
  have f: "vcpu_get_reg sample_vcpu RSP = 0x800000000000" "vcpu_stack sample_vcpu = sample_stack" "user_base sample_stack = 0x800000000000"
    by (simp_all add: sample_vcpu_def vcpu_get_reg_def sample_stack_def user_base_def LINUX_64_STACK_BASE_def)
  have "alloc_ready sample_memalign (\<lambda>_. 0) sample_rm ELKVM_STACK_GROW"
    by (rule sample_alloc_ready) (simp add: ELKVM_STACK_GROW_def)
  then have "\<exists>rm1 v1 rm2 v2. push sample_memalign (\<lambda>_. 0) sample_rm sample_vcpu 42 = Inr (rm1, v1) \<and> mem_ok rm1
    \<and> stack_inv rm1 (vcpu_stack v1) \<and> pop rm1 v1 = Inr (42, rm2, v2) \<and> mem_ok rm2 \<and> kvm_vcpu v2 = kvm_vcpu sample_vcpu
    \<and> (\<forall>b. host_of (rm_pager sample_rm) b \<noteq> 0 \<longrightarrow> host_of (rm_pager rm1) b = host_of (rm_pager sample_rm) b)"
    by (intro push_pop_roundtrip [where g = "0x7FFFFFFFFFF8"])
      (simp_all add: f sample_rm_facts(2) sample_stack_inv sample_stack_room sample_memalign_ok sample_host_of)
  then show ?thesis by blast
qed

definition user_mode_64 :: "'k kvm_vcpu \<Rightarrow> bool" where
  "user_mode_64 v \<longleftrightarrow> bit (get_reg v CR0) 0 \<and> bit (get_reg v CR0) 31 \<and> bit (get_reg v CR4) 5
     \<and> bit (get_reg v EFER) 8 \<and> bit (get_reg v EFER) 0 \<and> bit (get_reg v RFLAGS) 1
     \<and> sg_l (get_seg v CS) = 1 \<and> sg_db (get_seg v CS) = 0 \<and> bit (sg_type (get_seg v CS)) 3
     \<and> (\<forall>s \<in> {CS, SS}. sg_present (get_seg v s) = 1 \<and> sg_dpl (get_seg v s) = 3 \<and> sg_selector (get_seg v s) AND 3 = 3)"

lemma initialize_regs_puts:
  "initialize_regs v =
     seg.puts [(CS, mk_Segment 0x13 0x0 0xFFFFFFFF 0xb 0x1 0x3 0x0 0x1 0x1 0x1 0x0),
       (DS, mk_Segment 0x18 0x0 0xFFFFFFF 0x3 0x1 0x0 0x0 0x1 0x1 0x1 0x0),
       (ES, mk_Segment 0x0 0x0 0xFFFFF 0x3 0x1 0x0 0x0 0x1 0x0 0x0 0x0),
       (FS, mk_Segment 0x0 0x0 0xFFFFF 0x3 0x1 0x0 0x0 0x1 0x0 0x0 0x0),
       (GS, mk_Segment 0x0 0x10000 0xFFFFF 0x3 0x1 0x0 0x0 0x1 0x0 0x0 0x0),
       (TR, mk_Segment 0x0 0x0 0xFFFF 0xb 0x1 0x0 0x0 0x0 0x1 0x0 0x0),
       (LDT, mk_Segment 0x0 0x0 0xFFFF 0x2 0x1 0x0 0x0 0x0 0x0 0x0 0x0),
       (SS, mk_Segment 0xb 0x0 0xFFFFFFFF 0x3 0x1 0x3 0x0 0x1 0x1 0x1 0x0)]
     (gpr.puts [(RFLAGS, 0x2), (CR0, 0xE0000001), (CR2, 0), (CR3, 0), (CR4, 0x220), (CR8, 0), (EFER, 0x901),
       (APIC_BASE, 0xfee00900)] v)"
  by (simp add: initialize_regs_def Let_def seg.puts.simps gpr.puts.simps VCPU_CR0_FLAG_PAGING_def VCPU_CR0_FLAG_CACHE_DISABLE_def
      VCPU_CR0_FLAG_NOT_WRITE_THROUGH_def VCPU_CR0_FLAG_PROTECTED_def VCPU_CR4_FLAG_OSFXSR_def VCPU_CR4_FLAG_PAE_def
      VCPU_EFER_FLAG_NXE_def VCPU_EFER_FLAG_LME_def VCPU_EFER_FLAG_SCE_def del: set_reg.simps set_seg.simps)

lemma get_reg_seg_puts: "get_reg (seg.puts ws v) r = get_reg v r"
  by (induction ws arbitrary: v) simp_all

text \<open>C28. \<^verbatim>\<open>initialize_regs\<close> puts the CPU in 64-bit user mode: protection, paging, PAE, long mode and system calls are
  enabled, the code segment is a 64-bit segment, code and stack segment agree on privilege level 3, and the general
  purpose registers, the instruction pointer and the descriptor tables keep their values.\<close>

theorem initialize_regs_user_mode:
  "user_mode_64 (initialize_regs v)
    \<and> (r \<in> {RAX, RBX, RCX, RDX, RSI, RDI, RSP, RBP, R8, R9, R10, R11, R12, R13, R14, R15, RIP} \<longrightarrow>
         get_reg (initialize_regs v) r = get_reg v r)
    \<and> get_seg (initialize_regs v) GDT = get_seg v GDT \<and> get_seg (initialize_regs v) IDT = get_seg v IDT"
  unfolding initialize_regs_puts user_mode_64_def get_reg_seg_puts gpr.get_puts seg.get_puts get_seg_puts
  by (auto simp: seg_norm_def mk_Segment_def bit_numeral_rec)

theorem initialize_regs_user_mode_witness:
  "user_mode_64 (initialize_regs (kvm_vcpu sample_vcpu)) \<and> get_reg (initialize_regs (kvm_vcpu sample_vcpu)) RSP = LINUX_64_STACK_BASE"
  using initialize_regs_user_mode [of "kvm_vcpu sample_vcpu" RSP] by (simp add: sample_vcpu_def)

lemma small_pages:
  assumes q: "unat (x :: u64) = 4096 * q" "q < 2 ^ 36"
  shows "(scast (pages_from_size x) :: u64) < 200 \<longleftrightarrow> q mod 2 ^ 32 < 200"
proof -
  define w :: u32 where "w = ucast (x div 0x1000)"
  have "x AND 0xFFF = 0"
    using q by (simp add: page_simps and_mask_eq_0_iff)
  then have p: "pages_from_size x = w"
    by (simp add: pages_from_size_def ELKVM_PAGE_MASK_def ELKVM_PAGESIZE_def w_def)
  have "unat (x div 0x1000) = q"
    using q by (simp add: unat_div)
  then have w: "unat w = q mod 2 ^ 32"
    by (simp add: w_def unsigned_ucast_eq take_bit_nat_def)
  have low: "ucast (scast w :: u64) = w"
    by (rule bit_word_eqI) (auto simp: bit_simps)
  have "unat (scast w :: u64) = unat w" if "unat w < 2 ^ 31"
  proof -
    have "int (unat w) < int (2 ^ 31)"
      using that by (simp only: of_nat_less_iff)
    moreover have "- (2 ^ 31) \<le> uint w"
      by (rule order_trans [OF _ uint_ge_0]) simp
    ultimately have "sint w = uint w"
      by (simp add: sint_uint signed_take_bit_int_eq_self)
    then have "(scast w :: u64) = ucast w"
      by (simp add: scast_eq)
    then show ?thesis
      by (simp add: unsigned_ucast_eq take_bit_nat_eq_self unat_less_power [THEN less_le_trans])
  qed
  moreover have "unat w < 200" if "unat (scast w :: u64) < 200"
  proof -
    have "unat w = unat (scast w :: u64) mod 2 ^ 32"
      using arg_cong [OF low, of unat] by (simp add: unsigned_ucast_eq take_bit_nat_def)
    then show ?thesis
      using that by simp
  qed
  ultimately show ?thesis
    unfolding p word_less_nat_alt using w by auto
qed

text \<open>C29. When a page fault counts as growth of the stack: the address is at most the bottom of the stack, and the
  distance in pages, cut to 32 bits, is less than 200.  The cut is that of \<^verbatim>\<open>int pages_from_size\<close>, so an address
  16 TiB below the stack counts as well.\<close>

theorem is_stack_expansion_window:
  assumes "stack_inv rm st" "stack_regions st \<noteq> []"
  shows "is_stack_expansion rm st pfla =
    Inr (pfla \<le> user_base st \<and> (unat (user_base st) - unat (page_begin pfla)) div 4096 mod 2 ^ 32 < 200)"
proof -
  define n where "n = length (stack_regions st)"
  have n: "0 < n" "n < 2 ^ 26" "user_base st = stack_addr n"
    using assms by (simp_all add: n_def stack_inv_def user_base_def)
  have "stack_region rm (n - 1) (last (stack_regions st))"
    using assms n(1) by (simp add: stack_inv_def last_conv_nth n_def)
  then have top: "reg_addr (rm_store rm (last (stack_regions st))) = stack_addr n"
    using n(1) by (simp add: stack_region_def)
  have pb: "page_begin (stack_addr n) = stack_addr n"
    using stack_addr_aligned(1) [OF n(2)] by (simp add: page_aligned_def page_begin_def)
  show ?thesis
  proof (cases "pfla \<le> stack_addr n")
    case True
    have le: "unat (page_begin pfla) \<le> unat (stack_addr n)"
      using True unat_page_begin [of pfla] by (simp add: word_le_nat_alt)
    define q where "q = (unat (stack_addr n) - unat (page_begin pfla)) div 4096"
    have "4096 dvd unat (stack_addr n) - unat (page_begin pfla)"
      using stack_addr_aligned(1) [OF n(2)] page_aligned_page_begin [of pfla] by (simp add: page_aligned_iff dvd_diff_nat)
    then have "unat (stack_addr n - page_begin pfla) = 4096 * q"
      using le by (simp add: unat_sub word_le_nat_alt q_def)
    moreover have "q < 2 ^ 36"
      using unat_stack_addr [OF n(2)] by (simp add: q_def)
    ultimately show ?thesis
      using True assms(2) small_pages [of "stack_addr n - page_begin pfla" q]
      by (simp add: is_stack_expansion_def top pb n(3) q_def Let_def)
  next
    case False
    then show ?thesis
      using assms(2) by (simp add: is_stack_expansion_def top pb n(3) Let_def not_le)
  qed
qed

theorem is_stack_expansion_window_witness:
  "\<exists>rm st. expand sample_memalign (\<lambda>_. 0) sample_rm sample_stack = Inr (0, rm, st)
    \<and> is_stack_expansion rm st 0x7FFFFFDFF000 = Inr True \<and> is_stack_expansion rm st 0x7FFFFFC00000 = Inr False
    \<and> is_stack_expansion rm st 0x6FFFFFE00000 = Inr True"
proof -
  have g: "0 < ELKVM_STACK_GROW" "unat (total_memsz (rm_pager sample_rm)) + unat ELKVM_STACK_GROW + 0x8000000 \<le> 2 ^ 52"
    "ELKVM_STACK_GROW \<le> 0x7000000" "rm_inv sample_rm"
    using sample_rm_facts(2) by (simp_all add: ELKVM_STACK_GROW_def sample_rm_facts(5) mem_ok_def mem_inv_def)
  obtain a rm1 where al: "allocate_region sample_memalign (\<lambda>_. 0) sample_rm ELKVM_STACK_GROW ''ELKVM stack'' = Inr (a, rm1)"
    by (rule alloc_ready_total [OF g(4) sample_memalign_ok g(1,2) sample_alloc_ready [OF g(3)]])
  obtain rm st where e: "expand sample_memalign (\<lambda>_. 0) sample_rm sample_stack = Inr (0, rm, st)"
    "st = sample_stack\<lparr>stack_base := stack_addr (Suc (length (stack_regions sample_stack))), stack_regions := stack_regions sample_stack @ [a]\<rparr>"
    "stack_inv rm st"
    by (rule expand_ok [OF sample_rm_facts(2) sample_stack_inv sample_stack_room sample_memalign_ok al])
  have s: "stack_regions st \<noteq> []" "user_base st = 0x7FFFFFE00000"
    using e(2) by (simp_all add: user_base_def sample_stack_def stack_addr_def LINUX_64_STACK_BASE_def)
  have "is_stack_expansion rm st p = Inr (p \<le> 0x7FFFFFE00000 \<and> (unat (0x7FFFFFE00000 :: u64) - unat (page_begin p)) div 4096 mod 2 ^ 32 < 200)" for p
    using is_stack_expansion_window [OF e(3) s(1)] by (simp add: s(2))
  then show ?thesis
    using e(1) by (simp add: page_begin_def)
qed

end
