(* ===== verification/Descriptor_Props.thy ===== *)
theory Descriptor_Props
  imports Descriptor_Mem Vcpu_Props
begin

text \<open>
  The properties of the descriptor tables, with an instance of each on the region manager of a new machine.
\<close>

text \<open>C24. A segment descriptor stored in the table decodes to what it was made of: the base, the low 20 bits of the
  limit, the low 4 flag bits and the access byte; only its eight bytes change.  A base of 1 MiB or more is refused and
  nothing is stored.\<close>

theorem gdt_descriptor_roundtrip:
  "(if unat b < 2 ^ 20 then fst (elkvm_gdt_create_segment_descriptor m entry b limit access flags) = 0
      \<and> (let d = gdt_of_word (read64 (snd (elkvm_gdt_create_segment_descriptor m entry b limit access flags)) entry)
         in gdt_base d = b \<and> gdt_limit d = take_bit 20 limit \<and> gdt_flags d = take_bit 4 flags \<and> gd_access d = access)
    else elkvm_gdt_create_segment_descriptor m entry b limit access flags = (- EINVAL, m))
    \<and> (8 \<le> a - entry \<longrightarrow> snd (elkvm_gdt_create_segment_descriptor m entry b limit access flags) a = m a)"
  by (simp add: elkvm_gdt_create_segment_descriptor_def and_FFF00000 gdt_of_gdt_word segment_descriptor_fields write64_outside)

theorem gdt_descriptor_roundtrip_witness:
  "snd (elkvm_gdt_create_segment_descriptor (\<lambda>_. 7) 0x1000 0x12345 0xFFFFF 0x9A 0xA) 0x1008 = 7
    \<and> gdt_base (gdt_of_word (read64 (snd (elkvm_gdt_create_segment_descriptor (\<lambda>_. 7) 0x1000 0x12345 0xFFFFF 0x9A 0xA)) 0x1000)) = 0x12345"
  using gdt_descriptor_roundtrip [of "0x12345" "\<lambda>_. 7" "0x1000" "0xFFFFF" "0x9A" "0xA" "0x1008"] by (simp add: Let_def)

text \<open>C23. Setting up the interrupt table gives the guest a table of 48 long-mode trap gates in a new kernel page: read through
  the guest's page tables at the address loaded into the IDT register, gate \<open>i\<close> is present, enters the kernel code
  selector 0x30 with stack table 1 and jumps to the \<open>i\<close>-th nine-byte stub of the handler.  Memory stays
  well-formed and every address mapped before keeps its translation.\<close>

theorem elkvm_idt_setup_correct:
  assumes "mem_ok rm" "memalign_ok am" "alloc_ready am ioctl rm 4096" "unat (total_memsz (rm_pager rm)) + 4096 + 0x8000000 \<le> 2 ^ 52"
    "kernel_slots rm k" "k < 512" "tables_used (rm_pager rm) + 3 \<le> 4096" "handler \<in> set (allocated_regions rm)"
  shows "\<exists>rm' err v'. elkvm_idt_setup ops am ioctl rm v handler = Some (Inr (err, rm', v')) \<and> mem_ok rm'
    \<and> kernel_slots rm' (Suc k) \<and> vcpu_get_seg v' IDT = Segment_of (kernel_page k) 0xFFF
    \<and> (\<forall>i<48. let e = idt_entry_at rm' (kernel_page k) i in
         idt_entry_offset e = reg_addr (rm_store rm handler) + of_nat (9 * i) \<and> idt_selector e = 0x30 \<and> idt_idx e = 1
         \<and> bit (idt_flags e) 7 \<and> idt_flags e AND 0xF = 0xF)
    \<and> (\<forall>b. host_of (rm_pager rm) b \<noteq> 0 \<longrightarrow> host_of (rm_pager rm') b = host_of (rm_pager rm) b)"
proof -
  have e: "idt_selector (make_idt_entry x) = 0x30 \<and> idt_idx (make_idt_entry x) = 1 \<and> bit (idt_flags (make_idt_entry x)) 7
      \<and> idt_flags (make_idt_entry x) AND 0xF = 0xF" for x
    by (simp add: make_idt_entry_def INTERRUPT_ENTRY_PRESENT_def IT_TRAP_GATE_def IT_LONG_IDT_def)
  show ?thesis
    using idt_setup_correct [OF assms, of ops v] make_idt_entry_offset e unfolding Let_def by metis
qed

definition sample_ops :: "unit kvm_ops" where
  "sample_ops = \<lparr>op_get_regs = (\<lambda>_. Inr zero_regs), op_set_regs = (\<lambda>_ k. Inr k), op_get_sregs = (\<lambda>_. Inr zero_sregs),
     op_set_sregs = (\<lambda>_ k. Inr k), op_get_msrs = (\<lambda>_ _. (1, 0)), op_set_msrs = (\<lambda>_ _ k. (1, k)),
     op_set_guest_debug = (\<lambda>_ k. (0, k)), op_run = (\<lambda>k m. (-1, kv_run (kvm_vcpu sample_vcpu), m, k))\<rparr>"

lemma sample_kernel_slots: "kernel_slots sample_rm 0"
  by (simp add: kernel_slots_def sample_rm_shape(4) sample_rm_facts(3))

theorem elkvm_idt_setup_correct_witness:
  "\<exists>a rm' err v'. elkvm_idt_setup sample_ops sample_memalign (\<lambda>_. 0) sample_rm sample_vcpu a = Some (Inr (err, rm', v')) \<and> mem_ok rm'
    \<and> idt_entry_offset (idt_entry_at rm' KERNEL_SPACE_BOTTOM 14) = reg_addr (rm_store sample_rm a) + 126"
proof -
  obtain a where a: "a \<in> set (allocated_regions sample_rm)"
    using sample_rm_facts(6) by auto
  have r: "alloc_ready sample_memalign (\<lambda>_. 0) sample_rm 4096"
    by (rule sample_alloc_ready) simp
  obtain rm' err v' where e: "elkvm_idt_setup sample_ops sample_memalign (\<lambda>_. 0) sample_rm sample_vcpu a = Some (Inr (err, rm', v'))"
      "mem_ok rm'" "\<forall>i<48. idt_entry_offset (idt_entry_at rm' (kernel_page 0) i) = reg_addr (rm_store sample_rm a) + of_nat (9 * i)"
    using elkvm_idt_setup_correct [OF sample_rm_facts(2) sample_memalign_ok r _ sample_kernel_slots _ _ a, where ops = sample_ops and v = sample_vcpu]
    by (auto simp: sample_rm_facts(4,5) Let_def)
  have "reg_addr (rm_store sample_rm a) + of_nat (9 * 14) = reg_addr (rm_store sample_rm a) + 126" "kernel_page 0 = KERNEL_SPACE_BOTTOM"
    by (simp_all add: kernel_page_def)
  then show ?thesis
    using e(1,2) e(3) [rule_format, of 14] by (intro exI conjI) simp_all
qed

end
