(* ===== verification/Signal_Props.thy ===== *)
theory Signal_Props
  imports Frames Descriptor_Props
begin

text \<open>The properties of signals and interrupts.\<close>

section \<open>The machine and its stack\<close>

definition vm_ok :: "('k, 'w) vm \<Rightarrow> bool" where
  "vm_ok vm \<longleftrightarrow> vm_cpus vm \<noteq> [] \<and> mem_ok (vm_rm vm) \<and> stack_inv (vm_rm vm) (vcpu_stack (hd (vm_cpus vm)))"

definition set_cpu :: "'k vcpu \<Rightarrow> rmgr \<Rightarrow> ('k, 'w) vm \<Rightarrow> ('k, 'w) vm" where
  "set_cpu v rm vm = put_vcpu 0 v (set_vm_rm rm vm)"

lemma get_vcpu_0: "vm_cpus vm \<noteq> [] \<Longrightarrow> get_vcpu 0 vm = Inr (hd (vm_cpus vm))"
  by (simp add: get_vcpu_def hd_conv_nth)

lemma set_cpu_fields [simp]:
  "vm_rm (set_cpu v rm vm) = rm" "vm_cpus (set_cpu v rm vm) = (vm_cpus vm)[0 := v]"
  "vm_sigs (set_cpu v rm vm) = vm_sigs vm" "vm_cleanup (set_cpu v rm vm) = vm_cleanup vm"
  "pending_signals (set_cpu v rm vm) = pending_signals vm" "num_pending_signals (set_cpu v rm vm) = num_pending_signals vm"
  "vm_debug (set_cpu v rm vm) = vm_debug vm"
  "set_cpu v2 rm2 (set_cpu v1 rm1 vm) = set_cpu v2 rm2 vm"
  by (simp_all add: set_cpu_def put_vcpu_def set_vm_rm_def vm_rm_def set_rm_def)

lemma bind_cpu:
  assumes "vm_cpus vm \<noteq> []"
  shows "bindS (vcpuS 0) f vm = f (hd (vm_cpus vm)) vm" "bindS (vm_get_reg 0 r) g vm = g (vcpu_get_reg (hd (vm_cpus vm)) r) vm"
    "bindS (vm_set_reg 0 r x) h vm = h () (set_cpu (vcpu_set_reg r x (hd (vm_cpus vm))) (vm_rm vm) vm)"
  using assms by (simp_all add: bindS_def vcpuS_def vm_get_reg_def vm_set_reg_def get_vcpu_0 set_cpu_def set_vm_rm_def vm_rm_def set_rm_def)

lemma hd_update: "xs \<noteq> [] \<Longrightarrow> hd (xs[0 := x]) = x"
  by (cases xs) simp_all

lemma vm_push_word:
  assumes ok: "vm_ok vm" and v: "hd (vm_cpus vm) = v" and g: "g = vcpu_get_reg v RSP - 8" "stack_slot (vcpu_stack v) g"
  obtains rm' where "vm_push host 0 val vm = Some (Inr ((), set_cpu (vcpu_set_reg RSP g v) rm' vm))"
    "vm_ok (set_cpu (vcpu_set_reg RSP g v) rm' vm)" "same_layout (vm_rm vm) rm'" "stack_word rm' g = val"
    "\<And>g'. stack_slot (vcpu_stack v) g' \<Longrightarrow> g' \<noteq> g \<Longrightarrow> stack_word rm' g' = stack_word (vm_rm vm) g'"
proof -
  have o: "vm_cpus vm \<noteq> []" "mem_ok (vm_rm vm)" "stack_inv (vm_rm vm) (vcpu_stack v)"
    using ok v by (simp_all add: vm_ok_def)
  obtain rm' where r: "push (host_memalign host) (host_set_region host) (vm_rm vm) v val = Inr (rm', vcpu_set_reg RSP g v)"
    "mem_ok rm'" "same_layout (vm_rm vm) rm'" "stack_word rm' g = val"
    "\<And>g'. stack_slot (vcpu_stack v) g' \<Longrightarrow> g' \<noteq> g \<Longrightarrow> stack_word rm' g' = stack_word (vm_rm vm) g'"
    by (rule push_word [OF o(2,3) g]) (rule that)
  have "vm_ok (set_cpu (vcpu_set_reg RSP g v) rm' vm)"
    using o r(2) same_layout_stack [OF r(3)] by (simp add: vm_ok_def hd_update)
  then show ?thesis
    using that [of rm'] r o(1) v by (simp add: vm_push_def get_vcpu_0 set_cpu_def)
qed

text \<open>Three words pushed one after the other.\<close>

lemma vm_push_three:
  assumes ok: "vm_ok vm" and v: "hd (vm_cpus vm) = v" and rsp: "rsp = vcpu_get_reg v RSP" and st: "st = vcpu_stack v"
    and s: "stack_slot st (rsp - 8)" "stack_slot st (rsp - 16)" "stack_slot st (rsp - 24)"
  obtains rm1 rm2 rm3 where
    "vm_push host 0 x vm = Some (Inr ((), set_cpu (vcpu_set_reg RSP (rsp - 8) v) rm1 vm))"
    "vm_push host 0 y (set_cpu (vcpu_set_reg RSP (rsp - 8) v) rm1 vm) = Some (Inr ((), set_cpu (vcpu_set_reg RSP (rsp - 16) v) rm2 vm))"
    "vm_push host 0 z (set_cpu (vcpu_set_reg RSP (rsp - 16) v) rm2 vm) = Some (Inr ((), set_cpu (vcpu_set_reg RSP (rsp - 24) v) rm3 vm))"
    "vm_ok (set_cpu (vcpu_set_reg RSP (rsp - 24) v) rm3 vm)" "same_layout (vm_rm vm) rm1" "same_layout rm1 rm2" "same_layout rm2 rm3"
    "stack_word rm3 (rsp - 8) = x" "stack_word rm3 (rsp - 16) = y" "stack_word rm3 (rsp - 24) = z"
    "\<And>g. stack_slot st g \<Longrightarrow> g \<noteq> rsp - 8 \<Longrightarrow> g \<noteq> rsp - 16 \<Longrightarrow> g \<noteq> rsp - 24 \<Longrightarrow> stack_word rm3 g = stack_word (vm_rm vm) g"
proof -
  have cp: "vm_cpus vm \<noteq> []"
    using ok by (simp add: vm_ok_def)
  obtain rm1 where p1: "vm_push host 0 x vm = Some (Inr ((), set_cpu (vcpu_set_reg RSP (rsp - 8) v) rm1 vm))"
    "vm_ok (set_cpu (vcpu_set_reg RSP (rsp - 8) v) rm1 vm)" "same_layout (vm_rm vm) rm1" "stack_word rm1 (rsp - 8) = x"
    "\<And>g'. stack_slot (vcpu_stack v) g' \<Longrightarrow> g' \<noteq> rsp - 8 \<Longrightarrow> stack_word rm1 g' = stack_word (vm_rm vm) g'"
    by (rule vm_push_word [OF ok v, of "rsp - 8" host x]) (simp add: rsp, use s(1) st in simp, rule that)
  define vm1 where "vm1 = set_cpu (vcpu_set_reg RSP (rsp - 8) v) rm1 vm"
  have h1: "hd (vm_cpus vm1) = vcpu_set_reg RSP (rsp - 8) v"
    using cp by (simp add: vm1_def hd_update)
  obtain rm2 where p2: "vm_push host 0 y vm1 = Some (Inr ((), set_cpu (vcpu_set_reg RSP (rsp - 16) (vcpu_set_reg RSP (rsp - 8) v)) rm2 vm1))"
    "vm_ok (set_cpu (vcpu_set_reg RSP (rsp - 16) (vcpu_set_reg RSP (rsp - 8) v)) rm2 vm1)" "same_layout (vm_rm vm1) rm2" "stack_word rm2 (rsp - 16) = y"
    "\<And>g'. stack_slot (vcpu_stack (vcpu_set_reg RSP (rsp - 8) v)) g' \<Longrightarrow> g' \<noteq> rsp - 16 \<Longrightarrow> stack_word rm2 g' = stack_word (vm_rm vm1) g'"
    by (rule vm_push_word [OF p1(2) [folded vm1_def] h1, of "rsp - 16" host y]) (simp, use s(2) st in simp, rule that)
  note p2 = p2 [unfolded vm1_def, simplified]
  define vm2 where "vm2 = set_cpu (vcpu_set_reg RSP (rsp - 16) v) rm2 vm"
  have h2: "hd (vm_cpus vm2) = vcpu_set_reg RSP (rsp - 16) v"
    using cp by (simp add: vm2_def hd_update)
  obtain rm3 where p3: "vm_push host 0 z vm2 = Some (Inr ((), set_cpu (vcpu_set_reg RSP (rsp - 24) (vcpu_set_reg RSP (rsp - 16) v)) rm3 vm2))"
    "vm_ok (set_cpu (vcpu_set_reg RSP (rsp - 24) (vcpu_set_reg RSP (rsp - 16) v)) rm3 vm2)" "same_layout (vm_rm vm2) rm3" "stack_word rm3 (rsp - 24) = z"
    "\<And>g'. stack_slot (vcpu_stack (vcpu_set_reg RSP (rsp - 16) v)) g' \<Longrightarrow> g' \<noteq> rsp - 24 \<Longrightarrow> stack_word rm3 g' = stack_word (vm_rm vm2) g'"
    by (rule vm_push_word [OF p2(2) [folded vm2_def] h2, of "rsp - 24" host z]) (simp, use s(3) st in simp, rule that)
  note p3 = p3 [unfolded vm2_def, simplified]
  have d: "rsp - 8 \<noteq> rsp - 16" "rsp - 8 \<noteq> rsp - 24" "rsp - 16 \<noteq> rsp - 24"
    by (simp_all add: diff_eq_eq)
  show ?thesis
    by (rule that [OF p1(1) p2(1) p3(1,2) p1(3) p2(3) p3(3)])
      (use p1(4,5) p2(4,5) p3(4,5) s d st in simp_all)
qed

text \<open>C30. Delivering a pending signal takes the one caught last, and builds the frame of its handler: three words are pushed, the
  old \<^verbatim>\<open>rax\<close>, the address of the clean-up code and on top the handler, the signal number is passed in \<^verbatim>\<open>rdi\<close>, and no other
  register and no other word of the stack changes.\<close>

theorem signal_deliver_frame:
  assumes "vm_ok vm" "0 < num_pending_signals vm" "nat (num_pending_signals vm) \<le> length (pending_signals vm)"
    and "signum = pending_signals vm ! nat (num_pending_signals vm - 1)" "0 \<le> signum" "nat signum < length (vm_sigs vm)"
    and "flat_region (vm_cleanup vm) = Some c" "st = vcpu_stack (hd (vm_cpus vm))" "rsp = vcpu_get_reg (hd (vm_cpus vm)) RSP"
    and "stack_slot st (rsp - 8)" "stack_slot st (rsp - 16)" "stack_slot st (rsp - 24)"
  shows "\<exists>vm'. signal_deliver host vm = Some (Inr (0, vm')) \<and> vm_ok vm' \<and> num_pending_signals vm' = num_pending_signals vm - 1
    \<and> stack_word (vm_rm vm') (rsp - 24) = sa_handler (vm_sigs vm ! nat signum)
    \<and> stack_word (vm_rm vm') (rsp - 16) = reg_addr (rm_store (vm_rm vm) c)
    \<and> stack_word (vm_rm vm') (rsp - 8) = vcpu_get_reg (hd (vm_cpus vm)) RAX
    \<and> vcpu_get_reg (hd (vm_cpus vm')) RSP = rsp - 24 \<and> vcpu_get_reg (hd (vm_cpus vm')) RDI = of_int signum
    \<and> (\<forall>r. r \<noteq> RSP \<longrightarrow> r \<noteq> RDI \<longrightarrow> vcpu_get_reg (hd (vm_cpus vm')) r = vcpu_get_reg (hd (vm_cpus vm)) r)
    \<and> (\<forall>g. stack_slot st g \<longrightarrow> g \<noteq> rsp - 8 \<longrightarrow> g \<noteq> rsp - 16 \<longrightarrow> g \<noteq> rsp - 24
         \<longrightarrow> stack_word (vm_rm vm') g = stack_word (vm_rm vm) g)"
proof -
  let ?n = "num_pending_signals vm" and ?v = "hd (vm_cpus vm)"
  define vm0 where "vm0 = vm\<lparr>num_pending_signals := ?n - 1\<rparr>"
  have f0: "vm_cpus vm0 = vm_cpus vm" "vm_rm vm0 = vm_rm vm" "vm_sigs vm0 = vm_sigs vm" "vm_cleanup vm0 = vm_cleanup vm"
      "pending_signals vm0 = pending_signals vm" "num_pending_signals vm0 = ?n - 1"
    by (simp_all add: vm0_def vm_rm_def)
  have cp: "vm_cpus vm \<noteq> []"
    using assms(1) by (simp add: vm_ok_def)
  have ok0: "vm_ok vm0"
    using assms(1) f0 by (simp add: vm_ok_def)
  define ca ha where "ca = reg_addr (rm_store (vm_rm vm) c)" and "ha = sa_handler (vm_sigs vm ! nat signum)"
  obtain rm1 rm2 rm3 where p: "vm_push host 0 (vcpu_get_reg ?v RAX) vm0 = Some (Inr ((), set_cpu (vcpu_set_reg RSP (rsp - 8) ?v) rm1 vm0))"
    "vm_push host 0 ca (set_cpu (vcpu_set_reg RSP (rsp - 8) ?v) rm1 vm0) = Some (Inr ((), set_cpu (vcpu_set_reg RSP (rsp - 16) ?v) rm2 vm0))"
    "vm_push host 0 ha (set_cpu (vcpu_set_reg RSP (rsp - 16) ?v) rm2 vm0) = Some (Inr ((), set_cpu (vcpu_set_reg RSP (rsp - 24) ?v) rm3 vm0))"
    "vm_ok (set_cpu (vcpu_set_reg RSP (rsp - 24) ?v) rm3 vm0)" "same_layout (vm_rm vm0) rm1" "same_layout rm1 rm2" "same_layout rm2 rm3"
    "stack_word rm3 (rsp - 8) = vcpu_get_reg ?v RAX" "stack_word rm3 (rsp - 16) = ca" "stack_word rm3 (rsp - 24) = ha"
    "\<And>g. stack_slot st g \<Longrightarrow> g \<noteq> rsp - 8 \<Longrightarrow> g \<noteq> rsp - 16 \<Longrightarrow> g \<noteq> rsp - 24 \<Longrightarrow> stack_word rm3 g = stack_word (vm_rm vm0) g"
    by (rule vm_push_three [OF ok0 _ assms(9,8,10-12)]) (simp add: f0(1), rule that)
  define vm' where "vm' = set_cpu (vcpu_set_reg RDI (of_int signum) (vcpu_set_reg RSP (rsp - 24) ?v)) rm3 vm0"
  have "signal_deliver host vm = Some (Inr (0, vm'))"
  proof -
    have ni: "\<not> ?n \<le> 0" "nat (?n - 1) < length (pending_signals vm)"
      using assms(2,3) by (simp_all add: nat_less_iff)
    have lay: "rm_store rm1 = rm_store (vm_rm vm)"
      using p(5) f0(2) by (simp add: same_layout_def)
    have step: "signal_deliver host vm =
        bindS (vm_push host 0 (vcpu_get_reg ?v RAX)) (\<lambda>_. bindS (getS cleanup_address) (\<lambda>r. bindS (liftS r) (\<lambda>c.
        bindS (vm_push host 0 c) (\<lambda>_. bindS (getS (get_sig signum)) (\<lambda>r. bindS (liftS r) (\<lambda>sa.
        bindS (vm_push host 0 (sa_handler sa)) (\<lambda>_. bindS (vm_set_reg 0 RDI (of_int signum)) (\<lambda>_. retS 0)))))))) vm0"
      using ni assms(4) cp f0(1,5) by (simp add: signal_deliver_def bind_cpu vm0_def)
    have b: "bindS (vm_push host 0 (vcpu_get_reg ?v RAX)) f vm0 = f () (set_cpu (vcpu_set_reg RSP (rsp - 8) ?v) rm1 vm0)"
        "bindS (vm_push host 0 ca) f (set_cpu (vcpu_set_reg RSP (rsp - 8) ?v) rm1 vm0) = f () (set_cpu (vcpu_set_reg RSP (rsp - 16) ?v) rm2 vm0)"
        "bindS (vm_push host 0 ha) f (set_cpu (vcpu_set_reg RSP (rsp - 16) ?v) rm2 vm0) = f () (set_cpu (vcpu_set_reg RSP (rsp - 24) ?v) rm3 vm0)"
      for f :: "unit \<Rightarrow> (('a, 'b) vm, int) op"
      by (rule bindS_eq, rule p)+
    show ?thesis
      unfolding step b
      using lay assms(5-7) f0(3,4) cp f0(1) b(2) [unfolded ca_def] b(3) [unfolded ha_def]
      by (simp add: cleanup_address_def get_sig_def bind_cpu hd_update vm'_def retS_def)
  qed
  moreover have "vm_ok vm'"
    using p(4) cp f0(1) by (simp add: vm_ok_def vm'_def hd_update)
  ultimately show ?thesis
    using p(8-11) cp f0 by (intro exI [of _ vm'] conjI allI impI) (simp_all add: vm'_def hd_update ca_def ha_def)
qed

definition sample_host :: "(unit, unit) host" where
  "sample_host = \<lparr>host_memalign = sample_memalign, host_set_region = (\<lambda>_. 0), host_kvm = sample_ops,
     host_fs = \<lparr>lseek_cur = (\<lambda>_. 0), lseek_set = (\<lambda>_ off. off), read_at = (\<lambda>_ _ _. [])\<rparr>, host_sigaction = (\<lambda>_ w. (0, w))\<rparr>"

definition sample_vm :: "rmgr \<Rightarrow> stack \<Rightarrow> (unit, unit) vm" where
  "sample_vm rm st = \<lparr>vm_cpus = [sample_vcpu\<lparr>vcpu_stack := st\<rparr>], vm_debug = False, vm_gdt = None, vm_heap = HeapManager rm, vm_fd = 3,
     vm_argc = 0, vm_argv = 0, vm_environ = 0, vm_run_struct_size = 0, vm_rlimits = replicate 16 (0, 0),
     vm_sigs = replicate 65 (1 # replicate 151 0), vm_cleanup = \<lparr>flat_region = Some 1, flat_size = 0\<rparr>,
     pending_signals = 10 # replicate 31 0, num_pending_signals = 1, vm_errno = 0, vm_world = ()\<rparr>"

lemma sample_expanded:
  obtains rm st where "expand sample_memalign (\<lambda>_. 0) sample_rm sample_stack = Inr (0, rm, st)" "mem_ok rm" "stack_inv rm st"
    "stack_base st = 0x7FFFFFE00000"
proof -
  have r: "alloc_ready sample_memalign (\<lambda>_. 0) sample_rm ELKVM_STACK_GROW"
    by (rule sample_alloc_ready) (simp add: ELKVM_STACK_GROW_def)
  have "rm_inv sample_rm"
    using sample_rm_facts(2) by (simp add: mem_ok_def mem_inv_def)
  then obtain a rm1 where al: "allocate_region sample_memalign (\<lambda>_. 0) sample_rm ELKVM_STACK_GROW ''ELKVM stack'' = Inr (a, rm1)"
    by (rule alloc_ready_total [OF _ sample_memalign_ok _ _ r]) (simp_all add: ELKVM_STACK_GROW_def sample_rm_facts(5))
  obtain rm' st' where e: "expand sample_memalign (\<lambda>_. 0) sample_rm sample_stack = Inr (0, rm', st')"
    "st' = sample_stack\<lparr>stack_base := stack_addr (Suc (length (stack_regions sample_stack))), stack_regions := stack_regions sample_stack @ [a]\<rparr>"
    "placed sample_rm ELKVM_STACK_GROW (stack_addr (Suc (length (stack_regions sample_stack)))) a rm'" "stack_inv rm' st'"
    by (rule expand_ok [OF sample_rm_facts(2) sample_stack_inv sample_stack_room sample_memalign_ok al])
  show ?thesis
    using that [OF e(1) placedD(1) [OF e(3)] e(4)] e(2) by (simp add: sample_stack_def stack_addr_def LINUX_64_STACK_BASE_def)
qed

lemma sample_vm_ok: "mem_ok rm \<Longrightarrow> stack_inv rm st \<Longrightarrow> vm_ok (sample_vm rm st)"
  by (simp add: vm_ok_def sample_vm_def vm_rm_def HeapManager_def)

theorem signal_deliver_frame_witness:
  "\<exists>rm st vm'. vm_ok (sample_vm rm st) \<and> signal_deliver sample_host (sample_vm rm st) = Some (Inr (0, vm'))
    \<and> stack_word (vm_rm vm') 0x7FFFFFFFFFE8 = 1 \<and> vcpu_get_reg (hd (vm_cpus vm')) RDI = 10"
proof -
  obtain rm st where s: "mem_ok rm" "stack_inv rm st" "stack_base st = 0x7FFFFFE00000"
    using sample_expanded by metis
  have slot: "stack_slot st g" if "unat g + 8 \<le> 2 ^ 47" "8 dvd unat g" "0x7FFFFFE00000 \<le> unat g" for g
    using that s(3) by (simp add: stack_slot_def)
  have rsp: "vcpu_get_reg (hd (vm_cpus (sample_vm rm st))) RSP = 0x800000000000"
    by (simp add: sample_vm_def sample_vcpu_def vcpu_get_reg_def LINUX_64_STACK_BASE_def)
  have "\<exists>vm'. signal_deliver sample_host (sample_vm rm st) = Some (Inr (0, vm')) \<and> vm_ok vm' \<and> num_pending_signals vm' = num_pending_signals (sample_vm rm st) - 1
    \<and> stack_word (vm_rm vm') (0x800000000000 - 24) = sa_handler (vm_sigs (sample_vm rm st) ! nat 10)
    \<and> stack_word (vm_rm vm') (0x800000000000 - 16) = reg_addr (rm_store (vm_rm (sample_vm rm st)) 1)
    \<and> stack_word (vm_rm vm') (0x800000000000 - 8) = vcpu_get_reg (hd (vm_cpus (sample_vm rm st))) RAX
    \<and> vcpu_get_reg (hd (vm_cpus vm')) RSP = 0x800000000000 - 24 \<and> vcpu_get_reg (hd (vm_cpus vm')) RDI = of_int 10
    \<and> (\<forall>r. r \<noteq> RSP \<longrightarrow> r \<noteq> RDI \<longrightarrow> vcpu_get_reg (hd (vm_cpus vm')) r = vcpu_get_reg (hd (vm_cpus (sample_vm rm st))) r)
    \<and> (\<forall>g. stack_slot st g \<longrightarrow> g \<noteq> 0x800000000000 - 8 \<longrightarrow> g \<noteq> 0x800000000000 - 16 \<longrightarrow> g \<noteq> 0x800000000000 - 24
         \<longrightarrow> stack_word (vm_rm vm') g = stack_word (vm_rm (sample_vm rm st)) g)"
    by (rule signal_deliver_frame [OF sample_vm_ok [OF s(1,2)]], unfold rsp)
      (auto simp: sample_vm_def intro!: slot)
  moreover have "sa_handler (1 # replicate 151 0) = 1"
    by code_simp
  then have "sa_handler (vm_sigs (sample_vm rm st) ! nat 10) = 1"
    by (simp add: sample_vm_def)
  ultimately show ?thesis
    using sample_vm_ok [OF s(1,2)] by (intro exI [of _ rm] exI [of _ st]) auto
qed

section \<open>Registering and catching signals\<close>



text \<open>The signals of a list caught one after the other.\<close>

primrec catch_signals :: "int list \<Rightarrow> ('k, 'w) vm \<Rightarrow> ('k, 'w) vm res" where
  "catch_signals [] vm = Inr vm"
| "catch_signals (s # ss) vm = bindE (elkvm_signal_handler s vm) (catch_signals ss)"

lemma catch_signals_from:
  assumes "length (pending_signals vm) = 32" "num_pending_signals vm = int n" "n \<le> 32"
  shows "(if n + length ss \<le> 32
    then \<exists>vm'. catch_signals ss vm = Inr vm' \<and> num_pending_signals vm' = int (n + length ss) \<and> length (pending_signals vm') = 32
           \<and> take (n + length ss) (pending_signals vm') = take n (pending_signals vm) @ ss
    else catch_signals ss vm = Inl Fault)"
  using assms
proof (induction ss arbitrary: vm n)
  case (Cons s ss)
  define vm1 where "vm1 = vm\<lparr>pending_signals := (pending_signals vm)[n := s], num_pending_signals := int n + 1\<rparr>"
  show ?case
  proof (cases "n = 32")
    case True
    then show ?thesis
      using Cons.prems by (simp add: elkvm_signal_handler_def)
  next
    case False
    have f: "length (pending_signals vm1) = 32" "num_pending_signals vm1 = int (Suc n)" "Suc n \<le> 32"
      "take (Suc n) (pending_signals vm1) = take n (pending_signals vm) @ [s]"
      using Cons.prems False by (simp_all add: vm1_def take_Suc_conv_app_nth)
    have "elkvm_signal_handler s vm = Inr vm1"
      using Cons.prems False by (simp add: elkvm_signal_handler_def vm1_def)
    then show ?thesis
      using Cons.IH [OF f(1-3)] f(4) by (auto simp: ac_simps split: if_splits)
  qed
qed simp

text \<open>C32. Up to 32 signals can be caught before one is delivered; they are kept in the order of their arrival.  The next one is
  stored outside the array of pending signals.\<close>

theorem pending_signals_bound:
  assumes "length (pending_signals vm) = 32" "num_pending_signals vm = 0"
  shows "if length ss \<le> 32
    then \<exists>vm'. catch_signals ss vm = Inr vm' \<and> num_pending_signals vm' = int (length ss) \<and> take (length ss) (pending_signals vm') = ss
    else catch_signals ss vm = Inl Fault"
  using catch_signals_from [of vm 0 ss] assms by (auto split: if_splits)

theorem pending_signals_bound_witness:
  "catch_signals (replicate 33 15) ((sample_vm sample_rm sample_stack)\<lparr>num_pending_signals := 0\<rparr>) = Inl Fault"
  using pending_signals_bound [of "(sample_vm sample_rm sample_stack)\<lparr>num_pending_signals := 0\<rparr>" "replicate 33 15"]
  by (simp add: sample_vm_def)

section \<open>Page faults\<close>

text \<open>C33. A page fault at an address in the first page, or at 0x1000 itself, ends the process.  At every other address the handler
  grows the stack by one region and, when it returns, reports success: no address is ever refused.\<close>

theorem handle_page_fault_outcome:
  assumes "vm_cpus vm \<noteq> []" "vcpu_get_sregs (host_kvm host) (hd (vm_cpus vm)) = (0, v)"
  shows "if vcpu_get_reg v CR2 \<le> 0x1000 then handle_page_fault host 0 code vm = Some (Inl (Exit 1))
    else handle_page_fault host 0 code vm =
      Some (bindE (expand (host_memalign host) (host_set_region host) (vm_rm vm) (vcpu_stack v)) (\<lambda>(_, rm, st).
        Inr (success, set_cpu (v\<lparr>vcpu_stack := st\<rparr>) rm vm)))"
proof -
  have s: "bindS (vm_get_sregs host 0) f vm = f 0 (put_vcpu 0 v vm)" for f :: "int \<Rightarrow> (('a, 'b) vm, int) op"
    using assms by (simp add: bindS_def vm_get_sregs_def get_vcpu_0)
  have v: "vm_cpus (put_vcpu 0 v vm) \<noteq> []" "hd (vm_cpus (put_vcpu 0 v vm)) = v" "vm_rm (put_vcpu 0 v vm) = vm_rm vm"
    using assms(1) by (simp_all add: put_vcpu_def hd_update vm_rm_def)
  have p: "put_vcpu 0 v2 (set_vm_rm rm (put_vcpu 0 v vm)) = set_cpu v2 rm vm" for v2 rm
    by (simp add: put_vcpu_def set_cpu_def set_vm_rm_def)
  show ?thesis
    using v
    by (cases "expand (host_memalign host) (host_set_region host) (vm_rm vm) (vcpu_stack v)")
      (auto simp: handle_page_fault_def s bind_cpu handle_segfault_def bindS_def [of "vm_handle_stack_expansion host 0"]
        vm_handle_stack_expansion_def get_vcpu_0 handle_stack_expansion_def retS_def p)
qed

theorem handle_page_fault_outcome_witness:
  "handle_page_fault sample_host 0 0 (sample_vm sample_rm sample_stack) = Some (Inl (Exit 1))"
  using handle_page_fault_outcome [of "sample_vm sample_rm sample_stack" sample_host _ 0]
  by (simp add: sample_vm_def vcpu_get_sregs_def lift_kvm_def get_sregs_def sample_host_def sample_ops_def vcpu_get_reg_def zero_sregs_def)

end
