(* ===== verification/Syscall_Props.thy ===== *)
theory Syscall_Props
  imports Vm_Run Signal_Props
begin

text \<open>
  Properties of the system calls and of the loop that runs the machine.  That a relation between the states before and after
  holds for every operation is shown once for the combinators, for any reflexive and transitive relation.
\<close>

section \<open>Relations kept by operations\<close>

definition keeps :: "('s \<Rightarrow> 's \<Rightarrow> bool) \<Rightarrow> ('s, 'a) op \<Rightarrow> bool" where
  "keeps R f \<longleftrightarrow> (\<forall>s a s'. f s = Some (Inr (a, s')) \<longrightarrow> R s s')"

lemma keepsD: "keeps R f \<Longrightarrow> f s = Some (Inr (a, s')) \<Longrightarrow> R s s'"
  by (auto simp: keeps_def)

lemma keeps_bindD: "bindS f g s = Some (Inr (a, s')) \<Longrightarrow> keeps R (bindS f g) \<Longrightarrow> R s s'"
  by (rule keepsD)

lemma keeps_ifD:
  "(if b then bindS f1 g1 s else bindS f2 g2 s) = Some (Inr (a, s')) \<Longrightarrow> keeps R (bindS f1 g1) \<Longrightarrow> keeps R (bindS f2 g2) \<Longrightarrow> R s s'"
  by (auto split: if_splits dest: keepsD)

lemma bindS_Some_Inr:
  "bindS f g s = Some (Inr (b, s2)) \<longleftrightarrow> (\<exists>a s1. f s = Some (Inr (a, s1)) \<and> g a s1 = Some (Inr (b, s2)))"
  by (auto simp: bindS_def bindO_def split: option.splits sum.splits prod.splits)

locale state_relation =
  fixes R :: "'s \<Rightarrow> 's \<Rightarrow> bool"
  assumes refl: "R s s" and trans: "R s s1 \<Longrightarrow> R s1 s2 \<Longrightarrow> R s s2"
begin

lemma keeps_bind: "keeps R f \<Longrightarrow> (\<And>a. keeps R (g a)) \<Longrightarrow> keeps R (bindS f g)"
  unfolding keeps_def bindS_Some_Inr using trans by blast

lemma keeps_basic:
  "keeps R (retS a)" "keeps R (failS e)" "keeps R (liftS r)" "keeps R (getS f)" "keeps R (assertS b)"
  using refl by (auto simp: keeps_def retS_def failS_def liftS_def getS_def assertS_def bindE_def split: sum.splits if_splits)

lemma keeps_Some: "keeps R (\<lambda>s. Some (Inr (a, s)))"
  by (simp add: keeps_def refl)

lemma keeps_need: "(\<And>g. h = Some g \<Longrightarrow> keeps R (f g)) \<Longrightarrow> keeps R (need h f)"
  using keeps_basic(1) by (cases h) (simp_all add: need_def)

lemma keeps_must: "(\<And>g. h = Some g \<Longrightarrow> keeps R (f g)) \<Longrightarrow> keeps R (must h f)"
  using keeps_basic(2) by (cases h) (simp_all add: must_def)

end

lemma keeps_split:
  "(\<And>a b. p = (a, b) \<Longrightarrow> keeps R (f a b)) \<Longrightarrow> keeps R (case p of (a, b) \<Rightarrow> f a b)"
  "(b \<Longrightarrow> keeps R f1) \<Longrightarrow> (\<not> b \<Longrightarrow> keeps R f2) \<Longrightarrow> keeps R (if b then f1 else f2)"
  "(x = None \<Longrightarrow> keeps R f1) \<Longrightarrow> (\<And>y. x = Some y \<Longrightarrow> keeps R (f3 y)) \<Longrightarrow> keeps R (case x of None \<Rightarrow> f1 | Some y \<Rightarrow> f3 y)"
  by (auto split: prod.splits option.splits)

lemma keeps_Let: "(\<And>x. x = e \<Longrightarrow> keeps R (f x)) \<Longrightarrow> keeps R (let x = e in f x)"
  by (simp add: Let_def)

text \<open>The bodies of loops are written with the state as an argument.\<close>

lemma keeps_ext:
  "(b \<Longrightarrow> keeps R f1) \<Longrightarrow> (\<not> b \<Longrightarrow> keeps R f2) \<Longrightarrow> keeps R (\<lambda>s. if b then f1 s else f2 s)"
  "(\<And>x. x = e \<Longrightarrow> keeps R (f x)) \<Longrightarrow> keeps R (\<lambda>s. let x = e in f x s)"
  by (auto simp: keeps_def)

section \<open>Registers\<close>

text \<open>The general registers of every CPU are unchanged.\<close>

definition same_regs :: "('k, 'w) vm \<Rightarrow> ('k, 'w) vm \<Rightarrow> bool" where
  "same_regs vm vm' \<longleftrightarrow> map (\<lambda>v. kv_regs (kvm_vcpu v)) (vm_cpus vm') = map (\<lambda>v. kv_regs (kvm_vcpu v)) (vm_cpus vm)"

interpretation regs: state_relation same_regs
  by unfold_locales (simp_all add: same_regs_def)

lemmas regs_rules = keeps_ext regs.keeps_Some regs.keeps_bind regs.keeps_basic regs.keeps_need regs.keeps_must keeps_split keeps_Let

lemma same_regs_vm [simp]:
  "same_regs vm (set_vm_rm rm vm)" "same_regs vm (set_vm_mem m vm)"
  by (simp_all add: same_regs_def set_vm_rm_def set_vm_mem_def)

lemma same_regs_put:
  assumes "get_vcpu i vm = Inr v" "kv_regs (kvm_vcpu v1) = kv_regs (kvm_vcpu v)"
  shows "same_regs vm (put_vcpu i v1 vm)"
  using assms by (auto simp: same_regs_def put_vcpu_def get_vcpu_def map_update split: if_splits intro!: nth_equalityI simp: nth_list_update)

lemma regs_host_p: "keeps same_regs (host_p p)"
  by (auto simp: keeps_def host_p_def res_simps)

lemma regs_call: "keeps same_regs (call f)"
  by (auto simp: keeps_def call_def res_simps same_regs_def set_vm_mem_def set_vm_rm_def)

lemma regs_param: "keeps same_regs (param n)"
  unfolding param_def by (intro regs_rules) (auto simp: keeps_def vcpuS_def res_simps regs.refl)

lemma regs_unpack:
  "keeps same_regs unpack_syscall1" "keeps same_regs unpack_syscall2" "keeps same_regs unpack_syscall3"
  "keeps same_regs unpack_syscall4" "keeps same_regs unpack_syscall5" "keeps same_regs unpack_syscall6"
  unfolding unpack_syscall1_def unpack_syscall2_def unpack_syscall3_def unpack_syscall4_def unpack_syscall5_def unpack_syscall6_def
  by (intro regs_rules regs_param)+

lemma regs_host_p_or_null: "keeps same_regs (host_p_or_null p)"
  unfolding host_p_or_null_def by (intro regs_rules regs_host_p)

lemma regs_ret_errno: "keeps same_regs ret_errno"
  unfolding ret_errno_def by (intro regs_rules)

lemma regs_modS: "(\<And>vm. same_regs vm (f vm)) \<Longrightarrow> keeps same_regs (modS f)"
  by (auto simp: keeps_def modS_def)

lemma regs_heapS: "keeps same_regs (heapS f)"
  by (auto simp: keeps_def heapS_def res_simps same_regs_def)

lemmas regs_ops = regs_rules regs_host_p regs_call regs_unpack regs_host_p_or_null regs_ret_errno regs_heapS

lemma regs_read_only:
  "keeps same_regs (same_regionS p q)" "keeps same_regs (region_at p)" "keeps same_regs (vcpuS i)" "keeps same_regs (derefS r)"
  using regs.refl unfolding derefS_def
  by (auto simp: keeps_def same_regionS_def region_at_def vcpuS_def heapS_def res_simps same_regs_def split: option.splits)

lemma regs_read_loop: "keeps same_regs (read_loop rd fd bend buf_p mark_p cur result)"
proof -
  have "\<forall>a vm'. y = Inr (a, vm') \<longrightarrow> same_regs vm vm'"
    if "read_loop rd fd bend buf_p mark_p cur result vm = Some y" for vm y
    using that
  proof (induction rule: read_loop.raw_induct [rotated 1, consumes 1])
    case (1 F rd fd bend buf_p mark_p cur result vm y)
    have F: "keeps same_regs (F rd fd bend buf_p m c r)" for m c r
      using 1(1) by (auto simp: keeps_def)
    show ?case
    proof (intro allI impI)
      fix a vm' assume y: "y = Inr (a, vm')"
      show "same_regs vm vm'"
        by (rule keeps_bindD [OF 1(2) [unfolded y]]) (intro regs_rules regs_host_p regs_read_only regs_call F)
    qed
  qed
  then show ?thesis
    by (auto simp: keeps_def)
qed


lemma regs_write_loop: "keeps same_regs (write_loop wr fd buf cnt r cur rem tot)"
proof -
  have "\<forall>a vm'. y = Inr (a, vm') \<longrightarrow> same_regs vm vm'"
    if "write_loop wr fd buf cnt r cur rem tot vm = Some y" for vm y
    using that
  proof (induction rule: write_loop.raw_induct [rotated 1, consumes 1])
    case (1 F wr fd buf cnt r cur rem tot vm y)
    have F: "keeps same_regs (F wr fd buf cnt r1 c m t)" for r1 c m t
      using 1(1) by (auto simp: keeps_def)
    show ?case
    proof (intro allI impI)
      fix a vm' assume y: "y = Inr (a, vm')"
      show "same_regs vm vm'"
        by (rule keeps_ifD [OF 1(2) [unfolded y]])
          (intro regs_rules regs_read_only regs_call regs_ret_errno F)+
    qed
  qed
  then show ?thesis
    by (auto simp: keeps_def)
qed

lemma regs_iov: "keeps same_regs (host_iov_loop n p i)"
  by (induction n arbitrary: i) (auto intro!: regs_rules regs_host_p)

lemma regs_get_host_iov: "keeps same_regs (elkvm_get_host_iov p n)"
  unfolding elkvm_get_host_iov_def by (intro regs_ops regs_iov)

lemmas file_defs = elkvm_do_read_def elkvm_do_write_def elkvm_do_open_def elkvm_do_close_def elkvm_do_stat_def elkvm_do_fstat_def
  elkvm_do_lstat_def elkvm_do_lseek_def elkvm_do_ioctl_def elkvm_do_readv_def elkvm_do_writev_def elkvm_do_access_def
  elkvm_do_pipe_def elkvm_do_dup_def elkvm_do_fcntl_def

lemma regs_files:
  "keeps same_regs (elkvm_do_read h)" "keeps same_regs (elkvm_do_write h)" "keeps same_regs (elkvm_do_open h)"
  "keeps same_regs (elkvm_do_close h)" "keeps same_regs (elkvm_do_stat h)" "keeps same_regs (elkvm_do_fstat h)"
  "keeps same_regs (elkvm_do_lstat h)" "keeps same_regs (elkvm_do_lseek h)" "keeps same_regs (elkvm_do_ioctl h)"
  "keeps same_regs (elkvm_do_readv h)" "keeps same_regs (elkvm_do_writev h)" "keeps same_regs (elkvm_do_access h)"
  "keeps same_regs (elkvm_do_pipe h)" "keeps same_regs (elkvm_do_dup h)" "keeps same_regs (elkvm_do_fcntl h)"
  unfolding file_defs by (intro regs_ops regs_read_only regs_read_loop regs_write_loop regs_get_host_iov)+


lemmas mem_defs = elkvm_do_mmap_def elkvm_do_munmap_def elkvm_do_mremap_def elkvm_do_brk_def elkvm_do_mprotect_def
  mmap_correct_def sync_mapping_def fill_mapping_def

lemma regs_mem:
  "keeps same_regs (elkvm_do_mmap host h)" "keeps same_regs elkvm_do_munmap" "keeps same_regs (elkvm_do_mremap host)"
  "keeps same_regs (elkvm_do_brk host)" "keeps same_regs (elkvm_do_mprotect host)"
  unfolding mem_defs by (intro regs_ops regs_read_only)+

lemmas dir_defs = elkvm_do_truncate_def elkvm_do_ftruncate_def elkvm_do_getdents_def elkvm_do_getcwd_def elkvm_do_chdir_def
  elkvm_do_fchdir_def elkvm_do_mkdir_def elkvm_do_unlink_def elkvm_do_readlink_def elkvm_do_statfs_def elkvm_do_fstatfs_def
  elkvm_do_openat_def

lemma regs_dir:
  "keeps same_regs (elkvm_do_truncate h)" "keeps same_regs (elkvm_do_ftruncate h)" "keeps same_regs (elkvm_do_getdents h)"
  "keeps same_regs (elkvm_do_getcwd h)" "keeps same_regs (elkvm_do_chdir h)" "keeps same_regs (elkvm_do_fchdir h)"
  "keeps same_regs (elkvm_do_mkdir h)" "keeps same_regs (elkvm_do_unlink h)" "keeps same_regs (elkvm_do_readlink h)"
  "keeps same_regs (elkvm_do_statfs h)" "keeps same_regs (elkvm_do_fstatfs h)" "keeps same_regs (elkvm_do_openat h)"
  unfolding dir_defs by (intro regs_ops)+

lemmas proc_defs = elkvm_do_getpid_def elkvm_do_getuid_def elkvm_do_getgid_def elkvm_do_geteuid_def elkvm_do_getegid_def
  elkvm_do_gettid_def elkvm_do_uname_def elkvm_do_futex_def elkvm_do_set_tid_address_def elkvm_do_exit_group_def
  elkvm_do_tgkill_def elkvm_do_set_robust_list_def

lemma regs_proc:
  "keeps same_regs (elkvm_do_getpid h)" "keeps same_regs (elkvm_do_getuid h)" "keeps same_regs (elkvm_do_getgid h)"
  "keeps same_regs (elkvm_do_geteuid h)" "keeps same_regs (elkvm_do_getegid h)" "keeps same_regs (elkvm_do_gettid h)"
  "keeps same_regs (elkvm_do_uname h)" "keeps same_regs (elkvm_do_futex h)" "keeps same_regs (elkvm_do_set_tid_address h)"
  "keeps same_regs (elkvm_do_exit_group h)" "keeps same_regs (elkvm_do_tgkill h)" "keeps same_regs (elkvm_do_set_robust_list h)"
  unfolding proc_defs by (intro regs_ops)+

lemma kv_regs_sregs:
  "kv_regs (kvm_vcpu (snd (vcpu_get_sregs ops v))) = kv_regs (kvm_vcpu v)"
  "kv_regs (kvm_vcpu (snd (vcpu_set_sregs ops v))) = kv_regs (kvm_vcpu v)"
  by (simp_all add: vcpu_get_sregs_def vcpu_set_sregs_def lift_kvm_def get_sregs_def set_sregs_def split: sum.splits)

lemma regs_sregs: "keeps same_regs (vm_get_sregs host i)" "keeps same_regs (vm_set_sregs host i)"
  using kv_regs_sregs by (auto simp: keeps_def vm_get_sregs_def vm_set_sregs_def res_simps case_prod_unfold Let_def intro!: same_regs_put)

lemma kv_regs_set_seg: "kv_regs (set_seg s x v) = kv_regs v"
  by (cases s) simp_all

lemma regs_seg_base: "keeps same_regs (set_seg_base s b)" "keeps same_regs (get_seg_base s p)"
  unfolding set_seg_base_def get_seg_base_def
  by (auto simp: keeps_def bindS_Some_Inr vcpuS_def modS_def res_simps vcpu_set_seg_def upd_kvm_def kv_regs_set_seg intro!: same_regs_put)

lemma regs_signal_register: "keeps same_regs (signal_register host s a b)"
  unfolding signal_register_def save_oldact_def install_act_def
  by (intro regs_ops regs_modS) (simp_all add: same_regs_def set_vm_mem_def set_vm_rm_def)

lemma keeps_replace:
  assumes "\<And>s s'. f s = Inr s' \<Longrightarrow> R s s'"
  shows "keeps R (bindS (getS f) (\<lambda>r. bindS (liftS r) (\<lambda>s1. bindS (modS (\<lambda>_. s1)) (\<lambda>_. retS a))))"
  using assms by (auto simp: keeps_def bindS_Some_Inr getS_def liftS_def modS_def retS_def res_simps)

lemma regs_rlimit: "keeps same_regs elkvm_do_getrlimit" "keeps same_regs (elkvm_do_setrlimit h)"
  unfolding elkvm_do_getrlimit_def elkvm_do_setrlimit_def
  by ((intro regs_ops regs_modS keeps_replace; (simp; fail)?)+, auto simp: set_rlimit_def res_simps same_regs_def)


lemma regs_arch_prctl: "keeps same_regs (elkvm_do_arch_prctl host)"
  unfolding elkvm_do_arch_prctl_def by (intro regs_ops regs_sregs regs_seg_base)

lemma regs_signals: "keeps same_regs (elkvm_do_sigaction host h)" "keeps same_regs (elkvm_do_sigprocmask h)"
  unfolding elkvm_do_sigaction_def elkvm_do_sigprocmask_def by (intro regs_ops regs_signal_register)+

lemma regs_unimplemented: "keeps same_regs unimplemented_syscall"
  unfolding unimplemented_syscall_def by (intro regs_ops)

lemmas time_defs = elkvm_do_nanosleep_def elkvm_do_gettimeofday_def elkvm_do_getrusage_def elkvm_do_times_def elkvm_do_time_def
  elkvm_do_clock_gettime_def elkvm_do_clock_getres_def

lemma regs_time:
  "keeps same_regs (elkvm_do_nanosleep h)" "keeps same_regs (elkvm_do_gettimeofday h)" "keeps same_regs (elkvm_do_getrusage h)"
  "keeps same_regs (elkvm_do_times h)" "keeps same_regs (elkvm_do_time h)" "keeps same_regs (elkvm_do_clock_gettime h)"
  "keeps same_regs (elkvm_do_clock_getres h)"
  unfolding time_defs by (intro regs_ops regs_unimplemented)+

lemmas net_defs = elkvm_do_socket_def elkvm_do_accept_def elkvm_do_bind_def elkvm_do_listen_def elkvm_do_getsockname_def
  elkvm_do_setsockopt_def elkvm_do_epoll_create_def elkvm_do_epoll_wait_def elkvm_do_epoll_ctl_def

lemma regs_net:
  "keeps same_regs (elkvm_do_socket h)" "keeps same_regs (elkvm_do_accept h)" "keeps same_regs (elkvm_do_bind h)"
  "keeps same_regs (elkvm_do_listen h)" "keeps same_regs (elkvm_do_getsockname h)" "keeps same_regs (elkvm_do_setsockopt h)"
  "keeps same_regs (elkvm_do_epoll_create h)" "keeps same_regs (elkvm_do_epoll_wait h)" "keeps same_regs (elkvm_do_epoll_ctl h)"
  unfolding net_defs by (intro regs_ops)+

lemma regs_table: "f \<in> set (elkvm_syscalls host h) \<Longrightarrow> keeps same_regs f"
  unfolding elkvm_syscalls_def elkvm_syscalls_low_def elkvm_syscalls_high_def
  by (auto simp: regs_files regs_mem regs_dir regs_proc regs_arch_prctl regs_signals regs_rlimit regs_time regs_net regs_unimplemented)

lemma regs_routine: "keeps same_regs (syscall_routine host h n)"
  unfolding syscall_routine_def using regs_table[OF nth_mem] by (intro keeps_split regs.keeps_basic) 

definition cpu_regs :: "('k, 'w) vm \<Rightarrow> nat \<Rightarrow> kvm_regs" where
  "cpu_regs vm i = kv_regs (kvm_vcpu (vm_cpus vm ! i))"

lemma same_regsD: "same_regs vm vm' \<Longrightarrow> length (vm_cpus vm') = length (vm_cpus vm)"
  "same_regs vm vm' \<Longrightarrow> j < length (vm_cpus vm) \<Longrightarrow> cpu_regs vm' j = cpu_regs vm j"
  unfolding same_regs_def cpu_regs_def by (metis length_map, metis length_map nth_map)

lemma set_syscall_return_regs:
  assumes "set_syscall_return i r vm = Some (Inr (u, vm'))"
  shows "length (vm_cpus vm') = length (vm_cpus vm) \<and> i < length (vm_cpus vm)
    \<and> (\<forall>j < length (vm_cpus vm). cpu_regs vm' j = (if j = i then (cpu_regs vm j)\<lparr>r_rax := r\<rparr> else cpu_regs vm j))"
  using assms
  by (auto simp: set_syscall_return_def vm_set_reg_def get_vcpu_def put_vcpu_def res_simps cpu_regs_def nth_list_update
      vcpu_set_reg_def upd_kvm_def split: if_splits)

text \<open>C35. A system call that returns to the guest leaves every general register of every CPU as it was, apart from \<^verbatim>\<open>rax\<close> of the
  calling CPU, which holds its result; this is so whatever the call, its parameters and the handlers of the monitor are.\<close>

theorem handle_syscall_keeps_registers:
  assumes "handle_syscall host h i vm = Some (Inr (0, vm'))"
  shows "length (vm_cpus vm') = length (vm_cpus vm) \<and> i < length (vm_cpus vm)
    \<and> (\<exists>r. \<forall>j < length (vm_cpus vm). cpu_regs vm' j = (if j = i then (cpu_regs vm j)\<lparr>r_rax := r\<rparr> else cpu_regs vm j))"
proof -
  obtain r u vm1 where 1: "same_regs vm vm1" "set_syscall_return i r vm1 = Some (Inr (u, vm'))"
    using assms keepsD[OF regs_routine] regs.refl
    by (fastforce simp: handle_syscall_def bindS_Some_Inr vcpuS_def res_simps liftS_def getS_def retS_def failS_def ELKVM_HYPERCALL_EXIT_def
        split: if_splits)
  show ?thesis
    using set_syscall_return_regs[OF 1(2)] same_regsD[OF 1(1)] by auto
qed


text \<open>Handlers for the witnesses: no call is handled but \<^verbatim>\<open>getpid\<close> and \<^verbatim>\<open>write\<close>.\<close>

definition sample_handlers :: "(u32 \<Rightarrow> hostptr \<Rightarrow> u64 \<Rightarrow> ('w, u64) hcall) \<Rightarrow> 'w handlers" where
  "sample_handlers wr =
     \<lparr>h_file = \<lparr>h_read = None, h_write = Some wr, h_open = None, h_close = None, h_stat = None, h_fstat = None, h_lstat = None, h_poll = None,
        h_lseek = None, h_ioctl = None, h_readv = None, h_writev = None, h_access = None, h_pipe = None, h_dup = None, h_fcntl = None\<rparr>,
      h_dir = \<lparr>h_truncate = None, h_ftruncate = None, h_getdents = None, h_getcwd = None, h_chdir = None, h_fchdir = None, h_mkdir = None,
        h_unlink = None, h_readlink = None, h_statfs = None, h_fstatfs = None, h_openat = None\<rparr>,
      h_mem = \<lparr>h_mmap_before = None, h_mmap_after = None, h_mprotect = None, h_munmap = None\<rparr>,
      h_proc = \<lparr>h_sigaction = None, h_sigprocmask = None, h_getpid = Some (HCall (\<lambda>env. Inr (42, env))), h_getuid = None, h_getgid = None,
        h_geteuid = None, h_getegid = None, h_uname = None, h_setrlimit = None, h_gettid = None, h_futex = None, h_set_tid_address = None,
        h_exit_group = None, h_tgkill = None, h_set_robust_list = None\<rparr>,
      h_clock = \<lparr>h_nanosleep = None, h_gettimeofday = None, h_getrusage = None, h_times = None, h_time = None, h_clock_gettime = None,
        h_clock_getres = None\<rparr>,
      h_net = \<lparr>h_socket = None, h_accept = None, h_bind = None, h_listen = None, h_getsockname = None, h_setsockopt = None, h_epoll_create = None,
        h_epoll_ctl = None, h_epoll_wait = None\<rparr>\<rparr>"

definition refuse_write :: "u32 \<Rightarrow> hostptr \<Rightarrow> u64 \<Rightarrow> ('w, u64) hcall" where
  "refuse_write fd p n = HCall (\<lambda>env. Inr (- 1, env))"

definition sample_calling :: "u64 \<Rightarrow> (unit, unit) vm" where
  "sample_calling n = put_vcpu 0 (vcpu_set_reg RAX n (vcpu_set_reg RBX 7 sample_vcpu)) (sample_vm sample_rm sample_stack)"

lemma sample_getpid:
  "\<exists>vm'. handle_syscall sample_host (sample_handlers refuse_write) 0 (sample_calling 39) = Some (Inr (0, vm')) \<and> r_rax (cpu_regs vm' 0) = 42"
proof -
  have "syscall_routine sample_host (sample_handlers refuse_write) 39 = elkvm_do_getpid (sample_handlers refuse_write)"
    by (simp add: syscall_routine_def elkvm_syscalls_def elkvm_syscalls_low_def nth_append nth_Cons')
  then show ?thesis
    by (simp add: handle_syscall_def sample_calling_def vcpuS_def get_vcpu_def put_vcpu_def sample_vm_def get_parameter_def assertE_def
        vcpu_set_reg_def vcpu_get_reg_def upd_kvm_def NUM_SYSCALLS_def NR_exit_group_def elkvm_do_getpid_def sample_handlers_def need_def call_def
        set_syscall_return_def vm_set_reg_def set_vm_mem_def set_vm_rm_def bindS_def cpu_regs_def getS_def retS_def liftS_def)
qed

theorem handle_syscall_keeps_registers_witness:
  "\<exists>vm'. handle_syscall sample_host (sample_handlers refuse_write) 0 (sample_calling 39) = Some (Inr (0, vm')) \<and> r_rbx (cpu_regs vm' 0) = 7"
proof -
  obtain vm' where 1: "handle_syscall sample_host (sample_handlers refuse_write) 0 (sample_calling 39) = Some (Inr (0, vm'))"
    using sample_getpid by blast
  have "r_rbx (cpu_regs (sample_calling 39) 0) = 7" "length (vm_cpus (sample_calling 39)) = 1"
    by (simp_all add: sample_calling_def cpu_regs_def put_vcpu_def sample_vm_def vcpu_set_reg_def upd_kvm_def)
  then show ?thesis
    using handle_syscall_keeps_registers [OF 1] 1 by auto
qed

end
