(* ===== verification/Run_Props.thy ===== *)
theory Run_Props
  imports Syscall_Props
begin

text \<open>
  The loop that runs the machine as a transition system, the numbers of the system calls, and the loop of the write system call.
\<close>

section \<open>Running as steps\<close>

text \<open>A step runs the guest until it leaves and serves the reason; the machine stops with a result of \<^verbatim>\<open>VM::run\<close> or with a failure.\<close>

inductive vm_step :: "('k, 'w) host \<Rightarrow> ('k, 'w) hypercall_handlers \<Rightarrow> 'w handlers \<Rightarrow> ('k, 'w) vm \<Rightarrow> ('k, 'w) vm \<Rightarrow> bool"
  for host hyp h where
  step_hypercall: "vm_step host hyp h vm vm4" if
    "vm_set_regs host 0 vm = Some (Inr (0, vm1))" "vm_vcpu_run host 0 vm1 = Some (Inr (hypercall_exit, vm2))"
    "vm_get_regs host 0 vm2 = Some (Inr (0, vm3))" "handle_hypercall host hyp h 0 vm3 = Some (Inr (0, vm4))"
| step_exit: "vm_step host hyp h vm vm4" if
    "vm_set_regs host 0 vm = Some (Inr (0, vm1))" "vm_vcpu_run host 0 vm1 = Some (Inr (x, vm2))" "0 \<le> x" "x \<noteq> hypercall_exit"
    "vm_get_regs host 0 vm2 = Some (Inr (0, vm3))" "vm_handle_exit host 0 vm3 = Some (Inr (True, vm4))"

inductive vm_stop :: "('k, 'w) host \<Rightarrow> ('k, 'w) hypercall_handlers \<Rightarrow> 'w handlers \<Rightarrow> ('k, 'w) vm \<Rightarrow> (int \<times> ('k, 'w) vm) res \<Rightarrow> bool"
  for host hyp h where
  stop_no_cpu: "vm_stop host hyp h vm (Inl e)" if "vm_set_regs host 0 vm = Some (Inl e)"
| stop_set_regs: "vm_stop host hyp h vm (Inr (err, vm1))" if "vm_set_regs host 0 vm = Some (Inr (err, vm1))" "err \<noteq> 0"
| stop_run: "vm_stop host hyp h vm (Inr (x, vm2))" if
    "vm_set_regs host 0 vm = Some (Inr (0, vm1))" "vm_vcpu_run host 0 vm1 = Some (Inr (x, vm2))" "x < 0"
| stop_get_regs: "vm_stop host hyp h vm (Inr (err, vm3))" if
    "vm_set_regs host 0 vm = Some (Inr (0, vm1))" "vm_vcpu_run host 0 vm1 = Some (Inr (x, vm2))" "0 \<le> x"
    "vm_get_regs host 0 vm2 = Some (Inr (err, vm3))" "err \<noteq> 0"
| stop_hypercall_fails: "vm_stop host hyp h vm (Inl e)" if
    "vm_set_regs host 0 vm = Some (Inr (0, vm1))" "vm_vcpu_run host 0 vm1 = Some (Inr (hypercall_exit, vm2))"
    "vm_get_regs host 0 vm2 = Some (Inr (0, vm3))" "handle_hypercall host hyp h 0 vm3 = Some (Inl e)"
| stop_hypercall: "vm_stop host hyp h vm (Inr (0, vm4))" if
    "vm_set_regs host 0 vm = Some (Inr (0, vm1))" "vm_vcpu_run host 0 vm1 = Some (Inr (hypercall_exit, vm2))"
    "vm_get_regs host 0 vm2 = Some (Inr (0, vm3))" "handle_hypercall host hyp h 0 vm3 = Some (Inr (err, vm4))" "err \<noteq> 0"
| stop_exit: "vm_stop host hyp h vm (Inr (0, vm4))" if
    "vm_set_regs host 0 vm = Some (Inr (0, vm1))" "vm_vcpu_run host 0 vm1 = Some (Inr (x, vm2))" "0 \<le> x" "x \<noteq> hypercall_exit"
    "vm_get_regs host 0 vm2 = Some (Inr (0, vm3))" "vm_handle_exit host 0 vm3 = Some (Inr (False, vm4))"

text \<open>The calls that only touch a CPU do not fail once the CPU is there.\<close>

lemma vcpu_calls_total:
  assumes "vm_set_regs host 0 vm = Some (Inr (a, vm1))"
  obtains x vm2 b vm3 c vm4 where "vm_vcpu_run host 0 vm1 = Some (Inr (x, vm2))" "vm_get_regs host 0 vm2 = Some (Inr (b, vm3))"
    "vm_handle_exit host 0 vm3 = Some (Inr (c, vm4))"
proof -
  have l: "get_vcpu 0 w = Inr (vm_cpus w ! 0)" if "0 < length (vm_cpus w)" for w :: "('a, 'b) vm"
    using that by (simp add: get_vcpu_def)
  have 1: "0 < length (vm_cpus vm1)"
    using assms by (auto simp: vm_set_regs_def get_vcpu_def put_vcpu_def case_prod_unfold Let_def split: if_splits)
  then obtain x vm2 where 2: "vm_vcpu_run host 0 vm1 = Some (Inr (x, vm2))" "0 < length (vm_cpus vm2)"
    by (simp add: vm_vcpu_run_def l case_prod_unfold Let_def put_vcpu_def set_vm_mem_def set_vm_rm_def)
  then obtain b vm3 where 3: "vm_get_regs host 0 vm2 = Some (Inr (b, vm3))" "0 < length (vm_cpus vm3)"
    by (simp add: vm_get_regs_def l case_prod_unfold Let_def put_vcpu_def)
  then obtain c vm4 where 4: "vm_handle_exit host 0 vm3 = Some (Inr (c, vm4))"
    by (simp add: vm_handle_exit_def l case_prod_unfold Let_def put_vcpu_def)
  show thesis
    by (rule that [OF 2(1) 3(1) 4])
qed

lemma hypercall_exit_nonneg: "0 \<le> hypercall_exit"
  by (simp add: hypercall_exit_def)

lemma vm_run_step: "vm_step host hyp h vm vm1 \<Longrightarrow> vm_run host hyp h vm = vm_run host hyp h vm1"
  by (induction rule: vm_step.induct; subst vm_run.simps) (use hypercall_exit_nonneg in \<open>simp_all add: bindS_def retS_def\<close>)

lemma vm_run_stop: "vm_stop host hyp h vm r \<Longrightarrow> vm_run host hyp h vm = Some r"
  by (induction rule: vm_stop.induct; subst vm_run.simps) (use hypercall_exit_nonneg in \<open>simp_all add: bindS_def retS_def\<close>)

lemma vm_run_reaches_stop:
  assumes "vm_run host hyp h vm = Some r"
  shows "\<exists>vm1. (vm_step host hyp h)\<^sup>*\<^sup>* vm vm1 \<and> vm_stop host hyp h vm1 r"
  using assms
proof (induction rule: vm_run.raw_induct [rotated 1, consumes 1])
  case (1 F host hyp h vm r)
  note intros = vm_stop.intros [where hyp = hyp and h = h] vm_step.intros [where hyp = hyp and h = h]
  have stop: ?case if "vm_stop host hyp h vm r"
    using that by blast
  have step: ?case if "vm_step host hyp h vm vm1" "F host hyp h vm1 = Some r" for vm1
    using that 1(1) by (meson converse_rtranclp_into_rtranclp)
  obtain q where q: "vm_set_regs host 0 vm = Some q"
    by (simp add: vm_set_regs_def)
  show ?case
  proof (cases q)
    case (Inl e)
    then show ?thesis
      using 1(2) q by (intro stop) (auto simp: bindS_def intro: intros)
  next
    case (Inr p)
    then obtain err vm1 where s: "vm_set_regs host 0 vm = Some (Inr (err, vm1))"
      using q by (cases p) simp
    obtain x vm2 b vm3 c vm4 where t: "vm_vcpu_run host 0 vm1 = Some (Inr (x, vm2))" "vm_get_regs host 0 vm2 = Some (Inr (b, vm3))"
      "vm_handle_exit host 0 vm3 = Some (Inr (c, vm4))"
      by (rule vcpu_calls_total [OF s])
    have r: "(if err \<noteq> 0 then Some (Inr (err, vm1)) else if x < 0 then Some (Inr (x, vm2)) else if b \<noteq> 0 then Some (Inr (b, vm3))
        else if x \<noteq> hypercall_exit then (if c then F host hyp h vm4 else Some (Inr (0, vm4)))
        else bindO (handle_hypercall host hyp h 0 vm3) (\<lambda>(e, vm5). if e = 0 then F host hyp h vm5 else Some (Inr (0, vm5)))) = Some r"
      using 1(2) s t by (auto simp: bindS_def bindO_def retS_def split: if_splits option.splits sum.splits prod.splits)
    consider "x = hypercall_exit" "err = 0" "b = 0" | "x \<noteq> hypercall_exit \<or> err \<noteq> 0 \<or> b \<noteq> 0"
      by blast
    then show ?thesis
    proof cases
      case hyper: 1
      then have r: "bindO (handle_hypercall host hyp h 0 vm3) (\<lambda>(e, vm5). if e = 0 then F host hyp h vm5 else Some (Inr (0, vm5))) = Some r"
        using r hypercall_exit_nonneg by simp
      then consider e where "handle_hypercall host hyp h 0 vm3 = Some (Inl e)" "r = Inl e"
        | vm5 where "handle_hypercall host hyp h 0 vm3 = Some (Inr (0, vm5))" "F host hyp h vm5 = Some r"
        | e vm5 where "handle_hypercall host hyp h 0 vm3 = Some (Inr (e, vm5))" "e \<noteq> 0" "r = Inr (0, vm5)"
        by (auto simp: bindO_def split: option.splits sum.splits prod.splits if_splits)
      then show ?thesis
        by cases (use s t hyper in \<open>blast intro: stop step intros\<close>)+
    next
      case 2
      then show ?thesis
        using r s t by (auto simp: linorder_not_less split: if_splits intro: stop step intros)
    qed
  qed
qed

text \<open>C36. \<^verbatim>\<open>VM::run\<close> returns a result, or ends the process, exactly when the transition system reaches a state that stops with it; in
  particular the result is determined, and \<^verbatim>\<open>VM::run\<close> does not return exactly when no stopping state is reachable.\<close>

theorem vm_run_refines_steps:
  "vm_run host hyp h vm = Some r \<longleftrightarrow> (\<exists>vm1. (vm_step host hyp h)\<^sup>*\<^sup>* vm vm1 \<and> vm_stop host hyp h vm1 r)"
proof
  assume "\<exists>vm1. (vm_step host hyp h)\<^sup>*\<^sup>* vm vm1 \<and> vm_stop host hyp h vm1 r"
  then obtain vm1 where "(vm_step host hyp h)\<^sup>*\<^sup>* vm vm1" "vm_stop host hyp h vm1 r"
    by blast
  then show "vm_run host hyp h vm = Some r"
    by (induction rule: converse_rtranclp_induct) (simp_all add: vm_run_step vm_run_stop)
qed (rule vm_run_reaches_stop)


section \<open>Writing\<close>

text \<open>What is assumed of the handler of the \<^verbatim>\<open>write\<close> call: it fails, or it takes at least one of the bytes offered and appends what it took to the output.\<close>

definition good_writer :: "('w \<Rightarrow> u8 list) \<Rightarrow> (u32 \<Rightarrow> hostptr \<Rightarrow> u64 \<Rightarrow> ('w, u64) hcall) \<Rightarrow> bool" where
  "good_writer out wr \<longleftrightarrow> (\<forall>fd p n m e w. \<exists>k e' w'. run_hcall (wr fd p n) (m, e, w) = Inr (k, m, e', w')
     \<and> (if k <s 0 then out w' = out w else k \<le> n \<and> (n \<noteq> 0 \<longrightarrow> k \<noteq> 0) \<and> out w' = out w @ read_bytes m p (unat k)))"

lemma read_bytes_append: "read_bytes m p a @ read_bytes m (p + of_nat a) b = read_bytes m p (a + b)"
  by (rule nth_equalityI) (auto simp: read_bytes_def nth_append algebra_simps)

lemma good_writerE:
  assumes "good_writer out wr"
  obtains k vm1 where "call (wr fd p n) vm = Some (Inr (k, vm1))" "vm_mem vm1 = vm_mem vm"
    "if k <s 0 then out (vm_world vm1) = out (vm_world vm)
     else k \<le> n \<and> (n \<noteq> 0 \<longrightarrow> k \<noteq> 0) \<and> out (vm_world vm1) = out (vm_world vm) @ read_bytes (vm_mem vm) p (unat k)"
proof -
  obtain k e' w' where "run_hcall (wr fd p n) (vm_mem vm, vm_errno vm, vm_world vm) = Inr (k, vm_mem vm, e', w')"
    "if k <s 0 then out w' = out (vm_world vm) else k \<le> n \<and> (n \<noteq> 0 \<longrightarrow> k \<noteq> 0) \<and> out w' = out (vm_world vm) @ read_bytes (vm_mem vm) p (unat k)"
    using assms unfolding good_writer_def by metis
  then show thesis
    by (intro that [of k "(set_vm_mem (vm_mem vm) vm)\<lparr>vm_errno := e', vm_world := w'\<rparr>"])
      (simp_all add: call_def vm_mem_def set_vm_mem_def set_vm_rm_def vm_rm_def set_rm_def store_mem_def)
qed

lemma space_progress:
  assumes "space_after_address r p = Inr n" "k \<le> n" "n \<noteq> 0 \<longrightarrow> k \<noteq> 0"
  shows "unat p < unat (p + k)"
proof -
  have r: "p < reg_host_p r + reg_size r" and n: "n = reg_host_p r + reg_size r - p"
    using assms(1) by (auto simp: space_after_address_def bindE_assertE region_contains_def split: if_splits)
  have n1: "unat n = unat (reg_host_p r + reg_size r) - unat p"
    using r n by (simp add: unat_sub)
  have "unat k \<le> unat n" "unat p < unat (reg_host_p r + reg_size r)"
    using assms(2) r by (simp_all add: word_le_nat_alt word_less_nat_alt)
  moreover from this n1 have "n \<noteq> 0"
    by (metis less_numeral_extra(3) unat_0 zero_less_diff)
  then have "0 < unat k"
    using assms(3) by (simp add: unat_gt_0)
  ultimately show ?thesis
    using n1 unat_less_power [of "reg_host_p r + reg_size r"] by (simp add: unat_plus_if')
qed

text \<open>What the loop has done when it returns: a first part of the bytes is written, and the result is its length unless a
  call failed.\<close>

definition wrote :: "('w \<Rightarrow> u8 list) \<Rightarrow> ('k, 'w) vm \<Rightarrow> hostptr \<Rightarrow> u64 \<Rightarrow> (u64 \<times> ('k, 'w) vm) res \<Rightarrow> bool" where
  "wrote out vm p tot res \<longleftrightarrow> (\<forall>x vm'. res = Inr (x, vm') \<longrightarrow>
     (\<exists>n. out (vm_world vm') = out (vm_world vm) @ read_bytes (vm_mem vm) p n \<and> (x = tot + of_nat n \<or> x = of_int (- vm_errno vm'))))"

lemma wrote_Inl [simp]: "wrote out vm p tot (Inl e)"
  by (simp add: wrote_def)

lemma wrote_errno: "out (vm_world vm1) = out (vm_world vm) \<Longrightarrow> \<exists>res. ret_errno vm1 = Some res \<and> wrote out vm p tot res"
  by (auto simp: wrote_def ret_errno_def getS_def retS_def bindS_def read_bytes_def intro: exI [of _ 0])

lemma wrote_more:
  assumes "out (vm_world vm1) = out (vm_world vm) @ read_bytes (vm_mem vm) p (unat k)" "vm_mem vm1 = vm_mem vm" "wrote out vm1 (p + k) (tot + k) res"
  shows "wrote out vm p tot res"
  unfolding wrote_def
proof (intro allI impI)
  fix x vm' assume "res = Inr (x, vm')"
  then obtain n where "out (vm_world vm') = out (vm_world vm1) @ read_bytes (vm_mem vm1) (p + k) n" "x = tot + k + of_nat n \<or> x = of_int (- vm_errno vm')"
    using assms(3) unfolding wrote_def by blast
  then show "\<exists>n. out (vm_world vm') = out (vm_world vm) @ read_bytes (vm_mem vm) p n \<and> (x = tot + of_nat n \<or> x = of_int (- vm_errno vm'))"
    using assms(1,2) read_bytes_append [of "vm_mem vm" p "unat k" n] by (intro exI [of _ "unat k + n"]) (auto simp: algebra_simps)
qed

lemma write_loop_last:
  assumes w: "good_writer out wr" and c: "region_contains r (cur + rem - 1)"
  shows "\<exists>res. write_loop wr fd buf cnt r cur rem tot vm = Some res \<and> wrote out vm cur tot res"
proof (cases "region_contains r (buf + cnt - 1)")
  case False
  then show ?thesis
    using c by (subst write_loop.simps) simp
next
  case True
  obtain k vm1 where k: "call (wr fd cur rem) vm = Some (Inr (k, vm1))" "vm_mem vm1 = vm_mem vm"
    "if k <s 0 then out (vm_world vm1) = out (vm_world vm)
     else k \<le> rem \<and> (rem \<noteq> 0 \<longrightarrow> k \<noteq> 0) \<and> out (vm_world vm1) = out (vm_world vm) @ read_bytes (vm_mem vm) cur (unat k)"
    by (rule good_writerE [OF w])
  have "write_loop wr fd buf cnt r cur rem tot vm = (if k <s 0 then ret_errno vm1 else Some (Inr (tot + k, vm1)))"
    using c True k(1) by (subst write_loop.simps) (simp add: bindS_def assertS_def retS_def)
  moreover have "wrote out vm cur tot (Inr (tot + k, vm1))" if "\<not> k <s 0"
    using k that by (auto simp: wrote_def intro: exI [of _ "unat k"])
  ultimately show ?thesis
    using k wrote_errno by (simp split: if_splits)
qed

lemma write_loop_output:
  assumes w: "good_writer out wr"
  shows "\<exists>res. write_loop wr fd buf cnt r cur rem tot vm = Some res \<and> wrote out vm cur tot res"
proof (induction "2 ^ 64 - unat cur" arbitrary: r cur rem tot vm rule: less_induct)
  case less
  consider "region_contains r (cur + rem - 1)" | e where "\<not> region_contains r (cur + rem - 1)" "space_after_address r cur = Inl e"
    | n where "\<not> region_contains r (cur + rem - 1)" "space_after_address r cur = Inr n"
    by (cases "space_after_address r cur") blast+
  then show ?case
  proof cases
    case 1
    then show ?thesis
      by (rule write_loop_last [OF w])
  next
    case 2
    then show ?thesis
      by (subst write_loop.simps) simp
  next
    case 3
    obtain k vm1 where k: "call (wr fd cur n) vm = Some (Inr (k, vm1))" "vm_mem vm1 = vm_mem vm"
      "if k <s 0 then out (vm_world vm1) = out (vm_world vm)
       else k \<le> n \<and> (n \<noteq> 0 \<longrightarrow> k \<noteq> 0) \<and> out (vm_world vm1) = out (vm_world vm) @ read_bytes (vm_mem vm) cur (unat k)"
      by (rule good_writerE [OF w])
    have step: "write_loop wr fd buf cnt r cur rem tot vm = (if k <s 0 then ret_errno vm1 else
        bindS (region_at (cur + k)) (\<lambda>r1. write_loop wr fd buf cnt r1 (cur + k) (rem - k) (tot + k)) vm1)"
      using 3 k(1) by (subst write_loop.simps) (simp add: bindS_def liftS_def)
    show ?thesis
    proof (cases "k <s 0")
      case True
      then show ?thesis
        using k step wrote_errno by simp
    next
      case False
      have "unat cur < unat (cur + k)"
        by (rule space_progress [OF 3(2)]) (use k(3) False in auto)
      then have "2 ^ 64 - unat (cur + k) < 2 ^ 64 - unat cur"
        using unat_less_power [of "cur + k"] by simp
      from less [OF this] have "\<exists>res. write_loop wr fd buf cnt r1 (cur + k) (rem - k) (tot + k) vm1 = Some res \<and> wrote out vm cur tot res" for r1
        using wrote_more [of out vm1 vm cur k] k False by fastforce
      then show ?thesis
        using False by (simp add: step bindS_def region_at_def split: option.split)
    qed
  qed
qed

lemma translate_keeps_mem: "translate rm gv = Inr (p, rm1) \<Longrightarrow> pg_mem (rm_pager rm1) = pg_mem (rm_pager rm)"
  by (auto simp: translate_def get_host_p_def res_simps Let_def split: if_splits prod.splits)

lemma unpack_syscall3_eq:
  "unpack_syscall3 vm = (if vm_cpus vm = [] then Some (Inl (Throw 0)) else
     let v = vm_cpus vm ! 0 in Some (Inr ((vcpu_get_reg v RDI, vcpu_get_reg v RSI, vcpu_get_reg v RDX), vm)))"
  by (simp add: unpack_syscall3_def param_def vcpuS_def get_vcpu_def get_parameter_def assertE_def bindS_def liftS_def retS_def Let_def)

lemma host_p_world: "host_p gv vm = Some (Inr (p, vm1)) \<Longrightarrow> vm_world vm1 = vm_world vm \<and> vm_mem vm1 = vm_mem vm
    \<and> (\<exists>rm. translate (vm_rm vm) gv = Inr (p, rm))"
  using translate_keeps_mem by (fastforce simp: host_p_def res_simps set_vm_rm_def vm_mem_def vm_rm_def set_rm_def)


definition sample_writer :: "u32 \<Rightarrow> hostptr \<Rightarrow> u64 \<Rightarrow> (u8 list, u64) hcall" where
  "sample_writer fd p n = HCall (\<lambda>(m, e, w). if n <s 0 then Inr (- 1, m, EINVAL, w) else Inr (n, m, e, w @ read_bytes m p (unat n)))"

definition sample_writing :: "(unit, u8 list) vm" where
  "sample_writing = \<lparr>vm_cpus = [vcpu_set_reg RSI 0x400000 (vcpu_set_reg RDX 5 sample_vcpu)], vm_debug = False, vm_gdt = None,
     vm_heap = HeapManager sample_rm, vm_fd = 3, vm_argc = 0, vm_argv = 0, vm_environ = 0, vm_run_struct_size = 0, vm_rlimits = [], vm_sigs = [],
     vm_cleanup = \<lparr>flat_region = None, flat_size = 0\<rparr>, pending_signals = [], num_pending_signals = 0, vm_errno = 0, vm_world = []\<rparr>"


section \<open>The numbers of the system calls\<close>

lemma length_elkvm_syscalls: "length (elkvm_syscalls host h) = 275"
  by (simp add: elkvm_syscalls_def elkvm_syscalls_low_def elkvm_syscalls_high_def)

text \<open>C40. Outside debug mode a number above 313 is answered with \<^verbatim>\<open>-ENOSYS\<close> and nothing else changes; the numbers from 275 to 313 are
  accepted although no routine stands behind them, and end the process with a fault.  With debug mode on, every number from 313
  on does.\<close>

theorem handle_syscall_numbers:
  assumes "get_vcpu i vm = Inr v" "275 \<le> vcpu_get_reg v RAX"
  shows "handle_syscall host h i vm =
    (if vcpu_get_reg v RAX \<le> 313 \<or> vm_debug vm then Some (Inl Fault) else Some (Inr (0, put_vcpu i (vcpu_set_reg RAX (- 38) v) vm)))"
proof -
  have "\<not> unat (vcpu_get_reg v RAX) < 275"
    using assms(2) by (simp add: word_le_nat_alt)
  then have "syscall_routine host h (vcpu_get_reg v RAX) = failS Fault"
    by (simp add: syscall_routine_def length_elkvm_syscalls)
  moreover have "vcpu_get_reg v RAX \<le> 313 \<longleftrightarrow> \<not> NUM_SYSCALLS < vcpu_get_reg v RAX"
    by (auto simp: NUM_SYSCALLS_def)
  ultimately show ?thesis
    using assms(1) by (auto simp: handle_syscall_def bindS_def vcpuS_def liftS_def get_parameter_def assertE_def getS_def failS_def retS_def
        set_syscall_return_def vm_set_reg_def ENOSYS_def)
qed

theorem handle_syscall_numbers_witness:
  "handle_syscall sample_host (sample_handlers refuse_write) 0 (sample_calling 300) = Some (Inl Fault)
   \<and> (\<exists>vm'. handle_syscall sample_host (sample_handlers refuse_write) 0 (sample_calling 400) = Some (Inr (0, vm')))"
proof -
  have v: "get_vcpu 0 (sample_calling n) = Inr (vcpu_set_reg RAX n (vcpu_set_reg RBX 7 sample_vcpu))" "\<not> vm_debug (sample_calling n)" for n
    by (simp_all add: get_vcpu_def sample_calling_def put_vcpu_def sample_vm_def)
  have r: "vcpu_get_reg (vcpu_set_reg RAX n (vcpu_set_reg RBX 7 sample_vcpu)) RAX = n" for n
    by (simp add: vcpu_get_reg_def vcpu_set_reg_def upd_kvm_def)
  show ?thesis
    using handle_syscall_numbers [OF v(1), of 300 sample_host "sample_handlers refuse_write", unfolded r]
      handle_syscall_numbers [OF v(1), of 400 sample_host "sample_handlers refuse_write", unfolded r] v(2) by simp
qed

end
