(* ===== verification/Elf_Loader.thy ===== *)
theory Elf_Loader
  imports Heap Guest_Write
begin

text \<open>
  The loader of ELF binaries, \<^verbatim>\<open>src/src/elfloader.cc\<close>.  The library \<^verbatim>\<open>libelf\<close> is a parameter: what its functions return
  for an open file is the record \<open>elf\<close>.  The binary is read through the host's files into regions of the region manager, which
  are mapped at the addresses of the program headers and given to the heap manager.
\<close>

section \<open>Headers\<close>

record GElf_Phdr =
  p_type :: u32
  p_flags :: u32
  p_offset :: u64
  p_vaddr :: u64
  p_filesz :: u64
  p_memsz :: u64

record GElf_Ehdr =
  e_ident :: "u8 list"
  e_type :: u16
  e_machine :: u16
  e_version :: u32
  e_entry :: u64
  e_phoff :: u64
  e_shoff :: u64
  e_flags :: u32
  e_ehsize :: u16
  e_phentsize :: u16
  e_phnum :: u16
  e_shentsize :: u16
  e_shnum :: u16
  e_shstrndx :: u16

text \<open>The structure as its 64 bytes.\<close>

definition le_bytes :: "nat \<Rightarrow> 'a :: len word \<Rightarrow> u8 list" where
  "le_bytes n w = map (\<lambda>i. ucast (drop_bit (8 * i) w)) [0..<n]"

definition ehdr_bytes :: "GElf_Ehdr \<Rightarrow> u8 list" where
  "ehdr_bytes e = take 16 (e_ident e) @ le_bytes 2 (e_type e) @ le_bytes 2 (e_machine e) @ le_bytes 4 (e_version e)
     @ le_bytes 8 (e_entry e) @ le_bytes 8 (e_phoff e) @ le_bytes 8 (e_shoff e) @ le_bytes 4 (e_flags e) @ le_bytes 2 (e_ehsize e)
     @ le_bytes 2 (e_phentsize e) @ le_bytes 2 (e_phnum e) @ le_bytes 2 (e_shentsize e) @ le_bytes 2 (e_shnum e)
     @ le_bytes 2 (e_shstrndx e)"

datatype Elf_Kind = ELF_K_NONE | ELF_K_AR | ELF_K_ELF | ELF_K_OTHER
datatype Elf_Class = ELFCLASSNONE | ELFCLASS32 | ELFCLASS64 | ELFCLASS_OTHER

text \<open>What \<^verbatim>\<open>libelf\<close> answers for a file; \<open>None\<close> is an error.\<close>

record elf =
  elf_kind :: Elf_Kind
  gelf_getclass :: Elf_Class
  gelf_getehdr :: "GElf_Ehdr option"
  elf_getphdrnum :: "nat option"
  gelf_getphdr :: "nat \<Rightarrow> GElf_Phdr option"

record elf_host =
  eh_open :: "string \<Rightarrow> int"
  eh_files :: host_files
  elf_version_ok :: bool
  elf_begin :: "int \<Rightarrow> elf option"

definition PT_NULL :: u32 where "PT_NULL = 0"
definition PT_LOAD :: u32 where "PT_LOAD = 1"
definition PT_DYNAMIC :: u32 where "PT_DYNAMIC = 2"
definition PT_INTERP :: u32 where "PT_INTERP = 3"
definition PT_NOTE :: u32 where "PT_NOTE = 4"
definition PT_SHLIB :: u32 where "PT_SHLIB = 5"
definition PT_PHDR :: u32 where "PT_PHDR = 6"
definition PT_LOPROC :: u32 where "PT_LOPROC = 0x70000000"
definition PT_HIPROC :: u32 where "PT_HIPROC = 0x7FFFFFFF"
definition PF_X :: u32 where "PF_X = 1"
definition PF_W :: u32 where "PF_W = 2"
definition ET_DYN :: u16 where "ET_DYN = 3"
definition PATH_MAX :: nat where "PATH_MAX = 4096"
definition loader_base_addr :: guestptr where "loader_base_addr = 0x1000000"

section \<open>Files\<close>

definition elf_file :: "elf_host \<Rightarrow> string \<Rightarrow> int res" where
  "elf_file eh pathname = (let fd = eh_open eh pathname in if fd < 1 then Inl (Throw 0) else Inr fd)"

text \<open>The result of \<^verbatim>\<open>read\<close> is not used by any caller; the memory it leaves is.\<close>

definition file_read :: "host_files \<Rightarrow> int \<Rightarrow> memory \<Rightarrow> hostptr \<Rightarrow> u64 \<Rightarrow> u64 \<Rightarrow> (u8 list \<times> memory) res" where
  "file_read fs fd mem buf bytes off =
     bindE (assertE (to_int (lseek_set fs fd (sint off)) = sint off)) (\<lambda>_.
     let bs = take (unat bytes) (read_at fs fd (sint off) (unat bytes))
     in Inr (bs, write_bytes mem buf bs))"

text \<open>The loop of \<^verbatim>\<open>elf_file::read_segment\<close>; \<open>bufsize\<close> never exceeds \<open>remaining\<close>.\<close>

function segment_loop :: "host_files \<Rightarrow> int \<Rightarrow> memory \<Rightarrow> hostptr \<Rightarrow> int \<Rightarrow> nat \<Rightarrow> nat \<Rightarrow> nat \<times> memory" where
  "segment_loop fs fd mem buf pos bufsize remaining =
     (let bs = take bufsize (read_at fs fd pos bufsize) in
      if bs = [] then (remaining, mem)
      else
        let remaining1 = remaining - length bs;
            bufsize1 = (if remaining1 < bufsize then remaining1 else bufsize)
        in segment_loop fs fd (write_bytes mem buf bs) (buf + of_nat (length bs)) (pos + int (length bs)) bufsize1 remaining1)"
  by auto
termination
proof (relation "measure (\<lambda>(fs, fd, mem, buf, pos, bufsize, remaining). bufsize + remaining)", goal_cases)
  case (2 fs fd mem buf pos bufsize remaining bs r1 b1)
  have "0 < length bs" "length bs \<le> bufsize" "r1 = remaining - length bs" "b1 = (if r1 < bufsize then r1 else bufsize)"
    using 2 by simp_all
  then show ?case
    by (cases bs) (auto split: if_splits)
qed simp

definition file_read_segment :: "host_files \<Rightarrow> int \<Rightarrow> memory \<Rightarrow> hostptr \<Rightarrow> u64 \<Rightarrow> u64 \<Rightarrow> memory res" where
  "file_read_segment fs fd mem buf bytes off =
     (let bufsize = (if bytes < 0x8000 then bytes else 0x8000) in
      bindE (assertE (sint off = to_int (lseek_set fs fd (sint off)))) (\<lambda>_.
      let (remaining, mem1) = segment_loop fs fd mem buf (sint off) (unat bufsize) (unat bytes)
      in bindE (assertE (remaining = 0)) (\<lambda>_. Inr mem1)))"

definition elf_ptr :: "elf_host \<Rightarrow> int \<Rightarrow> elf res" where
  "elf_ptr eh fd =
     (if \<not> elf_version_ok eh then Inl (Throw 0)
      else case elf_begin eh fd of None \<Rightarrow> Inl (Throw 0) | Some e \<Rightarrow> Inr e)"

definition get_ehdr :: "elf \<Rightarrow> GElf_Ehdr res" where
  "get_ehdr e = (case gelf_getehdr e of None \<Rightarrow> Inl Abort | Some h \<Rightarrow> Inr h)"

definition get_phdrnum :: "elf \<Rightarrow> nat res" where
  "get_phdrnum e = (case elf_getphdrnum e of None \<Rightarrow> Inl Abort | Some n \<Rightarrow> Inr n)"

text \<open>The result of \<^verbatim>\<open>gelf_getphdr\<close> is not tested; using the header it did not fill is a fault.\<close>

definition get_phdr :: "elf \<Rightarrow> nat \<Rightarrow> GElf_Phdr res" where
  "get_phdr e i = (case gelf_getphdr e i of None \<Rightarrow> Inl Fault | Some p \<Rightarrow> Inr p)"

section \<open>The binary\<close>

record Elf_auxv =
  at_phdr :: u64
  at_phent :: u64
  at_phnum :: u64
  at_entry :: u64
  at_base :: u64
  auxv_valid :: bool

record elf_fields =
  num_phdrs :: nat
  statically_linked :: bool
  shared_object :: bool
  is_ldr :: bool
  loader :: string
  entry_point :: guestptr
  auxv :: Elf_auxv

datatype elf_binary = Elf_Binary (fields: elf_fields) (ldr: "elf_binary option")

fun get_entry_point :: "elf_binary \<Rightarrow> guestptr res" where
  "get_entry_point (Elf_Binary b l) =
     (if statically_linked b then Inr (if shared_object b then at_base (auxv b) + entry_point b else entry_point b)
      else case l of None \<Rightarrow> Inl Fault | Some l1 \<Rightarrow> get_entry_point l1)"

definition is_valid_elf_kind :: "elf \<Rightarrow> bool" where
  "is_valid_elf_kind e = (case elf_kind e of ELF_K_ELF \<Rightarrow> True | _ \<Rightarrow> False)"

definition is_valid_elf_class :: "elf \<Rightarrow> bool" where
  "is_valid_elf_class e = (case gelf_getclass e of ELFCLASS64 \<Rightarrow> True | _ \<Rightarrow> False)"

definition check_phdr_for_interpreter :: "GElf_Phdr \<Rightarrow> bool res" where
  "check_phdr_for_interpreter p = (if p_memsz p < p_filesz p then Inl (Throw 0) else Inr (p_type p = PT_INTERP))"

text \<open>The name of the interpreter is read into \<^verbatim>\<open>PATH_MAX\<close> bytes from \<^verbatim>\<open>malloc\<close> and taken up to the first null byte; more bytes than
  that, or no null byte among them, is a fault.\<close>

definition get_dynamic_loader :: "host_files \<Rightarrow> int \<Rightarrow> GElf_Phdr \<Rightarrow> string res" where
  "get_dynamic_loader fs fd p =
     bindE (file_read fs fd (\<lambda>_. 0) 0 (p_memsz p) (p_offset p)) (\<lambda>(bs, _).
     if PATH_MAX < length bs \<or> 0 \<notin> set bs then Inl Fault
     else Inr (map (\<lambda>b. char_of (unat b)) (takeWhile (\<lambda>b. b \<noteq> 0) bs)))"

definition initialize_interpreter :: "host_files \<Rightarrow> int \<Rightarrow> GElf_Phdr \<Rightarrow> elf_fields \<Rightarrow> elf_fields res" where
  "initialize_interpreter fs fd p b =
     bindE (get_dynamic_loader fs fd p) (\<lambda>l. Inr (b\<lparr>statically_linked := False, loader := l\<rparr>))"

primrec check_phdrs :: "host_files \<Rightarrow> int \<Rightarrow> elf \<Rightarrow> nat list \<Rightarrow> elf_fields \<Rightarrow> elf_fields res" where
  "check_phdrs fs fd e [] b = Inr b"
| "check_phdrs fs fd e (i # is) b =
     bindE (get_phdr e i) (\<lambda>p.
     bindE (check_phdr_for_interpreter p) (\<lambda>interp.
     let b1 = b\<lparr>statically_linked := \<not> interp\<rparr> in
     if interp then initialize_interpreter fs fd p b1
     else check_phdrs fs fd e is b1))"

definition check_elf :: "host_files \<Rightarrow> int \<Rightarrow> elf \<Rightarrow> elf_fields \<Rightarrow> (int \<times> elf_fields) res" where
  "check_elf fs fd e b =
     (if \<not> is_valid_elf_kind e \<or> \<not> is_valid_elf_class e then Inr (- EINVAL, b)
      else
        bindE (get_ehdr e) (\<lambda>ehdr.
        bindE (get_phdrnum e) (\<lambda>n.
        let b1 = b\<lparr>shared_object := e_type ehdr = ET_DYN, entry_point := e_entry ehdr, num_phdrs := n\<rparr> in
        bindE (check_phdrs fs fd e [0..<n] b1) (\<lambda>b2.
        Inr (0, if statically_linked b2 then b2
                else b2\<lparr>auxv := (auxv b2)\<lparr>auxv_valid := True, at_entry := entry_point b2, at_phnum := of_nat n,
                                            at_phent := ucast (e_phentsize ehdr)\<rparr>\<rparr>)))))"

section \<open>Loading\<close>

primrec find_header :: "elf \<Rightarrow> u32 \<Rightarrow> nat list \<Rightarrow> GElf_Phdr res" where
  "find_header e flags [] = Inl Abort"
| "find_header e flags (i # is) =
     bindE (get_phdr e i) (\<lambda>p.
     if p_type p = PT_LOAD \<and> p_flags p AND flags \<noteq> 0 then Inr p else find_header e flags is)"

definition find_data_header :: "elf_fields \<Rightarrow> elf \<Rightarrow> GElf_Phdr res" where
  "find_data_header b e = find_header e PF_W [0..<num_phdrs b]"

definition find_text_header :: "elf_fields \<Rightarrow> elf \<Rightarrow> GElf_Phdr res" where
  "find_text_header b e = find_header e PF_X [0..<num_phdrs b]"

text \<open>Copying more than the 64 bytes of the header reads beyond it.\<close>

definition pad_text_begin :: "memory \<Rightarrow> region \<Rightarrow> u64 \<Rightarrow> elf \<Rightarrow> memory res" where
  "pad_text_begin mem r padsize e =
     bindE (assertE (reg_host_p r \<noteq> 0)) (\<lambda>_.
     bindE (get_ehdr e) (\<lambda>ehdr.
     if 64 < padsize then Inl Fault
     else Inr (write_bytes mem (reg_host_p r) (take (unat padsize) (ehdr_bytes ehdr)))))"

definition pad_data_begin :: "host_files \<Rightarrow> int \<Rightarrow> elf_fields \<Rightarrow> memory \<Rightarrow> region \<Rightarrow> u64 \<Rightarrow> elf \<Rightarrow> memory res" where
  "pad_data_begin fs fd b mem r padsize e =
     bindE (find_text_header b e) (\<lambda>text_header.
     let text_end = p_offset text_header + p_filesz text_header in
     if padsize < text_end
     then bindE (file_read fs fd mem (reg_host_p r) padsize (text_end - padsize - 1)) (\<lambda>(_, mem1). Inr mem1)
     else Inr (memset mem (reg_host_p r) 0 padsize))"

definition pad_text_end :: "host_files \<Rightarrow> int \<Rightarrow> elf_fields \<Rightarrow> memory \<Rightarrow> hostptr \<Rightarrow> u64 \<Rightarrow> elf \<Rightarrow> memory res" where
  "pad_text_end fs fd b mem host_p padsize e =
     bindE (find_data_header b e) (\<lambda>data_header.
     bindE (file_read fs fd mem host_p padsize (p_offset data_header)) (\<lambda>(_, mem1). Inr mem1))"

definition pad_begin :: "host_files \<Rightarrow> int \<Rightarrow> elf_fields \<Rightarrow> memory \<Rightarrow> GElf_Phdr \<Rightarrow> region \<Rightarrow> elf \<Rightarrow> memory res" where
  "pad_begin fs fd b mem p r e =
     (let padsize = ucast (offset_in_page (p_vaddr p)) in
      if padsize \<noteq> 0 then
        if p_flags p AND PF_X \<noteq> 0 then pad_text_begin mem r padsize e
        else if p_flags p AND PF_W \<noteq> 0 then pad_data_begin fs fd b mem r padsize e
        else Inl Abort
      else Inr mem)"

definition pad_end :: "host_files \<Rightarrow> int \<Rightarrow> elf_fields \<Rightarrow> memory \<Rightarrow> GElf_Phdr \<Rightarrow> region \<Rightarrow> elf \<Rightarrow> memory res" where
  "pad_end fs fd b mem p r e =
     (let host_p = reg_host_p r + ucast (offset_in_page (p_vaddr p)) + p_filesz p;
          padsize = ucast (page_remain host_p) in
      if p_flags p AND PF_X \<noteq> 0 then pad_text_end fs fd b mem host_p padsize e
      else if p_flags p AND PF_W \<noteq> 0 then Inr (memset mem host_p 0 (padsize + (p_memsz p - p_filesz p)))
      else Inl Abort)"

definition read_segment :: "host_files \<Rightarrow> int \<Rightarrow> memory \<Rightarrow> GElf_Phdr \<Rightarrow> region \<Rightarrow> memory res" where
  "read_segment fs fd mem p r =
     file_read_segment fs fd mem (reg_host_p r + ucast (offset_in_page (p_vaddr p))) (p_filesz p) (p_offset p)"

definition load_program_header :: "host_files \<Rightarrow> int \<Rightarrow> elf_fields \<Rightarrow> memory \<Rightarrow> GElf_Phdr \<Rightarrow> region \<Rightarrow> elf \<Rightarrow> (int \<times> memory) res" where
  "load_program_header fs fd b mem p r e =
     (if \<not> page_aligned (reg_host_p r) then Inr (- EIO, mem)
      else
        bindE (pad_begin fs fd b mem p r e) (\<lambda>mem1.
        bindE (read_segment fs fd mem1 p r) (\<lambda>mem2.
        bindE (pad_end fs fd b mem2 p r e) (\<lambda>mem3.
        Inr (0, mem3)))))"

definition get_pager_opts_from_phdr_flags :: "u32 \<Rightarrow> ptopt" where
  "get_pager_opts_from_phdr_flags flags =
     (if flags AND PF_X \<noteq> 0 then PT_OPT_EXEC else 0) OR (if flags AND PF_W \<noteq> 0 then PT_OPT_WRITE else 0)"

definition load_phdr :: "memalign \<Rightarrow> kvm_set_region \<Rightarrow> host_files \<Rightarrow> int \<Rightarrow> elf \<Rightarrow> GElf_Phdr \<Rightarrow> elf_fields \<Rightarrow> heap \<Rightarrow> (elf_fields \<times> heap) res" where
  "load_phdr am ioctl fs fd e p b h =
     (let b1 = (if is_ldr b \<and> at_base (auxv b) = 0 then b\<lparr>auxv := (auxv b)\<lparr>at_base := loader_base_addr\<rparr>\<rparr> else b);
          load_addr = (if is_ldr b then at_base (auxv b1) + p_vaddr p else p_vaddr p);
          total_size = p_memsz p + ucast (offset_in_page load_addr) in
      bindE (allocate_region am ioctl (heap_rm h) total_size ''ELF PHdr'') (\<lambda>(a, rm1).
      let rm2 = update_region rm1 a (set_guest_addr (page_begin load_addr) (rm_store rm1 a)) in
      bindE (load_program_header fs fd b1 (pg_mem (rm_pager rm2)) p (rm_store rm2 a) e) (\<lambda>(err, mem).
      bindE (assertE (err = 0)) (\<lambda>_.
      let rm3 = store_mem mem rm2; r = rm_store rm3 a in
      bindE (map_region (rm_pager rm3) (reg_host_p r) (reg_addr r) (pages_from_size total_size)
               (get_pager_opts_from_phdr_flags (p_flags p))) (\<lambda>(err, pager).
      bindE (assertE (err = 0)) (\<lambda>_.
      bindE (heap_init (set_rm (rm3\<lparr>rm_pager := pager\<rparr>) h) a total_size) (\<lambda>(err, h1).
      bindE (assertE (err = 0)) (\<lambda>_. Inr (b1, h1)))))))))"

text \<open>The program headers in order; the flags record that an interpreter or a header table may not follow any more.\<close>

primrec parse_phdrs ::
  "memalign \<Rightarrow> kvm_set_region \<Rightarrow> host_files \<Rightarrow> int \<Rightarrow> elf \<Rightarrow> nat list \<Rightarrow> bool \<Rightarrow> bool \<Rightarrow> elf_fields \<Rightarrow> heap
     \<Rightarrow> (int \<times> elf_fields \<times> heap) res" where
  "parse_phdrs am ioctl fs fd e [] no_interp no_phdr b h = Inr (0, b, h)"
| "parse_phdrs am ioctl fs fd e (i # is) no_interp no_phdr b h =
     bindE (get_phdr e i) (\<lambda>p.
     if p_memsz p < p_filesz p then Inr (- EIO, b, h)
     else if p_type p = PT_INTERP then
       if no_interp then Inr (- EINVAL, b, h)
       else parse_phdrs am ioctl fs fd e is True no_phdr b h
     else if p_type p = PT_LOAD then
       bindE (load_phdr am ioctl fs fd e p b h) (\<lambda>(b1, h1).
       parse_phdrs am ioctl fs fd e is True True b1 h1)
     else if p_type p = PT_PHDR then
       let b1 = b\<lparr>auxv := (auxv b)\<lparr>at_phdr := p_vaddr p\<rparr>\<rparr> in
       if no_phdr then Inr (- EINVAL, b1, h)
       else parse_phdrs am ioctl fs fd e is no_interp True b1 h
     else parse_phdrs am ioctl fs fd e is no_interp no_phdr b h)"

definition parse_program ::
  "memalign \<Rightarrow> kvm_set_region \<Rightarrow> host_files \<Rightarrow> int \<Rightarrow> elf \<Rightarrow> elf_fields \<Rightarrow> heap \<Rightarrow> (int \<times> elf_fields \<times> heap) res" where
  "parse_program am ioctl fs fd e b h = parse_phdrs am ioctl fs fd e [0..<num_phdrs b] False False b h"

definition new_elf_fields :: "bool \<Rightarrow> elf_fields" where
  "new_elf_fields ld =
     \<lparr>num_phdrs = 0, statically_linked = False, shared_object = False, is_ldr = ld, loader = ''undefined ldr'',
      entry_point = NOT 0, auxv = \<lparr>at_phdr = 0, at_phent = 0, at_phnum = 0, at_entry = 0, at_base = 0, auxv_valid = False\<rparr>\<rparr>"

text \<open>The constructor up to \<^verbatim>\<open>load_dynamic\<close>, which calls it again for the interpreter.\<close>

definition elf_load :: "memalign \<Rightarrow> kvm_set_region \<Rightarrow> elf_host \<Rightarrow> string \<Rightarrow> bool \<Rightarrow> heap \<Rightarrow> (elf_fields \<times> heap) res" where
  "elf_load am ioctl eh pathname ld h =
     bindE (assertE (pathname \<noteq> [])) (\<lambda>_.
     bindE (elf_file eh pathname) (\<lambda>fd.
     bindE (elf_ptr eh fd) (\<lambda>e.
     bindE (check_elf (eh_files eh) fd e (new_elf_fields ld)) (\<lambda>(err, b).
     if err \<noteq> 0 then Inl (Throw 0)
     else
       bindE (parse_program am ioctl (eh_files eh) fd e b h) (\<lambda>(err, b1, h1).
       bindE (assertE (err = 0)) (\<lambda>_.
       Inr (if statically_linked b1 then b1
            else b1\<lparr>auxv := (auxv b1)\<lparr>auxv_valid := True, at_base := loader_base_addr\<rparr>\<rparr>, h1)))))))"

partial_function (option) ElfBinary ::
  "memalign \<Rightarrow> kvm_set_region \<Rightarrow> elf_host \<Rightarrow> string \<Rightarrow> bool \<Rightarrow> heap \<Rightarrow> (elf_binary \<times> heap) res option" where
  "ElfBinary am ioctl eh pathname ld h =
     bindO (Some (elf_load am ioctl eh pathname ld h)) (\<lambda>(b, h1).
     if statically_linked b then Some (Inr (Elf_Binary b None, h1))
     else bindO (ElfBinary am ioctl eh (loader b) True h1) (\<lambda>(l, h2). Some (Inr (Elf_Binary b (Some l), h2))))"

end
