(* ===== verification/Elf_Props.thy ===== *)
theory Elf_Props
  imports Elf_Loader Mapping_Fill Descriptor_Mem Samples
begin

text \<open>
  What the ELF loader leaves in memory: the bytes of the file in the segment, zeros behind them, and the segment mapped at its
  address in the guest.
\<close>

section \<open>Reading a segment\<close>

declare segment_loop.simps [simp del]

lemma segment_loop_reads:
  assumes "file_is fs fd bs" "0 \<le> pos" "bufsize \<le> remaining" "0 < remaining \<longrightarrow> 0 < bufsize"
  shows "segment_loop fs fd mem buf pos bufsize remaining =
    (let rest = take remaining (drop (nat pos) bs) in (remaining - length rest, write_bytes mem buf rest))"
  using assms
proof (induction fs fd mem buf pos bufsize remaining rule: segment_loop.induct)
  case (1 fs fd mem buf pos bufsize remaining)
  define xs where "xs = drop (nat pos) bs"
  obtain k where k: "k \<le> bufsize" "read_at fs fd pos bufsize = take k xs" "0 < bufsize \<Longrightarrow> 0 < k"
    using file_isD [OF 1(2,3), of bufsize] unfolding xs_def by blast
  define b where "b = take k xs"
  have take_b: "take bufsize (read_at fs fd pos bufsize) = b"
    using k(1,2) by (simp add: b_def min_def)
  have piece: "take remaining xs = b @ take (remaining - length b) (drop (length b) xs)"
    by (rule take_piece [OF b_def]) (use k(1) 1(4) in simp)
  define r1 where "r1 = remaining - length b"
  define b1 where "b1 = (if r1 < bufsize then r1 else bufsize)"
  have step: "segment_loop fs fd mem buf pos bufsize remaining = (if b = [] then (remaining, mem)
      else segment_loop fs fd (write_bytes mem buf b) (buf + of_nat (length b)) (pos + int (length b)) b1 r1)"
    by (subst segment_loop.simps) (simp add: take_b Let_def r1_def b1_def)
  show ?case
  proof (cases "b = []")
    case True
    then have "take remaining xs = []"
      using k(3) 1(4,5) by (auto simp: b_def)
    with True show ?thesis
      unfolding step xs_def [symmetric] Let_def \<open>take remaining xs = []\<close> by simp
  next
    case False
    have b1: "b1 \<le> r1" "0 < r1 \<longrightarrow> 0 < b1"
      using 1(4,5) by (auto simp: b1_def r1_def)
    have "segment_loop fs fd (write_bytes mem buf b) (buf + of_nat (length b)) (pos + int (length b)) b1 r1 =
      (let rest = take r1 (drop (length b) xs) in (r1 - length rest, write_bytes (write_bytes mem buf b) (buf + of_nat (length b)) rest))"
      using 1(1) [OF take_b [symmetric] False r1_def b1_def 1(2) _ b1] 1(3)
      by (simp add: xs_def nat_add_distrib ac_simps)
    then show ?thesis
      using False unfolding step Let_def xs_def [symmetric] piece by (simp add: write_bytes_append r1_def)
  qed
qed

lemma file_read_segment_ok:
  assumes "file_is fs fd bs" "unat off + unat n \<le> length bs" "unat off < 2 ^ 31"
  shows "file_read_segment fs fd mem buf n off = Inr (write_bytes mem buf (take (unat n) (drop (unat off) bs)))"
proof -
  have o1: "sint off = int (unat off)"
    using assms(3) by (simp add: sint_small)
  then have s: "to_int (lseek_set fs fd (sint off)) = sint off"
    using assms(1,3) to_int_id [of "int (unat off)"] by (simp add: file_is_def del: of_nat_unat)
  define k where "k = (if n < 0x8000 then n else 0x8000)"
  have k: "unat k \<le> unat n" "0 < unat n \<longrightarrow> 0 < unat k"
    by (auto simp: k_def word_less_nat_alt)
  show ?thesis
    using segment_loop_reads [OF assms(1) _ k, of "sint off" mem buf] s assms(2)
    by (simp add: file_read_segment_def k_def [symmetric] Let_def o1)
qed


lemma in_range_shift:
  fixes x s k n :: u64
  assumes "unat k + unat n \<le> 2 ^ 64"
  shows "x - (s + k) < n \<longleftrightarrow> unat k \<le> unat (x - s) \<and> unat (x - s) < unat k + unat n"
proof -
  have "unat (d - k) = (if unat k \<le> unat d then unat d - unat k else unat d + 2 ^ 64 - unat k)" for d
    by (simp add: unat_sub_if')
  then have "unat (x - (s + k)) = (if unat k \<le> unat (x - s) then unat (x - s) - unat k else unat (x - s) + 2 ^ 64 - unat k)"
    by (metis diff_diff_eq)
  then show ?thesis
    using assms by (auto simp: word_less_nat_alt)
qed

lemma unat_ucast_small: "unat (w :: 'a :: len word) < 2 ^ LENGTH('b) \<Longrightarrow> unat (ucast w :: 'b :: len word) = unat w"
  by (simp add: unsigned_ucast_eq take_bit_nat_eq_self)

lemma unat_offset_in_page: "unat (ucast (offset_in_page a) :: u64) = unat a mod 4096"
proof -
  have l: "unat a mod 4096 < 4096"
    by simp
  then have "unat (offset_in_page a) = unat a mod 4096"
    unfolding offset_in_page_def by (subst unat_ucast_small) (simp_all add: unat_page_offset del: mod_less_divisor)
  then show ?thesis
    using l by (subst unat_ucast_small) (simp_all del: mod_less_divisor)
qed

lemma unat_page_remain: "unat (ucast (page_remain a) :: u64) = 4096 - unat a mod 4096"
proof -
  have l: "unat (ELKVM_PAGESIZE - (a AND 0xFFF)) = 4096 - unat a mod 4096"
    by (simp add: ELKVM_PAGESIZE_def unat_sub word_le_nat_alt unat_page_offset less_imp_le)
  then have "unat (page_remain a) = 4096 - unat a mod 4096"
    unfolding page_remain_def by (subst unat_ucast_small) simp_all
  then show ?thesis
    by (subst unat_ucast_small) simp_all
qed

text \<open>How far the zeros behind a segment go: to the end of the page in which the bytes of the file end, and then on for the
  difference of the two sizes of the segment.\<close>

definition zeros_end :: "GElf_Phdr \<Rightarrow> nat" where
  "zeros_end p = (let e = unat (p_vaddr p) mod 4096 + unat (p_filesz p) in unat (p_memsz p) + (4096 - e mod 4096))"

lemma load_data_header:
  fixes p r
  defines "s \<equiv> reg_host_p r + ucast (offset_in_page (p_vaddr p))"
  assumes f: "file_is fs fd bs" "unat (p_offset p) + unat (p_filesz p) \<le> length bs" "unat (p_offset p) < 2 ^ 31"
    and fl: "p_flags p AND PF_X = 0" "p_flags p AND PF_W \<noteq> 0" and sz: "p_filesz p \<le> p_memsz p" "zeros_end p < 2 ^ 64"
    and al: "page_aligned (reg_host_p r)" "unat (reg_host_p r) + unat (p_vaddr p) mod 4096 + unat (p_filesz p) < 2 ^ 64" and pad: "pad_begin fs fd b mem p r e = Inr mem1"
  shows "\<exists>mem'. load_program_header fs fd b mem p r e = Inr (0, mem')
    \<and> (\<forall>x. mem' x = (let i = unat (x - s) in
         if i < unat (p_filesz p) then bs ! (unat (p_offset p) + i) else if i < zeros_end p then 0 else mem1 x))"
proof -
  define F where "F = take (unat (p_filesz p)) (drop (unat (p_offset p)) bs)"
  define mem2 where "mem2 = write_bytes mem1 s F"
  define n where "n = ucast (page_remain (s + p_filesz p)) + (p_memsz p - p_filesz p)"
  have F: "length F = unat (p_filesz p)" "\<And>i. i < unat (p_filesz p) \<Longrightarrow> F ! i = bs ! (unat (p_offset p) + i)"
    using f(2) by (simp_all add: F_def)
  have run: "load_program_header fs fd b mem p r e = Inr (0, memset mem2 (s + p_filesz p) 0 n)"
    using fl al(1) pad file_read_segment_ok [OF f]
    by (simp add: load_program_header_def read_segment_def pad_end_def s_def [symmetric] F_def [symmetric] mem2_def n_def Let_def)
  obtain q where q: "unat (reg_host_p r) = 4096 * q"
    using al(1) by (auto simp: page_aligned_iff elim: dvdE)
  have "unat (s + p_filesz p) = 4096 * q + (unat (p_vaddr p) mod 4096 + unat (p_filesz p))"
  proof -
    have "4096 * q + unat (p_vaddr p) mod 4096 + unat (p_filesz p) < 2 ^ 64"
      using al(2) q by simp
    then show ?thesis
      using q unat_offset_in_page [of "p_vaddr p"] by (simp add: s_def unat_plus_if')
  qed
  then have r: "unat (ucast (page_remain (s + p_filesz p)) :: u64) = 4096 - (unat (p_vaddr p) mod 4096 + unat (p_filesz p)) mod 4096"
    by (simp add: unat_page_remain)
  have n: "unat (p_filesz p) + unat n = zeros_end p"
  proof -
    define e where "e = (unat (p_vaddr p) mod 4096 + unat (p_filesz p)) mod 4096"
    have m: "unat (p_memsz p - p_filesz p) = unat (p_memsz p) - unat (p_filesz p)" "unat (p_filesz p) \<le> unat (p_memsz p)"
      using sz(1) by (simp_all add: unat_sub word_le_nat_alt)
    have e: "e < 4096"
      by (simp add: e_def)
    moreover have "(4096 - e) + (unat (p_memsz p) - unat (p_filesz p)) < 2 ^ 64"
      using sz(2) e unfolding zeros_end_def Let_def e_def [symmetric] by linarith
    then have "unat n = (4096 - e) + (unat (p_memsz p) - unat (p_filesz p))"
      unfolding n_def by (subst unat_plus_if') (simp add: r m e_def [symmetric])
    ultimately show ?thesis
      using m(2) by (simp add: zeros_end_def Let_def e_def [symmetric])
  qed
  have "memset mem2 (s + p_filesz p) 0 n x = (let i = unat (x - s) in
         if i < unat (p_filesz p) then bs ! (unat (p_offset p) + i) else if i < zeros_end p then 0 else mem1 x)" for x
    using in_range_shift [of "p_filesz p" n x s] n sz(2) F write_bytes_nth [of F mem1 s x] unat_less_power [of "p_filesz p"]
    by (auto simp: memset_def mem2_def Let_def zeros_end_def)
  with run show ?thesis
    by blast
qed


section \<open>Filling a region and mapping it\<close>

lemma writes_withinI:
  assumes "rm_inv rm" "a \<in> set (allocated_regions rm)"
    "\<And>x. unat (reg_size (rm_store rm a)) \<le> unat (x - reg_host_p (rm_store rm a)) \<Longrightarrow> m x = pg_mem (rm_pager rm) x"
  shows "writes_within rm a m"
  unfolding writes_within_def
proof (intro allI impI)
  fix x assume "m x \<noteq> pg_mem (rm_pager rm) x"
  then have l: "unat (x - reg_host_p (rm_store rm a)) < unat (reg_size (rm_store rm a))"
    using assms(3) [of x] by (meson not_le)
  have "x = reg_host_p (rm_store rm a) + of_nat (unat (x - reg_host_p (rm_store rm a)))"
    by simp
  then show "unat x \<in> region_block rm a"
    using region_byte(3) [OF assms(1,2) l] by metis
qed

text \<open>The bytes of an allocated region lie outside the page tables.\<close>

lemma region_byte_far:
  assumes ok: "mem_ok rm" and a: "a \<in> set (allocated_regions rm)" "\<not> pager_region rm a" and off: "off < unat (reg_size (rm_store rm a))"
  shows "0x1000000 \<le> unat (reg_host_p (rm_store rm a) + of_nat off - host_pml4_p (rm_pager rm))"
proof -
  let ?x = "reg_host_p (rm_store rm a) + of_nat off"
  have inv: "mem_inv rm" "rm_inv rm"
    using ok by (simp_all add: mem_ok_def mem_inv_def)
  have "?x < host_pml4_p (rm_pager rm) \<or> host_pml4_p (rm_pager rm) + ELKVM_SYSTEM_MEMSIZE \<le> ?x"
    by (rule allocated_outside(1) [OF inv(1) a region_byte(3) [OF inv(2) a(1) off]])
  moreover have "unat (host_pml4_p (rm_pager rm)) + 0x1000000 < 2 ^ 64"
    using inv(1) by (auto simp: mem_inv_def pager_ok_def pt_inv_def pt_geom_def Let_def)
  ultimately show ?thesis
    by (auto simp: word_less_nat_alt word_le_nat_alt unat_plus_if' unat_sub_if' ELKVM_SYSTEM_MEMSIZE_def split: if_splits)
qed

lemma store_and_map:
  assumes ok: "mem_ok rm" and a: "a \<in> set (allocated_regions rm)" "\<not> pager_region rm a" and w: "writes_within rm a m"
    and gv: "page_aligned gv" "0 < gv" "unat gv + 4096 * n \<le> 2 ^ 64" and n: "4096 * n \<le> unat (reg_size (rm_store rm a))" "0 < n"
    and tab: "tables_used (rm_pager rm) + 3 * areas gv n \<le> 4096"
    and free: "\<And>k. k < n \<Longrightarrow> pt_view (rm_pager rm) (vpn (gv + of_nat (4096 * k))) = None"
  obtains p' where "map_region ((rm_pager rm)\<lparr>pg_mem := m\<rparr>) (reg_host_p (rm_store rm a)) gv (of_nat n) opts = Inr (0, p')"
    "mem_ok ((store_mem m rm)\<lparr>rm_pager := p'\<rparr>)"
    "\<And>off. off < 4096 * n \<Longrightarrow> host_of p' (gv + of_nat off) = reg_host_p (rm_store rm a) + of_nat off"
    "\<And>off. off < unat (reg_size (rm_store rm a)) \<Longrightarrow> pg_mem p' (reg_host_p (rm_store rm a) + of_nat off) = m (reg_host_p (rm_store rm a) + of_nat off)"
    "\<And>b. host_of (rm_pager rm) b \<noteq> 0 \<Longrightarrow> host_of p' b = host_of (rm_pager rm) b"
proof -
  define rm1 where "rm1 = store_mem m rm"
  have inv: "mem_inv rm" "rm_inv rm"
    using ok by (simp_all add: mem_ok_def mem_inv_def)
  note s = store_mem_ok [OF ok writes_within_tables [OF inv(1) a w], folded rm1_def]
  have f: "rm_store rm1 = rm_store rm" "allocated_regions rm1 = allocated_regions rm" "rm_pager rm1 = (rm_pager rm)\<lparr>pg_mem := m\<rparr>"
    "\<not> pager_region rm1 a"
    using a(2) by (simp_all add: rm1_def)
  have same: "free_or_same (rm_pager rm1) (reg_host_p (rm_store rm1 a) + of_nat (4096 * k)) (gv + of_nat (4096 * k))" if "k < n" for k
    using free [OF that] s(3) by (simp add: free_or_same_def)
  obtain p' where p': "map_region (rm_pager rm1) (reg_host_p (rm_store rm1 a)) gv (of_nat n) opts = Inr (0, p')"
    "mem_ok (rm1\<lparr>rm_pager := p'\<rparr>)" "outside_same (rm_pager rm1) p'"
    "\<And>off. off < 4096 * n \<Longrightarrow> host_of p' (gv + of_nat off) = reg_host_p (rm_store rm1 a) + of_nat off"
    "\<And>b. host_of (rm_pager rm1) b \<noteq> 0 \<Longrightarrow> host_of p' b = host_of (rm_pager rm1) b"
  proof (rule map_region_allocated [OF s(1), of a gv n opts])
    show "a \<in> set (allocated_regions rm1)" "\<not> pager_region rm1 a" "page_aligned gv" "0 < gv" "unat gv + 4096 * n \<le> 2 ^ 64"
      "4096 * n \<le> unat (reg_size (rm_store rm1 a))" "0 < n" "tables_used (rm_pager rm1) + 3 * areas gv n \<le> 4096"
      using a gv n tab f s(4) by simp_all
  qed (use same in blast)+
  have mem: "pg_mem p' (reg_host_p (rm_store rm a) + of_nat off) = m (reg_host_p (rm_store rm a) + of_nat off)"
    if off: "off < unat (reg_size (rm_store rm a))" for off
    using p'(3) region_byte_far [OF ok a off] by (simp add: outside_same_def f)
  show ?thesis
    by (rule that [of p']) (use p' mem f s(2) in \<open>simp_all add: rm1_def\<close>)
qed


section \<open>Loading a data segment\<close>

text \<open>A writable segment of a file with contents \<open>bs\<close> that fits the loader: the file is long enough, the bytes that pad the first page
  come from the end of the text segment, the zeros behind the segment stay inside its last page, and the segment does not end
  at the end of a page.\<close>

definition seg_pages :: "GElf_Phdr \<Rightarrow> nat" where
  "seg_pages p = (unat (p_vaddr p) mod 4096 + unat (p_memsz p) + 4095) div 4096"

definition data_segment :: "u8 list \<Rightarrow> elf_fields \<Rightarrow> elf \<Rightarrow> GElf_Phdr \<Rightarrow> bool" where
  "data_segment bs b e p \<longleftrightarrow> p_flags p AND PF_X = 0 \<and> p_flags p AND PF_W \<noteq> 0 \<and> p_filesz p \<le> p_memsz p
     \<and> unat (p_offset p) + unat (p_filesz p) \<le> length bs \<and> unat (p_offset p) < 2 ^ 31
     \<and> (unat (p_vaddr p) mod 4096 \<noteq> 0 \<longrightarrow> (\<exists>t. find_text_header b e = Inr t \<and> unat (p_offset t) + unat (p_filesz t) < 2 ^ 31))
     \<and> unat (p_vaddr p) mod 4096 + zeros_end p \<le> 4096 * seg_pages p
     \<and> (unat (p_vaddr p) mod 4096 + unat (p_memsz p)) mod 4096 \<noteq> 0"

lemma pad_begin_data:
  assumes f: "file_is fs fd bs" and d: "data_segment bs b e p"
  obtains mem1 where "pad_begin fs fd b mem p r e = Inr mem1"
    "\<And>x. unat (p_vaddr p) mod 4096 \<le> unat (x - reg_host_p r) \<Longrightarrow> mem1 x = mem x"
proof (cases "unat (p_vaddr p) mod 4096 = 0")
  case True
  then have "(ucast (offset_in_page (p_vaddr p)) :: u64) = 0"
    using unat_offset_in_page [of "p_vaddr p"] by (simp add: unat_eq_zero)
  then show ?thesis
    using that [of mem] by (simp add: pad_begin_def)
next
  case False
  define n where "n = (ucast (offset_in_page (p_vaddr p)) :: u64)"
  have n: "unat n = unat (p_vaddr p) mod 4096"
    by (simp add: n_def unat_offset_in_page)
  then have n0: "n \<noteq> 0" "unat n < 4096"
    using False by auto
  obtain t where t: "find_text_header b e = Inr t" "unat (p_offset t) + unat (p_filesz t) < 2 ^ 31"
    using d False by (auto simp: data_segment_def)
  define te where "te = p_offset t + p_filesz t"
  have te: "unat te < 2 ^ 31"
    using t(2) by (simp add: te_def unat_plus_if')
  have run: "pad_begin fs fd b mem p r e = (if n < te
      then bindE (file_read fs fd mem (reg_host_p r) n (te - n - 1)) (\<lambda>(_, mem1). Inr mem1) else Inr (memset mem (reg_host_p r) 0 n))"
    using d n0(1) t(1) by (simp add: pad_begin_def data_segment_def n_def [symmetric] pad_data_begin_def te_def Let_def)
  show ?thesis
  proof (cases "n < te")
    case True
    define off where "off = te - n - 1"
    have "unat off < 2 ^ 31"
    proof -
      have "unat (te - n) = unat te - unat n" "0 < unat (te - n)"
        using True by (simp_all add: unat_sub less_imp_le word_less_nat_alt)
      then show ?thesis
        using te by (auto simp: off_def unat_sub_if')
    qed
    then have s: "sint off = int (unat off)"
      by (simp add: sint_small)
    then have "to_int (lseek_set fs fd (sint off)) = sint off"
      using f \<open>unat off < 2 ^ 31\<close> to_int_id [of "int (unat off)"] by (simp add: file_is_def del: of_nat_unat)
    then have "pad_begin fs fd b mem p r e = Inr (write_bytes mem (reg_host_p r) (take (unat n) (read_at fs fd (sint off) (unat n))))"
      using True by (simp add: run file_read_def off_def [symmetric] Let_def)
    then show ?thesis
      by (rule that) (subst write_bytes_nth, use n0 n in auto)
  next
    case False
    then show ?thesis
      using n by (intro that [of "memset mem (reg_host_p r) 0 n"]) (auto simp: run memset_def word_less_nat_alt)
  qed
qed

text \<open>The byte a guest address leads to.\<close>

definition guest_byte :: "rmgr \<Rightarrow> guestptr \<Rightarrow> u8" where
  "guest_byte rm g = pg_mem (rm_pager rm) (host_of (rm_pager rm) g)"


text \<open>What the region of the segment holds: the memory from the first byte of the segment on.\<close>

definition segment_at :: "memory \<Rightarrow> hostptr \<Rightarrow> u8 list \<Rightarrow> GElf_Phdr \<Rightarrow> bool" where
  "segment_at m h bs p \<longleftrightarrow> (\<forall>i < unat (p_memsz p). m (h + of_nat i) =
     (if i < unat (p_filesz p) then bs ! (unat (p_offset p) + i) else 0))"

lemma load_data_region:
  assumes f: "file_is fs fd bs" and d: "data_segment bs b e p" and r: "region_wf r" "unat (reg_size r) = 4096 * seg_pages p"
  obtains mem' where "load_program_header fs fd b mem p r e = Inr (0, mem')"
    "segment_at mem' (reg_host_p r + ucast (offset_in_page (p_vaddr p))) bs p"
    "\<And>x. unat (reg_size r) \<le> unat (x - reg_host_p r) \<Longrightarrow> mem' x = mem x"
proof -
  define k where "k = (ucast (offset_in_page (p_vaddr p)) :: u64)"
  have k: "unat k = unat (p_vaddr p) mod 4096"
    by (simp add: k_def unat_offset_in_page)
  obtain mem1 where pad: "pad_begin fs fd b mem p r e = Inr mem1" "\<And>x. unat k \<le> unat (x - reg_host_p r) \<Longrightarrow> mem1 x = mem x"
    using pad_begin_data [OF f d] k by metis
  have z: "unat k + zeros_end p \<le> unat (reg_size r)" "unat (reg_host_p r) + unat (reg_size r) < 2 ^ 64" "unat (p_filesz p) \<le> unat (p_memsz p)"
    "unat (p_memsz p) \<le> zeros_end p" "0 < zeros_end p"
    using d r k by (auto simp: data_segment_def region_wf_def word_le_nat_alt zeros_end_def Let_def)
  have "unat (reg_host_p r) + unat (p_vaddr p) mod 4096 + unat (p_filesz p) < 2 ^ 64" "zeros_end p < 2 ^ 64"
    using z k by linarith+
  then obtain mem' where m: "load_program_header fs fd b mem p r e = Inr (0, mem')"
    "\<And>x. mem' x = (let i = unat (x - (reg_host_p r + k)) in
         if i < unat (p_filesz p) then bs ! (unat (p_offset p) + i) else if i < zeros_end p then 0 else mem1 x)"
    using load_data_header [OF f, of p r b mem e mem1] d r(1) pad(1) unfolding region_wf_def data_segment_def k_def by blast
  show ?thesis
  proof (rule that [OF m(1)])
    show "segment_at mem' (reg_host_p r + ucast (offset_in_page (p_vaddr p))) bs p"
      unfolding segment_at_def k_def [symmetric]
    proof (intro allI impI)
      fix i assume i: "i < unat (p_memsz p)"
      then have "unat (of_nat i :: u64) = i"
        using unat_less_power [of "p_memsz p"] by (intro unat_of_nat_small) simp
      then show "mem' (reg_host_p r + k + of_nat i) = (if i < unat (p_filesz p) then bs ! (unat (p_offset p) + i) else 0)"
        using m(2) i z(4) by (simp add: Let_def)
    qed
    show "mem' x = mem x" if "unat (reg_size r) \<le> unat (x - reg_host_p r)" for x
    proof -
      have "unat (x - (reg_host_p r + k)) = unat (x - reg_host_p r) - unat k"
        using that z(1) by (simp add: diff_diff_eq [symmetric] unat_sub word_le_nat_alt)
      then show ?thesis
        using m(2) [of x] pad(2) [of x] that z by (auto simp: Let_def)
    qed
  qed
qed


text \<open>The guest addresses of the segment are free and there is room for the segment in host memory and in the page tables.\<close>

definition segment_room :: "memalign \<Rightarrow> kvm_set_region \<Rightarrow> rmgr \<Rightarrow> GElf_Phdr \<Rightarrow> bool" where
  "segment_room am ioctl rm p \<longleftrightarrow> (let gv = page_begin (p_vaddr p); sz = p_memsz p + ucast (offset_in_page (p_vaddr p)) in
     0 < gv \<and> unat (p_vaddr p) + unat (p_memsz p) + 16384 < 2 ^ 47 \<and> unat (p_memsz p) < 2 ^ 42 \<and> alloc_ready am ioctl rm sz
     \<and> unat (total_memsz (rm_pager rm)) + unat sz + 0x8000000 \<le> 2 ^ 52
     \<and> tables_used (rm_pager rm) + 3 * areas gv (seg_pages p) \<le> 4096
     \<and> (\<forall>k < seg_pages p. pt_view (rm_pager rm) (vpn (gv + of_nat (4096 * k))) = None))"

lemma powers: "(2 :: nat) ^ 47 = 140737488355328" "(2 :: nat) ^ 64 = 18446744073709551616"
  by simp_all

lemma segment_arith:
  assumes "unat (p_vaddr p) + unat (p_memsz p) + 16384 < 2 ^ 47" "(unat (p_vaddr p) mod 4096 + unat (p_memsz p)) mod 4096 \<noteq> 0"
  defines "sz \<equiv> p_memsz p + ucast (offset_in_page (p_vaddr p))"
  shows "unat sz = unat (p_vaddr p) mod 4096 + unat (p_memsz p)" "0 < sz" "\<not> page_aligned sz" "unat (pagesize_align sz) = 4096 * seg_pages p"
    "unat (page_begin (p_vaddr p)) + unat sz = unat (p_vaddr p) + unat (p_memsz p)" "0 < seg_pages p"
    "4096 * seg_pages p \<le> unat sz + 4095" "unat sz \<le> 4096 * seg_pages p"
    "p_vaddr p + of_nat i = page_begin (p_vaddr p) + of_nat (unat (p_vaddr p) mod 4096 + i)"
proof -
  have m: "unat (p_vaddr p) mod 4096 < 4096" "unat (p_vaddr p) mod 4096 \<le> unat (p_vaddr p)"
    by simp_all
  show u: "unat sz = unat (p_vaddr p) mod 4096 + unat (p_memsz p)"
  proof -
    have "unat (p_memsz p) + unat (p_vaddr p) mod 4096 < 2 ^ 64"
      using assms(1) m powers by linarith
    then show ?thesis
      by (simp add: sz_def unat_plus_if' unat_offset_in_page)
  qed
  then show "0 < sz" "\<not> page_aligned sz"
    using assms(2) by (auto simp: page_aligned_iff dvd_eq_mod_eq_0 word_less_nat_alt)
  have "unat sz \<le> 2 ^ 64 - 4096"
    using u assms(1) m powers by linarith
  then show "unat (pagesize_align sz) = 4096 * seg_pages p"
    by (simp add: unat_pagesize_align seg_pages_def u)
  show "unat (page_begin (p_vaddr p)) + unat sz = unat (p_vaddr p) + unat (p_memsz p)"
    using u m by (simp add: unat_page_begin)
  have "unat (p_vaddr p) mod 4096 + unat (p_memsz p) \<noteq> 0"
    using assms(2) by auto
  then show "0 < seg_pages p" "4096 * seg_pages p \<le> unat sz + 4095" "unat sz \<le> 4096 * seg_pages p"
    unfolding seg_pages_def u by (simp_all add: div_greater_zero_iff Suc_le_eq)
  have "p_vaddr p = page_begin (p_vaddr p) + of_nat (unat (p_vaddr p) mod 4096)"
    using page_begin_plus_offset [of "p_vaddr p"] unat_page_offset [of "p_vaddr p"] by (metis unat_eq_of_nat)
  then show "p_vaddr p + of_nat i = page_begin (p_vaddr p) + of_nat (unat (p_vaddr p) mod 4096 + i)"
    by (simp add: add.assoc [symmetric])
qed

lemma segment_pages_word:
  assumes "segment_room am ioctl rm p"
  shows "pages_from_size (p_memsz p + ucast (offset_in_page (p_vaddr p))) = of_nat (seg_pages p)"
proof (rule unat_eq_of_nat)
  obtain l where l: "unat (p_vaddr p) mod 4096 = l" "l < 4096"
    by simp
  have m: "unat (p_memsz p) < 2 ^ 42"
    using assms by (simp add: segment_room_def Let_def)
  then have "unat (p_memsz p + ucast (offset_in_page (p_vaddr p))) = l + unat (p_memsz p)"
    using l by (simp add: unat_plus_if' unat_offset_in_page)
  then show "unat (pages_from_size (p_memsz p + ucast (offset_in_page (p_vaddr p)))) = seg_pages p"
    using l m by (simp add: unat_pages_from_size seg_pages_def)
qed

text \<open>The region of a loaded segment before the heap manager takes it over: filled and mapped.\<close>

definition segment_loaded :: "rmgr \<Rightarrow> u8 list \<Rightarrow> GElf_Phdr \<Rightarrow> rid \<Rightarrow> rmgr \<Rightarrow> bool" where
  "segment_loaded rm bs p a rm' \<longleftrightarrow> mem_ok rm' \<and> \<not> reg_free (rm_store rm' a) \<and> reg_addr (rm_store rm' a) = page_begin (p_vaddr p)
     \<and> reg_size (rm_store rm' a) = pagesize_align (p_memsz p + ucast (offset_in_page (p_vaddr p)))
     \<and> (\<forall>i < unat (p_memsz p). guest_byte rm' (p_vaddr p + of_nat i) = (if i < unat (p_filesz p) then bs ! (unat (p_offset p) + i) else 0))
     \<and> (\<forall>g. host_of (rm_pager rm) g \<noteq> 0 \<longrightarrow> host_of (rm_pager rm') g = host_of (rm_pager rm) g)"

lemma load_phdr_loaded:
  assumes ok: "mem_ok (heap_rm h)" and am: "memalign_ok am" and f: "file_is fs fd bs" and d: "data_segment bs b e p"
    and room: "segment_room am ioctl (heap_rm h) p" and b: "\<not> is_ldr b"
  obtains a rm' where "segment_loaded (heap_rm h) bs p a rm'"
    "load_phdr am ioctl fs fd e p b h = bindE (heap_init (set_rm rm' h) a (p_memsz p + ucast (offset_in_page (p_vaddr p)))) (\<lambda>(err, h1).
       bindE (assertE (err = 0)) (\<lambda>_. Inr (b, h1)))"
proof -
  define gv where "gv = page_begin (p_vaddr p)"
  define k where "k = (ucast (offset_in_page (p_vaddr p)) :: u64)"
  define sz where "sz = p_memsz p + k"
  have R: "0 < gv" "unat (p_vaddr p) + unat (p_memsz p) + 16384 < 2 ^ 47" "alloc_ready am ioctl (heap_rm h) sz"
    "unat (total_memsz (rm_pager (heap_rm h))) + unat sz + 0x8000000 \<le> 2 ^ 52"
    "tables_used (rm_pager (heap_rm h)) + 3 * areas gv (seg_pages p) \<le> 4096"
    "\<And>j. j < seg_pages p \<Longrightarrow> pt_view (rm_pager (heap_rm h)) (vpn (gv + of_nat (4096 * j))) = None"
    using room by (simp_all add: segment_room_def gv_def sz_def k_def Let_def)
  have "(unat (p_vaddr p) mod 4096 + unat (p_memsz p)) mod 4096 \<noteq> 0"
    using d by (simp add: data_segment_def)
  note A = segment_arith [OF R(2) this, folded k_def sz_def gv_def]
  obtain a rm1 where al: "allocate_region am ioctl (heap_rm h) sz ''ELF PHdr'' = Inr (a, rm1)" "fresh_region (heap_rm h) sz a rm1"
    by (rule fresh_region_ok [OF ok am R(3) A(2) R(4)])
  note fr = fresh_regionD [OF al(2)]
  define rm2 where "rm2 = update_region rm1 a (set_guest_addr gv (rm_store rm1 a))"
  note ug = update_guest_addr [of rm1 a gv, folded rm2_def]
  have ok2: "mem_ok rm2" "rm_inv rm2" "a \<in> set (allocated_regions rm2)" "\<not> pager_region rm2 a"
    using ug fr(1-3) by (auto simp: mem_ok_def mem_inv_def)
  have r: "region_wf (rm_store rm2 a)" "unat (reg_size (rm_store rm2 a)) = 4096 * seg_pages p" "reg_size (rm_store rm2 a) = pagesize_align sz"
    "\<not> reg_free (rm_store rm2 a)" "reg_addr (rm_store rm2 a) = gv"
    using allocated_wf [OF ok2(2,3)] ok2(1,3) fr(4) ug(6,8) A(4) lists_okD(2) by (auto simp: mem_ok_def mem_inv_def rm_inv_def)
  obtain mem where m: "load_program_header fs fd b (pg_mem (rm_pager rm2)) p (rm_store rm2 a) e = Inr (0, mem)"
    "segment_at mem (reg_host_p (rm_store rm2 a) + k) bs p"
    "\<And>x. unat (reg_size (rm_store rm2 a)) \<le> unat (x - reg_host_p (rm_store rm2 a)) \<Longrightarrow> mem x = pg_mem (rm_pager rm2) x"
    using load_data_region [OF f d r(1,2)] unfolding k_def by metis
  obtain p' where p': "map_region ((rm_pager rm2)\<lparr>pg_mem := mem\<rparr>) (reg_host_p (rm_store rm2 a)) gv (of_nat (seg_pages p))
      (get_pager_opts_from_phdr_flags (p_flags p)) = Inr (0, p')" "mem_ok ((store_mem mem rm2)\<lparr>rm_pager := p'\<rparr>)"
    "\<And>off. off < 4096 * seg_pages p \<Longrightarrow> host_of p' (gv + of_nat off) = reg_host_p (rm_store rm2 a) + of_nat off"
    "\<And>off. off < 4096 * seg_pages p \<Longrightarrow> pg_mem p' (reg_host_p (rm_store rm2 a) + of_nat off) = mem (reg_host_p (rm_store rm2 a) + of_nat off)"
    "\<And>g. host_of (rm_pager rm2) g \<noteq> 0 \<Longrightarrow> host_of p' g = host_of (rm_pager rm2) g"
  proof (rule store_and_map [OF ok2(1,3,4) writes_withinI [OF ok2(2,3) m(3)], of gv "seg_pages p" "get_pager_opts_from_phdr_flags (p_flags p)"])
    show "unat gv + 4096 * seg_pages p \<le> 2 ^ 64"
      using A(5,7) R(2) powers by linarith
  qed (use R(1,5,6) A(6) r(2) fr(6) ug(4) al(2) in \<open>auto simp: gv_def fresh_region_def\<close>)
  define rm4 where "rm4 = (store_mem mem rm2)\<lparr>rm_pager := p'\<rparr>"
  have byte: "guest_byte rm4 (p_vaddr p + of_nat i) = (if i < unat (p_filesz p) then bs ! (unat (p_offset p) + i) else 0)"
    if i: "i < unat (p_memsz p)" for i
  proof -
    let ?o = "unat (p_vaddr p) mod 4096 + i"
    have o: "?o < 4096 * seg_pages p" "k = of_nat (unat (p_vaddr p) mod 4096)"
      using i A(1,8) unat_eq_of_nat [OF unat_offset_in_page [of "p_vaddr p"]] by (simp_all add: k_def)
    then have "guest_byte rm4 (p_vaddr p + of_nat i) = mem (reg_host_p (rm_store rm2 a) + k + of_nat i)"
      using p'(3,4) [of ?o] unfolding A(9) by (simp add: guest_byte_def rm4_def add.assoc)
    then show ?thesis
      using m(2) i by (simp add: segment_at_def)
  qed
  have "segment_loaded (heap_rm h) bs p a rm4"
    using p'(2,5) byte r(3-5) fr(9) ug(4) by (auto simp: segment_loaded_def rm4_def sz_def k_def gv_def)
  then show ?thesis
    using b al(1) m(1) p'(1) r(5) segment_pages_word [OF room]
    by (intro that [of a rm4]) (simp_all add: load_phdr_def Let_def k_def [symmetric] sz_def [symmetric] gv_def [symmetric] rm2_def [symmetric] rm4_def)
qed



definition sample_segment :: GElf_Phdr where
  "sample_segment = \<lparr>p_type = PT_LOAD, p_flags = 6, p_offset = 1, p_vaddr = 0x600000, p_filesz = 3, p_memsz = 4099\<rparr>"

definition sample_files :: host_files where
  "sample_files = \<lparr>lseek_cur = (\<lambda>_. 0), lseek_set = (\<lambda>_ off. off), read_at = (\<lambda>_ off n. take n (drop (nat off) [0x7F, 10, 20, 30 :: u8]))\<rparr>"

definition sample_elf :: elf where
  "sample_elf = \<lparr>elf_kind = ELF_K_ELF, gelf_getclass = ELFCLASS64, gelf_getehdr = None, elf_getphdrnum = Some 1,
     gelf_getphdr = (\<lambda>_. Some sample_segment)\<rparr>"


text \<open>A segment whose zeros fit into the page in which its bytes end: the loader clears that page and then as many bytes behind the region
  as there are zeros.\<close>

lemma bss_overrun:
  assumes f: "file_is fs fd bs" "unat (p_offset p) + unat (p_filesz p) \<le> length bs" "unat (p_offset p) < 2 ^ 31"
    and fl: "p_flags p AND PF_X = 0" "p_flags p AND PF_W \<noteq> 0" and al: "page_aligned (p_vaddr p)" "region_wf r" "reg_size r = 0x1000"
    and sz: "0 < unat (p_filesz p)" "unat (p_filesz p) < unat (p_memsz p)" "unat (p_memsz p) < 4096" and j: "j < unat (p_memsz p) - unat (p_filesz p)"
  obtains mem' where "load_program_header fs fd b mem p r e = Inr (0, mem')" "mem' (reg_host_p r + reg_size r + of_nat j) = 0"
proof -
  have o: "unat (p_vaddr p) mod 4096 = 0"
    using al(1) by (simp add: page_aligned_iff dvd_eq_mod_eq_0)
  then have k: "(ucast (offset_in_page (p_vaddr p)) :: u64) = 0"
    using unat_offset_in_page [of "p_vaddr p"] by (simp add: unat_eq_zero)
  have z: "zeros_end p = unat (p_memsz p) + (4096 - unat (p_filesz p))"
    using o sz by (simp add: zeros_end_def)
  have "unat (reg_host_p r) + unat (p_filesz p) < 2 ^ 64" "zeros_end p < 2 ^ 64"
    using al(2,3) sz z by (simp_all add: region_wf_def)
  then obtain mem' where m: "load_program_header fs fd b mem p r e = Inr (0, mem')" "\<And>x. mem' x = (let i = unat (x - reg_host_p r) in
      if i < unat (p_filesz p) then bs ! (unat (p_offset p) + i) else if i < zeros_end p then 0 else mem x)"
    using load_data_header [OF f fl, of r b mem e mem] al(2) sz o k by (auto simp: word_le_nat_alt region_wf_def pad_begin_def)
  have "unat (0x1000 + of_nat j :: u64) = 4096 + j"
    using sz j unat_of_nat_small [of j] by (simp add: unat_plus_if')
  then have "mem' (reg_host_p r + reg_size r + of_nat j) = 0"
    using m(2) [of "reg_host_p r + 0x1000 + of_nat j"] z sz j al(3) by (auto simp: Let_def add.assoc)
  then show ?thesis
    using that [OF m(1)] by blast
qed

end
