(* ===== verification/Environ.thy ===== *)
theory Environ
  imports Elf_Loader Vcpu
begin

text \<open>
  The environment of the program, \<^verbatim>\<open>src/src/environ.cc\<close>: the strings go to a region of their own and the stack gets the argument
  count, the pointers to the arguments and to the environment, and the auxiliary vector.
\<close>

section \<open>The region of the strings\<close>

record env_region =
  er_region :: rid
  er_offset :: u64

definition EnvRegion :: "rmgr \<Rightarrow> rid \<Rightarrow> env_region \<times> rmgr" where
  "EnvRegion rm r =
     (\<lparr>er_region = r, er_offset = reg_size (rm_store rm r)\<rparr>,
      update_region rm r (set_guest_addr (reg_host_p (rm_store rm r)) (rm_store rm r)))"

text \<open>The characters are copied without a null byte behind them.\<close>

definition write_str :: "env_region \<Rightarrow> rmgr \<Rightarrow> string \<Rightarrow> (guestptr \<times> env_region \<times> rmgr) res" where
  "write_str er rm str =
     (let r = rm_store rm (er_region er); len = of_nat (length str) in
      bindE (assertE (len + 1 < er_offset er)) (\<lambda>_.
      let noff = er_offset er - len - 1;
          target = reg_host_p r + noff in
      bindE (assertE (target + len < reg_host_p r + reg_size r)) (\<lambda>_.
      let guest_virtual = reg_addr r + noff in
      bindE (assertE (guest_virtual + len < reg_addr r + reg_size r)) (\<lambda>_.
      Inr (guest_virtual, er\<lparr>er_offset := noff\<rparr>, store_mem (write_bytes (pg_mem (rm_pager rm)) target (map of_char str)) rm)))))"

section \<open>Contents\<close>

text \<open>An entry of the auxiliary vector: its type and its value.\<close>

record auxv_t =
  a_type :: u64
  a_val :: u64

record environment =
  env_region :: env_region
  env_auxv :: "auxv_t list"
  env_env :: "string list"
  env_argv :: "string list"
  env_argc :: int

definition AT_NULL :: int where "AT_NULL = 0"
definition AT_IGNORE :: int where "AT_IGNORE = 1"
definition AT_EXECFD :: int where "AT_EXECFD = 2"
definition AT_PHDR :: int where "AT_PHDR = 3"
definition AT_PHENT :: int where "AT_PHENT = 4"
definition AT_PHNUM :: int where "AT_PHNUM = 5"
definition AT_PAGESZ :: int where "AT_PAGESZ = 6"
definition AT_BASE :: int where "AT_BASE = 7"
definition AT_FLAGS :: int where "AT_FLAGS = 8"
definition AT_ENTRY :: int where "AT_ENTRY = 9"
definition AT_NOTELF :: int where "AT_NOTELF = 10"
definition AT_UID :: int where "AT_UID = 11"
definition AT_EUID :: int where "AT_EUID = 12"
definition AT_GID :: int where "AT_GID = 13"
definition AT_EGID :: int where "AT_EGID = 14"
definition AT_HWCAP :: int where "AT_HWCAP = 16"
definition AT_CLKTCK :: int where "AT_CLKTCK = 17"
definition AT_SECURE :: int where "AT_SECURE = 23"
definition AT_SYSINFO_EHDR :: int where "AT_SYSINFO_EHDR = 33"

lemmas at_defs = AT_NULL_def AT_IGNORE_def AT_EXECFD_def AT_PHDR_def AT_PHENT_def AT_PHNUM_def AT_PAGESZ_def AT_BASE_def AT_FLAGS_def
  AT_ENTRY_def AT_NOTELF_def AT_UID_def AT_EUID_def AT_GID_def AT_EGID_def AT_HWCAP_def AT_CLKTCK_def AT_SECURE_def AT_SYSINFO_EHDR_def

text \<open>What the monitor was started with: the pointers of \<open>argv\<close>, and the words of its memory from \<open>envp\<close> on, as far as they can be
  read.  Behind the null pointer that ends \<open>envp\<close> lies the auxiliary vector.  \<open>cstr\<close> is the string at an address of the monitor; making a
  string of the null pointer throws.\<close>

record host_args =
  host_argc :: int
  host_argv :: "hostptr list"
  host_envp :: "u64 list"

definition host_str :: "(u64 \<Rightarrow> string) \<Rightarrow> u64 \<Rightarrow> string res" where
  "host_str cstr p = (if p = 0 then Inl (Throw 0) else Inr (cstr p))"

fun fill_argv :: "(u64 \<Rightarrow> string) \<Rightarrow> nat \<Rightarrow> hostptr list \<Rightarrow> string list res" where
  "fill_argv cstr 0 ps = Inr []"
| "fill_argv cstr (Suc n) [] = Inl Fault"
| "fill_argv cstr (Suc n) (p # ps) = bindE (host_str cstr p) (\<lambda>x. bindE (fill_argv cstr n ps) (\<lambda>xs. Inr (x # xs)))"

fun fill_env :: "(u64 \<Rightarrow> string) \<Rightarrow> u64 list \<Rightarrow> string list res" where
  "fill_env cstr [] = Inl Fault"
| "fill_env cstr (p # ps) = (if p = 0 then Inr [] else bindE (fill_env cstr ps) (\<lambda>xs. Inr (cstr p # xs)))"

fun calc_auxv :: "u64 list \<Rightarrow> u64 list res" where
  "calc_auxv [] = Inl Fault"
| "calc_auxv (p # ps) = (if p = 0 then Inr ps else calc_auxv ps)"

fun fill_auxv :: "u64 list \<Rightarrow> auxv_t list res" where
  "fill_auxv (t # v # ws) =
     (if t = of_int AT_NULL then Inr [] else bindE (fill_auxv ws) (\<lambda>as. Inr (\<lparr>a_type = t, a_val = v\<rparr> # as)))"
| "fill_auxv [t] = (if t = of_int AT_NULL then Inr [] else Inl Fault)"
| "fill_auxv [] = Inl Fault"

definition Environment :: "(u64 \<Rightarrow> string) \<Rightarrow> rmgr \<Rightarrow> rid \<Rightarrow> host_args \<Rightarrow> (environment \<times> rmgr) res" where
  "Environment cstr rm r args =
     (let (er, rm1) = EnvRegion rm r in
      bindE (fill_argv cstr (nat (host_argc args)) (host_argv args)) (\<lambda>argv.
      bindE (fill_env cstr (host_envp args)) (\<lambda>env.
      bindE (calc_auxv (host_envp args)) (\<lambda>av.
      bindE (fill_auxv av) (\<lambda>av1.
      Inr (\<lparr>env_region = er, env_auxv = av1, env_env = env, env_argv = argv, env_argc = host_argc args\<rparr>, rm1))))))"

text \<open>From the block of words the kernel starts a program with, the constructor recovers the strings and the auxiliary vector.\<close>

definition startup_words :: "u64 list \<Rightarrow> auxv_t list \<Rightarrow> u64 list" where
  "startup_words envp as = envp @ 0 # concat (map (\<lambda>a. [a_type a, a_val a]) as) @ [0]"

lemma fill_argv_all: "0 \<notin> set ps \<Longrightarrow> fill_argv cstr (length ps) ps = Inr (map cstr ps)"
  by (induction ps) (simp_all add: host_str_def)

lemma fill_env_startup: "0 \<notin> set envp \<Longrightarrow> fill_env cstr (startup_words envp as) = Inr (map cstr envp)"
  unfolding startup_words_def by (induction envp) simp_all

lemma calc_auxv_startup:
  "0 \<notin> set envp \<Longrightarrow> calc_auxv (startup_words envp as) = Inr (concat (map (\<lambda>a. [a_type a, a_val a]) as) @ [0])"
  unfolding startup_words_def by (induction envp) simp_all

lemma fill_auxv_startup:
  "\<forall>a \<in> set as. a_type a \<noteq> 0 \<Longrightarrow> fill_auxv (concat (map (\<lambda>a. [a_type a, a_val a]) as) @ [0]) = Inr as"
  by (induction as) (simp_all add: AT_NULL_def)

lemma Environment_startup:
  assumes "0 \<notin> set ps" "0 \<notin> set envp" "\<forall>a \<in> set as. a_type a \<noteq> 0" "EnvRegion rm r = (er, rm1)"
  shows "Environment cstr rm r \<lparr>host_argc = int (length ps), host_argv = ps, host_envp = startup_words envp as\<rparr>
    = Inr (\<lparr>env_region = er, env_auxv = as, env_env = map cstr envp, env_argv = map cstr ps, env_argc = int (length ps)\<rparr>, rm1)"
  using assms by (simp add: Environment_def fill_argv_all fill_env_startup calc_auxv_startup fill_auxv_startup)

section \<open>The auxiliary vector\<close>

definition aux_int :: "u64 \<Rightarrow> int" where
  "aux_int t = sint (ucast t :: u32)"

definition fix_auxv_entry :: "Elf_auxv \<Rightarrow> auxv_t \<Rightarrow> auxv_t" where
  "fix_auxv_entry v a =
     (if a_type a = of_int AT_PHDR then a\<lparr>a_val := at_phdr v\<rparr>
      else if a_type a = of_int AT_PHENT then a\<lparr>a_val := at_phent v\<rparr>
      else if a_type a = of_int AT_PHNUM then a\<lparr>a_val := at_phnum v\<rparr>
      else if a_type a = of_int AT_ENTRY then a\<lparr>a_val := at_entry v\<rparr>
      else if a_type a = of_int AT_BASE then a\<lparr>a_val := at_base v\<rparr>
      else a)"

text \<open>Every one of the five entries must be there.\<close>

definition fix_auxv_dynamic_values :: "Elf_auxv \<Rightarrow> auxv_t list \<Rightarrow> auxv_t list res" where
  "fix_auxv_dynamic_values v av =
     bindE (assertE (\<forall>t \<in> set [AT_PHDR, AT_PHENT, AT_PHNUM, AT_ENTRY, AT_BASE]. \<exists>a \<in> set av. a_type a = of_int t)) (\<lambda>_.
     Inr (map (fix_auxv_entry v) av))"

definition treat_as_int_type :: "int \<Rightarrow> bool" where
  "treat_as_int_type t \<longleftrightarrow> t \<in> set [AT_NULL, AT_IGNORE, AT_EXECFD, AT_PHDR, AT_PHENT, AT_PHNUM, AT_PAGESZ, AT_FLAGS, AT_ENTRY, AT_NOTELF,
     AT_UID, AT_EUID, AT_GID, AT_EGID, AT_HWCAP, AT_CLKTCK, AT_SECURE, AT_BASE]"

definition ignored_type :: "int \<Rightarrow> bool" where
  "ignored_type t \<longleftrightarrow> t \<in> set [AT_SYSINFO_EHDR]"

section \<open>The stack\<close>

text \<open>The state of the pushes: the region of the strings, memory and the CPU.  \<open>cstr\<close> is the string at an address of the monitor.\<close>

type_synonym 'k env_state = "env_region \<times> rmgr \<times> 'k vcpu"

definition env_push :: "memalign \<Rightarrow> kvm_set_region \<Rightarrow> u64 \<Rightarrow> 'k env_state \<Rightarrow> 'k env_state res" where
  "env_push am ioctl val = (\<lambda>(er, rm, v). bindE (push am ioctl rm v val) (\<lambda>(rm1, v1). Inr (er, rm1, v1)))"

definition push_str_copy :: "memalign \<Rightarrow> kvm_set_region \<Rightarrow> string \<Rightarrow> 'k env_state \<Rightarrow> 'k env_state res" where
  "push_str_copy am ioctl str = (\<lambda>(er, rm, v). bindE (write_str er rm str) (\<lambda>(guest_virtual, er1, rm1). env_push am ioctl guest_virtual (er1, rm1, v)))"

definition push_auxv_entry :: "memalign \<Rightarrow> kvm_set_region \<Rightarrow> (u64 \<Rightarrow> string) \<Rightarrow> auxv_t \<Rightarrow> 'k env_state \<Rightarrow> 'k env_state res" where
  "push_auxv_entry am ioctl cstr a s =
     (if ignored_type (aux_int (a_type a)) then Inr s
      else bindE (if treat_as_int_type (aux_int (a_type a)) then env_push am ioctl (a_val a) s else push_str_copy am ioctl (cstr (a_val a)) s)
             (env_push am ioctl (a_type a)))"

primrec push_auxv_raw :: "memalign \<Rightarrow> kvm_set_region \<Rightarrow> (u64 \<Rightarrow> string) \<Rightarrow> auxv_t list \<Rightarrow> 'k env_state \<Rightarrow> 'k env_state res" where
  "push_auxv_raw am ioctl cstr [] s = Inr s"
| "push_auxv_raw am ioctl cstr (a # as) s = bindE (push_auxv_raw am ioctl cstr as s) (push_auxv_entry am ioctl cstr a)"

primrec push_strs :: "memalign \<Rightarrow> kvm_set_region \<Rightarrow> string list \<Rightarrow> 'k env_state \<Rightarrow> 'k env_state res" where
  "push_strs am ioctl [] s = Inr s"
| "push_strs am ioctl (x # xs) s = bindE (push_strs am ioctl xs s) (push_str_copy am ioctl x)"

definition push_auxv :: "memalign \<Rightarrow> kvm_set_region \<Rightarrow> (u64 \<Rightarrow> string) \<Rightarrow> Elf_auxv \<Rightarrow> environment \<Rightarrow> 'k env_state \<Rightarrow> 'k env_state res" where
  "push_auxv am ioctl cstr bin e s =
     bindE (if auxv_valid bin then fix_auxv_dynamic_values bin (env_auxv e) else Inr (env_auxv e)) (\<lambda>av.
     bindE (push_auxv_raw am ioctl cstr av s) (env_push am ioctl 0))"

definition push_env :: "memalign \<Rightarrow> kvm_set_region \<Rightarrow> environment \<Rightarrow> 'k env_state \<Rightarrow> 'k env_state res" where
  "push_env am ioctl e s = bindE (push_strs am ioctl (env_env e) s) (env_push am ioctl 0)"

definition push_argv :: "memalign \<Rightarrow> kvm_set_region \<Rightarrow> environment \<Rightarrow> 'k env_state \<Rightarrow> 'k env_state res" where
  "push_argv am ioctl e s = push_strs am ioctl (env_argv e) s"

definition push_argc :: "memalign \<Rightarrow> kvm_set_region \<Rightarrow> environment \<Rightarrow> 'k env_state \<Rightarrow> 'k env_state res" where
  "push_argc am ioctl e = env_push am ioctl (of_int (env_argc e))"

definition push_environment :: "memalign \<Rightarrow> kvm_set_region \<Rightarrow> (u64 \<Rightarrow> string) \<Rightarrow> Elf_auxv \<Rightarrow> environment \<Rightarrow> 'k env_state \<Rightarrow> 'k env_state res" where
  "push_environment am ioctl cstr bin e s =
     bindE (push_auxv am ioctl cstr bin e s) (\<lambda>s.
     bindE (push_env am ioctl e s) (\<lambda>s.
     bindE (push_argv am ioctl e s) (push_argc am ioctl e)))"

definition env_create :: "memalign \<Rightarrow> kvm_set_region \<Rightarrow> 'k kvm_ops \<Rightarrow> (u64 \<Rightarrow> string) \<Rightarrow> Elf_auxv \<Rightarrow> environment \<Rightarrow> rmgr \<Rightarrow> 'k vcpu
    \<Rightarrow> (int \<times> rmgr \<times> 'k vcpu) res" where
  "env_create am ioctl ops cstr bin e rm v =
     (let (err, v1) = vcpu_get_regs ops v in
      bindE (assertE (err = 0)) (\<lambda>_.
      bindE (push_environment am ioctl cstr bin e (env_region e, rm, v1)) (\<lambda>(_, rm1, v2).
      let (err, v3) = vcpu_set_regs ops v2 in Inr (err, rm1, v3))))"

end
