(* ===== verification/Environ_Props.thy ===== *)
theory Environ_Props
  imports Environ Elf_Props Frames Vcpu_Props
begin

text \<open>
  The stack a program starts with.  Every push of the environment adds words below the stack and bytes below the strings written
  so far, and keeps the rest; the layout of the whole stack follows by composing such steps.
\<close>

section \<open>Steps\<close>

definition env_byte :: "env_region \<Rightarrow> rmgr \<Rightarrow> nat \<Rightarrow> u8" where
  "env_byte er rm off = pg_mem (rm_pager rm) (reg_host_p (rm_store rm (er_region er)) + of_nat off)"

text \<open>The region of the strings is mapped, lies apart from the stack, and its unused part holds zeros.\<close>

definition env_ok :: "'k env_state \<Rightarrow> bool" where
  "env_ok = (\<lambda>(er, rm, v). let r = rm_store rm (er_region er) in mem_ok rm \<and> stack_inv rm (vcpu_stack v)
     \<and> er_region er \<in> set (allocated_regions rm) \<and> \<not> pager_region rm (er_region er) \<and> er_region er \<notin> set (stack_regions (vcpu_stack v))
     \<and> unat (reg_addr r) + unat (reg_size r) < 2 ^ 64 \<and> er_offset er \<le> reg_size r
     \<and> (\<forall>off < unat (reg_size r). host_of (rm_pager rm) (reg_addr r + of_nat off) = reg_host_p r + of_nat off)
     \<and> (\<forall>off < unat (er_offset er). env_byte er rm off = 0))"

text \<open>The stack has \<open>n\<close> free words; or it is used up, and the next push makes it grow.\<close>

definition stack_free :: "'k vcpu \<Rightarrow> nat \<Rightarrow> bool" where
  "stack_free v n \<longleftrightarrow> unat (stack_base (vcpu_stack v)) + 8 * n \<le> unat (vcpu_get_reg v RSP)
     \<and> unat (vcpu_get_reg v RSP) \<le> 2 ^ 47 \<and> 8 dvd unat (vcpu_get_reg v RSP)"

definition stack_full :: "memalign \<Rightarrow> kvm_set_region \<Rightarrow> rmgr \<Rightarrow> 'k vcpu \<Rightarrow> bool" where
  "stack_full am ioctl rm v \<longleftrightarrow> vcpu_get_reg v RSP = stack_base (vcpu_stack v) \<and> memalign_ok am \<and> stack_room rm (vcpu_stack v)
     \<and> alloc_ready am ioctl rm ELKVM_STACK_GROW"

definition stack_space :: "memalign \<Rightarrow> kvm_set_region \<Rightarrow> rmgr \<Rightarrow> 'k vcpu \<Rightarrow> nat \<Rightarrow> bool" where
  "stack_space am ioctl rm v n \<longleftrightarrow> stack_free v n \<or> stack_full am ioctl rm v \<and> 8 * n \<le> 0x200000"

definition env_step :: "'k env_state \<Rightarrow> u64 list \<Rightarrow> 'k env_state \<Rightarrow> bool" where
  "env_step = (\<lambda>(er, rm, v) ws (er', rm', v'). env_ok (er', rm', v') \<and> rm_store rm' (er_region er) = rm_store rm (er_region er)
     \<and> er_region er' = er_region er \<and> er_offset er' \<le> er_offset er
     \<and> kvm_vcpu v' = set_reg RSP (vcpu_get_reg v RSP - of_nat (8 * length ws)) (kvm_vcpu v)
     \<and> unat (stack_base (vcpu_stack v')) \<le> unat (stack_base (vcpu_stack v))
     \<and> (if ws = [] then (\<forall>am ioctl. stack_full am ioctl rm v \<longrightarrow> stack_full am ioctl rm' v')
        else unat (stack_base (vcpu_stack v')) \<le> unat (vcpu_get_reg v' RSP))
     \<and> (\<forall>i < length ws. stack_word rm' (vcpu_get_reg v' RSP + of_nat (8 * i)) = ws ! i)
     \<and> (\<forall>g. stack_slot (vcpu_stack v) g \<longrightarrow> unat (vcpu_get_reg v RSP) \<le> unat g \<longrightarrow> stack_word rm' g = stack_word rm g)
     \<and> (\<forall>off < unat (reg_size (rm_store rm (er_region er))). unat (er_offset er) \<le> off \<longrightarrow> env_byte er rm' off = env_byte er rm off))"

lemma env_stepD:
  assumes "env_step (er, rm, v) ws (er', rm', v')"
  shows "env_ok (er', rm', v')" "rm_store rm' (er_region er) = rm_store rm (er_region er)" "er_region er' = er_region er" "er_offset er' \<le> er_offset er"
    "kvm_vcpu v' = set_reg RSP (vcpu_get_reg v RSP - of_nat (8 * length ws)) (kvm_vcpu v)"
    "unat (stack_base (vcpu_stack v')) \<le> unat (stack_base (vcpu_stack v))"
    "\<And>am ioctl. ws = [] \<Longrightarrow> stack_full am ioctl rm v \<Longrightarrow> stack_full am ioctl rm' v'"
    "ws \<noteq> [] \<Longrightarrow> unat (stack_base (vcpu_stack v')) \<le> unat (vcpu_get_reg v' RSP)"
    "\<And>i. i < length ws \<Longrightarrow> stack_word rm' (vcpu_get_reg v' RSP + of_nat (8 * i)) = ws ! i"
    "\<And>g. stack_slot (vcpu_stack v) g \<Longrightarrow> unat (vcpu_get_reg v RSP) \<le> unat g \<Longrightarrow> stack_word rm' g = stack_word rm g"
    "\<And>off. off < unat (reg_size (rm_store rm (er_region er))) \<Longrightarrow> unat (er_offset er) \<le> off \<Longrightarrow> env_byte er rm' off = env_byte er rm off"
  using assms unfolding env_step_def prod.case by (auto split: if_splits)

lemma env_step_refl: "env_ok s \<Longrightarrow> env_step s [] s"
  by (auto simp: env_step_def vcpu_get_reg_def gpr.put_get split: prod.splits)

lemma env_step_rsp:
  assumes "env_step (er, rm, v) ws (er', rm', v')"
  shows "vcpu_get_reg v' RSP = vcpu_get_reg v RSP - of_nat (8 * length ws)"
  using env_stepD(5) [OF assms] by (simp add: vcpu_get_reg_def)

text \<open>A full stack ends at a multiple of 2 MiB above the first 2 MiB.\<close>

lemma stack_full_base:
  assumes "stack_full am ioctl rm v" "stack_inv rm (vcpu_stack v)"
  obtains n where "unat (vcpu_get_reg v RSP) = 0x200000 * n" "0 < n" "n \<le> 2 ^ 26"
proof -
  let ?k = "length (stack_regions (vcpu_stack v))"
  have k: "Suc ?k < 2 ^ 26" "vcpu_get_reg v RSP = stack_addr ?k"
    using assms by (simp_all add: stack_full_def stack_room_def stack_inv_def)
  then have "unat (vcpu_get_reg v RSP) = 0x200000 * (2 ^ 26 - ?k)"
    using unat_stack_addr [of ?k] by simp
  then show ?thesis
    by (rule that) (use k(1) in simp_all)
qed

lemma stack_space_rsp:
  assumes "stack_space am ioctl rm v n" "stack_inv rm (vcpu_stack v)"
  shows "8 * n \<le> unat (vcpu_get_reg v RSP)" "unat (vcpu_get_reg v RSP) \<le> 2 ^ 47" "8 dvd unat (vcpu_get_reg v RSP)"
proof -
  consider "stack_free v n" | "stack_full am ioctl rm v" "8 * n \<le> 0x200000"
    using assms(1) by (auto simp: stack_space_def)
  then have "8 * n \<le> unat (vcpu_get_reg v RSP) \<and> unat (vcpu_get_reg v RSP) \<le> 2 ^ 47 \<and> 8 dvd unat (vcpu_get_reg v RSP)"
  proof cases
    case 2
    obtain m where m: "unat (vcpu_get_reg v RSP) = 0x200000 * m" "0 < m" "m \<le> 2 ^ 26"
      by (rule stack_full_base [OF 2(1) assms(2)])
    have "8 dvd 0x200000 * m"
      by (rule dvd_mult2) simp
    then show ?thesis
      using 2(2) m by simp
  qed (simp add: stack_free_def)
  then show "8 * n \<le> unat (vcpu_get_reg v RSP)" "unat (vcpu_get_reg v RSP) \<le> 2 ^ 47" "8 dvd unat (vcpu_get_reg v RSP)"
    by simp_all
qed

lemma stack_inv_base: "stack_inv rm st \<Longrightarrow> \<exists>n. unat (stack_base st) = 0x200000 * n"
  using unat_stack_addr [of "length (stack_regions st)"] by (auto simp: stack_inv_def intro: exI [of _ "2 ^ 26 - length (stack_regions st)"])

lemma stack_space_step:
  assumes ok: "env_ok (er, rm, v)" and st: "env_step (er, rm, v) ws (er', rm', v')" and sp: "stack_space am ioctl rm v (length ws + n)"
  shows "stack_space am ioctl rm' v' n" "unat (vcpu_get_reg v' RSP) + 8 * length ws = unat (vcpu_get_reg v RSP)"
proof -
  let ?k = "8 * length ws"
  note D = env_stepD [OF st]
  have inv: "stack_inv rm (vcpu_stack v)" "stack_inv rm' (vcpu_stack v')"
    using ok D(1) by (simp_all add: env_ok_def Let_def)
  note s = stack_space_rsp [OF sp inv(1)]
  have k: "unat (of_nat ?k :: u64) = ?k"
    by (rule unat_of_nat_small) (use s(1,2) in simp)
  have "(of_nat ?k :: u64) \<le> vcpu_get_reg v RSP"
    unfolding word_le_nat_alt k using s(1) by simp
  then show u: "unat (vcpu_get_reg v' RSP) + ?k = unat (vcpu_get_reg v RSP)"
    using s(1) unfolding env_step_rsp [OF st] by (simp add: unat_sub k del: of_nat_mult)
  then have "8 dvd unat (vcpu_get_reg v' RSP) + 8 * length ws"
    using s(3) by simp
  then have d: "8 dvd unat (vcpu_get_reg v' RSP)"
    by (simp only: dvd_add_left_iff dvd_triv_left)
  consider "stack_free v (length ws + n)" | "ws = []" "stack_full am ioctl rm v" "8 * n \<le> 0x200000"
    | "ws \<noteq> []" "stack_full am ioctl rm v" "8 * (length ws + n) \<le> 0x200000"
    using sp unfolding stack_space_def by (cases "ws = []") auto
  then show "stack_space am ioctl rm' v' n"
  proof cases
    case 1
    then have "stack_free v' n"
      unfolding stack_free_def using u d s(2) D(6) by auto
    then show ?thesis
      by (simp add: stack_space_def)
  next
    case 2
    then show ?thesis
      using D(7) by (simp add: stack_space_def)
  next
    case 3
    obtain m where m: "unat (vcpu_get_reg v RSP) = 0x200000 * m" "0 < m"
      by (rule stack_full_base [OF 3(2) inv(1)])
    obtain b where b: "unat (stack_base (vcpu_stack v')) = 0x200000 * b"
      using stack_inv_base [OF inv(2)] by blast
    have "0x200000 * b < 0x200000 * m"
      using D(8) [OF 3(1)] u m(1) b 3(1) by (cases ws) simp_all
    then have "0x200000 * b + 0x200000 \<le> 0x200000 * m"
      by simp
    then have "stack_free v' n"
      unfolding stack_free_def b using u d s(2) 3(3) m(1) by auto
    then show ?thesis
      by (simp add: stack_space_def)
  qed
qed

lemma stack_slot_mono: "stack_slot st g \<Longrightarrow> unat (stack_base st') \<le> unat (stack_base st) \<Longrightarrow> stack_slot st' g"
  by (simp add: stack_slot_def)

lemma env_step_trans:
  assumes ok: "env_ok (er, rm, v)" and 1: "env_step (er, rm, v) ws (er1, rm1, v1)" and 2: "env_step (er1, rm1, v1) ws' (er2, rm2, v2)"
    and sp: "stack_space am ioctl rm v (length ws + length ws')"
  shows "env_step (er, rm, v) (ws' @ ws) (er2, rm2, v2)"
proof -
  let ?g = "vcpu_get_reg v2 RSP"
  note D1 = env_stepD [OF 1] and D2 = env_stepD [OF 2]
  note u1 = stack_space_step [OF ok 1 sp]
  have u2: "unat ?g + 8 * length ws' = unat (vcpu_get_reg v1 RSP)"
    using stack_space_step(2) [OF D1(1) 2, of am ioctl 0] u1(1) by simp
  have inv: "stack_inv rm (vcpu_stack v)"
    using ok by (simp add: env_ok_def Let_def)
  have word: "stack_word rm2 (?g + of_nat (8 * i)) = (ws' @ ws) ! i" if i: "i < length (ws' @ ws)" for i
  proof (cases "i < length ws'")
    case True
    then show ?thesis
      using D2(9) [OF True] by (simp add: nth_append)
  next
    case False
    then obtain j where j: "i = length ws' + j" "j < length ws"
      using i by (auto dest: le_Suc_ex simp: not_less)
    have e: "?g + of_nat (8 * i) = vcpu_get_reg v1 RSP + of_nat (8 * j)"
      unfolding env_step_rsp [OF 2] j(1) by simp
    have b: "unat (vcpu_get_reg v1 RSP) + 8 * length ws \<le> 2 ^ 47" "8 dvd unat (vcpu_get_reg v1 RSP)"
      using stack_space_rsp [OF sp inv] stack_space_rsp(3) [OF u1(1)] D1(1) u1(2) by (simp_all add: env_ok_def Let_def)
    have j8: "unat (vcpu_get_reg v1 RSP + of_nat (8 * j)) = unat (vcpu_get_reg v1 RSP) + 8 * j"
    proof -
      have "unat (of_nat (8 * j) :: u64) = 8 * j"
        by (rule unat_of_nat_small) (use b j(2) in simp)
      with b(1) j(2) show ?thesis
        by (simp add: unat_plus_if' del: of_nat_mult)
    qed
    have "unat (stack_base (vcpu_stack v1)) \<le> unat (vcpu_get_reg v1 RSP)"
      by (rule D1(8)) (use j(2) in auto)
    then have "stack_slot (vcpu_stack v1) (vcpu_get_reg v1 RSP + of_nat (8 * j))"
      using b j(2) unfolding stack_slot_def j8 by auto
    then have "stack_word rm2 (vcpu_get_reg v1 RSP + of_nat (8 * j)) = stack_word rm1 (vcpu_get_reg v1 RSP + of_nat (8 * j))"
      by (rule D2(10)) (unfold j8, simp)
    then show ?thesis
      unfolding e using D1(9) [OF j(2)] j by (simp add: nth_append)
  qed
  have rsp: "kvm_vcpu v2 = set_reg RSP (vcpu_get_reg v RSP - of_nat (8 * length (ws' @ ws))) (kvm_vcpu v)"
    unfolding D2(5) env_step_rsp [OF 1] D1(5) by (simp add: gpr.put_put algebra_simps)
  have le: "unat (er_offset er1) \<le> unat (er_offset er)" "er_region er1 = er_region er" "rm_store rm1 (er_region er) = rm_store rm (er_region er)"
    using D1(2-4) by (simp_all add: word_le_nat_alt)
  have keep: "stack_word rm2 g = stack_word rm g" if "stack_slot (vcpu_stack v) g" "unat (vcpu_get_reg v RSP) \<le> unat g" for g
    using D2(10) [OF stack_slot_mono [OF that(1) D1(6)]] D1(10) [OF that] that(2) u1(2) by simp
  have bytes: "env_byte er rm2 off = env_byte er rm off"
    if "off < unat (reg_size (rm_store rm (er_region er)))" "unat (er_offset er) \<le> off" for off
    using D2(11) [of off] D1(11) [of off] that le by (simp add: env_byte_def)
  have full: "stack_full am ioctl rm2 v2" if "ws' @ ws = []" "stack_full am ioctl rm v" for am ioctl
    using that D1(7) D2(7) by simp
  have base: "unat (stack_base (vcpu_stack v2)) \<le> unat ?g" if ne: "ws' @ ws \<noteq> []"
  proof (cases "ws' = []")
    case True
    then show ?thesis
      using ne D1(8) D2(6) u2 by simp
  qed (rule D2(8))
  show ?thesis
    unfolding env_step_def prod.case
    using D1(2-4,6) D2(1-4,6) word rsp keep bytes full base by auto
qed

lemma env_okD:
  assumes "env_ok (er, rm, v)"
  shows "mem_ok rm" "rm_inv rm" "stack_inv rm (vcpu_stack v)" "er_region er \<in> set (allocated_regions rm)" "\<not> pager_region rm (er_region er)"
    "er_region er \<notin> set (stack_regions (vcpu_stack v))" "unat (er_offset er) \<le> unat (reg_size (rm_store rm (er_region er)))"
    "\<And>off. off < unat (er_offset er) \<Longrightarrow> env_byte er rm off = 0"
    "\<And>off. off < unat (reg_size (rm_store rm (er_region er))) \<Longrightarrow>
       host_of (rm_pager rm) (reg_addr (rm_store rm (er_region er)) + of_nat off) = reg_host_p (rm_store rm (er_region er)) + of_nat off"
    "unat (reg_addr (rm_store rm (er_region er))) + unat (reg_size (rm_store rm (er_region er))) < 2 ^ 64"
  using assms by (auto simp: env_ok_def Let_def mem_ok_def mem_inv_def word_le_nat_alt)

text \<open>A word of the stack and a byte of the strings have no byte in common.\<close>

lemma stack_env_apart:
  assumes ok: "env_ok (er, rm, v)" and s: "stack_slot (vcpu_stack v) g" and off: "off < unat (reg_size (rm_store rm (er_region er)))"
    and k: "k < 8"
  shows "host_of (rm_pager rm) g + of_nat k \<noteq> reg_host_p (rm_store rm (er_region er)) + of_nat off"
proof -
  note D = env_okD [OF ok]
  obtain i r where i: "i < length (stack_regions (vcpu_stack v))" "r + 8 \<le> 0x200000"
    "host_of (rm_pager rm) g = reg_host_p (rm_store rm (stack_regions (vcpu_stack v) ! i)) + of_nat r"
    by (rule stack_slot_place [OF D(3) s])
  let ?a = "stack_regions (vcpu_stack v) ! i"
  have sr: "stack_region rm i ?a" and ne: "?a \<noteq> er_region er"
    using D(3) i(1) nth_mem [OF i(1)] D(6) by (auto simp: stack_inv_def simp del: nth_mem)
  note A = stack_regionD [OF sr]
  have "r + k < unat (reg_size (rm_store rm ?a))"
    using i(2) k by (simp add: A(3) ELKVM_STACK_GROW_def)
  then have "unat (reg_host_p (rm_store rm ?a) + of_nat (r + k)) \<in> region_block rm ?a"
    by (rule region_byte(3) [OF D(2) A(1)])
  moreover have "unat (reg_host_p (rm_store rm (er_region er)) + of_nat off) \<in> region_block rm (er_region er)"
    by (rule region_byte(3) [OF D(2,4) off])
  ultimately show ?thesis
    using allocated_apart [OF D(2) A(1) D(4) ne] i(3) by (auto simp: region_block_def add.assoc)
qed

lemma stack_full_unmapped:
  assumes ok: "mem_ok rm" and inv: "stack_inv rm (vcpu_stack v)" and full: "stack_full am ioctl rm v"
  defines "n \<equiv> Suc (length (stack_regions (vcpu_stack v)))" and "g \<equiv> vcpu_get_reg v RSP - 8"
  shows "host_of (rm_pager rm) g = 0" "unat g = unat (stack_addr n) + 0x1FFFF8" "n < 2 ^ 26"
proof -
  show n: "n < 2 ^ 26"
    using full by (simp add: stack_full_def stack_room_def n_def)
  then have l: "length (stack_regions (vcpu_stack v)) < 2 ^ 26" "n = length (stack_regions (vcpu_stack v)) + 1"
    by (simp_all add: n_def)
  have r: "vcpu_get_reg v RSP = stack_addr (n - 1)"
    using full inv by (simp add: stack_full_def stack_inv_def n_def)
  have u: "unat (stack_addr n) = 0x200000 * (2 ^ 26 - n)" "unat (vcpu_get_reg v RSP) = 0x200000 * (2 ^ 26 - n) + 0x200000"
    using unat_stack_addr [OF n] unat_stack_addr [OF l(1)] n l(2) r by simp_all
  then show g: "unat g = unat (stack_addr n) + 0x1FFFF8"
    by (simp add: g_def unat_sub word_le_nat_alt)
  have fr: "\<And>k. k < 512 \<Longrightarrow> pt_view (rm_pager rm) (vpn (stack_addr n + of_nat (4096 * k))) = None"
    using full unfolding stack_full_def stack_room_def n_def [symmetric] by blast
  have "unat (vpn g) = unat (vpn (stack_addr n + of_nat (4096 * 511)))"
    unfolding unat_vpn_add unat_vpn [of g] g u(1) by simp
  then have "vpn g = vpn (stack_addr n + of_nat (4096 * 511))"
    by (rule unsigned_word_eqI)
  moreover have "pt_view (rm_pager rm) (vpn (stack_addr n + of_nat (4096 * 511))) = None"
    by (rule fr) simp
  moreover have "g \<noteq> 0"
    using g by auto
  moreover have "pt_inv (rm_pager rm)"
    using ok by (simp add: mem_ok_def mem_inv_def pager_ok_def)
  ultimately show "host_of (rm_pager rm) g = 0"
    using host_of_view [of "rm_pager rm" g] by simp
qed

text \<open>A push on a full stack is a push after the stack has grown.\<close>

lemma push_grows:
  fixes v :: "'k vcpu"
  assumes ok: "mem_ok rm" and inv: "stack_inv rm (vcpu_stack v)" and full: "stack_full am ioctl rm v"
  obtains t a rm2 st where "placed (set_tlb t rm) ELKVM_STACK_GROW (stack_addr (Suc (length (stack_regions (vcpu_stack v))))) a rm2" "stack_inv rm2 st"
    "st = (vcpu_stack v)\<lparr>stack_base := stack_addr (Suc (length (stack_regions (vcpu_stack v)))), stack_regions := stack_regions (vcpu_stack v) @ [a]\<rparr>"
    "\<And>val. push am ioctl rm v val = push am ioctl rm2 (v\<lparr>vcpu_stack := st\<rparr>) val"
proof -
  let ?n = "Suc (length (stack_regions (vcpu_stack v)))"
  define g where "g = vcpu_get_reg v RSP - 8"
  note U = stack_full_unmapped [OF ok inv full, folded g_def]
  have pb: "page_begin g \<noteq> 0"
    by (rule page_begin_stack) (simp add: U(2))
  obtain t where t: "translate rm g = Inr (0, set_tlb t rm)" "mem_ok (set_tlb t rm)"
    using translate_ok [OF ok pb] U(1) by metis
  have F: "memalign_ok am" "stack_room (set_tlb t rm) (vcpu_stack v)" "alloc_ready am ioctl (set_tlb t rm) ELKVM_STACK_GROW"
      "stack_inv (set_tlb t rm) (vcpu_stack v)" "rm_inv (set_tlb t rm)"
    using full inv t(2) by (simp_all add: stack_full_def mem_ok_def mem_inv_def)
  have mem: "unat (total_memsz (rm_pager (set_tlb t rm))) + unat ELKVM_STACK_GROW + 0x8000000 \<le> 2 ^ 52" "0 < ELKVM_STACK_GROW"
    using F(2) by (simp_all add: stack_room_def ELKVM_STACK_GROW_def)
  obtain a rm1 where al: "allocate_region am ioctl (set_tlb t rm) ELKVM_STACK_GROW ''ELKVM stack'' = Inr (a, rm1)"
    by (rule alloc_ready_total [OF F(5,1) mem(2,1) F(3)])
  obtain rm2 st where e: "expand am ioctl (set_tlb t rm) (vcpu_stack v) = Inr (0, rm2, st)"
    "st = (vcpu_stack v)\<lparr>stack_base := stack_addr ?n, stack_regions := stack_regions (vcpu_stack v) @ [a]\<rparr>"
    "placed (set_tlb t rm) ELKVM_STACK_GROW (stack_addr ?n) a rm2" "stack_inv rm2 st"
    by (rule expand_ok [OF t(2) F(4,2,1) al])
  have slot: "unat (stack_base st) \<le> unat g" "unat g + 8 \<le> 2 ^ 47" "8 dvd unat g"
  proof -
    obtain k where k: "unat (stack_addr ?n) = 8 * k" "8 * k + 0x200000 \<le> 2 ^ 47"
      using unat_stack_addr [OF U(3)] U(3) by (intro that [of "2 ^ 44 - 0x40000 * ?n"]) simp_all
    then have "unat g = 8 * (k + 0x3FFFF)"
      using U(2) by simp
    then show "unat (stack_base st) \<le> unat g" "unat g + 8 \<le> 2 ^ 47" "8 dvd unat g"
      using k by (simp_all add: e(2))
  qed
  note nz = store_pushed(1) [OF placedD(1) [OF e(3)] e(4) slot]
  obtain t2 where t2: "translate rm2 g = Inr (host_of (rm_pager rm2) g, set_tlb t2 rm2)"
    by (rule translate_ok [OF placedD(1) [OF e(3)] pb])
  have "pushq am ioctl rm (vcpu_stack v) g val = pushq am ioctl rm2 st g val" for val
    using t(1) e(1) t2 nz by (simp add: pushq_def)
  moreover have "vcpu_get_reg (v\<lparr>vcpu_stack := st\<rparr>) RSP = vcpu_get_reg v RSP" "vcpu_stack (vcpu_set_reg RSP g v) = vcpu_stack v"
    "vcpu_set_reg RSP g (v\<lparr>vcpu_stack := st\<rparr>) = (vcpu_set_reg RSP g v)\<lparr>vcpu_stack := st\<rparr>"
    by (simp_all add: vcpu_get_reg_def vcpu_set_reg_def upd_kvm_def)
  ultimately have "push am ioctl rm v val = push am ioctl rm2 (v\<lparr>vcpu_stack := st\<rparr>) val" for val
    unfolding push_def Let_def by (simp add: g_def)
  then show ?thesis
    using that e(2-4) by blast
qed

lemma placed_bytes:
  assumes ok: "mem_ok rm" and p: "placed (set_tlb t rm) sz gv b rm2" and a: "a \<in> set (allocated_regions rm)" "\<not> pager_region rm a"
    and off: "off < unat (reg_size (rm_store rm a))"
  shows "pg_mem (rm_pager rm2) (reg_host_p (rm_store rm a) + of_nat off) = pg_mem (rm_pager rm) (reg_host_p (rm_store rm a) + of_nat off)"
  using region_byte_far [OF ok a off] p by (simp add: placed_def outside_same_def)

lemma placed_stack_word:
  assumes ok: "mem_ok rm" and inv: "stack_inv rm st" and p: "placed (set_tlb t rm) sz gv b rm2" and g: "stack_slot st g"
  shows "stack_word rm2 g = stack_word rm g"
proof -
  obtain i r where i: "i < length (stack_regions st)" "r + 8 \<le> 0x200000"
    "host_of (rm_pager rm) g = reg_host_p (rm_store rm (stack_regions st ! i)) + of_nat r"
    by (rule stack_slot_place [OF inv g])
  have "stack_region rm i (stack_regions st ! i)"
    using inv i(1) by (simp add: stack_inv_def)
  note A = stack_regionD [OF this]
  have s: "unat (stack_base st) \<le> unat g" "unat g + 8 \<le> 2 ^ 47" "8 dvd unat g"
    using g by (simp_all add: stack_slot_def)
  have "host_of (rm_pager (set_tlb t rm)) g \<noteq> 0"
    using store_pushed(1) [OF ok inv s] by (simp add: set_tlb_def)
  then have h: "host_of (rm_pager rm2) g = host_of (rm_pager rm) g"
    using placedD(9) [OF p] by (simp add: set_tlb_def)
  show ?thesis
    unfolding stack_word_def h
  proof (rule read64_bytes)
    fix k :: nat assume "k < 8"
    then have "r + k < unat (reg_size (rm_store rm (stack_regions st ! i)))"
      using i(2) by (simp add: A(3) ELKVM_STACK_GROW_def)
    from placed_bytes [OF ok p A(1,2) this] show "pg_mem (rm_pager rm2) (host_of (rm_pager rm) g + of_nat k) = pg_mem (rm_pager rm) (host_of (rm_pager rm) g + of_nat k)"
      by (simp add: i(3) add.assoc)
  qed
qed

lemma env_push_free:
  assumes ok: "env_ok (er, rm, v)" and sp: "stack_free v 1"
  obtains s' where "env_push am ioctl val (er, rm, v) = Inr s'" "env_step (er, rm, v) [val] s'"
proof -
  note D = env_okD [OF ok]
  define g where "g = vcpu_get_reg v RSP - 8"
  have g8: "unat g + 8 = unat (vcpu_get_reg v RSP)"
    using sp by (simp add: g_def stack_free_def unat_sub word_le_nat_alt)
  then have "8 dvd unat g + 8"
    using sp by (simp add: stack_free_def)
  then have "8 dvd unat g"
    by simp
  then have slot: "stack_slot (vcpu_stack v) g"
    using sp g8 by (simp add: stack_slot_def stack_free_def)
  obtain rm' where p: "push am ioctl rm v val = Inr (rm', vcpu_set_reg RSP g v)" "mem_ok rm'" "same_layout rm rm'"
    "stack_word rm' g = val" "\<And>g'. stack_slot (vcpu_stack v) g' \<Longrightarrow> g' \<noteq> g \<Longrightarrow> stack_word rm' g' = stack_word rm g'"
    "pg_mem (rm_pager rm') = write64 (pg_mem (rm_pager rm)) (host_of (rm_pager rm) g) val"
    by (rule push_word_mem [OF D(1,3) g_def slot, of am ioctl val]) (rule that)
  have l: "rm_store rm' = rm_store rm" "allocated_regions rm' = allocated_regions rm" "host_of (rm_pager rm') = host_of (rm_pager rm)"
    "host_pml4_p (rm_pager rm') = host_pml4_p (rm_pager rm)"
    using p(3) by (simp_all add: same_layout_def)
  have byte: "env_byte er rm' off = env_byte er rm off" if off: "off < unat (reg_size (rm_store rm (er_region er)))" for off
  proof -
    let ?x = "reg_host_p (rm_store rm (er_region er)) + of_nat off" and ?h = "host_of (rm_pager rm) g"
    have "\<not> ?x - ?h < 8"
    proof
      assume "?x - ?h < 8"
      then have "unat (?x - ?h) < 8"
        by (simp add: word_less_nat_alt)
      from stack_env_apart [OF ok slot off this] show False
        by simp
    qed
    then show ?thesis
      using write64_outside [of ?x ?h] by (simp add: env_byte_def p(6) l(1))
  qed
  have "env_ok (er, rm', vcpu_set_reg RSP g v)"
    using ok p(2) l byte same_layout_stack [OF p(3)] by (auto simp: env_ok_def Let_def pager_region_def word_le_nat_alt)
  moreover have "stack_word rm' g' = stack_word rm g'" if "stack_slot (vcpu_stack v) g'" "unat (vcpu_get_reg v RSP) \<le> unat g'" for g'
    using p(5) [OF that(1)] that(2) g8 by fastforce
  moreover have "unat (stack_base (vcpu_stack v)) \<le> unat g"
    using slot by (simp add: stack_slot_def)
  ultimately have "env_step (er, rm, v) [val] (er, rm', vcpu_set_reg RSP g v)"
    using p(4) l(1) byte by (auto simp: env_step_def g_def vcpu_set_reg_def vcpu_get_reg_def upd_kvm_def)
  then show ?thesis
    using that p(1) by (simp add: env_push_def)
qed

lemma env_grow:
  fixes v :: "'k vcpu"
  assumes ok: "env_ok (er, rm, v)" and full: "stack_full am ioctl rm v"
  obtains rm2 st where "\<And>val. env_push am ioctl val (er, rm, v) = env_push am ioctl val (er, rm2, v\<lparr>vcpu_stack := st\<rparr>)"
    "env_ok (er, rm2, v\<lparr>vcpu_stack := st\<rparr>)" "stack_free (v\<lparr>vcpu_stack := st\<rparr>) 1" "rm_store rm2 (er_region er) = rm_store rm (er_region er)"
    "unat (stack_base st) \<le> unat (stack_base (vcpu_stack v))" "\<And>g. stack_slot (vcpu_stack v) g \<Longrightarrow> stack_word rm2 g = stack_word rm g"
    "\<And>off. off < unat (reg_size (rm_store rm (er_region er))) \<Longrightarrow> env_byte er rm2 off = env_byte er rm off"
proof -
  let ?n = "Suc (length (stack_regions (vcpu_stack v)))" and ?er = "er_region er"
  note D = env_okD [OF ok]
  note U = stack_full_unmapped [OF D(1,3) full]
  obtain t a rm2 st where p: "placed (set_tlb t rm) ELKVM_STACK_GROW (stack_addr ?n) a rm2" "stack_inv rm2 st"
    "st = (vcpu_stack v)\<lparr>stack_base := stack_addr ?n, stack_regions := stack_regions (vcpu_stack v) @ [a]\<rparr>"
    "\<And>val. push am ioctl rm v val = push am ioctl rm2 (v\<lparr>vcpu_stack := st\<rparr>) val"
    by (rule push_grows [OF D(1,3) full]) (rule that)
  note P = placedD [OF p(1)]
  have er: "rm_store rm2 ?er = rm_store rm ?er" "?er \<noteq> a" "?er \<in> set (allocated_regions rm2)"
    using P(2,3,7) D(4) by (auto simp: set_tlb_def)
  have byte: "env_byte er rm2 off = env_byte er rm off" if "off < unat (reg_size (rm_store rm ?er))" for off
    using placed_bytes [OF D(1) p(1) D(4,5) that] by (simp add: env_byte_def er(1))
  obtain m where m: "unat (vcpu_get_reg v RSP) = 0x200000 * m" "0 < m" "m \<le> 2 ^ 26"
    by (rule stack_full_base [OF full D(3)])
  have "unat (vcpu_get_reg v RSP - 8) = unat (vcpu_get_reg v RSP) - 8"
    using m by (simp add: unat_sub word_le_nat_alt)
  then have base: "unat (stack_base st) + 0x200000 = unat (vcpu_get_reg v RSP)"
    using U(2) m(1,2) p(3) by simp
  have "8 dvd 0x200000 * m"
    by (rule dvd_mult2) simp
  then have free: "stack_free (v\<lparr>vcpu_stack := st\<rparr>) 1"
    using base m unfolding stack_free_def by (simp add: vcpu_get_reg_def)
  have "host_of (rm_pager rm2) (reg_addr (rm_store rm ?er) + of_nat off) = reg_host_p (rm_store rm ?er) + of_nat off"
    if off: "off < unat (reg_size (rm_store rm ?er))" for off
    using P(9) D(9) [OF off] region_byte(2) [OF D(2,4) off] by (simp add: set_tlb_def)
  moreover have "\<not> pager_region rm2 ?er"
    using D(4,5) er(1) P(11) by (simp add: pager_region_def set_tlb_def)
  ultimately have "env_ok (er, rm2, v\<lparr>vcpu_stack := st\<rparr>)"
    using ok P(1) p(2,3) er byte by (auto simp: env_ok_def Let_def word_le_nat_alt)
  moreover have "vcpu_get_reg v RSP = stack_base (vcpu_stack v)"
    using full by (simp add: stack_full_def)
  ultimately show ?thesis
    using that [of rm2 st] p(4) free er(1) base placed_stack_word [OF D(1,3) p(1)] byte by (simp add: env_push_def)
qed

lemma env_push_step:
  fixes v :: "'k vcpu"
  assumes ok: "env_ok (er, rm, v)" and sp: "stack_space am ioctl rm v 1"
  obtains s' where "env_push am ioctl val (er, rm, v) = Inr s'" "env_step (er, rm, v) [val] s'"
proof (cases "stack_free v 1")
  case True
  then show ?thesis
    by (rule env_push_free [OF ok]) (rule that)
next
  case False
  then have full: "stack_full am ioctl rm v"
    using sp by (simp add: stack_space_def)
  obtain rm2 st where g: "\<And>val. env_push am ioctl val (er, rm, v) = env_push am ioctl val (er, rm2, v\<lparr>vcpu_stack := st\<rparr>)"
    "env_ok (er, rm2, v\<lparr>vcpu_stack := st\<rparr>)" "stack_free (v\<lparr>vcpu_stack := st\<rparr>) 1" "rm_store rm2 (er_region er) = rm_store rm (er_region er)"
    "unat (stack_base st) \<le> unat (stack_base (vcpu_stack v))" "\<And>g. stack_slot (vcpu_stack v) g \<Longrightarrow> stack_word rm2 g = stack_word rm g"
    "\<And>off. off < unat (reg_size (rm_store rm (er_region er))) \<Longrightarrow> env_byte er rm2 off = env_byte er rm off"
    by (rule env_grow [OF ok full]) (rule that)
  obtain er' rm' v' where s: "env_push am ioctl val (er, rm2, v\<lparr>vcpu_stack := st\<rparr>) = Inr (er', rm', v')" "env_step (er, rm2, v\<lparr>vcpu_stack := st\<rparr>) [val] (er', rm', v')"
    by (rule env_push_free [OF g(2,3), of am ioctl val]) (metis prod_cases3)
  note D = env_stepD [OF s(2)]
  have r: "vcpu_get_reg (v\<lparr>vcpu_stack := st\<rparr>) RSP = vcpu_get_reg v RSP"
    by (simp add: vcpu_get_reg_def)
  have keep: "stack_word rm' g' = stack_word rm g'" if "stack_slot (vcpu_stack v) g'" "unat (vcpu_get_reg v RSP) \<le> unat g'" for g'
    using D(10) [of g'] g(6) [OF that(1)] stack_slot_mono [OF that(1), of st] g(5) that(2) r by simp
  have "env_step (er, rm, v) [val] (er', rm', v')"
    using D(1-6,8,9,11) g(4,5,7) keep r unfolding env_step_def prod.case by auto
  then show ?thesis
    using that s(1) g(1) by simp
qed

text \<open>The string \<open>x\<close> stands at the guest address \<open>p\<close>, with a null byte behind it.\<close>

definition env_str :: "env_region \<Rightarrow> rmgr \<Rightarrow> guestptr \<Rightarrow> string \<Rightarrow> bool" where
  "env_str er rm p x \<longleftrightarrow> (\<exists>off. p = reg_addr (rm_store rm (er_region er)) + of_nat off \<and> unat (er_offset er) \<le> off
     \<and> off + length x < unat (reg_size (rm_store rm (er_region er)))
     \<and> (\<forall>i < length x. env_byte er rm (off + i) = of_char (x ! i)) \<and> env_byte er rm (off + length x) = 0)"

lemma env_str_step:
  assumes st: "env_step (er, rm, v) ws (er', rm', v')" and x: "env_str er rm p x"
  shows "env_str er' rm' p x"
proof -
  obtain off where off: "p = reg_addr (rm_store rm (er_region er)) + of_nat off" "unat (er_offset er) \<le> off"
    "off + length x < unat (reg_size (rm_store rm (er_region er)))" "\<And>i. i < length x \<Longrightarrow> env_byte er rm (off + i) = of_char (x ! i)"
    "env_byte er rm (off + length x) = 0"
    using x unfolding env_str_def by blast
  note D = env_stepD [OF st]
  have e: "rm_store rm' (er_region er) = rm_store rm (er_region er)" "unat (er_offset er') \<le> unat (er_offset er)" "env_byte er' rm' = env_byte er rm'"
    using D(2-4) by (auto simp: word_le_nat_alt env_byte_def)
  have "env_byte er rm' (off + i) = env_byte er rm (off + i)" if "i \<le> length x" for i
    by (rule D(11)) (use off that in auto)
  then show ?thesis
    unfolding env_str_def e(3) D(3) e(1) using off e(2) by (intro exI [of _ off]) auto
qed

lemma write_str_mem:
  assumes ok: "env_ok (er, rm, v)" and sz: "length x + 1 < unat (er_offset er)"
  defines "r \<equiv> rm_store rm (er_region er)"
  obtains noff m where "write_str er rm x = Inr (reg_addr r + noff, er\<lparr>er_offset := noff\<rparr>, store_mem m rm)"
    "unat noff + length x + 1 = unat (er_offset er)" "unat (er_offset er) \<le> unat (reg_size r)"
    "\<And>y. \<not> (unat noff \<le> unat (y - reg_host_p r) \<and> unat (y - reg_host_p r) < unat noff + length x) \<Longrightarrow> m y = pg_mem (rm_pager rm) y"
    "\<And>i. i < length x \<Longrightarrow> m (reg_host_p r + of_nat (unat noff + i)) = of_char (x ! i)"
proof -
  note D = env_okD [OF ok]
  define len where "len = (of_nat (length x) :: u64)"
  define noff where "noff = er_offset er - len - 1"
  define m where "m = write_bytes (pg_mem (rm_pager rm)) (reg_host_p r + noff) (map of_char x)"
  have wf: "region_wf r" "unat (er_offset er) \<le> unat (reg_size r)" "unat (reg_addr r) + unat (reg_size r) < 2 ^ 64"
    using allocated_wf [OF D(2,4)] D(7,10) by (simp_all add: r_def)
  have len: "unat len = length x"
    unfolding len_def by (rule unat_of_nat_small) (use sz unat_less_power [of "er_offset er"] in simp)
  have noff: "unat noff + length x + 1 = unat (er_offset er)"
    using sz len by (auto simp: noff_def unat_sub_if')
  have host: "unat (reg_host_p r + reg_size r) = unat (reg_host_p r) + unat (reg_size r)"
    "unat (reg_host_p r + noff + len) = unat (reg_host_p r) + unat noff + length x"
    "unat (reg_addr r + reg_size r) = unat (reg_addr r) + unat (reg_size r)"
    "unat (reg_addr r + noff + len) = unat (reg_addr r) + unat noff + length x"
    using wf noff len by (simp_all add: region_wf_def unat_plus_if')
  have run: "write_str er rm x = Inr (reg_addr r + noff, er\<lparr>er_offset := noff\<rparr>, store_mem m rm)"
  proof -
    have "unat (len + 1) = length x + 1"
      using sz len unat_less_power [of "er_offset er"] by (simp add: unat_plus_if')
    then have "len + 1 < er_offset er" "reg_host_p r + noff + len < reg_host_p r + reg_size r" "reg_addr r + noff + len < reg_addr r + reg_size r"
      using sz noff wf(2) host by (simp_all add: word_less_nat_alt)
    then show ?thesis
      unfolding write_str_def Let_def r_def [symmetric] len_def [symmetric] noff_def [symmetric] by (simp add: m_def)
  qed
  have outside: "m y = pg_mem (rm_pager rm) y" if "\<not> (unat noff \<le> unat (y - reg_host_p r) \<and> unat (y - reg_host_p r) < unat noff + length x)" for y
    using that in_range_shift [of noff len y "reg_host_p r"] write_bytes_nth [of "map of_char x" "pg_mem (rm_pager rm)" "reg_host_p r + noff" y]
      noff len unat_less_power [of "er_offset er"] by (auto simp: m_def word_less_nat_alt)
  have inside: "m (reg_host_p r + of_nat (unat noff + i)) = of_char (x ! i)" if "i < length x" for i
  proof -
    have "unat (of_nat i :: u64) = i"
      by (rule unat_of_nat_small) (use that noff unat_less_power [of "er_offset er"] in simp)
    then show ?thesis
      using that write_bytes_nth [of "map of_char x" "pg_mem (rm_pager rm)" "reg_host_p r + noff" "reg_host_p r + of_nat (unat noff + i)"]
        noff unat_less_power [of "er_offset er"] by (simp add: m_def add.assoc [symmetric])
  qed
  show ?thesis
    by (rule that [OF run noff wf(2) outside inside])
qed

lemma write_str_step:
  assumes ok: "env_ok (er, rm, v)" and sz: "length x + 1 < unat (er_offset er)"
  obtains p er' rm' where "write_str er rm x = Inr (p, er', rm')" "env_step (er, rm, v) [] (er', rm', v)" "env_str er' rm' p x"
    "unat (er_offset er') + length x + 1 = unat (er_offset er)"
proof -
  note D = env_okD [OF ok]
  define r where "r = rm_store rm (er_region er)"
  obtain noff m where run: "write_str er rm x = Inr (reg_addr r + noff, er\<lparr>er_offset := noff\<rparr>, store_mem m rm)"
    and noff: "unat noff + length x + 1 = unat (er_offset er)" and wf: "unat (er_offset er) \<le> unat (reg_size r)"
    and outside: "\<And>y. \<not> (unat noff \<le> unat (y - reg_host_p r) \<and> unat (y - reg_host_p r) < unat noff + length x) \<Longrightarrow> m y = pg_mem (rm_pager rm) y"
    and inside: "\<And>i. i < length x \<Longrightarrow> m (reg_host_p r + of_nat (unat noff + i)) = of_char (x ! i)"
    using write_str_mem [OF ok sz] unfolding r_def by metis
  define er' where "er' = er\<lparr>er_offset := noff\<rparr>"
  have off: "unat (of_nat k :: u64) = k" if "k < unat (reg_size r)" for k
    by (rule unat_of_nat_small) (use that unat_less_power [of "reg_size r"] in simp)
  have w: "writes_within rm (er_region er) m"
    by (rule writes_withinI [OF D(2,4)]) (rule outside, use noff wf in \<open>simp add: r_def\<close>)
  have mi: "mem_inv rm"
    using D(1) by (simp add: mem_ok_def)
  note so = store_mem_ok [OF D(1) writes_within_tables [OF mi D(4,5) w]]
  have lay: "same_layout rm (store_mem m rm)"
    using so(2) by (simp add: same_layout_def)
  have byte: "env_byte er (store_mem m rm) k = m (reg_host_p r + of_nat k)" for k
    by (simp add: env_byte_def r_def)
  have keep: "env_byte er (store_mem m rm) k = env_byte er rm k" if "k < unat noff \<or> unat noff + length x \<le> k" "k < unat (reg_size r)" for k
    using that off [OF that(2)] outside [of "reg_host_p r + of_nat k"] by (auto simp: byte) (auto simp: env_byte_def r_def)
  have word: "stack_word (store_mem m rm) g = stack_word rm g" if g: "stack_slot (vcpu_stack v) g" for g
    unfolding stack_word_def so(2)
  proof (rule read64_bytes)
    fix k :: nat assume k: "k < 8"
    let ?y = "host_of (rm_pager rm) g + of_nat k"
    have "\<not> unat (?y - reg_host_p r) < unat (reg_size r)"
      using stack_env_apart [OF ok g _ k, of "unat (?y - reg_host_p r)"] by (auto simp: r_def)
    then show "pg_mem (rm_pager (store_mem m rm)) ?y = pg_mem (rm_pager rm) ?y"
      using outside [of ?y] noff wf by simp
  qed
  have "env_ok (er', store_mem m rm, v)"
    using ok so(1,2) keep D(8) noff wf same_layout_stack [OF lay]
    by (auto simp: env_ok_def er'_def Let_def r_def word_le_nat_alt) (auto simp: env_byte_def)
  moreover have "stack_full am ioctl (store_mem m rm) v" if "stack_full am ioctl rm v" for am ioctl
    using that so(3,4) by (simp add: stack_full_def stack_room_def alloc_ready_def free_ids_def)
  ultimately have "env_step (er, rm, v) [] (er', store_mem m rm, v)"
    using word keep noff by (auto simp: env_step_def er'_def word_le_nat_alt r_def vcpu_get_reg_def gpr.put_get)
  moreover have "env_str er' (store_mem m rm) (reg_addr r + noff) x"
    unfolding env_str_def
  proof (intro exI [of _ "unat noff"] conjI allI impI)
    show "env_byte er' (store_mem m rm) (unat noff + i) = of_char (x ! i)" if "i < length x" for i
      using inside [OF that] by (simp add: er'_def env_byte_def r_def)
    show "env_byte er' (store_mem m rm) (unat noff + length x) = 0"
      using keep [of "unat noff + length x"] D(8) [of "unat noff + length x"] noff wf by (simp add: er'_def env_byte_def)
  qed (use noff wf in \<open>simp_all add: er'_def r_def\<close>)
  ultimately show ?thesis
    using that run noff by (simp add: er'_def)
qed


section \<open>Strings and auxiliary entries\<close>

text \<open>The bytes strings take in their region.\<close>

definition str_bytes :: "string list \<Rightarrow> nat" where
  "str_bytes xs = (\<Sum>x \<leftarrow> xs. length x + 1)"

lemma str_bytes_simps [simp]:
  "str_bytes [] = 0" "str_bytes (x # xs) = length x + 1 + str_bytes xs" "str_bytes (xs @ ys) = str_bytes xs + str_bytes ys"
  by (simp_all add: str_bytes_def)

text \<open>What a sequence of pushes does: the words it leaves, of which some are pointers to strings, in order.\<close>

definition env_pushes :: "memalign \<Rightarrow> kvm_set_region \<Rightarrow> ('k env_state \<Rightarrow> 'k env_state res) \<Rightarrow> nat \<Rightarrow> string list \<Rightarrow> (u64 list \<Rightarrow> u64 list) \<Rightarrow> bool" where
  "env_pushes am ioctl f n xs layout \<longleftrightarrow> (\<forall>er rm v. env_ok (er, rm, v) \<longrightarrow> stack_space am ioctl rm v n \<longrightarrow> str_bytes xs < unat (er_offset er) \<longrightarrow>
     (\<exists>er' rm' v' ps. f (er, rm, v) = Inr (er', rm', v') \<and> length (layout ps) = n \<and> env_step (er, rm, v) (layout ps) (er', rm', v')
        \<and> list_all2 (env_str er' rm') ps xs \<and> unat (er_offset er') + str_bytes xs = unat (er_offset er)))"

lemma env_pushes_push: "env_pushes am ioctl (env_push am ioctl val) 1 [] (\<lambda>_. [val])"
  unfolding env_pushes_def
proof (intro allI impI)
  fix er rm and v :: "'a vcpu" assume ok: "env_ok (er, rm, v)" "stack_space am ioctl rm v 1"
  obtain s' where s: "env_push am ioctl val (er, rm, v) = Inr s'" "env_step (er, rm, v) [val] s'"
    by (rule env_push_step [OF ok])
  moreover from s(1) have "fst s' = er"
    by (auto simp: env_push_def res_simps)
  ultimately show "\<exists>er' rm' v' ps. env_push am ioctl val (er, rm, v) = Inr (er', rm', v') \<and> length [val] = 1 \<and> env_step (er, rm, v) [val] (er', rm', v')
        \<and> list_all2 (env_str er' rm') ps [] \<and> unat (er_offset er') + str_bytes [] = unat (er_offset er)"
    by (cases s') auto
qed

lemma env_pushes_none: "env_pushes am ioctl Inr 0 [] (\<lambda>_. [])"
  by (auto simp: env_pushes_def intro: env_step_refl)

lemma env_pushes_str: "env_pushes am ioctl (push_str_copy am ioctl x) 1 [x] (\<lambda>ps. ps)"
  unfolding env_pushes_def
proof (intro allI impI)
  fix er rm and v :: "'a vcpu" assume ok: "env_ok (er, rm, v)" "stack_space am ioctl rm v 1" and sz: "str_bytes [x] < unat (er_offset er)"
  obtain p er1 rm1 where w: "write_str er rm x = Inr (p, er1, rm1)" "env_step (er, rm, v) [] (er1, rm1, v)" "env_str er1 rm1 p x"
    "unat (er_offset er1) + length x + 1 = unat (er_offset er)"
    using write_str_step [OF ok(1), of x] sz by auto
  obtain er' rm' v' ps where s: "env_push am ioctl p (er1, rm1, v) = Inr (er', rm', v')" "env_step (er1, rm1, v) [p] (er', rm', v')"
    "unat (er_offset er') = unat (er_offset er1)"
    using env_pushes_push [of am ioctl p] env_stepD(1) [OF w(2)] stack_space_step(1) [OF ok(1) w(2), of am ioctl 1] ok(2) sz w(4) unfolding env_pushes_def by fastforce
  have "env_step (er, rm, v) [p] (er', rm', v')"
    using env_step_trans [OF ok(1) w(2) s(2)] ok(2) by simp
  moreover have "env_str er' rm' p x"
    by (rule env_str_step [OF s(2) w(3)])
  ultimately show "\<exists>er' rm' v' ps. push_str_copy am ioctl x (er, rm, v) = Inr (er', rm', v') \<and> length ps = 1 \<and> env_step (er, rm, v) ps (er', rm', v')
        \<and> list_all2 (env_str er' rm') ps [x] \<and> unat (er_offset er') + str_bytes [x] = unat (er_offset er)"
    using w(1,4) s(1,3) by (intro exI [of _ er'] exI [of _ rm'] exI [of _ v'] exI [of _ "[p]"]) (simp add: push_str_copy_def)
qed

lemma env_pushes_bind:
  assumes f: "env_pushes am ioctl f n xs lf" and g: "env_pushes am ioctl g m ys lg"
    and l: "\<And>ps qs. length ps = length ys \<Longrightarrow> length qs = length xs \<Longrightarrow> l (ps @ qs) = lg ps @ lf qs"
  shows "env_pushes am ioctl (\<lambda>s. bindE (f s) g) (m + n) (ys @ xs) l"
  unfolding env_pushes_def
proof (intro allI impI)
  fix er rm and v :: "'a vcpu" assume ok: "env_ok (er, rm, v)" "stack_space am ioctl rm v (m + n)" and sz: "str_bytes (ys @ xs) < unat (er_offset er)"
  have sp: "stack_space am ioctl rm v n"
    using ok(2) by (auto simp: stack_space_def stack_free_def)
  then obtain er1 rm1 v1 qs where 1: "f (er, rm, v) = Inr (er1, rm1, v1)" "length (lf qs) = n" "env_step (er, rm, v) (lf qs) (er1, rm1, v1)"
    "list_all2 (env_str er1 rm1) qs xs" "unat (er_offset er1) + str_bytes xs = unat (er_offset er)"
    using f ok(1) sz unfolding env_pushes_def by fastforce
  have sp1: "stack_space am ioctl rm1 v1 m"
    by (rule stack_space_step [OF ok(1) 1(3)]) (use ok(2) 1(2) in \<open>simp add: add.commute\<close>)
  then obtain er2 rm2 v2 ps where 2: "g (er1, rm1, v1) = Inr (er2, rm2, v2)" "length (lg ps) = m" "env_step (er1, rm1, v1) (lg ps) (er2, rm2, v2)"
    "list_all2 (env_str er2 rm2) ps ys" "unat (er_offset er2) + str_bytes ys = unat (er_offset er1)"
    using g env_stepD(1) [OF 1(3)] 1(5) sz unfolding env_pushes_def by fastforce
  have "list_all2 (env_str er2 rm2) qs xs"
    using 1(4) env_str_step [OF 2(3)] by (simp add: list_all2_mono)
  moreover have "l (ps @ qs) = lg ps @ lf qs"
    using l 1(4) 2(4) by (simp add: list_all2_lengthD)
  moreover have "env_step (er, rm, v) (lg ps @ lf qs) (er2, rm2, v2)"
    by (rule env_step_trans [OF ok(1) 1(3) 2(3)]) (use ok(2) 1(2) 2(2) in \<open>simp add: add.commute\<close>)
  ultimately show "\<exists>er' rm' v' ps. bindE (f (er, rm, v)) g = Inr (er', rm', v') \<and> length (l ps) = m + n \<and> env_step (er, rm, v) (l ps) (er', rm', v')
        \<and> list_all2 (env_str er' rm') ps (ys @ xs) \<and> unat (er_offset er') + str_bytes (ys @ xs) = unat (er_offset er)"
    using 1 2 by (intro exI [of _ er2] exI [of _ rm2] exI [of _ v2] exI [of _ "ps @ qs"]) (auto intro: list_all2_appendI)
qed

lemma env_pushes_strs: "env_pushes am ioctl (push_strs am ioctl xs) (length xs) xs (\<lambda>ps. ps)"
proof (induction xs)
  case Nil
  show ?case
    by (auto simp: env_pushes_def intro!: env_step_refl exI [of _ "[]"])
next
  case (Cons x xs)
  show ?case
    using env_pushes_bind [OF Cons env_pushes_str] by simp
qed


text \<open>The entries of the auxiliary vector that are passed on, the strings among them, and the words they become.\<close>

definition aux_shown :: "auxv_t list \<Rightarrow> auxv_t list" where
  "aux_shown as = filter (\<lambda>a. \<not> ignored_type (aux_int (a_type a))) as"

definition aux_strs :: "(u64 \<Rightarrow> string) \<Rightarrow> auxv_t list \<Rightarrow> string list" where
  "aux_strs cstr as = map (\<lambda>a. cstr (a_val a)) (filter (\<lambda>a. \<not> treat_as_int_type (aux_int (a_type a))) (aux_shown as))"

primrec aux_layout :: "auxv_t list \<Rightarrow> u64 list \<Rightarrow> u64 list" where
  "aux_layout [] ps = []"
| "aux_layout (a # as) ps =
     (if ignored_type (aux_int (a_type a)) then aux_layout as ps
      else if treat_as_int_type (aux_int (a_type a)) then a_type a # a_val a # aux_layout as ps
      else a_type a # hd ps # aux_layout as (tl ps))"

lemma env_pushes_auxv: "env_pushes am ioctl (push_auxv_raw am ioctl cstr as) (2 * length (aux_shown as)) (aux_strs cstr as) (aux_layout as)"
proof (induction as)
  case Nil
  show ?case
    by (auto simp: env_pushes_def aux_shown_def aux_strs_def intro: env_step_refl)
next
  case (Cons a as)
  consider "ignored_type (aux_int (a_type a))"
    | "\<not> ignored_type (aux_int (a_type a))" "treat_as_int_type (aux_int (a_type a))"
    | "\<not> ignored_type (aux_int (a_type a))" "\<not> treat_as_int_type (aux_int (a_type a))"
    by blast
  then show ?case
  proof cases
    case 1
    then have e: "push_auxv_entry am ioctl cstr a = Inr" for am ioctl
      by (simp add: fun_eq_iff push_auxv_entry_def)
    show ?thesis
      using env_pushes_bind [OF Cons env_pushes_none, of "aux_layout as"] 1 by (simp add: e aux_shown_def aux_strs_def)
  next
    case 2
    then have e: "push_auxv_entry am ioctl cstr a = (\<lambda>s. bindE (env_push am ioctl (a_val a) s) (env_push am ioctl (a_type a)))"
      by (simp add: fun_eq_iff push_auxv_entry_def)
    have "env_pushes am ioctl (push_auxv_entry am ioctl cstr a) (1 + 1) ([] @ []) (\<lambda>_. [a_type a, a_val a])"
      unfolding e by (rule env_pushes_bind [OF env_pushes_push env_pushes_push]) simp
    from env_pushes_bind [OF Cons this, of "\<lambda>ps. a_type a # a_val a # aux_layout as ps"] show ?thesis
      using 2 by (simp add: aux_shown_def aux_strs_def)
  next
    case 3
    then have e: "push_auxv_entry am ioctl cstr a = (\<lambda>s. bindE (push_str_copy am ioctl (cstr (a_val a)) s) (env_push am ioctl (a_type a)))"
      by (simp add: fun_eq_iff push_auxv_entry_def)
    have p: "env_pushes am ioctl (push_auxv_entry am ioctl cstr a) (1 + 1) ([] @ [cstr (a_val a)]) (\<lambda>ps. a_type a # ps)"
      unfolding e by (rule env_pushes_bind [OF env_pushes_str env_pushes_push]) simp
    have "a_type a # hd (ps @ qs) # aux_layout as (tl (ps @ qs)) = (a_type a # ps) @ aux_layout as qs" if "length ps = length ([] @ [cstr (a_val a)])" for ps qs
      using that by (auto simp: length_Suc_conv)
    from env_pushes_bind [OF Cons p this] show ?thesis
      using 3 by (simp add: aux_shown_def aux_strs_def)
  qed
qed

section \<open>The initial stack\<close>

definition guest_str :: "rmgr \<Rightarrow> guestptr \<Rightarrow> string \<Rightarrow> bool" where
  "guest_str rm p x \<longleftrightarrow> (\<forall>i < length x. guest_byte rm (p + of_nat i) = of_char (x ! i)) \<and> guest_byte rm (p + of_nat (length x)) = 0"

lemma env_str_guest:
  assumes ok: "env_ok (er, rm, v)" and x: "env_str er rm p x"
  shows "guest_str rm p x"
proof -
  obtain off where off: "p = reg_addr (rm_store rm (er_region er)) + of_nat off" "off + length x < unat (reg_size (rm_store rm (er_region er)))"
    "\<And>i. i < length x \<Longrightarrow> env_byte er rm (off + i) = of_char (x ! i)" "env_byte er rm (off + length x) = 0"
    using x unfolding env_str_def by blast
  have "guest_byte rm (p + of_nat i) = env_byte er rm (off + i)" if "i \<le> length x" for i
    using env_okD(9) [OF ok, of "off + i"] that off(2) by (simp add: guest_byte_def env_byte_def off(1) add.assoc)
  then show ?thesis
    using off(3,4) by (simp add: guest_str_def)
qed

definition env_words :: "environment \<Rightarrow> auxv_t list \<Rightarrow> u64 list \<Rightarrow> u64 list \<Rightarrow> u64 list \<Rightarrow> u64 list" where
  "env_words e as argp envp auxp = of_int (env_argc e) # argp @ 0 # envp @ 0 # aux_layout as auxp"

lemma env_pushes_environment:
  assumes as: "(if auxv_valid bin then fix_auxv_dynamic_values bin (env_auxv e) else Inr (env_auxv e)) = Inr as"
  defines "a \<equiv> length (env_argv e)" and "b \<equiv> length (env_env e)"
  shows "env_pushes am ioctl (push_environment am ioctl cstr bin e) (a + b + 2 * length (aux_shown as) + 3) (env_argv e @ env_env e @ aux_strs cstr as)
    (\<lambda>ps. env_words e as (take a ps) (take b (drop a ps)) (drop b (drop a ps)))"
proof -
  have 1: "env_pushes am ioctl (push_auxv am ioctl cstr bin e) (1 + 2 * length (aux_shown as)) ([] @ aux_strs cstr as) (\<lambda>ps. 0 # aux_layout as ps)"
    unfolding push_auxv_def as by (simp, rule env_pushes_bind [OF env_pushes_auxv env_pushes_push, simplified]) simp
  have 2: "env_pushes am ioctl (push_env am ioctl e) (1 + b) ([] @ env_env e) (\<lambda>ps. 0 # ps)"
    unfolding push_env_def b_def by (rule env_pushes_bind [OF env_pushes_strs env_pushes_push]) simp
  have 3: "env_pushes am ioctl (\<lambda>s. bindE (push_argv am ioctl e s) (push_argc am ioctl e)) (1 + a) ([] @ env_argv e) (\<lambda>ps. of_int (env_argc e) # ps)"
    unfolding push_argv_def push_argc_def a_def by (rule env_pushes_bind [OF env_pushes_strs env_pushes_push]) simp
  have 4: "env_pushes am ioctl (\<lambda>s. bindE (push_env am ioctl e s) (\<lambda>s. bindE (push_argv am ioctl e s) (push_argc am ioctl e)))
      (1 + a + (1 + b)) (([] @ env_argv e) @ ([] @ env_env e)) (\<lambda>ps. of_int (env_argc e) # take a ps @ 0 # drop a ps)"
    by (rule env_pushes_bind [OF 2 3]) (simp add: a_def)
  have 5: "env_pushes am ioctl (push_environment am ioctl cstr bin e) (1 + a + (1 + b) + (1 + 2 * length (aux_shown as)))
      ((([] @ env_argv e) @ ([] @ env_env e)) @ ([] @ aux_strs cstr as))
      (\<lambda>ps. env_words e as (take a ps) (take b (drop a ps)) (drop b (drop a ps)))"
    unfolding push_environment_def by (rule env_pushes_bind [OF 1 4]) (simp add: a_def b_def env_words_def)
  have n: "1 + a + (1 + b) + (1 + 2 * length (aux_shown as)) = a + b + 2 * length (aux_shown as) + 3"
    by simp
  show ?thesis
    using 5 unfolding n by simp
qed

text \<open>C39. The stack a program starts with.  From the stack pointer upwards stand the argument count, the pointers to the arguments, a null
  word, the pointers to the environment, a null word, and the type and value of every entry of the auxiliary vector that is passed on;
  every pointer leads, through the page tables, to its string with a null byte behind it.  No entry of type \<^verbatim>\<open>AT_NULL\<close> ends the vector.\<close>

theorem push_environment_layout:
  assumes ok: "env_ok (er, rm, v)"
    and as: "(if auxv_valid bin then fix_auxv_dynamic_values bin (env_auxv e) else Inr (env_auxv e)) = Inr as"
    and sp: "stack_space am ioctl rm v (length (env_argv e) + length (env_env e) + 2 * length (aux_shown as) + 3)"
    and sz: "str_bytes (env_argv e @ env_env e @ aux_strs cstr as) < unat (er_offset er)"
  shows "\<exists>er' rm' v' argp envp auxp. push_environment am ioctl cstr bin e (er, rm, v) = Inr (er', rm', v') \<and> env_ok (er', rm', v')
    \<and> list_all2 (guest_str rm') argp (env_argv e) \<and> list_all2 (guest_str rm') envp (env_env e) \<and> list_all2 (guest_str rm') auxp (aux_strs cstr as)
    \<and> (let ws = env_words e as argp envp auxp in vcpu_get_reg v' RSP = vcpu_get_reg v RSP - of_nat (8 * length ws)
         \<and> (\<forall>i < length ws. stack_word rm' (vcpu_get_reg v' RSP + of_nat (8 * i)) = ws ! i))"
proof -
  let ?a = "length (env_argv e)" and ?b = "length (env_env e)"
  obtain er' rm' v' ps where p: "push_environment am ioctl cstr bin e (er, rm, v) = Inr (er', rm', v')"
    "env_step (er, rm, v) (env_words e as (take ?a ps) (take ?b (drop ?a ps)) (drop ?b (drop ?a ps))) (er', rm', v')"
    "list_all2 (env_str er' rm') ps (env_argv e @ env_env e @ aux_strs cstr as)"
    using env_pushes_environment [OF as, of am ioctl cstr] ok sp sz unfolding env_pushes_def by blast
  note D = env_stepD [OF p(2)]
  have l: "list_all2 (guest_str rm') ps (env_argv e @ env_env e @ aux_strs cstr as)"
    using p(3) env_str_guest [OF D(1)] by (simp add: list_all2_mono)
  have "list_all2 (guest_str rm') (take ?a ps) (env_argv e)" "list_all2 (guest_str rm') (take ?b (drop ?a ps)) (env_env e)"
    "list_all2 (guest_str rm') (drop ?b (drop ?a ps)) (aux_strs cstr as)"
    using l by (auto simp: list_all2_append2)
  moreover have "vcpu_get_reg v' RSP = vcpu_get_reg v RSP
      - of_nat (8 * length (env_words e as (take ?a ps) (take ?b (drop ?a ps)) (drop ?b (drop ?a ps))))"
    by (rule env_step_rsp [OF p(2)])
  ultimately show ?thesis
    using p(1) D(1,9) unfolding Let_def by blast
qed

text \<open>A sample: a fresh machine with a stack and a page for the strings.\<close>

lemma allocate_pager_same:
  assumes inv: "rm_inv rm" and sz: "0 < sz" and a: "a \<in> free_ids rm" "sz \<le> reg_size (rm_store rm a)"
    and run: "allocate_region am ioctl rm sz purpose = Inr (b, rm')"
  shows "rm_pager rm' = rm_pager rm"
proof (cases "find_free_region rm sz")
  case (Pair r rm1)
  have "lists_ok rm"
    using inv by (simp add: rm_inv_def)
  then obtain c where c: "r = Some c"
    using find_free_region_None [of rm sz rm1 a] Pair a by (cases r) auto
  then show ?thesis
    using allocate_found [OF inv _ sz, of c rm1 purpose] Pair run by (auto simp: allocate_region_def)
qed

lemma sample_stacked:
  obtains a rm st where "placed sample_rm ELKVM_STACK_GROW 0x7FFFFFE00000 a rm" "stack_inv rm st" "stack_regions st = [a]"
    "stack_base st = 0x7FFFFFE00000" "total_memsz (rm_pager rm) = 0x8000000"
proof -
  let ?sz = ELKVM_STACK_GROW
  have inv: "rm_inv sample_rm" and g: "0 < ?sz"
    using sample_rm_facts(2) by (simp_all add: mem_ok_def mem_inv_def ELKVM_STACK_GROW_def)
  have r: "alloc_ready sample_memalign (\<lambda>_. 0) sample_rm ?sz"
    by (rule sample_alloc_ready) (simp add: ELKVM_STACK_GROW_def)
  obtain a rm1 where al: "allocate_region sample_memalign (\<lambda>_. 0) sample_rm ?sz ''ELKVM stack'' = Inr (a, rm1)"
    by (rule alloc_ready_total [OF inv sample_memalign_ok g _ r]) (simp_all add: sample_rm_facts(5) ELKVM_STACK_GROW_def)
  have 0: "0 \<in> free_ids sample_rm"
    using sample_rm_shape(1) by (auto simp: free_ids_def n_freelists_def intro!: bexI [of _ 15])
  have pg: "rm_pager rm1 = rm_pager sample_rm"
    by (rule allocate_pager_same [OF inv g 0 _ al]) (simp add: sample_rm_shape ELKVM_STACK_GROW_def)
  have s: "stack_addr (Suc (length (stack_regions sample_stack))) = 0x7FFFFFE00000"
    by (simp add: sample_stack_def stack_addr_def LINUX_64_STACK_BASE_def)
  obtain rm' st' where e: "st' = sample_stack\<lparr>stack_base := 0x7FFFFFE00000, stack_regions := stack_regions sample_stack @ [a]\<rparr>"
    "placed sample_rm ELKVM_STACK_GROW 0x7FFFFFE00000 a rm'" "stack_inv rm' st'" "pager_frame (rm_pager rm') = pager_frame (rm_pager rm1)"
    by (rule expand_ok [OF sample_rm_facts(2) sample_stack_inv sample_stack_room sample_memalign_ok al, unfolded s])
  have t: "total_memsz (rm_pager rm') = 0x8000000"
    using pager_frame_eqD(4) [OF e(4)] by (simp add: pg sample_rm_facts)
  show ?thesis
    by (rule that [OF e(2,3) _ _ t]) (simp_all add: e(1) sample_stack_def)
qed

definition sample_env_vcpu :: "stack \<Rightarrow> unit vcpu" where
  "sample_env_vcpu st = sample_vcpu\<lparr>vcpu_stack := st\<rparr>"

lemma sample_env_ok:
  obtains er rm st where "env_ok (er, rm, sample_env_vcpu st)" "er_offset er = 0x1000" "stack_base st = 0x7FFFFFE00000"
proof -
  obtain s rm st where S: "placed sample_rm ELKVM_STACK_GROW 0x7FFFFFE00000 s rm" "stack_inv rm st" "stack_regions st = [s]"
    "stack_base st = 0x7FFFFFE00000" "total_memsz (rm_pager rm) = 0x8000000"
    by (rule sample_stacked)
  note P = placedD [OF S(1)]
  have inv: "rm_inv rm"
    using P(1) by (simp add: mem_ok_def mem_inv_def)
  obtain t where t: "allocated_regions sample_rm = [t]" "pager_region sample_rm t"
    using sample_rm_facts(6) by blast
  have "reg_size (rm_store rm t) = ELKVM_PAGER_MEMSIZE"
    using P(7) [of t] t by (simp add: pager_region_def)
  then obtain f where f: "f \<in> free_ids rm" "0x1000 \<le> reg_size (rm_store rm f)"
    using free_region_left [OF inv] P(2,3,5) t(1) S(5) by (auto simp: ELKVM_PAGER_MEMSIZE_def ELKVM_STACK_GROW_def)
  have room: "unat (total_memsz (rm_pager rm)) + unat (0x1000 :: u64) + 0x8000000 \<le> 2 ^ 52"
    by (simp add: S(5))
  have ready: "alloc_ready sample_memalign (\<lambda>_. 0) rm 0x1000"
    using f unfolding alloc_ready_def by blast
  obtain b rm1 where al: "allocate_region sample_memalign (\<lambda>_. 0) rm 0x1000 ''ELKVM environment'' = Inr (b, rm1)"
    by (rule alloc_ready_total [OF inv sample_memalign_ok _ room ready]) simp_all
  have "vpn 0x500000 \<noteq> vpn (0x7FFFFFE00000 + of_nat (4096 * k))" if "k < 512" for k
  proof
    assume "vpn 0x500000 = vpn (0x7FFFFFE00000 + of_nat (4096 * k))"
    then have "unat (vpn 0x500000) = unat (vpn (0x7FFFFFE00000 + of_nat (4096 * k)))"
      by (rule arg_cong)
    then show False
      using that unfolding unat_vpn_add unfolding unat_vpn by simp
  qed
  then have "pt_view (rm_pager rm) (vpn 0x500000) = None"
    using S(1) sample_rm_facts(3) unfolding placed_def by (simp add: ELKVM_STACK_GROW_def)
  then obtain p' where "placed rm 0x1000 0x500000 b (update_region (rm1\<lparr>rm_pager := p'\<rparr>) b (set_guest_addr 0x500000 (rm_store rm1 b)))"
    using allocate_and_map [OF P(1) sample_memalign_ok _ _ room al, of "0x500000" 1] P(10) sample_rm_facts(4)
      areas_le [of "0x500000" 1] areas_le [of "0x7FFFFFE00000" 512]
    by (simp add: page_aligned_iff ELKVM_STACK_GROW_def) blast
  then obtain rm2 where R: "placed rm 0x1000 0x500000 b rm2"
    by blast
  note Q = placedD [OF R]
  have b: "b \<noteq> s" "b \<in> set (allocated_regions rm2)"
    using Q(2,3) P(3) by auto
  have zero: "pg_mem (rm_pager rm2) (reg_host_p (rm_store rm2 b) + of_nat off) = 0" if "off < 4096" for off
  proof -
    have "outside_same (rm_pager sample_rm) (rm_pager rm2)" "host_pml4_p (rm_pager rm2) = host_pml4_p (rm_pager sample_rm)"
      using S(1) R outside_same_trans [of "rm_pager sample_rm" "rm_pager rm"] unfolding placed_def by simp_all
    moreover have "0x1000000 \<le> unat (reg_host_p (rm_store rm2 b) + of_nat off - host_pml4_p (rm_pager rm2))"
      by (rule region_byte_far [OF Q(1) b(2) Q(4)]) (simp add: Q(5) that)
    ultimately show ?thesis
      by (simp add: outside_same_def sample_rm_shape(5))
  qed
  have "env_ok (\<lparr>er_region = b, er_offset = 0x1000\<rparr>, rm2, sample_env_vcpu st)"
    using Q(1,4-6,8) b stack_inv_keep [OF S(2) P(1) R] S(3) zero
    by (simp add: env_ok_def sample_env_vcpu_def env_byte_def)
  then show ?thesis
    by (rule that) (simp_all add: S(4))
qed

definition sample_environment :: environment where
  "sample_environment = \<lparr>env_region = \<lparr>er_region = 0, er_offset = 0\<rparr>, env_auxv = [\<lparr>a_type = 6, a_val = 4096\<rparr>, \<lparr>a_type = 15, a_val = 1\<rparr>],
     env_env = [''A=b''], env_argv = [''prog''], env_argc = 1\<rparr>"

lemma sample_aux_types:
  "\<not> ignored_type (aux_int 6)" "\<not> ignored_type (aux_int 15)" "treat_as_int_type (aux_int 6)" "\<not> treat_as_int_type (aux_int 15)"
  by code_simp+

theorem push_environment_layout_witness:
  "\<exists>er rm st er' rm' v' p q r. push_environment sample_memalign (\<lambda>_. 0) (\<lambda>_. ''x86_64'') (auxv (new_elf_fields False))
       sample_environment (er, rm, sample_env_vcpu st) = Inr (er', rm', v')
     \<and> vcpu_get_reg v' RSP = 0x7FFFFFFFFFB8 \<and> guest_str rm' p ''prog'' \<and> guest_str rm' q ''A=b'' \<and> guest_str rm' r ''x86_64''
     \<and> (\<forall>i < 9. stack_word rm' (0x7FFFFFFFFFB8 + of_nat (8 * i)) = [1, p, 0, q, 0, 6, 4096, 15, r] ! i)"
proof -
  let ?as = "[\<lparr>a_type = 6, a_val = 4096\<rparr>, \<lparr>a_type = 15, a_val = 1\<rparr>]"
  obtain er rm st where e: "env_ok (er, rm, sample_env_vcpu st)" "er_offset er = 0x1000" "stack_base st = 0x7FFFFFE00000"
    by (rule sample_env_ok)
  have as: "(if auxv_valid (auxv (new_elf_fields False)) then fix_auxv_dynamic_values (auxv (new_elf_fields False)) (env_auxv sample_environment)
      else Inr (env_auxv sample_environment)) = Inr ?as"
    by (simp add: new_elf_fields_def sample_environment_def)
  have l: "aux_shown ?as = ?as" "aux_strs (\<lambda>_. ''x86_64'') ?as = [''x86_64'']" "env_argv sample_environment = [''prog'']" "env_env sample_environment = [''A=b'']"
    by (simp_all add: aux_shown_def aux_strs_def sample_aux_types sample_environment_def)
  have r: "vcpu_get_reg (sample_env_vcpu st) RSP = 0x800000000000"
    by (simp add: sample_env_vcpu_def sample_vcpu_def vcpu_get_reg_def LINUX_64_STACK_BASE_def)
  have sp: "stack_space sample_memalign (\<lambda>_. 0) rm (sample_env_vcpu st) (length (env_argv sample_environment) + length (env_env sample_environment) + 2 * length (aux_shown ?as) + 3)"
    unfolding stack_space_def by (rule disjI1) (simp add: l stack_free_def r, simp add: sample_env_vcpu_def e(3))
  have sz: "str_bytes (env_argv sample_environment @ env_env sample_environment @ aux_strs (\<lambda>_. ''x86_64'') ?as) < unat (er_offset er)"
    by (simp add: l e(2) str_bytes_def)
  have w: "env_words sample_environment ?as [p] [q] [r] = [1, p, 0, q, 0, 6, 4096, 15, r]" for p q r
    by (simp add: env_words_def sample_environment_def sample_aux_types)
  obtain er' rm' v' argp envp auxp where p: "push_environment sample_memalign (\<lambda>_. 0) (\<lambda>_. ''x86_64'') (auxv (new_elf_fields False))
       sample_environment (er, rm, sample_env_vcpu st) = Inr (er', rm', v')"
    "list_all2 (guest_str rm') argp [''prog'']" "list_all2 (guest_str rm') envp [''A=b'']" "list_all2 (guest_str rm') auxp [''x86_64'']"
    "vcpu_get_reg v' RSP = 0x800000000000 - of_nat (8 * length (env_words sample_environment ?as argp envp auxp))"
    "\<forall>i < length (env_words sample_environment ?as argp envp auxp).
      stack_word rm' (vcpu_get_reg v' RSP + of_nat (8 * i)) = env_words sample_environment ?as argp envp auxp ! i"
    using push_environment_layout [OF e(1) as sp sz] unfolding l r Let_def by blast
  obtain x y z where x: "argp = [x]" "envp = [y]" "auxp = [z]" "guest_str rm' x ''prog''" "guest_str rm' y ''A=b''" "guest_str rm' z ''x86_64''"
    using p(2-4) by (auto simp: list_all2_Cons2)
  have rsp: "vcpu_get_reg v' RSP = 0x7FFFFFFFFFB8"
    using p(5) unfolding x(1-3) w by simp
  have "length [1, x, 0, y, 0, 6, 4096, 15, z] = 9"
    by simp
  then show ?thesis
    using p(1,6) x(4-6) unfolding x(1-3) w rsp using rsp by metis
qed

end
