(* ===== verification/Vm_Create.thy ===== *)
theory Vm_Create
  imports Vm_Run Environ
begin

text \<open>
  Creating a machine: \<^verbatim>\<open>src/src/vm.cc\<close> with the constructor, \<^verbatim>\<open>add_cpu\<close> and \<^verbatim>\<open>load_flat\<close> of
  \<^verbatim>\<open>src/src/vm_internals.cc\<close>.
\<close>

section \<open>The host\<close>

text \<open>
  What the host gives to the creation of a machine: libelf and files, the answers of \<^verbatim>\<open>KVM_CREATE_VM\<close>,
  \<^verbatim>\<open>KVM_GET_VCPU_MMAP_SIZE\<close> and \<^verbatim>\<open>KVM_CREATE_VCPU\<close> (with the shared run structure and the state of the CPU in the kernel), resource
  limits, \<^verbatim>\<open>open\<close> and \<^verbatim>\<open>fstat\<close> (\<open>Inl\<close> the error number, otherwise the descriptor and the size), the words and strings of the
  monitor, and the memory at the start.  \<open>res_path\<close> is the directory of the flat files, a constant of the build.
\<close>

record ('k, 'w) boot =
  boot_host :: "('k, 'w) host"
  boot_elf :: elf_host
  boot_create_vm :: "int \<Rightarrow> int"
  boot_mmap_size :: "int \<Rightarrow> int"
  boot_vcpu :: "int \<Rightarrow> nat \<Rightarrow> int \<times> kvm_run option \<times> 'k"
  boot_rlimit :: "int \<Rightarrow> int \<times> rlimit"
  boot_open :: "string \<Rightarrow> int + int"
  boot_fstat :: "int \<Rightarrow> int + u64"
  boot_words :: "hostptr \<Rightarrow> u64 list"
  boot_cstr :: "hostptr \<Rightarrow> string"
  boot_mem :: memory
  boot_world :: 'w
  res_path :: string

section \<open>The machine and its CPUs\<close>

text \<open>The table of pending signals is static and empty when the first machine is made.\<close>

definition new_vm :: "('k, 'w) boot \<Rightarrow> int \<Rightarrow> elkvm_opts \<Rightarrow> int \<Rightarrow> ('k, 'w) vm res" where
  "new_vm bt fd opts run_size =
     bindE (RegionManager (host_memalign (boot_host bt)) (host_set_region (boot_host bt)) fd (boot_mem bt) TLB) (\<lambda>rm.
     bindE (new_rlimits (boot_rlimit bt)) (\<lambda>limits.
     Inr \<lparr>vm_cpus = [], vm_debug = opt_debug opts, vm_gdt = None, vm_heap = HeapManager rm, vm_fd = fd, vm_argc = opt_argc opts,
          vm_argv = opt_argv opts, vm_environ = opt_environ opts, vm_run_struct_size = run_size, vm_rlimits = limits,
          vm_sigs = replicate (nat NSIG) (replicate 152 0), vm_cleanup = \<lparr>flat_region = None, flat_size = 0\<rparr>,
          pending_signals = replicate 32 0, num_pending_signals = 0, vm_errno = 0, vm_world = boot_world bt\<rparr>))"

definition create_vm_object :: "('k, 'w) boot \<Rightarrow> elkvm_opts \<Rightarrow> ('k, 'w) vm option res" where
  "create_vm_object bt opts =
     (let fd = boot_create_vm bt (opt_fd opts) in
      if fd < 0 then Inr None
      else
        let run_size = boot_mmap_size bt (opt_fd opts) in
        if run_size < 0 then Inr None
        else bindE (new_vm bt fd opts run_size) (\<lambda>vm. Inr (Some vm)))"

text \<open>The results of \<^verbatim>\<open>set_regs\<close> and \<^verbatim>\<open>set_sregs\<close> are ignored.\<close>

definition add_cpu :: "('k, 'w) boot \<Rightarrow> (('k, 'w) vm, int) op" where
  "add_cpu bt vm =
     (let host = boot_host bt; (fd, rs, k) = boot_vcpu bt (vm_fd vm) (length (vm_cpus vm)) in
      bindO (new_vcpu (host_memalign host) (host_set_region host) fd rs k (vm_rm vm)) (\<lambda>(v, rm).
      let (_, v1) = vcpu_set_regs (host_kvm host) v; (_, v2) = vcpu_set_sregs (host_kvm host) v1
      in Some (Inr (0, (set_vm_rm rm vm)\<lparr>vm_cpus := vm_cpus vm @ [v2]\<rparr>))))"

primrec create_vcpus :: "('k, 'w) boot \<Rightarrow> nat \<Rightarrow> (('k, 'w) vm, int) op" where
  "create_vcpus bt 0 = retS 0"
| "create_vcpus bt (Suc n) = bindS (add_cpu bt) (\<lambda>err. if err \<noteq> 0 then retS err else create_vcpus bt n)"

definition create_virtual_hardware :: "('k, 'w) boot \<Rightarrow> elkvm_opts \<Rightarrow> nat \<Rightarrow> ('k, 'w) vm res option" where
  "create_virtual_hardware bt opts cpus =
     bindO (Some (create_vm_object bt opts)) (\<lambda>vm. case vm of
       None \<Rightarrow> Some (Inl Abort)
     | Some vm \<Rightarrow>
         bindO (create_vcpus bt cpus vm) (\<lambda>(err, vm1).
         bindO (Some (assertE (err = 0))) (\<lambda>_. Some (Inr vm1))))"

section \<open>Flat files\<close>

text \<open>The loop reads a page at a time until \<^verbatim>\<open>read\<close> returns nothing; it does not look at the size of the region.\<close>

partial_function (option) flat_loop :: "host_files \<Rightarrow> int \<Rightarrow> memory \<Rightarrow> hostptr \<Rightarrow> int \<Rightarrow> memory option" where
  "flat_loop fs fd mem buf off =
     (let bytes = take 4096 (read_at fs fd off 4096)
      in if bytes = [] then Some mem
         else flat_loop fs fd (write_bytes mem buf bytes) (buf + of_nat (length bytes)) (off + int (length bytes)))"

definition read_flat :: "host_files \<Rightarrow> int \<Rightarrow> rid \<Rightarrow> (('k, 'w) vm, unit) op" where
  "read_flat fs fd a vm =
     (case flat_loop fs fd (vm_mem vm) (reg_host_p (rm_store (vm_rm vm) a)) 0 of
        None \<Rightarrow> None
      | Some mem \<Rightarrow> Some (Inr ((), set_vm_mem mem vm)))"

text \<open>Placing the region of a flat file: a kernel page, or the fixed address \<^verbatim>\<open>0x1000\<close>; the result is whether there was an address.\<close>

definition place_flat :: "bool \<Rightarrow> rid \<Rightarrow> rmgr \<Rightarrow> (bool \<times> rmgr) res option" where
  "place_flat krn a rm =
     (if krn then
        bindO (map_kernel_page (rm_pager rm) (reg_host_p (rm_store rm a)) PT_OPT_EXEC) (\<lambda>(gv, p).
        let rm1 = rm\<lparr>rm_pager := p\<rparr> in
        if gv = 0 then Some (Inr (False, rm1))
        else Some (Inr (True, update_region rm1 a (set_guest_addr gv (rm_store rm1 a)))))
      else
        let rm1 = update_region rm a (set_guest_addr 0x1000 (rm_store rm a)) in
        bindO (Some (map_user_page (rm_pager rm1) (reg_host_p (rm_store rm1 a)) 0x1000 PT_OPT_EXEC)) (\<lambda>(err, p).
        bindO (Some (assertE (err = 0))) (\<lambda>_. Some (Inr (True, rm1\<lparr>rm_pager := p\<rparr>)))))"

definition load_flat :: "('k, 'w) boot \<Rightarrow> flat \<Rightarrow> string \<Rightarrow> bool \<Rightarrow> (('k, 'w) vm, int \<times> flat) op" where
  "load_flat bt fl path krn =
     (case boot_open bt path of
        Inl e \<Rightarrow> bindS (modS (\<lambda>vm. vm\<lparr>vm_errno := e\<rparr>)) (\<lambda>_. retS (- e, fl))
      | Inr fd \<Rightarrow>
         (case boot_fstat bt fd of
            Inl e \<Rightarrow> bindS (modS (\<lambda>vm. vm\<lparr>vm_errno := e\<rparr>)) (\<lambda>_. retS (- e, fl))
          | Inr sz \<Rightarrow>
              bindS (getS vm_rm) (\<lambda>rm.
              bindS (liftS (allocate_region (host_memalign (boot_host bt)) (host_set_region (boot_host bt)) rm sz path)) (\<lambda>(a, rm1).
              bindS (\<lambda>vm. bindO (place_flat krn a rm1) (\<lambda>(ok, rm2). Some (Inr (ok, set_vm_rm rm2 vm)))) (\<lambda>ok.
              if \<not> ok then retS (- ENOMEM, fl\<lparr>flat_size := sz\<rparr>)
              else
                bindS (read_flat (host_fs (boot_host bt)) fd a) (\<lambda>_.
                retS (0, fl\<lparr>flat_size := sz, flat_region := Some a\<rparr>)))))))"

section \<open>The code and tables of the guest's kernel side\<close>

definition create_gdt :: "('k, 'w) boot \<Rightarrow> (('k, 'w) vm, rid option) op" where
  "create_gdt bt =
     bindS (vcpuS 0) (\<lambda>v vm.
     bindO (elkvm_gdt_setup (host_kvm (boot_host bt)) (host_memalign (boot_host bt)) (host_set_region (boot_host bt)) (vm_rm vm) v) (\<lambda>(g, rm, v1).
     Some (Inr (g, put_vcpu 0 v1 (set_vm_rm rm vm)))))"

definition create_idt :: "('k, 'w) boot \<Rightarrow> (('k, 'w) vm, int) op" where
  "create_idt bt =
     bindS (load_flat bt \<lparr>flat_region = None, flat_size = 0\<rparr> (res_path bt @ ''/isr'') True) (\<lambda>(err, idth).
     if err \<noteq> 0 then retS err
     else case flat_region idth of None \<Rightarrow> failS Fault
     | Some h \<Rightarrow>
         bindS (vcpuS 0) (\<lambda>v vm.
         bindO (elkvm_idt_setup (host_kvm (boot_host bt)) (host_memalign (boot_host bt)) (host_set_region (boot_host bt)) (vm_rm vm) v h) (\<lambda>(err, rm, v1).
         Some (Inr (err, put_vcpu 0 v1 (set_vm_rm rm vm))))))"

definition VCPU_MSR_LSTAR :: u32 where "VCPU_MSR_LSTAR = 0xC0000082"

definition create_sysenter :: "('k, 'w) boot \<Rightarrow> (('k, 'w) vm, int) op" where
  "create_sysenter bt =
     bindS (load_flat bt \<lparr>flat_region = None, flat_size = 0\<rparr> (res_path bt @ ''/entry'') True) (\<lambda>(err, sysenter).
     if err \<noteq> 0 then retS err
     else case flat_region sysenter of None \<Rightarrow> failS Fault
     | Some a \<Rightarrow>
         bindS (vcpuS 0) (\<lambda>v vm.
         bindS (liftS (vcpu_set_msr (host_kvm (boot_host bt)) VCPU_MSR_LSTAR (reg_addr (rm_store (vm_rm vm) a)) v)) (\<lambda>v1.
         bindS (modS (put_vcpu 0 v1)) (\<lambda>_. retS 0)) vm))"

definition create_sighandler :: "('k, 'w) boot \<Rightarrow> (('k, 'w) vm, int) op" where
  "create_sighandler bt =
     bindS (getS vm_cleanup) (\<lambda>fl.
     bindS (load_flat bt fl (res_path bt @ ''/signal'') False) (\<lambda>(err, fl1).
     bindS (modS (\<lambda>vm. vm\<lparr>vm_cleanup := fl1\<rparr>)) (\<lambda>_. retS err)))"

definition setup_proxy_os :: "('k, 'w) boot \<Rightarrow> (('k, 'w) vm, int) op" where
  "setup_proxy_os bt =
     bindS (create_gdt bt) (\<lambda>g.
     bindS (assertS (g \<noteq> None)) (\<lambda>_.
     bindS (create_idt bt) (\<lambda>err.
     bindS (assertS (err = 0)) (\<lambda>_.
     bindS (create_sysenter bt) (\<lambda>err.
     bindS (assertS (err = 0)) (\<lambda>_.
     bindS (create_sighandler bt) (\<lambda>err.
     bindS (assertS (err = 0)) (\<lambda>_. retS 0))))))))"

section \<open>The program\<close>

definition env_pages :: u64 where "env_pages = 12"

definition create_and_setup_environment :: "('k, 'w) boot \<Rightarrow> elkvm_opts \<Rightarrow> Elf_auxv \<Rightarrow> (('k, 'w) vm, int) op" where
  "create_and_setup_environment bt opts av vm =
     (let host = boot_host bt; am = host_memalign host; ioctl = host_set_region host;
          args = \<lparr>host_argc = opt_argc opts, host_argv = boot_words bt (opt_argv opts), host_envp = boot_words bt (opt_environ opts)\<rparr> in
      Some (
      bindE (get_vcpu 0 vm) (\<lambda>v.
      bindE (allocate_region am ioctl (vm_rm vm) (env_pages * ELKVM_PAGESIZE) ''ELKVM Environment'') (\<lambda>(r, rm1).
      bindE (Environment (boot_cstr bt) rm1 r args) (\<lambda>(env, rm2).
      bindE (map_region (rm_pager rm2) (reg_host_p (rm_store rm2 r)) (reg_addr (rm_store rm2 r)) (ucast env_pages) PT_OPT_WRITE) (\<lambda>(err, p).
      bindE (assertE (err = 0)) (\<lambda>_.
      bindE (env_create am ioctl (host_kvm host) (boot_cstr bt) av env (rm2\<lparr>rm_pager := p\<rparr>) v) (\<lambda>(err, rm3, v1).
      Inr (err, put_vcpu 0 v1 (set_vm_rm rm3 vm))))))))))"

definition load_elf_binary :: "('k, 'w) boot \<Rightarrow> elkvm_opts \<Rightarrow> string \<Rightarrow> (('k, 'w) vm, int) op" where
  "load_elf_binary bt opts binary =
     bindS (\<lambda>vm. bindO (ElfBinary (host_memalign (boot_host bt)) (host_set_region (boot_host bt)) (boot_elf bt) binary False (vm_heap vm)) (\<lambda>(bin, h).
              Some (Inr (bin, vm\<lparr>vm_heap := h\<rparr>)))) (\<lambda>bin.
     bindS (vcpuS 0) (\<lambda>v.
     bindS (liftS (get_entry_point bin)) (\<lambda>rip.
     bindS (modS (put_vcpu 0 (set_entry_point (host_kvm (boot_host bt)) rip v))) (\<lambda>_.
     bindS (create_and_setup_environment bt opts (auxv (elf_binary.fields bin))) (\<lambda>err.
     bindS (assertS (err = 0)) (\<lambda>_. retS 0))))))"

section \<open>The entry points of the library\<close>

definition elkvm_vm_create_raw :: "('k, 'w) boot \<Rightarrow> elkvm_opts \<Rightarrow> nat \<Rightarrow> bool \<Rightarrow> ('k, 'w) vm res option" where
  "elkvm_vm_create_raw bt opts cpus debug =
     (let opts1 = opts\<lparr>opt_debug := debug\<rparr> in
      bindO (create_virtual_hardware bt opts1 cpus) (\<lambda>vm.
      bindO (setup_proxy_os bt vm) (\<lambda>(err, vm1).
      bindO (Some (assertE (err = 0))) (\<lambda>_. Some (Inr vm1)))))"

definition elkvm_vm_create :: "('k, 'w) boot \<Rightarrow> elkvm_opts \<Rightarrow> string \<Rightarrow> nat \<Rightarrow> bool \<Rightarrow> ('k, 'w) vm res option" where
  "elkvm_vm_create bt opts binary cpus debug =
     (let opts1 = opts\<lparr>opt_debug := debug\<rparr> in
      bindO (create_virtual_hardware bt opts1 cpus) (\<lambda>vm.
      bindO (load_elf_binary bt opts1 binary vm) (\<lambda>(err, vm1).
      bindO (Some (assertE (err = 0))) (\<lambda>_.
      bindO (setup_proxy_os bt vm1) (\<lambda>(err, vm2).
      bindO (Some (assertE (err = 0))) (\<lambda>_. Some (Inr vm2)))))))"

end
