(* ===== verification/Boot_Mem.thy ===== *)
theory Boot_Mem
  imports Vm_Create Environ_Props Descriptor_Props
begin

text \<open>
  Memory while a machine is created.  Every page for a table or for code is allocated, written and mapped in turn; what was made before keeps
  its bytes, its place and its translation (\<open>kept\<close>), and the memory left over is counted in pages (\<open>page_room\<close>).
\<close>

section \<open>Room for pages\<close>

definition alloc_size :: "rmgr \<Rightarrow> nat" where
  "alloc_size rm = (\<Sum>a \<in> set (allocated_regions rm). unat (reg_size (rm_store rm a)))"

definition page_room :: "nat \<Rightarrow> rmgr \<Rightarrow> bool" where
  "page_room n rm \<longleftrightarrow> alloc_size rm + 4096 * n \<le> unat (total_memsz (rm_pager rm)) \<and> tables_used (rm_pager rm) + 3 * n \<le> 4096
     \<and> unat (total_memsz (rm_pager rm)) + 0x8001000 \<le> 2 ^ 52"

lemma page_alloc:
  assumes ok: "mem_ok rm" and am: "memalign_ok am" and room: "page_room (Suc n) rm" and sz: "0 < unat sz" "unat sz \<le> 4096"
  obtains a rm1 where "allocate_region am ioctl rm sz purpose = Inr (a, rm1)" "fresh_region rm sz a rm1" "rm_pager rm1 = rm_pager rm"
    "reg_size (rm_store rm1 a) = 0x1000" "a \<notin> set (allocated_regions rm)" "allocated_regions rm1 = allocated_regions rm @ [a]"
    "alloc_size rm1 = alloc_size rm + 4096"
proof -
  have inv: "rm_inv rm" and sz0: "0 < sz"
    using ok sz(1) by (simp_all add: mem_ok_def mem_inv_def word_less_nat_alt)
  have "alloc_size rm < unat (total_memsz (rm_pager rm))"
    using room by (simp add: page_room_def)
  then obtain f where f: "f \<in> free_ids rm" "0x1000 \<le> reg_size (rm_store rm f)"
    by (rule free_region_left [OF inv, folded alloc_size_def])
  then have le: "sz \<le> reg_size (rm_store rm f)"
    using sz(2) by (simp add: word_le_nat_alt)
  then have r: "alloc_ready am ioctl rm sz"
    using f(1) by (auto simp: alloc_ready_def)
  obtain a rm1 where al: "allocate_region am ioctl rm sz purpose = Inr (a, rm1)" "fresh_region rm sz a rm1"
    by (rule fresh_region_ok [OF ok am r sz0]) (use room sz in \<open>simp_all add: page_room_def\<close>)
  have A: "a \<notin> set (allocated_regions rm)" "allocated_regions rm1 = allocated_regions rm @ [a]"
      "\<forall>x \<in> set (allocated_regions rm). rm_store rm1 x = rm_store rm x"
    using al(2) by (simp_all add: fresh_region_def allocated_def)
  have "unat (pagesize_align sz) = 4096"
    using sz by (subst unat_pagesize_align) (simp_all add: div_eq_0_iff)
  then have "unat (pagesize_align sz) = unat (0x1000 :: u64)"
    by simp
  then have p: "pagesize_align sz = 0x1000"
    by (rule unsigned_word_eqI)
  then have s: "reg_size (rm_store rm1 a) = 0x1000"
    using fresh_regionD(4) [OF al(2)] by simp
  have "alloc_size rm1 = alloc_size rm + 4096"
    using A s by (simp add: alloc_size_def)
  then show ?thesis
    using that [OF al _ s A(1,2)] allocate_pager_same [OF inv sz0 f(1) le al(1)] by simp
qed

section \<open>What is kept\<close>

text \<open>The regions of \<open>rm\<close> are still there, with their addresses and translations, and those not in \<open>X\<close> with their bytes; the chunks and the
  root of the page tables stay.\<close>

definition kept :: "rid set \<Rightarrow> rmgr \<Rightarrow> rmgr \<Rightarrow> bool" where
  "kept X rm rm' \<longleftrightarrow> mem_ok rm' \<and> (\<forall>x \<in> set (allocated_regions rm). x \<in> set (allocated_regions rm') \<and> rm_store rm' x = rm_store rm x
       \<and> pager_region rm' x = pager_region rm x)
     \<and> (\<forall>b. host_of (rm_pager rm) b \<noteq> 0 \<longrightarrow> host_of (rm_pager rm') b = host_of (rm_pager rm) b)
     \<and> (\<forall>x \<in> set (allocated_regions rm) - X. \<not> pager_region rm x \<longrightarrow> (\<forall>off < unat (reg_size (rm_store rm x)).
          pg_mem (rm_pager rm') (reg_host_p (rm_store rm x) + of_nat off) = pg_mem (rm_pager rm) (reg_host_p (rm_store rm x) + of_nat off)))
     \<and> chunks (rm_pager rm') = chunks (rm_pager rm) \<and> host_pml4_p (rm_pager rm') = host_pml4_p (rm_pager rm)"

lemma keptD:
  assumes "kept X rm rm'"
  shows "mem_ok rm'" "\<And>x. x \<in> set (allocated_regions rm) \<Longrightarrow> x \<in> set (allocated_regions rm')"
    "\<And>x. x \<in> set (allocated_regions rm) \<Longrightarrow> rm_store rm' x = rm_store rm x"
    "\<And>x. x \<in> set (allocated_regions rm) \<Longrightarrow> pager_region rm' x = pager_region rm x"
    "\<And>b. host_of (rm_pager rm) b \<noteq> 0 \<Longrightarrow> host_of (rm_pager rm') b = host_of (rm_pager rm) b"
    "\<And>x off. x \<in> set (allocated_regions rm) \<Longrightarrow> x \<notin> X \<Longrightarrow> \<not> pager_region rm x \<Longrightarrow> off < unat (reg_size (rm_store rm x)) \<Longrightarrow>
       pg_mem (rm_pager rm') (reg_host_p (rm_store rm x) + of_nat off) = pg_mem (rm_pager rm) (reg_host_p (rm_store rm x) + of_nat off)"
    "chunks (rm_pager rm') = chunks (rm_pager rm)" "host_pml4_p (rm_pager rm') = host_pml4_p (rm_pager rm)"
  using assms unfolding kept_def by blast+

lemma kept_trans:
  assumes 1: "kept X rm rm1" and 2: "kept Y rm1 rm2"
  shows "kept (X \<union> Y) rm rm2"
proof -
  note A = keptD [OF 1] and B = keptD [OF 2]
  have "host_of (rm_pager rm2) b = host_of (rm_pager rm) b" if "host_of (rm_pager rm) b \<noteq> 0" for b
    using A(5) [OF that] B(5) [of b] that by simp
  moreover have "pg_mem (rm_pager rm2) (reg_host_p (rm_store rm x) + of_nat off) = pg_mem (rm_pager rm) (reg_host_p (rm_store rm x) + of_nat off)"
    if "x \<in> set (allocated_regions rm)" "x \<notin> X" "x \<notin> Y" "\<not> pager_region rm x" "off < unat (reg_size (rm_store rm x))" for x off
    using A(2-4,6) [of x] B(6) [of x off] that by simp
  ultimately show ?thesis
    unfolding kept_def using A(2-4,7,8) B(1-4,7,8) by auto
qed

text \<open>Regions that are new need not be mentioned.\<close>

lemma kept_new: "kept X rm rm' \<Longrightarrow> Y \<inter> set (allocated_regions rm) = X \<inter> set (allocated_regions rm) \<Longrightarrow> kept Y rm rm'"
  unfolding kept_def by blast

section \<open>Steps\<close>

lemma write_step:
  assumes ok: "mem_ok rm" and a: "a \<in> set (allocated_regions rm)" "\<not> pager_region rm a" and w: "writes_within rm a m"
  shows "kept {a} rm (store_mem m rm)" "page_room n (store_mem m rm) = page_room n rm" "kernel_slots (store_mem m rm) k = kernel_slots rm k"
    "pt_view (rm_pager (store_mem m rm)) = pt_view (rm_pager rm)" "stack_inv (store_mem m rm) st = stack_inv rm st"
proof -
  have inv: "mem_inv rm" "rm_inv rm"
    using ok by (simp_all add: mem_ok_def mem_inv_def)
  note s = store_mem_ok [OF ok writes_within_tables [OF inv(1) a w]]
  show "page_room n (store_mem m rm) = page_room n rm" "kernel_slots (store_mem m rm) k = kernel_slots rm k"
    "pt_view (rm_pager (store_mem m rm)) = pt_view (rm_pager rm)" "stack_inv (store_mem m rm) st = stack_inv rm st"
    using s by (simp_all add: page_room_def alloc_size_def kernel_slots_def stack_inv_def stack_region_def)
  have "m (reg_host_p (rm_store rm x) + of_nat off) = pg_mem (rm_pager rm) (reg_host_p (rm_store rm x) + of_nat off)"
    if "x \<in> set (allocated_regions rm)" "x \<noteq> a" "off < unat (reg_size (rm_store rm x))" for x off
    using region_byte(3) [OF inv(2) that(1,3)] allocated_apart [OF inv(2) that(1) a(1) that(2)] w
    unfolding writes_within_def region_block_def by blast
  then show "kept {a} rm (store_mem m rm)"
    using s by (simp add: kept_def)
qed

lemma fresh_kept:
  assumes ok: "mem_ok rm" and f: "fresh_region rm sz a rm1" and p: "rm_pager rm1 = rm_pager rm"
  shows "kept {} rm rm1"
  using fresh_regionD [OF f] p by (auto simp: kept_def pager_region_def)


lemma kept_stack:
  assumes ok: "mem_ok rm" and k: "kept X rm rm'" and inv: "stack_inv rm st"
  shows "stack_inv rm' st"
proof -
  note K = keptD [OF k]
  have rm: "rm_inv rm"
    using ok by (simp add: mem_ok_def mem_inv_def)
  have "stack_region rm' i x" if x: "stack_region rm i x" for i x
  proof -
    note D = stack_regionD [OF x]
    have "host_of (rm_pager rm') (stack_addr (Suc i) + of_nat off) = reg_host_p (rm_store rm' x) + of_nat off" if off: "off < 0x200000" for off
    proof -
      have "off < unat (reg_size (rm_store rm x))"
        using off D(3) by (simp add: ELKVM_STACK_GROW_def)
      then have "host_of (rm_pager rm) (stack_addr (Suc i) + of_nat off) \<noteq> 0"
        using region_byte(2) [OF rm D(1)] D(5) [OF off] by simp
      then show ?thesis
        using K(3) [OF D(1)] K(5) D(5) [OF off] by simp
    qed
    then show ?thesis
      using D K(2-4) [OF D(1)] by (simp add: stack_region_def)
  qed
  then show ?thesis
    using inv by (simp add: stack_inv_def)
qed

text \<open>The region \<open>a\<close> is one page, mapped at \<open>g\<close>.\<close>

definition page_at :: "rmgr \<Rightarrow> guestptr \<Rightarrow> rid \<Rightarrow> bool" where
  "page_at rm g a \<longleftrightarrow> a \<in> set (allocated_regions rm) \<and> \<not> pager_region rm a \<and> reg_size (rm_store rm a) = 0x1000 \<and> reg_addr (rm_store rm a) = g
     \<and> (\<forall>off < 4096. host_of (rm_pager rm) (g + of_nat off) = reg_host_p (rm_store rm a) + of_nat off)"

definition page_byte :: "rmgr \<Rightarrow> rid \<Rightarrow> nat \<Rightarrow> u8" where
  "page_byte rm a off = pg_mem (rm_pager rm) (reg_host_p (rm_store rm a) + of_nat off)"

lemma page_at_kept:
  assumes ok: "mem_ok rm" and k: "kept X rm rm'" and p: "page_at rm g a"
  shows "page_at rm' g a" "a \<notin> X \<Longrightarrow> off < 4096 \<Longrightarrow> page_byte rm' a off = page_byte rm a off"
proof -
  note K = keptD [OF k]
  have a: "a \<in> set (allocated_regions rm)" "\<not> pager_region rm a" "reg_size (rm_store rm a) = 0x1000"
    using p by (simp_all add: page_at_def)
  have "host_of (rm_pager rm') (g + of_nat off) = reg_host_p (rm_store rm a) + of_nat off" if "off < 4096" for off
    using K(5) [of "g + of_nat off"] region_byte(2) [OF _ a(1), of off] p ok that a(3) by (simp add: page_at_def mem_ok_def mem_inv_def)
  then show "page_at rm' g a"
    using p K(2-4) [OF a(1)] by (simp add: page_at_def)
  show "page_byte rm' a off = page_byte rm a off" if "a \<notin> X" "off < 4096"
    using K(3,6) [OF a(1)] that a by (simp add: page_byte_def)
qed

lemma page_guest_byte: "page_at rm g a \<Longrightarrow> off < 4096 \<Longrightarrow> guest_byte rm (g + of_nat off) = page_byte rm a off"
  by (simp add: page_at_def page_byte_def guest_byte_def)

lemma kernel_step:
  assumes ok: "mem_ok rm" and room: "page_room (Suc n) rm" and ks: "kernel_slots rm k" "k < 512"
    and f: "fresh_region rm sz a rm1" "rm_pager rm1 = rm_pager rm" "reg_size (rm_store rm1 a) = 0x1000" "a \<notin> set (allocated_regions rm)"
      "allocated_regions rm1 = allocated_regions rm @ [a]" "alloc_size rm1 = alloc_size rm + 4096"
    and w: "writes_within rm1 a m"
  obtains rm3 where "place_kernel_page (store_mem m rm1) a opts = Some (Inr rm3)" "kept {} rm rm3" "page_room n rm3" "kernel_slots rm3 (Suc k)"
    "page_at rm3 (kernel_page k) a" "reg_host_p (rm_store rm3 a) = reg_host_p (rm_store rm1 a)"
    "\<And>off. off < 4096 \<Longrightarrow> page_byte rm3 a off = m (reg_host_p (rm_store rm1 a) + of_nat off)"
    "\<And>v. v \<noteq> vpn (kernel_page k) \<Longrightarrow> pt_view (rm_pager rm3) v = pt_view (rm_pager rm) v"
proof -
  note F = fresh_regionD [OF f(1)]
  define rm2 where "rm2 = store_mem m rm1"
  note W = write_step [OF F(1-3) w, folded rm2_def]
  have ok2: "mem_ok rm2"
    by (rule keptD(1) [OF W(1)])
  have t2: "tables_used (rm_pager rm2) = tables_used (rm_pager rm)" "alloc_size rm2 = alloc_size rm + 4096" "total_memsz (rm_pager rm2) = total_memsz (rm_pager rm)"
    using store_mem_ok(4) [OF F(1) writes_within_tables [OF _ F(2,3) w]] F(1) f(2,6) by (simp_all add: rm2_def mem_ok_def alloc_size_def)
  have r2: "tables_used (rm_pager rm2) + 3 \<le> 4096"
    using room by (simp add: page_room_def t2)
  have a2: "a \<in> set (allocated_regions rm2)" "\<not> pager_region rm2 a"
    using F(2,3) by (simp_all add: rm2_def)
  have ks2: "kernel_slots rm2 k"
    unfolding W(3) by (rule F(8) [OF ks(1)])
  obtain rm3 where p: "place_kernel_page rm2 a opts = Some (Inr rm3)" "kernel_placed rm2 a k rm3"
    by (rule kernel_page_ok [OF ok2 a2 ks2 ks(2) r2])
  note K = kernel_placedD [OF p(2)]
  have far: "pg_mem (rm_pager rm3) (reg_host_p (rm_store rm2 x) + of_nat off) = pg_mem (rm_pager rm2) (reg_host_p (rm_store rm2 x) + of_nat off)"
    if "x \<in> set (allocated_regions rm2)" "\<not> pager_region rm2 x" "off < unat (reg_size (rm_store rm2 x))" for x off
    using region_byte_far [OF ok2 that] K(12) by (simp add: outside_same_def)
  have st3: "rm_store rm3 x = rm_store rm x" "x \<noteq> a" "x \<in> set (allocated_regions rm2)" if "x \<in> set (allocated_regions rm)" for x
    using F(7) [OF that] K(5) [of x] f(4) that by (auto simp: rm2_def)
  show ?thesis
  proof (rule that)
    show "kernel_slots rm3 (Suc k)" "place_kernel_page (store_mem m rm1) a opts = Some (Inr rm3)"
      using K(2) p(1) by (simp_all add: rm2_def)
    show "reg_host_p (rm_store rm3 a) = reg_host_p (rm_store rm1 a)"
      using K(4) by (simp add: rm2_def)
    show "page_at rm3 (kernel_page k) a"
      using K(3,4,6-8,10) a2 f(3) by (simp add: page_at_def rm2_def)
    show "page_byte rm3 a off = m (reg_host_p (rm_store rm1 a) + of_nat off)" if "off < 4096" for off
      using far [OF a2] that f(3) K(4) by (simp add: page_byte_def rm2_def)
    show "pt_view (rm_pager rm3) v = pt_view (rm_pager rm) v" if "v \<noteq> vpn (kernel_page k)" for v
      using p(2) that W(4) f(2) by (simp add: kernel_placed_def)
    have fr: "pager_frame (rm_pager rm3) = pager_frame (rm_pager rm2)"
      using p(2) unfolding kernel_placed_def by (auto simp: update_region_def)
    have "alloc_size rm3 = alloc_size rm2" "total_memsz (rm_pager rm3) = total_memsz (rm_pager rm2)"
    proof -
      have "reg_size (rm_store rm3 x) = reg_size (rm_store rm2 x)" for x
        using K(5,6) by (cases "x = a") auto
      then show "alloc_size rm3 = alloc_size rm2"
        by (simp add: alloc_size_def K(7))
      show "total_memsz (rm_pager rm3) = total_memsz (rm_pager rm2)"
        using pager_frame_eqD(4) [OF fr] .
    qed
    then show "page_room n rm3"
      using room K(13) unfolding page_room_def t2 by simp
    note A = keptD [OF kept_trans [OF fresh_kept [OF ok f(1,2)] W(1)]]
    have "pg_mem (rm_pager rm3) (reg_host_p (rm_store rm x) + of_nat off) = pg_mem (rm_pager rm) (reg_host_p (rm_store rm x) + of_nat off)"
      if "x \<in> set (allocated_regions rm)" "\<not> pager_region rm x" "off < unat (reg_size (rm_store rm x))" for x off
      using far [of x off] A(2-4,6) [of x] st3(2) [OF that(1)] that by simp
    moreover have "host_of (rm_pager rm3) b = host_of (rm_pager rm) b" if "host_of (rm_pager rm) b \<noteq> 0" for b
      using A(5) [OF that] K(11) [of b] that by simp
    ultimately show "kept {} rm rm3"
      using K(1,7,8) A(2,4,7,8) st3(1) fr by (auto simp: kept_def pager_frame_def)
  qed
qed


lemma user_step:
  assumes ok: "mem_ok rm" and room: "page_room (Suc n) rm" and free: "pt_view (rm_pager rm) (vpn 0x1000) = None"
    and f: "fresh_region rm sz a rm1" "rm_pager rm1 = rm_pager rm" "reg_size (rm_store rm1 a) = 0x1000" "a \<notin> set (allocated_regions rm)"
      "allocated_regions rm1 = allocated_regions rm @ [a]" "alloc_size rm1 = alloc_size rm + 4096"
  obtains rm3 where "place_flat False a rm1 = Some (Inr (True, rm3))" "kept {} rm rm3" "page_at rm3 0x1000 a"
proof -
  note F = fresh_regionD [OF f(1)]
  define rm2 where "rm2 = update_region rm1 a (set_guest_addr 0x1000 (rm_store rm1 a))"
  note U = update_guest_addr [of rm1 a "0x1000", folded rm2_def]
  have ok2: "mem_ok rm2" "a \<in> set (allocated_regions rm2)" "\<not> pager_region rm2 a"
    using U F(1-3) by simp_all
  have ar: "areas 0x1000 1 \<le> 1"
    by (rule areas_le)
  obtain p' where p: "map_region (rm_pager rm2) (reg_host_p (rm_store rm2 a)) 0x1000 (of_nat 1) PT_OPT_EXEC = Inr (0, p')"
    "mem_ok (rm2\<lparr>rm_pager := p'\<rparr>)" "pager_frame p' = pager_frame (rm_pager rm2)" "outside_same (rm_pager rm2) p'"
    "\<And>off. off < 4096 * 1 \<Longrightarrow> host_of p' (0x1000 + of_nat off) = reg_host_p (rm_store rm2 a) + of_nat off"
    "\<And>b. host_of (rm_pager rm2) b \<noteq> 0 \<Longrightarrow> host_of p' b = host_of (rm_pager rm2) b"
    by (rule map_region_allocated [OF ok2, of "0x1000" 1 PT_OPT_EXEC])
      (use U(4,6) f(2,3) room ar free in \<open>simp_all add: page_aligned_iff free_or_same_def page_room_def\<close>)
  define rm3 where "rm3 = rm2\<lparr>rm_pager := p'\<rparr>"
  have "map_user_page (rm_pager rm2) (reg_host_p (rm_store rm2 a)) 0x1000 PT_OPT_EXEC = Inr (0, p')"
    using p(1) by (auto simp: map_region_def res_simps split: if_splits)
  then have run: "place_flat False a rm1 = Some (Inr (True, rm3))"
    by (simp add: place_flat_def Let_def rm2_def [symmetric] rm3_def)
  have pr: "pager_region rm3 x = pager_region rm1 x" for x
    using U(2) [of x] pager_frame_eqD(1) [OF p(3)] by (simp add: rm3_def pager_region_def)
  have st: "rm_store rm3 x = rm_store rm x" "x \<noteq> a" "x \<in> set (allocated_regions rm3)" if "x \<in> set (allocated_regions rm)" for x
    using F(7) [OF that] f(4,5) that U(3) by (auto simp: rm3_def rm2_def update_region_def)
  note A = keptD [OF fresh_kept [OF ok f(1,2)]]
  have bytes: "pg_mem p' (reg_host_p (rm_store rm x) + of_nat off) = pg_mem (rm_pager rm) (reg_host_p (rm_store rm x) + of_nat off)"
    if "x \<in> set (allocated_regions rm)" "\<not> pager_region rm x" "off < unat (reg_size (rm_store rm x))" for x off
    using region_byte_far [OF ok that] p(4) f(2) by (simp add: U(4) outside_same_def)
  have "kept {} rm rm3"
    unfolding kept_def using st(1,3) bytes p(2,3,6) A(4) f(2) U(4) by (simp add: rm3_def [symmetric] pr) (simp add: rm3_def pager_frame_def)
  moreover have "page_at rm3 0x1000 a"
    using p(5) ok2(2) pr F(3) U f(3) by (simp add: page_at_def rm3_def [symmetric]) (simp add: rm3_def)
  ultimately show ?thesis
    using that run by blast
qed

section \<open>Flat files\<close>

lemma flat_loop_reads:
  assumes f: "file_is fs fd bs" and pos: "0 \<le> pos"
  shows "flat_loop fs fd mem buf pos = Some (write_bytes mem buf (drop (nat pos) bs))"
  using pos
proof (induction "length bs - nat pos" arbitrary: mem buf pos rule: less_induct)
  case less
  define xs where "xs = drop (nat pos) bs"
  obtain k where k: "k \<le> 4096" "read_at fs fd pos 4096 = take k xs" "0 < k"
    using file_isD [OF f less(2), of 4096] unfolding xs_def by (metis zero_less_numeral)
  define b where "b = take k xs"
  have step: "flat_loop fs fd mem buf pos = (if b = [] then Some mem
      else flat_loop fs fd (write_bytes mem buf b) (buf + of_nat (length b)) (pos + int (length b)))"
    using k(1,2) by (subst flat_loop.simps) (simp add: Let_def b_def min_def)
  show ?case
  proof (cases "b = []")
    case True
    then have "xs = []"
      using k(3) by (simp add: b_def)
    with True show ?thesis
      by (simp add: step xs_def)
  next
    case False
    have n: "nat (pos + int (length b)) = nat pos + length b"
      using less(2) by (simp add: nat_add_distrib)
    have "length bs - nat (pos + int (length b)) < length bs - nat pos"
    proof -
      have "0 < length b" "nat pos < length bs"
        using False by (auto simp: b_def xs_def)
      then show ?thesis
        unfolding n by linarith
    qed
    from less(1) [OF this] have "flat_loop fs fd (write_bytes mem buf b) (buf + of_nat (length b)) (pos + int (length b)) =
        Some (write_bytes (write_bytes mem buf b) (buf + of_nat (length b)) (drop (length b) xs))"
      using less(2) by (simp add: n xs_def add.commute)
    moreover have "xs = b @ drop (length b) xs"
      by (cases "length xs \<le> k") (simp_all add: b_def min_def)
    ultimately show ?thesis
      using False unfolding step xs_def [symmetric] by (metis write_bytes_append)
  qed
qed

definition flat_file :: "('k, 'w) boot \<Rightarrow> string \<Rightarrow> u8 list \<Rightarrow> bool" where
  "flat_file bt name bs \<longleftrightarrow> (\<exists>fd. boot_open bt (res_path bt @ name) = Inr fd \<and> boot_fstat bt fd = Inr (of_nat (length bs))
     \<and> file_is (host_fs (boot_host bt)) fd bs) \<and> 0 < length bs \<and> length bs \<le> 4096"

text \<open>The bytes \<open>bs\<close> stand at the guest address \<open>g\<close>.\<close>

definition code_at :: "rmgr \<Rightarrow> guestptr \<Rightarrow> u8 list \<Rightarrow> bool" where
  "code_at rm g bs \<longleftrightarrow> (\<forall>i < length bs. guest_byte rm (g + of_nat i) = bs ! i)"

lemma write_page:
  assumes ok: "mem_ok rm" and p: "page_at rm g a" and bs: "length bs \<le> 4096"
  defines "m \<equiv> write_bytes (pg_mem (rm_pager rm)) (reg_host_p (rm_store rm a)) bs"
  shows "writes_within rm a m" "i < length bs \<Longrightarrow> page_byte (store_mem m rm) a i = bs ! i"
proof -
  have nth: "m x = (if unat (x - reg_host_p (rm_store rm a)) < length bs then bs ! unat (x - reg_host_p (rm_store rm a)) else pg_mem (rm_pager rm) x)" for x
    unfolding m_def by (rule write_bytes_nth) (use bs in simp)
  have "rm_inv rm"
    using ok by (simp add: mem_ok_def mem_inv_def)
  then show "writes_within rm a m"
    by (rule writes_withinI) (use p bs in \<open>auto simp: page_at_def nth\<close>)
  show "page_byte (store_mem m rm) a i = bs ! i" if "i < length bs"
    using that bs unat_of_nat_small [of i] by (simp add: page_byte_def nth)
qed

lemma page_code: "page_at rm g a \<Longrightarrow> length bs \<le> 4096 \<Longrightarrow> (\<And>i. i < length bs \<Longrightarrow> page_byte rm a i = bs ! i) \<Longrightarrow> code_at rm g bs"
  by (simp add: code_at_def page_guest_byte)


lemma vm_rm_simps [simp]: "vm_rm (set_vm_rm rm vm) = rm" "set_vm_rm rm (set_vm_rm rm' vm) = set_vm_rm rm vm"
  by (simp_all add: vm_rm_def set_vm_rm_def set_rm_def)

lemma store_same_mem: "store_mem (pg_mem (rm_pager rm)) rm = rm"
  by (simp add: store_mem_def)

lemma writes_within_same: "writes_within rm a (pg_mem (rm_pager rm))"
  by (simp add: writes_within_def)

lemma read_flat_file:
  assumes "file_is fs fd bs"
  shows "read_flat fs fd a vm = Some (Inr ((), set_vm_rm (store_mem (write_bytes (pg_mem (rm_pager (vm_rm vm))) (reg_host_p (rm_store (vm_rm vm) a)) bs) (vm_rm vm)) vm))"
  using flat_loop_reads [OF assms, of 0] by (simp add: read_flat_def vm_mem_def set_vm_mem_def)

lemma load_flat_run:
  assumes ff: "flat_file bt name bs" and al: "allocate_region (host_memalign (boot_host bt)) (host_set_region (boot_host bt)) (vm_rm vm) (of_nat (length bs)) (res_path bt @ name) = Inr (a, rm1)"
    and pl: "place_flat krn a rm1 = Some (Inr (True, rm2))"
  shows "load_flat bt fl (res_path bt @ name) krn vm = Some (Inr ((0, fl\<lparr>flat_size := of_nat (length bs), flat_region := Some a\<rparr>),
    set_vm_rm (store_mem (write_bytes (pg_mem (rm_pager rm2)) (reg_host_p (rm_store rm2 a)) bs) rm2) vm))"
proof -
  obtain fd where fd: "boot_open bt (res_path bt @ name) = Inr fd" "boot_fstat bt fd = Inr (of_nat (length bs))" "file_is (host_fs (boot_host bt)) fd bs"
    using ff by (auto simp: flat_file_def)
  show ?thesis
    using pl by (simp add: load_flat_def fd(1,2) al bindS_def read_flat_file [OF fd(3)] retS_def liftS_def getS_def)
qed

lemma load_flat_kernel:
  assumes ok: "mem_ok (vm_rm vm)" and am: "memalign_ok (host_memalign (boot_host bt))" and room: "page_room (Suc n) (vm_rm vm)"
    and ks: "kernel_slots (vm_rm vm) k" "k < 512" and ff: "flat_file bt name bs"
  obtains a rm' where "load_flat bt fl (res_path bt @ name) True vm = Some (Inr ((0, fl\<lparr>flat_size := of_nat (length bs), flat_region := Some a\<rparr>), set_vm_rm rm' vm))"
    "kept {} (vm_rm vm) rm'" "page_room n rm'" "kernel_slots rm' (Suc k)" "page_at rm' (kernel_page k) a" "\<And>i. i < length bs \<Longrightarrow> page_byte rm' a i = bs ! i"
    "\<And>v. v \<noteq> vpn (kernel_page k) \<Longrightarrow> pt_view (rm_pager rm') v = pt_view (rm_pager (vm_rm vm)) v"
proof -
  have bs: "0 < length bs" "length bs \<le> 4096"
    using ff by (simp_all add: flat_file_def)
  then have sz: "unat (of_nat (length bs) :: u64) = length bs"
    by (intro unat_of_nat_small) simp
  obtain a rm1 where al: "allocate_region (host_memalign (boot_host bt)) (host_set_region (boot_host bt)) (vm_rm vm) (of_nat (length bs)) (res_path bt @ name) = Inr (a, rm1)"
    and f: "fresh_region (vm_rm vm) (of_nat (length bs)) a rm1" "rm_pager rm1 = rm_pager (vm_rm vm)" "reg_size (rm_store rm1 a) = 0x1000"
      "a \<notin> set (allocated_regions (vm_rm vm))" "allocated_regions rm1 = allocated_regions (vm_rm vm) @ [a]" "alloc_size rm1 = alloc_size (vm_rm vm) + 4096"
    by (rule page_alloc [OF ok am room, of "of_nat (length bs)"]) (use bs sz in simp_all)
  obtain rm3 where p: "place_kernel_page rm1 a PT_OPT_EXEC = Some (Inr rm3)" "kept {} (vm_rm vm) rm3" "page_room n rm3" "kernel_slots rm3 (Suc k)"
    "page_at rm3 (kernel_page k) a" "\<And>v. v \<noteq> vpn (kernel_page k) \<Longrightarrow> pt_view (rm_pager rm3) v = pt_view (rm_pager (vm_rm vm)) v"
    by (rule kernel_step [OF ok room ks f writes_within_same, unfolded store_same_mem]) (rule that)
  have pl: "place_flat True a rm1 = Some (Inr (True, rm3))"
    using p(1) by (auto simp: place_flat_def place_kernel_page_def Let_def bindO_def assertE_def split: option.splits sum.splits if_splits)
  have ok3: "mem_ok rm3" "a \<in> set (allocated_regions rm3)" "\<not> pager_region rm3 a"
    using keptD(1) [OF p(2)] p(5) by (simp_all add: page_at_def)
  note wp = write_page [OF ok3(1) p(5) bs(2)]
  note W = write_step [OF ok3 wp(1)]
  have "kept {} (vm_rm vm) (store_mem (write_bytes (pg_mem (rm_pager rm3)) (reg_host_p (rm_store rm3 a)) bs) rm3)"
    by (rule kept_new [OF kept_trans [OF p(2) W(1)]]) (use f(4) in simp)
  then show ?thesis
    using that [OF load_flat_run [OF ff al pl]] W(2-4) p(3,4,6) wp(2) page_at_kept(1) [OF ok3(1) W(1) p(5)] by simp
qed

lemma load_flat_user:
  assumes ok: "mem_ok (vm_rm vm)" and am: "memalign_ok (host_memalign (boot_host bt))" and room: "page_room (Suc n) (vm_rm vm)"
    and free: "pt_view (rm_pager (vm_rm vm)) (vpn 0x1000) = None" and ff: "flat_file bt name bs"
  obtains a rm' where "load_flat bt fl (res_path bt @ name) False vm = Some (Inr ((0, fl\<lparr>flat_size := of_nat (length bs), flat_region := Some a\<rparr>), set_vm_rm rm' vm))"
    "kept {} (vm_rm vm) rm'" "page_at rm' 0x1000 a" "\<And>i. i < length bs \<Longrightarrow> page_byte rm' a i = bs ! i"
proof -
  have bs: "0 < length bs" "length bs \<le> 4096"
    using ff by (simp_all add: flat_file_def)
  then have sz: "unat (of_nat (length bs) :: u64) = length bs"
    by (intro unat_of_nat_small) simp
  obtain a rm1 where al: "allocate_region (host_memalign (boot_host bt)) (host_set_region (boot_host bt)) (vm_rm vm) (of_nat (length bs)) (res_path bt @ name) = Inr (a, rm1)"
    and f: "fresh_region (vm_rm vm) (of_nat (length bs)) a rm1" "rm_pager rm1 = rm_pager (vm_rm vm)" "reg_size (rm_store rm1 a) = 0x1000"
      "a \<notin> set (allocated_regions (vm_rm vm))" "allocated_regions rm1 = allocated_regions (vm_rm vm) @ [a]" "alloc_size rm1 = alloc_size (vm_rm vm) + 4096"
    by (rule page_alloc [OF ok am room, of "of_nat (length bs)"]) (use bs sz in simp_all)
  obtain rm3 where p: "place_flat False a rm1 = Some (Inr (True, rm3))" "kept {} (vm_rm vm) rm3" "page_at rm3 0x1000 a"
    by (rule user_step [OF ok room free f])
  have ok3: "mem_ok rm3" "a \<in> set (allocated_regions rm3)" "\<not> pager_region rm3 a"
    using keptD(1) [OF p(2)] p(3) by (simp_all add: page_at_def)
  note wp = write_page [OF ok3(1) p(3) bs(2)]
  note W = write_step [OF ok3 wp(1)]
  have "kept {} (vm_rm vm) (store_mem (write_bytes (pg_mem (rm_pager rm3)) (reg_host_p (rm_store rm3 a)) bs) rm3)"
    by (rule kept_new [OF kept_trans [OF p(2) W(1)]]) (use f(4) in simp)
  then show ?thesis
    using that [OF load_flat_run [OF ff al p(1)]] wp(2) page_at_kept(1) [OF ok3(1) W(1) p(3)] by simp
qed


section \<open>Tables\<close>

definition guest_word :: "rmgr \<Rightarrow> guestptr \<Rightarrow> u64" where
  "guest_word rm g = read64 (pg_mem (rm_pager rm)) (host_of (rm_pager rm) g)"

lemma page_word:
  assumes p: "page_at rm g a" and off: "off + 8 \<le> 4096" and m: "\<And>i. i < 4096 \<Longrightarrow> page_byte rm a i = m (b + of_nat i)"
  shows "guest_word rm (g + of_nat off) = read64 m (b + of_nat off)"
proof -
  have h: "host_of (rm_pager rm) (g + of_nat off) = reg_host_p (rm_store rm a) + of_nat off"
    using p off by (simp add: page_at_def)
  have "read64 (\<lambda>x. m (x - reg_host_p (rm_store rm a) + b)) (reg_host_p (rm_store rm a) + of_nat off) = read64 m (b + of_nat off)"
    by (simp add: read64_def algebra_simps)
  moreover have "read64 (pg_mem (rm_pager rm)) (reg_host_p (rm_store rm a) + of_nat off)
      = read64 (\<lambda>x. m (x - reg_host_p (rm_store rm a) + b)) (reg_host_p (rm_store rm a) + of_nat off)"
  proof (rule read64_bytes)
    fix k :: nat assume "k < 8"
    then show "pg_mem (rm_pager rm) (reg_host_p (rm_store rm a) + of_nat off + of_nat k)
        = m (reg_host_p (rm_store rm a) + of_nat off + of_nat k - reg_host_p (rm_store rm a) + b)"
      using m [of "off + k"] off by (simp add: page_byte_def algebra_simps)
  qed
  ultimately show ?thesis
    unfolding guest_word_def h by simp
qed

lemma page_word_kept:
  assumes ok: "mem_ok rm" and k: "kept X rm rm'" and p: "page_at rm g a" "a \<notin> X" and off: "off + 8 \<le> 4096"
  shows "guest_word rm' (g + of_nat off) = guest_word rm (g + of_nat off)"
  using page_word [OF page_at_kept(1) [OF ok k p(1)] off] page_word [OF p(1) off] page_at_kept(2) [OF ok k p(1,2)]
  by (simp add: page_byte_def)

lemma idt_entry_word: "idt_entry_at rm g i = idt_of_words (guest_word rm (g + of_nat (16 * i))) (guest_word rm (g + of_nat (16 * i + 8)))"
  by (simp only: idt_entry_at_def guest_word_def)

lemma idt_step:
  assumes ok: "mem_ok rm" and am: "memalign_ok am" and room: "page_room (Suc n) rm" and ks: "kernel_slots rm k" "k < 512"
    and h: "handler \<in> set (allocated_regions rm)"
  obtains a rm' where "elkvm_idt_setup ops am ioctl rm v handler =
      (let (err, v1) = vcpu_set_sregs ops (vcpu_set_seg IDT (Segment_of (kernel_page k) 0xFFF) v) in Some (Inr (err, rm', v1)))"
    "kept {} rm rm'" "page_room n rm'" "kernel_slots rm' (Suc k)" "page_at rm' (kernel_page k) a"
    "\<And>i. i < 48 \<Longrightarrow> idt_entry_at rm' (kernel_page k) i = make_idt_entry (reg_addr (rm_store rm handler) + of_nat (9 * i))"
    "\<And>v. v \<noteq> vpn (kernel_page k) \<Longrightarrow> pt_view (rm_pager rm') v = pt_view (rm_pager rm) v"
proof -
  obtain a rm1 where al: "allocate_region am ioctl rm (256 * 16) ''anon region'' = Inr (a, rm1)"
    and f: "fresh_region rm (256 * 16) a rm1" "rm_pager rm1 = rm_pager rm" "reg_size (rm_store rm1 a) = 0x1000" "a \<notin> set (allocated_regions rm)"
      "allocated_regions rm1 = allocated_regions rm @ [a]" "alloc_size rm1 = alloc_size rm + 4096"
    by (rule page_alloc [OF ok am room, of "256 * 16"]) simp_all
  note F = fresh_regionD [OF f(1)]
  define H where "H = reg_host_p (rm_store rm1 a)"
  define g where "g = reg_addr (rm_store rm handler)"
  define m where "m = idt_loop 48 (pg_mem (rm_pager rm1)) H g"
  have "rm_inv rm1"
    using F(1) by (simp add: mem_ok_def mem_inv_def)
  then have w: "writes_within rm1 a m"
    unfolding m_def H_def by (rule idt_loop_within [OF _ F(2)]) (simp_all add: f(3))
  obtain rm3 where p: "place_kernel_page (store_mem m rm1) a 0 = Some (Inr rm3)" "kept {} rm rm3" "page_room n rm3" "kernel_slots rm3 (Suc k)"
    "page_at rm3 (kernel_page k) a" "\<And>off. off < 4096 \<Longrightarrow> page_byte rm3 a off = m (H + of_nat off)"
    "\<And>v. v \<noteq> vpn (kernel_page k) \<Longrightarrow> pt_view (rm_pager rm3) v = pt_view (rm_pager rm) v"
    by (rule kernel_step [OF ok room ks f w, folded H_def]) (rule that)
  have "elkvm_idt_setup ops am ioctl rm v handler =
      (let (err, v1) = vcpu_set_sregs ops (vcpu_set_seg IDT (Segment_of (kernel_page k) 0xFFF) v) in Some (Inr (err, rm3, v1)))"
    using al p(1) F(7) [OF h] p(5) by (simp add: elkvm_idt_setup_def m_def H_def g_def Let_def page_at_def)
  moreover have "idt_entry_at rm3 (kernel_page k) i = make_idt_entry (g + of_nat (9 * i))" if "i < 48" for i
  proof -
    have "guest_word rm3 (kernel_page k + of_nat off) = read64 m (H + of_nat off)" if "off + 8 \<le> 4096" for off
      by (rule page_word [OF p(5) that]) (rule p(6))
    then show ?thesis
      using idt_loop_words [of 48 i "pg_mem (rm_pager rm1)" H g] that
      unfolding idt_entry_word by (simp add: m_def idt_of_idt_words del: of_nat_add of_nat_mult)
  qed
  ultimately show ?thesis
    using that p(2-5,7) unfolding g_def by blast
qed


lemma memset_off_outside:
  assumes "n \<le> unat (a - b)" "k \<le> n" "n < 2 ^ 32"
  shows "memset m b v (of_nat k) a = m a"
proof -
  have "unat (of_nat k :: u64) = k"
    using assms by (intro unat_of_nat_small) simp
  then show ?thesis
    using assms by (simp add: memset_def word_less_nat_alt)
qed

lemma descriptor_outside:
  assumes "x + 8 \<le> n" "n \<le> 2 ^ 32" "n \<le> unat (a - b)"
  shows "snd (elkvm_gdt_create_segment_descriptor m (b + of_nat x) base limit access flags) a = m a"
  using write64_off_outside [OF assms] by (simp add: elkvm_gdt_create_segment_descriptor_def)

lemma gdt_outside:
  assumes "64 \<le> unat (a - b)"
  shows "gdt_user_segments m b a = m a" "gdt_system_segments m b tss a = m a"
  using descriptor_outside [of 8 64 a b] descriptor_outside [of 16 64 a b] descriptor_outside [of 24 64 a b] descriptor_outside [of 32 64 a b]
    descriptor_outside [of 48 64 a b] descriptor_outside [of 56 64 a b] write64_off_outside [of 40 64 a b] memset_off_outside [of 64 a b 8] assms
  by (simp_all add: gdt_user_segments_def gdt_system_segments_def Let_def)

lemma tss_outside:
  assumes "104 \<le> unat (a - b)"
  shows "tss_setup_mem m b kb a = m a"
  using write64_off_outside [of 36 104 a b] write64_off_outside [of 4 104 a b] write64_off_outside [of 20 104 a b] memset_off_outside [of 104 a b 104] assms
  by (simp add: tss_setup_mem_def sizeof_tss64_def Let_def)

text \<open>The entries of the kernel code and of the task state segment, and the stack of the interrupt handlers.\<close>

definition kernel_code :: gdt_descriptor where
  "kernel_code = segment_descriptor 0 0xFFFFFFFF (GDT_SEGMENT_READABLE OR GDT_SEGMENT_EXECUTABLE OR GDT_SEGMENT_BIT OR GDT_SEGMENT_PRESENT
     OR GDT_SEGMENT_DIRECTION_BIT) (GDT_SEGMENT_PAGE_GRANULARITY OR GDT_SEGMENT_LONG)"

lemma gdt_system_words:
  assumes "unat (ucast (tss AND 0xFFFFFFFF) :: u32) < 2 ^ 20"
  shows "read64 (gdt_system_segments m b tss) (b + of_nat 48) = gdt_word kernel_code"
    "read64 (gdt_system_segments m b tss) (b + of_nat 32) =
      gdt_word (segment_descriptor (ucast (tss AND 0xFFFFFFFF)) (ucast sizeof_tss64) (0x9 OR GDT_SEGMENT_PRESENT) GDT_SEGMENT_LONG)"
    "read64 (gdt_system_segments m b tss) (b + of_nat 40) = drop_bit 32 tss"
proof -
  have e: "b + 32 = b + of_nat 32" "b + 40 = b + of_nat 40" "b + 48 = b + of_nat 48" "b + 56 = b + of_nat 56"
    by simp_all
  have w: "snd (elkvm_gdt_create_segment_descriptor m x y l ac fl) = (if unat y < 2 ^ 20 then write64 m x (gdt_word (segment_descriptor y l ac fl)) else m)" for m x y l ac fl
    by (simp add: elkvm_gdt_create_segment_descriptor_def and_FFF00000)
  show "read64 (gdt_system_segments m b tss) (b + of_nat 48) = gdt_word kernel_code"
    "read64 (gdt_system_segments m b tss) (b + of_nat 32) =
      gdt_word (segment_descriptor (ucast (tss AND 0xFFFFFFFF)) (ucast sizeof_tss64) (0x9 OR GDT_SEGMENT_PRESENT) GDT_SEGMENT_LONG)"
    "read64 (gdt_system_segments m b tss) (b + of_nat 40) = drop_bit 32 tss"
    using assms unfolding gdt_system_segments_def Let_def e w
    by (simp_all add: read64_write64_off kernel_code_def del: of_nat_numeral)
qed

lemma tss_stack_word: "read64 (tss_setup_mem m b kb) (b + of_nat 36) = kb + ELKVM_PAGESIZE"
proof -
  have e: "b + 36 = b + of_nat 36" "b + 4 = b + of_nat 4" "b + 20 = b + of_nat 20"
    by simp_all
  show ?thesis
    unfolding tss_setup_mem_def Let_def e by (simp add: read64_write64_off del: of_nat_numeral)
qed


text \<open>A new kernel page: allocated, placed and written.\<close>

lemma new_kernel_page:
  assumes ok: "mem_ok rm" and am: "memalign_ok am" and room: "page_room (Suc n) rm" and ks: "kernel_slots rm k" "k < 512"
    and sz: "0 < unat sz" "unat sz \<le> 4096"
  obtains a rm1 rm2 where "allocate_region am ioctl rm sz purpose = Inr (a, rm1)" "place_kernel_page rm1 a opts = Some (Inr rm2)" "kept {} rm rm2"
    "page_room n rm2" "kernel_slots rm2 (Suc k)" "page_at rm2 (kernel_page k) a" "a \<notin> set (allocated_regions rm)"
    "\<And>v. v \<noteq> vpn (kernel_page k) \<Longrightarrow> pt_view (rm_pager rm2) v = pt_view (rm_pager rm) v"
proof -
  obtain a rm1 where al: "allocate_region am ioctl rm sz purpose = Inr (a, rm1)"
    and f: "fresh_region rm sz a rm1" "rm_pager rm1 = rm_pager rm" "reg_size (rm_store rm1 a) = 0x1000" "a \<notin> set (allocated_regions rm)"
      "allocated_regions rm1 = allocated_regions rm @ [a]" "alloc_size rm1 = alloc_size rm + 4096"
    by (rule page_alloc [OF ok am room sz])
  obtain rm2 where "place_kernel_page rm1 a opts = Some (Inr rm2)" "kept {} rm rm2" "page_room n rm2" "kernel_slots rm2 (Suc k)"
    "page_at rm2 (kernel_page k) a" "\<And>v. v \<noteq> vpn (kernel_page k) \<Longrightarrow> pt_view (rm_pager rm2) v = pt_view (rm_pager rm) v"
    by (rule kernel_step [OF ok room ks f writes_within_same, unfolded store_same_mem]) (rule that)
  then show ?thesis
    using that al f(4) by blast
qed

text \<open>Writing at most \<open>n\<close> bytes at the start of a page.\<close>

lemma page_write_step:
  assumes ok: "mem_ok rm" and p: "page_at rm g a" and n: "n \<le> 4096"
    and out: "\<And>x. n \<le> unat (x - reg_host_p (rm_store rm a)) \<Longrightarrow> m x = pg_mem (rm_pager rm) x"
  shows "kept {a} rm (store_mem m rm)" "page_room j (store_mem m rm) = page_room j rm" "kernel_slots (store_mem m rm) k = kernel_slots rm k"
    "pt_view (rm_pager (store_mem m rm)) = pt_view (rm_pager rm)" "page_at (store_mem m rm) g a" "mem_ok (store_mem m rm)"
    "off + 8 \<le> 4096 \<Longrightarrow> guest_word (store_mem m rm) (g + of_nat off) = read64 m (reg_host_p (rm_store rm a) + of_nat off)"
proof -
  have a: "a \<in> set (allocated_regions rm)" "\<not> pager_region rm a" "rm_inv rm"
    using ok p by (simp_all add: page_at_def mem_ok_def mem_inv_def)
  have "writes_within rm a m"
    by (rule writes_withinI [OF a(3,1)]) (use p n out in \<open>simp add: page_at_def\<close>)
  note W = write_step [OF ok a(1,2) this]
  show "kept {a} rm (store_mem m rm)" "page_room j (store_mem m rm) = page_room j rm" "kernel_slots (store_mem m rm) k = kernel_slots rm k"
    "pt_view (rm_pager (store_mem m rm)) = pt_view (rm_pager rm)"
    by (rule W)+
  show pa: "page_at (store_mem m rm) g a" and "mem_ok (store_mem m rm)"
    by (rule page_at_kept(1) [OF ok W(1) p] keptD(1) [OF W(1)])+
  show "guest_word (store_mem m rm) (g + of_nat off) = read64 m (reg_host_p (rm_store rm a) + of_nat off)" if "off + 8 \<le> 4096"
    by (rule page_word [OF pa that]) (simp add: page_byte_def)
qed

lemma kernel_page_low:
  assumes "j < 256"
  shows "unat (ucast (kernel_page j AND 0xFFFFFFFF) :: u32) = 4096 * j"
proof -
  have m: "(0xFFFFFFFF :: u64) = mask 32"
    by (simp add: mask_eq_exp_minus_1)
  have "ucast (kernel_page j AND 0xFFFFFFFF) = (ucast (kernel_page j) :: u32)"
    unfolding m by (rule bit_word_eqI) (auto simp: bit_simps)
  then have "unat (ucast (kernel_page j AND 0xFFFFFFFF) :: u32) = unat (kernel_page j) mod 2 ^ 32"
    by (simp add: unsigned_ucast_eq take_bit_nat_def)
  also have "unat (kernel_page j) = 4096 * j + 0xFFFF8000 * 2 ^ 32"
    using unat_kernel_page [of j] assms by simp
  also have "(4096 * j + 0xFFFF8000 * 2 ^ 32) mod 2 ^ 32 = 4096 * j mod (2 ^ 32 :: nat)"
    by (rule mod_mult_self1)
  also have "4096 * j mod (2 ^ 32 :: nat) = 4096 * j"
    by (rule mod_less) (use assms in simp)
  finally show ?thesis .
qed

lemma gdt_step:
  assumes ok: "mem_ok rm" and am: "memalign_ok am" and room: "page_room (Suc (Suc n)) rm" and ks: "kernel_slots rm k" "Suc k < 256"
    and s: "kernel_stack (vcpu_stack v) = Some s" "page_at rm kb s"
  obtains g t rm' where "elkvm_gdt_setup ops am ioctl rm v =
      bindO (Some (load_gdt_regs ops v (kernel_page k) (kernel_page (Suc k)))) (\<lambda>(ok, v1). Some (Inr (if ok then Some g else None, rm', v1)))"
    "kept {} rm rm'" "page_room n rm'" "kernel_slots rm' (Suc (Suc k))" "page_at rm' (kernel_page k) g" "page_at rm' (kernel_page (Suc k)) t"
    "guest_word rm' (kernel_page k + of_nat 32) = gdt_word (segment_descriptor (ucast (kernel_page (Suc k) AND 0xFFFFFFFF)) (ucast sizeof_tss64)
       (0x9 OR GDT_SEGMENT_PRESENT) GDT_SEGMENT_LONG)" "guest_word rm' (kernel_page k + of_nat 40) = drop_bit 32 (kernel_page (Suc k))"
    "guest_word rm' (kernel_page k + of_nat 48) = gdt_word kernel_code" "guest_word rm' (kernel_page (Suc k) + of_nat 36) = kb + ELKVM_PAGESIZE"
    "\<And>v. v \<noteq> vpn (kernel_page k) \<Longrightarrow> v \<noteq> vpn (kernel_page (Suc k)) \<Longrightarrow> pt_view (rm_pager rm') v = pt_view (rm_pager rm) v"
proof -
  obtain g rm1 rm2 where G: "allocate_region am ioctl rm (GDT_NUM_ENTRIES * 8) ''ELKVM GDT'' = Inr (g, rm1)" "place_kernel_page rm1 g 0 = Some (Inr rm2)"
    "kept {} rm rm2" "page_room (Suc n) rm2" "kernel_slots rm2 (Suc k)" "page_at rm2 (kernel_page k) g" "g \<notin> set (allocated_regions rm)"
    "\<And>v. v \<noteq> vpn (kernel_page k) \<Longrightarrow> pt_view (rm_pager rm2) v = pt_view (rm_pager rm) v"
    by (rule new_kernel_page [OF ok am room ks(1), of "GDT_NUM_ENTRIES * 8" ioctl "''ELKVM GDT''" 0])
      (use ks(2) in \<open>simp_all add: GDT_NUM_ENTRIES_def\<close>)
  define b where "b = reg_host_p (rm_store rm2 g)"
  define rm3 where "rm3 = store_mem (gdt_user_segments (pg_mem (rm_pager rm2)) b) rm2"
  have W3: "kept {g} rm2 rm3" "page_room (Suc n) rm3" "kernel_slots rm3 (Suc k)" "pt_view (rm_pager rm3) = pt_view (rm_pager rm2)" "page_at rm3 (kernel_page k) g" "mem_ok rm3"
    using page_write_step [OF keptD(1) [OF G(3)] G(6), of 64 "gdt_user_segments (pg_mem (rm_pager rm2)) b"] gdt_outside(1) G(4,5)
    unfolding rm3_def b_def by simp_all
  obtain t rm4 rm5 where T: "allocate_region am ioctl rm3 sizeof_tss64 ''ELKVM TSS'' = Inr (t, rm4)" "place_kernel_page rm4 t 0 = Some (Inr rm5)"
    "kept {} rm3 rm5" "page_room n rm5" "kernel_slots rm5 (Suc (Suc k))" "page_at rm5 (kernel_page (Suc k)) t" "t \<notin> set (allocated_regions rm3)"
    "\<And>v. v \<noteq> vpn (kernel_page (Suc k)) \<Longrightarrow> pt_view (rm_pager rm5) v = pt_view (rm_pager rm3) v"
    by (rule new_kernel_page [OF W3(6) am W3(2,3), of sizeof_tss64 ioctl "''ELKVM TSS''" 0]) (use ks(2) in \<open>simp_all add: sizeof_tss64_def\<close>)
  define H where "H = reg_host_p (rm_store rm5 t)"
  define rm6 where "rm6 = store_mem (tss_setup_mem (pg_mem (rm_pager rm5)) H kb) rm5"
  have W6: "kept {t} rm5 rm6" "page_room n rm6" "kernel_slots rm6 (Suc (Suc k))" "pt_view (rm_pager rm6) = pt_view (rm_pager rm5)" "page_at rm6 (kernel_page (Suc k)) t" "mem_ok rm6"
    "guest_word rm6 (kernel_page (Suc k) + of_nat 36) = kb + ELKVM_PAGESIZE"
    using page_write_step [OF keptD(1) [OF T(3)] T(6), of 104 "tss_setup_mem (pg_mem (rm_pager rm5)) H kb"] tss_outside T(4,5) tss_stack_word
    unfolding rm6_def H_def by (simp_all del: of_nat_numeral)
  have k36: "kept ({t}) rm3 rm6"
    using kept_trans [OF T(3) W6(1)] by simp
  have g6: "page_at rm6 (kernel_page k) g"
    by (rule page_at_kept(1) [OF W3(6) k36 W3(5)])
  have gm: "g \<in> set (allocated_regions rm2)" "g \<in> set (allocated_regions rm3)"
    using G(6) W3(5) by (simp_all add: page_at_def)
  then have b6: "reg_host_p (rm_store rm6 g) = b" and tg: "t \<noteq> g"
    using keptD(3) [OF k36 gm(2)] keptD(3) [OF W3(1) gm(1)] T(7) by (auto simp: b_def)
  define tss where "tss = kernel_page (Suc k)"
  define rm7 where "rm7 = store_mem (gdt_system_segments (pg_mem (rm_pager rm6)) b tss) rm6"
  have W7: "kept {g} rm6 rm7" "page_room n rm7" "kernel_slots rm7 (Suc (Suc k))" "pt_view (rm_pager rm7) = pt_view (rm_pager rm6)" "page_at rm7 (kernel_page k) g"
    "\<And>off. off + 8 \<le> 4096 \<Longrightarrow> guest_word rm7 (kernel_page k + of_nat off) = read64 (gdt_system_segments (pg_mem (rm_pager rm6)) b tss) (b + of_nat off)"
    using page_write_step [OF W6(6) g6, of 64 "gdt_system_segments (pg_mem (rm_pager rm6)) b tss"] gdt_outside(2) W6(2,3)
    unfolding rm7_def b6 by (simp_all del: of_nat_numeral)
  have low: "unat (ucast (tss AND 0xFFFFFFFF) :: u32) < 2 ^ 20"
    unfolding tss_def kernel_page_low [OF ks(2)] using ks(2) by simp
  note words = gdt_system_words [OF low, of "pg_mem (rm_pager rm6)" b]
  have run: "elkvm_gdt_setup ops am ioctl rm v =
      bindO (Some (load_gdt_regs ops v (kernel_page k) tss)) (\<lambda>(ok, v1). Some (Inr (if ok then Some g else None, rm7, v1)))"
  proof -
    have "s \<in> set (allocated_regions rm)" "reg_addr (rm_store rm s) = kb"
      using s(2) by (simp_all add: page_at_def)
    then have "kernel_base rm5 (vcpu_stack v) = Inr kb"
      using keptD(2,3) [OF G(3)] keptD(2,3) [OF W3(1)] keptD(3) [OF T(3)] by (simp add: kernel_base_def s(1))
    moreover have "reg_addr (rm_store rm6 t) = tss" "reg_addr (rm_store rm6 g) = kernel_page k"
      using W6(5) g6 by (simp_all add: page_at_def tss_def)
    ultimately show ?thesis
      using G(1,2) T(1,2)
      unfolding elkvm_gdt_setup_def elkvm_tss_setup64_def by (simp add: Let_def b_def [symmetric] rm3_def [symmetric] H_def [symmetric] rm6_def [symmetric] rm7_def [symmetric])
  qed
  have t7: "page_at rm7 tss t" "guest_word rm7 (tss + of_nat 36) = kb + ELKVM_PAGESIZE"
    using page_at_kept(1) [OF W6(6) W7(1) W6(5)] page_word_kept [OF W6(6) W7(1) W6(5), of 36] tg W6(7) by (simp_all add: tss_def del: of_nat_numeral)
  have "t \<notin> set (allocated_regions rm)"
    using T(7) keptD(2) [OF W3(1)] keptD(2) [OF G(3)] by blast
  then have "kept {} rm rm7"
    by (intro kept_new [OF kept_trans [OF kept_trans [OF kept_trans [OF G(3) W3(1)] k36] W7(1)]]) (use G(7) in auto)
  then show ?thesis
    using that [OF run [unfolded tss_def], of t] W7(2,3,5) t7 W7(6) [of 48] W7(6) [of 32] W7(6) [of 40] words W7(4) W6(4) T(8) W3(4) G(8)
    by (simp add: tss_def del: of_nat_numeral)
qed
end
