(* ===== verification/Boot_Props.thy ===== *)
theory Boot_Props
  imports Boot_Mem
begin

text \<open>
  Creating a machine, from the first chunk of memory to a CPU that can run: the steps of the creation composed.
\<close>

section \<open>The stack of the CPU\<close>

lemma placed_alloc_size: "placed rm sz gv a rm' \<Longrightarrow> alloc_size rm' = alloc_size rm + unat sz"
  using placedD(2,3,5,7) [of rm sz gv a rm'] by (simp add: alloc_size_def)

lemma kernel_user_vpn:
  assumes "l < 512" "unat g < 0x800000000000"
  shows "vpn (kernel_page l) \<noteq> vpn g"
proof
  assume "vpn (kernel_page l) = vpn g"
  then have "unat (vpn (kernel_page l)) = unat (vpn g)"
    by (rule arg_cong)
  then have e: "(0xFFFF800000000 + l) mod 2 ^ 36 = unat g div 4096"
    using assms unat_kernel_page [OF assms(1)] by (simp add: unat_vpn)
  have "(0xFFFF800000000 + l) mod 2 ^ 36 = 0x800000000 + l"
    using assms(1) mod_mult_self1 [of "0x800000000 + l" "0xFFFF" "2 ^ 36"] by simp
  then have "0x800000000 + l = unat g div 4096"
    unfolding e by (rule sym)
  then show False
    using assms(2) by simp
qed

lemma stack_page_vpn:
  assumes "k < 512"
  shows "l < 512 \<Longrightarrow> vpn (kernel_page l) \<noteq> vpn (0x7FFFFFE00000 + of_nat (4096 * k))" "vpn 0x1000 \<noteq> vpn (0x7FFFFFE00000 + of_nat (4096 * k))"
proof -
  have "unat (of_nat (4096 * k) :: u64) = 4096 * k"
    by (rule unat_of_nat_small) (use assms in simp)
  then have u: "unat (0x7FFFFFE00000 + of_nat (4096 * k) :: u64) = 0x7FFFFFE00000 + 4096 * k"
    using assms by (simp add: unat_plus_if' del: of_nat_mult)
  show "vpn (kernel_page l) \<noteq> vpn (0x7FFFFFE00000 + of_nat (4096 * k))" if "l < 512"
    by (rule kernel_user_vpn [OF that]) (use u assms in simp)
  show "vpn 0x1000 \<noteq> vpn (0x7FFFFFE00000 + of_nat (4096 * k))"
  proof
    assume "vpn 0x1000 = vpn (0x7FFFFFE00000 + of_nat (4096 * k))"
    then have "unat (vpn 0x1000) = unat (vpn (0x7FFFFFE00000 + of_nat (4096 * k)))"
      by (rule arg_cong)
    then show False
      unfolding unat_vpn u using assms by simp
  qed
qed

text \<open>There is one chunk, at guest physical address 0, and the root of the page tables is its first page.\<close>

definition root_first :: "pager \<Rightarrow> bool" where
  "root_first p \<longleftrightarrow> (\<exists>c. chunks p = [c] \<and> guest_phys_addr c = 0 \<and> userspace_addr c = host_pml4_p p)"

lemma root_first_kept: "kept X rm rm' \<Longrightarrow> root_first (rm_pager rm) \<Longrightarrow> root_first (rm_pager rm')"
  using keptD(7,8) by (simp add: root_first_def)

text \<open>What the constructor of the region manager leaves.\<close>

definition fresh_rm :: "rmgr \<Rightarrow> bool" where
  "fresh_rm rm \<longleftrightarrow> mem_ok rm \<and> pt_view (rm_pager rm) = Map.empty \<and> tables_used (rm_pager rm) = 1 \<and> total_memsz (rm_pager rm) = 0x8000000
     \<and> alloc_size rm = 0x1000000 \<and> guest_next_free (rm_pager rm) = KERNEL_SPACE_BOTTOM \<and> root_first (rm_pager rm)
     \<and> (\<exists>f \<in> free_ids rm. reg_size (rm_store rm f) = 0x7000000)"

lemma RegionManager_fresh:
  assumes "0 < fd" "memalign_ok am" "am [] ELKVM_SYSTEM_MEMGROW = Inr h" "\<forall>c. ioctl c = 0"
  obtains rm where "RegionManager am ioctl fd m TLB = Inr rm" "fresh_rm rm"
proof -
  obtain rm where rm: "RegionManager am ioctl fd m TLB = Inr rm" "mem_ok rm" "pt_view (rm_pager rm) = Map.empty"
    "tables_used (rm_pager rm) = 1" "total_memsz (rm_pager rm) = ELKVM_SYSTEM_MEMGROW" "\<exists>a. allocated_regions rm = [a] \<and> pager_region rm a"
    by (rule RegionManager_establishes_mem_ok [OF assms])
  note S = fresh_manager_shape [OF assms(3,4,1) rm(1)]
  have "0 \<in> free_ids rm"
    using S(1) by (auto simp: free_ids_def n_freelists_def intro!: bexI [of _ 15])
  moreover have "alloc_size rm = 0x1000000"
    using rm(6) by (auto simp: alloc_size_def pager_region_def ELKVM_PAGER_MEMSIZE_def)
  moreover have "root_first (rm_pager rm)"
    using S(4,6) by (simp add: root_first_def)
  ultimately show ?thesis
    using that [OF rm(1)] rm(2-5) S(2,3) by (auto simp: fresh_rm_def ELKVM_SYSTEM_MEMGROW_def)
qed

definition no_stack :: stack where
  "no_stack = \<lparr>stack_regions = [], kernel_stack = None, stack_base = LINUX_64_STACK_BASE\<rparr>"

lemma first_stack:
  assumes f: "fresh_rm rm" and am: "memalign_ok am"
  obtains a rm' where "expand am ioctl rm no_stack = Inr (0, rm', no_stack\<lparr>stack_base := 0x7FFFFFE00000, stack_regions := [a]\<rparr>)"
    "stack_inv rm' (no_stack\<lparr>stack_base := 0x7FFFFFE00000, stack_regions := [a]\<rparr>)" "mem_ok rm'" "kernel_slots rm' 0" "page_room 8 rm'"
    "pt_view (rm_pager rm') (vpn 0x1000) = None" "root_first (rm_pager rm')"
proof -
  have F: "mem_ok rm" "rm_inv rm" "pt_view (rm_pager rm) = Map.empty" "tables_used (rm_pager rm) = 1" "total_memsz (rm_pager rm) = 0x8000000"
    "alloc_size rm = 0x1000000" "guest_next_free (rm_pager rm) = KERNEL_SPACE_BOTTOM" "root_first (rm_pager rm)"
    using f by (simp_all add: fresh_rm_def mem_ok_def mem_inv_def)
  obtain c where c: "c \<in> free_ids rm" "ELKVM_STACK_GROW \<le> reg_size (rm_store rm c)"
    using f by (auto simp: fresh_rm_def ELKVM_STACK_GROW_def)
  have g: "0 < ELKVM_STACK_GROW"
    by (simp add: ELKVM_STACK_GROW_def)
  have r: "alloc_ready am ioctl rm ELKVM_STACK_GROW"
    using c by (auto simp: alloc_ready_def)
  obtain a rm1 where al: "allocate_region am ioctl rm ELKVM_STACK_GROW ''ELKVM stack'' = Inr (a, rm1)"
    by (rule alloc_ready_total [OF F(2) am g _ r]) (simp_all add: F(5) ELKVM_STACK_GROW_def)
  have pg: "rm_pager rm1 = rm_pager rm"
    by (rule allocate_pager_same [OF F(2) g c al])
  have s: "stack_addr (Suc (length (stack_regions no_stack))) = 0x7FFFFFE00000"
    by (simp add: no_stack_def stack_addr_def LINUX_64_STACK_BASE_def)
  have inv: "stack_inv rm no_stack" "stack_room rm no_stack"
    by (simp_all add: stack_inv_def stack_room_def no_stack_def stack_addr_def F)
  obtain rm' st' where e: "expand am ioctl rm no_stack = Inr (0, rm', st')" "st' = no_stack\<lparr>stack_base := 0x7FFFFFE00000, stack_regions := stack_regions no_stack @ [a]\<rparr>"
    "placed rm ELKVM_STACK_GROW 0x7FFFFFE00000 a rm'" "stack_inv rm' st'" "pager_frame (rm_pager rm') = pager_frame (rm_pager rm1)"
    by (rule expand_ok [OF F(1) inv am al, unfolded s])
  note P = placedD [OF e(3)]
  have t: "total_memsz (rm_pager rm') = 0x8000000" "guest_next_free (rm_pager rm') = KERNEL_SPACE_BOTTOM" "root_first (rm_pager rm')"
    using e(5) F(5,7,8) by (simp_all add: pg pager_frame_def root_first_def)
  have v: "pt_view (rm_pager rm') v = None" if "\<And>k. k < 512 \<Longrightarrow> v \<noteq> vpn (0x7FFFFFE00000 + of_nat (4096 * k))" for v
    using e(3) that F(3) unfolding placed_def by (simp add: ELKVM_STACK_GROW_def)
  have "tables_used (rm_pager rm') \<le> 1537"
    using P(10) F(4) areas_le [of "0x7FFFFFE00000" 512] by (simp add: ELKVM_STACK_GROW_def)
  then have "page_room 8 rm'"
    using placed_alloc_size [OF e(3)] by (simp add: page_room_def t F(6) ELKVM_STACK_GROW_def)
  moreover have "kernel_slots rm' 0"
    unfolding kernel_slots_def using t(2) v stack_page_vpn(1) by simp
  ultimately show ?thesis
    using that [of rm' a] e(1,2,4) P(1) v stack_page_vpn(2) t(3) by (simp add: no_stack_def)
qed

lemma new_stack_eq:
  "new_stack am ioctl rm =
     bindO (Some (expand am ioctl rm no_stack)) (\<lambda>(err, rm1, st1).
     bindO (Some (assertE (err = 0))) (\<lambda>_.
     bindO (Some (allocate_region am ioctl rm1 ELKVM_PAGESIZE ''kernel stack'')) (\<lambda>(k, rm2).
     bindO (place_kernel_page rm2 k PT_OPT_WRITE) (\<lambda>rm3. Some (Inr (st1\<lparr>kernel_stack := Some k\<rparr>, rm3))))))"
  by (simp add: new_stack_def no_stack_def place_kernel_page_def Let_def bindO_def assertE_def split: option.split sum.split prod.split)

lemma stack_inv_kernel [simp]: "stack_inv rm (st\<lparr>kernel_stack := k\<rparr>) = stack_inv rm st"
  by (simp add: stack_inv_def)

lemma new_stack_fresh:
  assumes f: "fresh_rm rm" and am: "memalign_ok am"
  obtains st s rm' where "new_stack am ioctl rm = Some (Inr (st, rm'))" "stack_inv rm' st" "stack_base st = 0x7FFFFFE00000" "length (stack_regions st) = 1"
    "kernel_stack st = Some s" "page_at rm' (kernel_page 0) s" "mem_ok rm'" "kernel_slots rm' 1" "page_room 7 rm'" "pt_view (rm_pager rm') (vpn 0x1000) = None"
    "root_first (rm_pager rm')"
proof -
  obtain a rm1 where e: "expand am ioctl rm no_stack = Inr (0, rm1, no_stack\<lparr>stack_base := 0x7FFFFFE00000, stack_regions := [a]\<rparr>)"
    "stack_inv rm1 (no_stack\<lparr>stack_base := 0x7FFFFFE00000, stack_regions := [a]\<rparr>)" "mem_ok rm1" "kernel_slots rm1 0" "page_room (Suc 7) rm1"
    "pt_view (rm_pager rm1) (vpn 0x1000) = None" "root_first (rm_pager rm1)"
    by (rule first_stack [OF assms]) simp
  obtain s rm2 rm3 where k: "allocate_region am ioctl rm1 ELKVM_PAGESIZE ''kernel stack'' = Inr (s, rm2)" "place_kernel_page rm2 s PT_OPT_WRITE = Some (Inr rm3)"
    "kept {} rm1 rm3" "page_room 7 rm3" "kernel_slots rm3 (Suc 0)" "page_at rm3 (kernel_page 0) s" "s \<notin> set (allocated_regions rm1)"
    "\<And>v. v \<noteq> vpn (kernel_page 0) \<Longrightarrow> pt_view (rm_pager rm3) v = pt_view (rm_pager rm1) v"
    by (rule new_kernel_page [OF e(3) am e(5,4), of ELKVM_PAGESIZE ioctl "''kernel stack''" PT_OPT_WRITE]) (simp_all add: ELKVM_PAGESIZE_def)
  have "vpn 0x1000 \<noteq> vpn (kernel_page 0)"
    using kernel_user_vpn [of 0 "0x1000"] by auto
  moreover have "new_stack am ioctl rm = Some (Inr ((no_stack\<lparr>stack_base := 0x7FFFFFE00000, stack_regions := [a]\<rparr>)\<lparr>kernel_stack := Some s\<rparr>, rm3))"
    unfolding new_stack_eq by (simp add: e(1) k(1,2))
  ultimately show ?thesis
    using that [of "(no_stack\<lparr>stack_base := 0x7FFFFFE00000, stack_regions := [a]\<rparr>)\<lparr>kernel_stack := Some s\<rparr>" rm3 s]
      kept_stack [OF e(3) k(3) e(2)] keptD(1) [OF k(3)] k(4-6,8) e(6) root_first_kept [OF k(3) e(7)] by simp
qed

section \<open>The kernel's copy of the registers\<close>

text \<open>What the creation needs of the hypervisor: it accepts registers, gives the special registers back as they were set, and a model
  specific register as well.\<close>

definition kvm_keeps :: "'k kvm_ops \<Rightarrow> bool" where
  "kvm_keeps ops \<longleftrightarrow> (\<forall>s k. \<exists>k'. op_set_sregs ops s k = Inr k' \<and> op_get_sregs ops k' = Inr s)
     \<and> (\<forall>i d k. 0 \<le> fst (op_set_msrs ops i d k) \<and> op_get_sregs ops (snd (op_set_msrs ops i d k)) = op_get_sregs ops k
         \<and> 0 \<le> fst (op_get_msrs ops i (snd (op_set_msrs ops i d k))) \<and> snd (op_get_msrs ops i (snd (op_set_msrs ops i d k))) = d)"

text \<open>The kernel has the special registers of the CPU.\<close>

definition synced :: "'k kvm_ops \<Rightarrow> 'k vcpu \<Rightarrow> bool" where
  "synced ops v \<longleftrightarrow> op_get_sregs ops (kv_kernel (kvm_vcpu v)) = Inr (kv_sregs (kvm_vcpu v))"

text \<open>Only the kernel's side differs.\<close>

definition same_cpu :: "'k vcpu \<Rightarrow> 'k vcpu \<Rightarrow> bool" where
  "same_cpu v v' \<longleftrightarrow> (\<exists>k. v' = upd_kvm (\<lambda>kv. kv\<lparr>kv_kernel := k\<rparr>) v)"

lemma get_reg_kernel [simp]: "get_reg (kv\<lparr>kv_kernel := k\<rparr>) r = get_reg kv r" "get_seg (kv\<lparr>kv_kernel := k\<rparr>) s = get_seg kv s"
  by (cases r; simp) (cases s; simp)

lemma same_cpuD:
  assumes "same_cpu v v'"
  shows "vcpu_stack v' = vcpu_stack v" "vcpu_get_reg v' = vcpu_get_reg v" "vcpu_get_seg v' = vcpu_get_seg v"
    "kv_sregs (kvm_vcpu v') = kv_sregs (kvm_vcpu v)"
  using assms by (auto simp: same_cpu_def upd_kvm_def vcpu_get_reg_def vcpu_get_seg_def fun_eq_iff)

lemma set_sregs_synced:
  assumes "kvm_keeps ops"
  obtains v' where "vcpu_set_sregs ops v = (0, v')" "same_cpu v v'" "synced ops v'"
proof -
  obtain k where "op_set_sregs ops (kv_sregs (kvm_vcpu v)) (kv_kernel (kvm_vcpu v)) = Inr k" "op_get_sregs ops k = Inr (kv_sregs (kvm_vcpu v))"
    using assms unfolding kvm_keeps_def by blast
  then show ?thesis
    using that [of "upd_kvm (\<lambda>kv. kv\<lparr>kv_kernel := k\<rparr>) v"]
    by (auto simp: vcpu_set_sregs_def lift_kvm_def set_sregs_def upd_kvm_def same_cpu_def synced_def)
qed

lemma set_msr_synced:
  assumes "kvm_keeps ops"
  obtains v' where "vcpu_set_msr ops i d v = Inr v'" "same_cpu v v'" "synced ops v' = synced ops v" "vcpu_get_msr ops v' i = Inr d"
proof -
  obtain e k where e: "op_set_msrs ops i d (kv_kernel (kvm_vcpu v)) = (e, k)"
    by (cases "op_set_msrs ops i d (kv_kernel (kvm_vcpu v))") blast
  obtain e2 x where e2: "op_get_msrs ops i k = (e2, x)"
    by (cases "op_get_msrs ops i k") blast
  have "0 \<le> fst (op_set_msrs ops i d (kv_kernel (kvm_vcpu v)))
      \<and> op_get_sregs ops (snd (op_set_msrs ops i d (kv_kernel (kvm_vcpu v)))) = op_get_sregs ops (kv_kernel (kvm_vcpu v))
      \<and> 0 \<le> fst (op_get_msrs ops i (snd (op_set_msrs ops i d (kv_kernel (kvm_vcpu v))))) \<and> snd (op_get_msrs ops i (snd (op_set_msrs ops i d (kv_kernel (kvm_vcpu v))))) = d"
    using assms unfolding kvm_keeps_def by blast
  then have "0 \<le> e" "op_get_sregs ops k = op_get_sregs ops (kv_kernel (kvm_vcpu v))" "0 \<le> e2" "x = d"
    by (simp_all add: e e2)
  then show ?thesis
    using that [of "upd_kvm (\<lambda>kv. kv\<lparr>kv_kernel := k\<rparr>) v"] e e2
    by (auto simp: vcpu_set_msr_def set_msr_def upd_kvm_def same_cpu_def synced_def vcpu_get_msr_def get_msr_def)
qed

lemma get_sregs_synced: "synced ops v \<Longrightarrow> vcpu_get_sregs ops v = (0, v)"
  by (simp add: synced_def vcpu_get_sregs_def lift_kvm_def get_sregs_def)

text \<open>Setting one segment register and telling the kernel.\<close>

lemma vcpu_set_seg_simps [simp]:
  "vcpu_stack (vcpu_set_seg s seg v) = vcpu_stack v" "vcpu_get_reg (vcpu_set_seg s seg v) = vcpu_get_reg v"
  "vcpu_get_seg (vcpu_set_seg s seg v) q = (if q = s then seg_norm s seg else vcpu_get_seg v q)"
  by (simp_all add: vcpu_set_seg_def upd_kvm_def vcpu_get_reg_def vcpu_get_seg_def fun_eq_iff seg.get_put)

lemma set_seg_synced:
  assumes "kvm_keeps ops"
  obtains v' where "vcpu_set_sregs ops (vcpu_set_seg s seg v) = (0, v')" "synced ops v'" "vcpu_stack v' = vcpu_stack v"
    "vcpu_get_reg v' = vcpu_get_reg v" "vcpu_get_seg v' = (vcpu_get_seg v)(s := seg_norm s seg)"
proof -
  obtain v' where "vcpu_set_sregs ops (vcpu_set_seg s seg v) = (0, v')" "same_cpu (vcpu_set_seg s seg v) v'" "synced ops v'"
    by (rule set_sregs_synced [OF assms])
  then show ?thesis
    using that same_cpuD [of "vcpu_set_seg s seg v" v'] by (simp add: fun_eq_iff)
qed

definition tss_segment :: "guestptr \<Rightarrow> Segment" where
  "tss_segment tss = mk_Segment 0x20 tss sizeof_tss64 0xb 0x1 0x0 0x0 0x0 0x1 0x0 0x0"

lemma segments_fit: "seg_norm CS (tss_segment t) = tss_segment t" "seg_norm GDT (Segment_of g (GDT_NUM_ENTRIES * 8 - 1)) = Segment_of g 63"
  "seg_norm GDT (Segment_of g 0xFFF) = Segment_of g 0xFFF"
  by (simp_all add: seg_norm_def tss_segment_def mk_Segment_def Segment_of_def sizeof_tss64_def GDT_NUM_ENTRIES_def take_bit_eq_mod)

lemma load_gdt_synced:
  assumes "kvm_keeps ops" "synced ops v"
  obtains v' where "load_gdt_regs ops v g t = Inr (True, v')" "synced ops v'" "vcpu_stack v' = vcpu_stack v" "vcpu_get_reg v' = vcpu_get_reg v"
    "vcpu_get_seg v' = (vcpu_get_seg v)(GDT := Segment_of g 63, TR := tss_segment t)"
proof -
  obtain v1 where v1: "vcpu_set_msr ops VCPU_MSR_STAR star_value v = Inr v1" "same_cpu v v1" "synced ops v1"
    by (rule set_msr_synced [OF assms(1), of VCPU_MSR_STAR star_value v]) (use assms(2) in simp)
  obtain v2 where "vcpu_set_sregs ops (vcpu_set_seg TR (tss_segment t) (vcpu_set_seg GDT (Segment_of g (GDT_NUM_ENTRIES * 8 - 1)) v1)) = (0, v2)" "synced ops v2"
    "vcpu_stack v2 = vcpu_stack v1" "vcpu_get_reg v2 = vcpu_get_reg v1" "vcpu_get_seg v2 = (vcpu_get_seg v1)(GDT := Segment_of g 63, TR := tss_segment t)"
    by (rule set_seg_synced [OF assms(1), of TR "tss_segment t" "vcpu_set_seg GDT (Segment_of g (GDT_NUM_ENTRIES * 8 - 1)) v1"])
      (simp add: segments_fit fun_eq_iff)
  then show ?thesis
    using that [of v2] v1(1) same_cpuD [OF v1(2)] get_sregs_synced [OF v1(3)]
    by (simp add: load_gdt_regs_def Let_def tss_segment_def)
qed

section \<open>The machine while it is set up\<close>

text \<open>The machine \<open>vm\<close> has one CPU \<open>v\<close>, \<open>k\<close> kernel pages and room for \<open>n\<close> more pages.\<close>

definition boot_inv :: "('k, 'w) boot \<Rightarrow> ('k, 'w) vm \<Rightarrow> 'k vcpu \<Rightarrow> nat \<Rightarrow> nat \<Rightarrow> bool" where
  "boot_inv bt vm v k n \<longleftrightarrow> vm_cpus vm = [v] \<and> synced (host_kvm (boot_host bt)) v \<and> mem_ok (vm_rm vm) \<and> stack_inv (vm_rm vm) (vcpu_stack v)
     \<and> kernel_slots (vm_rm vm) k \<and> page_room n (vm_rm vm) \<and> pt_view (rm_pager (vm_rm vm)) (vpn 0x1000) = None \<and> root_first (rm_pager (vm_rm vm))"

lemma boot_invD:
  assumes "boot_inv bt vm v k n"
  shows "vm_cpus vm = [v]" "synced (host_kvm (boot_host bt)) v" "mem_ok (vm_rm vm)" "stack_inv (vm_rm vm) (vcpu_stack v)"
    "kernel_slots (vm_rm vm) k" "page_room n (vm_rm vm)" "pt_view (rm_pager (vm_rm vm)) (vpn 0x1000) = None" "root_first (rm_pager (vm_rm vm))"
  using assms by (simp_all add: boot_inv_def)

lemma vm_set_simps [simp]: "vm_cpus (set_vm_rm rm vm) = vm_cpus vm" "vm_cleanup (set_vm_rm rm vm) = vm_cleanup vm"
  "vm_rm (put_vcpu i v vm) = vm_rm vm" "vm_cleanup (put_vcpu i v vm) = vm_cleanup vm"
  "vm_cpus (put_vcpu i v vm) = (vm_cpus vm)[i := v]" "vm_rm (vm\<lparr>vm_cpus := cs\<rparr>) = vm_rm vm" "vm_rm (vm\<lparr>vm_cleanup := fl\<rparr>) = vm_rm vm"
  by (simp_all add: set_vm_rm_def put_vcpu_def vm_rm_def)

text \<open>The invariant after memory was added with \<open>kept\<close> and the CPU changed in its special registers.\<close>

lemma boot_inv_step:
  assumes inv: "boot_inv bt vm v k n" and kp: "kept {} (vm_rm vm) rm'" and ks: "kernel_slots rm' k'" "page_room n' rm'"
    and pv: "pt_view (rm_pager rm') (vpn 0x1000) = pt_view (rm_pager (vm_rm vm)) (vpn 0x1000)"
    and v: "synced (host_kvm (boot_host bt)) v'" "vcpu_stack v' = vcpu_stack v"
    and vm: "vm_cpus vm' = [v']" "vm_rm vm' = rm'"
  shows "boot_inv bt vm' v' k' n'"
proof -
  note B = boot_invD [OF inv]
  show ?thesis
    using kept_stack [OF B(3) kp B(4)] keptD(1) [OF kp] root_first_kept [OF kp B(8)] ks pv B(7) v by (simp add: boot_inv_def vm)
qed

lemma user_page_vpn: "k < 512 \<Longrightarrow> vpn 0x1000 \<noteq> vpn (kernel_page k)"
  using kernel_user_vpn [of k "0x1000"] by auto

lemma create_gdt_step:
  assumes inv: "boot_inv bt vm v 1 (Suc (Suc n))" and am: "memalign_ok (host_memalign (boot_host bt))" and kvm: "kvm_keeps (host_kvm (boot_host bt))"
    and s: "kernel_stack (vcpu_stack v) = Some s" "page_at (vm_rm vm) (kernel_page 0) s"
  obtains g t vm' v' where "create_gdt bt vm = Some (Inr (Some g, vm'))" "boot_inv bt vm' v' 3 n" "kept {} (vm_rm vm) (vm_rm vm')" "vm_cleanup vm' = vm_cleanup vm"
    "vcpu_get_reg v' = vcpu_get_reg v" "vcpu_stack v' = vcpu_stack v"
    "vcpu_get_seg v' = (vcpu_get_seg v)(GDT := Segment_of (kernel_page 1) 63, TR := tss_segment (kernel_page 2))"
    "page_at (vm_rm vm') (kernel_page 1) g" "page_at (vm_rm vm') (kernel_page 2) t"
    "guest_word (vm_rm vm') (kernel_page 1 + of_nat 48) = gdt_word kernel_code" "guest_word (vm_rm vm') (kernel_page 2 + of_nat 36) = kernel_page 0 + 0x1000"
proof -
  note B = boot_invD [OF inv]
  let ?ops = "host_kvm (boot_host bt)" and ?am = "host_memalign (boot_host bt)" and ?io = "host_set_region (boot_host bt)"
  have two: "Suc 1 = 2" "Suc 2 = 3"
    by simp_all
  obtain g t rm' where G: "elkvm_gdt_setup ?ops ?am ?io (vm_rm vm) v =
      bindO (Some (load_gdt_regs ?ops v (kernel_page 1) (kernel_page 2))) (\<lambda>(ok, v1). Some (Inr (if ok then Some g else None, rm', v1)))"
    "kept {} (vm_rm vm) rm'" "page_room n rm'" "kernel_slots rm' 3" "page_at rm' (kernel_page 1) g" "page_at rm' (kernel_page 2) t"
    "guest_word rm' (kernel_page 1 + of_nat 48) = gdt_word kernel_code" "guest_word rm' (kernel_page 2 + of_nat 36) = kernel_page 0 + ELKVM_PAGESIZE"
    "\<And>v. v \<noteq> vpn (kernel_page 1) \<Longrightarrow> v \<noteq> vpn (kernel_page 2) \<Longrightarrow> pt_view (rm_pager rm') v = pt_view (rm_pager (vm_rm vm)) v"
    by (rule gdt_step [OF B(3) am B(6,5) _ s, of ?ops ?io, unfolded two]) (simp, rule that)
  obtain v' where v': "load_gdt_regs ?ops v (kernel_page 1) (kernel_page 2) = Inr (True, v')" "synced ?ops v'" "vcpu_stack v' = vcpu_stack v" "vcpu_get_reg v' = vcpu_get_reg v"
    "vcpu_get_seg v' = (vcpu_get_seg v)(GDT := Segment_of (kernel_page 1) 63, TR := tss_segment (kernel_page 2))"
    by (rule load_gdt_synced [OF kvm B(2)])
  define vm' where "vm' = put_vcpu 0 v' (set_vm_rm rm' vm)"
  have run: "create_gdt bt vm = Some (Inr (Some g, vm'))"
    unfolding create_gdt_def bindS_def vcpuS_def get_vcpu_def B(1) by (simp add: G(1) v'(1) vm'_def del: One_nat_def)
  have "boot_inv bt vm' v' 3 n"
    by (rule boot_inv_step [OF inv G(2,4,3) _ v'(2,3)]) (simp_all add: G(9) user_page_vpn vm'_def B(1))
  then show ?thesis
    using that [OF run, of v' t] G(2,5-8) v'(3-5) by (simp add: vm'_def ELKVM_PAGESIZE_def)
qed

lemma create_idt_step:
  assumes inv: "boot_inv bt vm v 3 (Suc (Suc n))" and am: "memalign_ok (host_memalign (boot_host bt))" and kvm: "kvm_keeps (host_kvm (boot_host bt))"
    and f: "flat_file bt ''/isr'' bs"
  obtains i t vm' v' where "create_idt bt vm = Some (Inr (0, vm'))" "boot_inv bt vm' v' 5 n" "kept {} (vm_rm vm) (vm_rm vm')" "vm_cleanup vm' = vm_cleanup vm"
    "vcpu_get_reg v' = vcpu_get_reg v" "vcpu_stack v' = vcpu_stack v" "vcpu_get_seg v' = (vcpu_get_seg v)(IDT := Segment_of (kernel_page 4) 0xFFF)"
    "page_at (vm_rm vm') (kernel_page 3) i" "page_at (vm_rm vm') (kernel_page 4) t" "\<And>j. j < length bs \<Longrightarrow> page_byte (vm_rm vm') i j = bs ! j"
    "\<And>j. j < 48 \<Longrightarrow> idt_entry_at (vm_rm vm') (kernel_page 4) j = make_idt_entry (kernel_page 3 + of_nat (9 * j))"
proof -
  note B = boot_invD [OF inv]
  let ?ops = "host_kvm (boot_host bt)" and ?am = "host_memalign (boot_host bt)" and ?io = "host_set_region (boot_host bt)"
  have num: "Suc 3 = 4" "Suc 4 = 5"
    by simp_all
  obtain i rm1 where L: "load_flat bt \<lparr>flat_region = None, flat_size = 0\<rparr> (res_path bt @ ''/isr'') True vm
      = Some (Inr ((0, \<lparr>flat_region = None, flat_size = 0\<rparr>\<lparr>flat_size := of_nat (length bs), flat_region := Some i\<rparr>), set_vm_rm rm1 vm))"
    "kept {} (vm_rm vm) rm1" "page_room (Suc n) rm1" "kernel_slots rm1 4" "page_at rm1 (kernel_page 3) i" "\<And>j. j < length bs \<Longrightarrow> page_byte rm1 i j = bs ! j"
    "\<And>v. v \<noteq> vpn (kernel_page 3) \<Longrightarrow> pt_view (rm_pager rm1) v = pt_view (rm_pager (vm_rm vm)) v"
    by (rule load_flat_kernel [OF B(3) am B(6,5) _ f, of "\<lparr>flat_region = None, flat_size = 0\<rparr>", unfolded num]) (simp, rule that)
  have ok1: "mem_ok rm1"
    by (rule keptD(1) [OF L(2)])
  have i: "i \<in> set (allocated_regions rm1)" "reg_addr (rm_store rm1 i) = kernel_page 3"
    using L(5) by (simp_all add: page_at_def)
  obtain t rm2 where I: "elkvm_idt_setup ?ops ?am ?io rm1 v i =
      (let (err, v1) = vcpu_set_sregs ?ops (vcpu_set_seg IDT (Segment_of (kernel_page 4) 0xFFF) v) in Some (Inr (err, rm2, v1)))"
    "kept {} rm1 rm2" "page_room n rm2" "kernel_slots rm2 5" "page_at rm2 (kernel_page 4) t"
    "\<And>j. j < 48 \<Longrightarrow> idt_entry_at rm2 (kernel_page 4) j = make_idt_entry (kernel_page 3 + of_nat (9 * j))"
    "\<And>v. v \<noteq> vpn (kernel_page 4) \<Longrightarrow> pt_view (rm_pager rm2) v = pt_view (rm_pager rm1) v"
    by (rule idt_step [OF ok1 am L(3,4) _ i(1), of ?ops ?io v, unfolded num i(2)]) (simp, rule that)
  obtain v' where v': "vcpu_set_sregs ?ops (vcpu_set_seg IDT (Segment_of (kernel_page 4) 0xFFF) v) = (0, v')" "synced ?ops v'" "vcpu_stack v' = vcpu_stack v"
    "vcpu_get_reg v' = vcpu_get_reg v" "vcpu_get_seg v' = (vcpu_get_seg v)(IDT := Segment_of (kernel_page 4) 0xFFF)"
    by (rule set_seg_synced [OF kvm, of IDT "Segment_of (kernel_page 4) 0xFFF" v]) (simp add: segments_fit)
  define vm' where "vm' = put_vcpu 0 v' (set_vm_rm rm2 vm)"
  have run: "create_idt bt vm = Some (Inr (0, vm'))"
    unfolding create_idt_def bindS_def L(1) by (simp add: vcpuS_def get_vcpu_def B(1) I(1) v'(1) vm'_def)
  have k: "kept {} (vm_rm vm) rm2"
    using kept_trans [OF L(2) I(2)] by simp
  have "boot_inv bt vm' v' 5 n"
    by (rule boot_inv_step [OF inv k I(4,3) _ v'(2,3)]) (simp_all add: L(7) I(7) user_page_vpn vm'_def B(1))
  moreover have "page_byte rm2 i j = bs ! j" if "j < length bs" for j
    using page_at_kept(2) [OF ok1 I(2) L(5)] L(6) that f by (simp add: flat_file_def)
  ultimately show ?thesis
    using that [OF run, of v' i t] k I(5,6) v'(3-5) page_at_kept(1) [OF ok1 I(2) L(5)] by (simp add: vm'_def)
qed

lemma create_sysenter_step:
  assumes inv: "boot_inv bt vm v 5 (Suc n)" and am: "memalign_ok (host_memalign (boot_host bt))" and kvm: "kvm_keeps (host_kvm (boot_host bt))"
    and f: "flat_file bt ''/entry'' bs"
  obtains e vm' v' where "create_sysenter bt vm = Some (Inr (0, vm'))" "boot_inv bt vm' v' 6 n" "kept {} (vm_rm vm) (vm_rm vm')" "vm_cleanup vm' = vm_cleanup vm"
    "vcpu_get_reg v' = vcpu_get_reg v" "vcpu_stack v' = vcpu_stack v" "vcpu_get_seg v' = vcpu_get_seg v"
    "vcpu_get_msr (host_kvm (boot_host bt)) v' VCPU_MSR_LSTAR = Inr (kernel_page 5)"
    "page_at (vm_rm vm') (kernel_page 5) e" "\<And>j. j < length bs \<Longrightarrow> page_byte (vm_rm vm') e j = bs ! j"
proof -
  note B = boot_invD [OF inv]
  let ?ops = "host_kvm (boot_host bt)"
  have num: "Suc 5 = 6"
    by simp
  obtain e rm1 where L: "load_flat bt \<lparr>flat_region = None, flat_size = 0\<rparr> (res_path bt @ ''/entry'') True vm
      = Some (Inr ((0, \<lparr>flat_region = None, flat_size = 0\<rparr>\<lparr>flat_size := of_nat (length bs), flat_region := Some e\<rparr>), set_vm_rm rm1 vm))"
    "kept {} (vm_rm vm) rm1" "page_room n rm1" "kernel_slots rm1 6" "page_at rm1 (kernel_page 5) e" "\<And>j. j < length bs \<Longrightarrow> page_byte rm1 e j = bs ! j"
    "\<And>v. v \<noteq> vpn (kernel_page 5) \<Longrightarrow> pt_view (rm_pager rm1) v = pt_view (rm_pager (vm_rm vm)) v"
    by (rule load_flat_kernel [OF B(3) am B(6,5) _ f, of "\<lparr>flat_region = None, flat_size = 0\<rparr>", unfolded num]) (simp, rule that)
  have a: "reg_addr (rm_store rm1 e) = kernel_page 5"
    using L(5) by (simp add: page_at_def)
  obtain v' where v': "vcpu_set_msr ?ops VCPU_MSR_LSTAR (kernel_page 5) v = Inr v'" "same_cpu v v'" "synced ?ops v' = synced ?ops v"
    "vcpu_get_msr ?ops v' VCPU_MSR_LSTAR = Inr (kernel_page 5)"
    by (rule set_msr_synced [OF kvm])
  note S = same_cpuD [OF v'(2)]
  define vm' where "vm' = put_vcpu 0 v' (set_vm_rm rm1 vm)"
  have run: "create_sysenter bt vm = Some (Inr (0, vm'))"
    unfolding create_sysenter_def bindS_def L(1)
    by (simp add: vcpuS_def get_vcpu_def B(1) a v'(1) vm'_def liftS_def modS_def retS_def)
  have "boot_inv bt vm' v' 6 n"
    by (rule boot_inv_step [OF inv L(2,4,3) _ _ S(1)]) (simp_all add: L(7) user_page_vpn vm'_def B(1,2) v'(3))
  then show ?thesis
    using that [OF run, of v' e] L(2,5,6) S(1-3) v'(4) by (simp add: vm'_def)
qed

lemma create_sighandler_step:
  assumes inv: "boot_inv bt vm v k (Suc n)" and am: "memalign_ok (host_memalign (boot_host bt))"
    and f: "flat_file bt ''/signal'' bs"
  obtains c vm' where "create_sighandler bt vm = Some (Inr (0, vm'))" "vm_cpus vm' = [v]" "kept {} (vm_rm vm) (vm_rm vm')"
    "flat_region (vm_cleanup vm') = Some c" "page_at (vm_rm vm') 0x1000 c" "\<And>j. j < length bs \<Longrightarrow> page_byte (vm_rm vm') c j = bs ! j"
proof -
  note B = boot_invD [OF inv]
  obtain c rm1 where L: "load_flat bt (vm_cleanup vm) (res_path bt @ ''/signal'') False vm
      = Some (Inr ((0, (vm_cleanup vm)\<lparr>flat_size := of_nat (length bs), flat_region := Some c\<rparr>), set_vm_rm rm1 vm))"
    "kept {} (vm_rm vm) rm1" "page_at rm1 0x1000 c" "\<And>j. j < length bs \<Longrightarrow> page_byte rm1 c j = bs ! j"
    by (rule load_flat_user [OF B(3) am B(6,7) f, of "vm_cleanup vm"]) (rule that)
  define vm' where "vm' = (set_vm_rm rm1 vm)\<lparr>vm_cleanup := (vm_cleanup vm)\<lparr>flat_size := of_nat (length bs), flat_region := Some c\<rparr>\<rparr>"
  have "create_sighandler bt vm = Some (Inr (0, vm'))"
    by (simp add: create_sighandler_def bindS_def getS_def modS_def retS_def L(1) vm'_def)
  then show ?thesis
    using that [of vm' c] L(2-4) B(1) by (simp add: vm'_def)
qed

section \<open>The machine and its CPU\<close>

text \<open>What the host must give: a first piece of memory that the kernel accepts, the descriptors and limits, and one CPU.\<close>

definition host_ready :: "('k, 'w) boot \<Rightarrow> elkvm_opts \<Rightarrow> bool" where
  "host_ready bt opts \<longleftrightarrow> memalign_ok (host_memalign (boot_host bt)) \<and> (\<exists>h. host_memalign (boot_host bt) [] ELKVM_SYSTEM_MEMGROW = Inr h)
     \<and> (\<forall>c. host_set_region (boot_host bt) c = 0) \<and> kvm_keeps (host_kvm (boot_host bt))
     \<and> 0 < boot_create_vm bt (opt_fd opts) \<and> 0 \<le> boot_mmap_size bt (opt_fd opts) \<and> (\<forall>i. fst (boot_rlimit bt i) = 0)
     \<and> (\<exists>fd rs k. boot_vcpu bt (boot_create_vm bt (opt_fd opts)) 0 = (fd, Some rs, k) \<and> 0 < fd)"

text \<open>Long mode: protection and paging are on, the long mode is enabled, and the code segment is a 64-bit one.  The root of the page tables
  is guest physical address 0.\<close>

definition long_mode :: "'k vcpu \<Rightarrow> bool" where
  "long_mode v \<longleftrightarrow> bit (vcpu_get_reg v CR0) 0 \<and> bit (vcpu_get_reg v CR0) 31 \<and> bit (vcpu_get_reg v CR4) 5 \<and> bit (vcpu_get_reg v EFER) 8
     \<and> bit (vcpu_get_reg v EFER) 0 \<and> sg_l (vcpu_get_seg v CS) = 1 \<and> vcpu_get_reg v CR3 = 0"

lemma initialize_long_mode:
  "long_mode (init_rsp \<lparr>is_singlestepping = False, kvm_vcpu = initialize_regs kv, vcpu_stack = st\<rparr>)"
  by (simp add: long_mode_def init_rsp_def initialize_regs_def Let_def vcpu_get_reg_def vcpu_get_seg_def vcpu_set_reg_def upd_kvm_def get_set_reg
      seg.get_put get_set_segment seg_norm_def mk_Segment_def VCPU_CR0_FLAG_PAGING_def VCPU_CR0_FLAG_CACHE_DISABLE_def VCPU_CR0_FLAG_NOT_WRITE_THROUGH_def
      VCPU_CR0_FLAG_PROTECTED_def VCPU_CR4_FLAG_OSFXSR_def VCPU_CR4_FLAG_PAE_def VCPU_EFER_FLAG_SCE_def VCPU_EFER_FLAG_LME_def VCPU_EFER_FLAG_NXE_def
      take_bit_eq_mod)

lemma long_mode_cong: "vcpu_get_reg v' = vcpu_get_reg v \<Longrightarrow> vcpu_get_seg v' CS = vcpu_get_seg v CS \<Longrightarrow> long_mode v' = long_mode v"
  by (simp add: long_mode_def)

lemma set_regs_same: "\<exists>e v'. vcpu_set_regs ops v = (e, v') \<and> same_cpu v v'"
proof -
  have "same_cpu v v"
    unfolding same_cpu_def by (rule exI [of _ "kv_kernel (kvm_vcpu v)"]) (simp add: upd_kvm_def)
  then show ?thesis
    by (auto simp: vcpu_set_regs_def lift_kvm_def set_regs_def same_cpu_def upd_kvm_def split: sum.split)
qed

lemma create_hardware_step:
  assumes h: "host_ready bt opts"
  obtains s vm v where "create_virtual_hardware bt opts 1 = Some (Inr vm)" "boot_inv bt vm v 1 7" "vcpu_get_reg v RSP = 0x7FFFFFE00000"
    "stack_base (vcpu_stack v) = 0x7FFFFFE00000" "length (stack_regions (vcpu_stack v)) = 1" "kernel_stack (vcpu_stack v) = Some s"
    "page_at (vm_rm vm) (kernel_page 0) s" "long_mode v" "vm_cleanup vm = \<lparr>flat_region = None, flat_size = 0\<rparr>"
proof -
  let ?am = "host_memalign (boot_host bt)" and ?io = "host_set_region (boot_host bt)" and ?ops = "host_kvm (boot_host bt)"
  let ?fd = "boot_create_vm bt (opt_fd opts)"
  have am: "memalign_ok ?am" and io: "\<forall>c. ?io c = 0" and kvm: "kvm_keeps ?ops" and fd: "0 < ?fd" "0 \<le> boot_mmap_size bt (opt_fd opts)"
    and lim: "\<And>i. fst (boot_rlimit bt i) = 0"
    using h by (simp_all add: host_ready_def)
  obtain m where m: "?am [] ELKVM_SYSTEM_MEMGROW = Inr m"
    using h by (auto simp: host_ready_def)
  obtain cfd rs k where cpu: "boot_vcpu bt ?fd 0 = (cfd, Some rs, k)" "0 < cfd"
    using h unfolding host_ready_def by blast
  obtain rm where rm: "RegionManager ?am ?io ?fd (boot_mem bt) TLB = Inr rm" "fresh_rm rm"
    by (rule RegionManager_fresh [OF fd(1) am m io])
  obtain limits where limits: "new_rlimits (boot_rlimit bt) = Inr limits"
    using lim by (auto simp: new_rlimits_def list_all_iff)
  obtain vm0 where vm0: "create_vm_object bt opts = Inr (Some vm0)" "vm_cpus vm0 = []" "vm_rm vm0 = rm" "vm_fd vm0 = ?fd" "vm_cleanup vm0 = \<lparr>flat_region = None, flat_size = 0\<rparr>"
    using fd by (simp add: create_vm_object_def new_vm_def Let_def rm(1) limits vm_rm_def HeapManager_def)
  obtain st s rm' where S: "new_stack ?am ?io rm = Some (Inr (st, rm'))" "stack_inv rm' st" "stack_base st = 0x7FFFFFE00000" "length (stack_regions st) = 1"
    "kernel_stack st = Some s" "page_at rm' (kernel_page 0) s" "mem_ok rm'" "kernel_slots rm' 1" "page_room 7 rm'" "pt_view (rm_pager rm') (vpn 0x1000) = None"
    "root_first (rm_pager rm')"
    by (rule new_stack_fresh [OF rm(2) am])
  obtain kv where kv: "KVM_VCPU cfd (Some rs) k = Inr kv"
    using cpu(2) by (simp add: KVM_VCPU_def)
  define v0 where "v0 = init_rsp \<lparr>is_singlestepping = False, kvm_vcpu = initialize_regs kv, vcpu_stack = st\<rparr>"
  have nv: "new_vcpu ?am ?io cfd (Some rs) k rm = Some (Inr (v0, rm'))"
    by (simp add: new_vcpu_def kv S(1) v0_def)
  obtain e v1 where v1: "vcpu_set_regs ?ops v0 = (e, v1)" "same_cpu v0 v1"
    using set_regs_same by blast
  obtain v2 where v2: "vcpu_set_sregs ?ops v1 = (0, v2)" "same_cpu v1 v2" "synced ?ops v2"
    by (rule set_sregs_synced [OF kvm])
  have c: "vcpu_stack v2 = st" "vcpu_get_reg v2 = vcpu_get_reg v0" "vcpu_get_seg v2 = vcpu_get_seg v0"
    using same_cpuD [OF v1(2)] same_cpuD [OF v2(2)] by (simp_all add: v0_def init_rsp_def)
  have lm: "long_mode v2"
    using initialize_long_mode [of kv st, folded v0_def] long_mode_cong [of v2 v0] c(2,3) by simp
  have rsp: "vcpu_get_reg v2 RSP = 0x7FFFFFE00000"
    unfolding c(2) by (simp add: v0_def init_rsp_def user_base_def S(3))
  define vm where "vm = (set_vm_rm rm' vm0)\<lparr>vm_cpus := [v2]\<rparr>"
  have "add_cpu bt vm0 = Some (Inr (0, vm))"
    by (simp add: add_cpu_def Let_def vm0(2-4) cpu(1) nv v1(1) v2(1) vm_def)
  then have "create_virtual_hardware bt opts 1 = Some (Inr vm)"
    by (simp add: create_virtual_hardware_def vm0(1) bindS_def retS_def)
  moreover have "boot_inv bt vm v2 1 7"
    using S(2,7-11) v2(3) c(1) by (simp add: boot_inv_def vm_def)
  ultimately show ?thesis
    using that [of vm v2 s] rsp S(3-6) c(1) lm vm0(5) by (simp add: vm_def set_vm_rm_def vm_rm_def)
qed

section \<open>The whole machine\<close>

lemma page_code_kept:
  assumes "mem_ok rm" "kept {} rm rm'" "page_at rm g a" "length bs \<le> 4096" "\<And>i. i < length bs \<Longrightarrow> page_byte rm a i = bs ! i"
  shows "code_at rm' g bs"
  by (rule page_code [OF page_at_kept(1) [OF assms(1-3)] assms(4)]) (use page_at_kept(2) [OF assms(1-3)] assms(4,5) in simp)

lemma idt_entry_kept:
  assumes "mem_ok rm" "kept {} rm rm'" "page_at rm g a" "i < 256"
  shows "idt_entry_at rm' g i = idt_entry_at rm g i"
  using page_word_kept [OF assms(1-3), of "16 * i"] page_word_kept [OF assms(1-3), of "16 * i + 8"] assms(4)
  unfolding idt_entry_word by (simp del: of_nat_add of_nat_mult)

text \<open>The tables and the code of the kernel side, as the guest sees them.\<close>

definition kernel_side :: "('k, 'w) boot \<Rightarrow> u8 list \<Rightarrow> u8 list \<Rightarrow> u8 list \<Rightarrow> ('k, 'w) vm \<Rightarrow> 'k vcpu \<Rightarrow> bool" where
  "kernel_side bt isr entry sig vm v \<longleftrightarrow> (let rm = vm_rm vm in
     vcpu_get_seg v GDT = Segment_of (kernel_page 1) 63 \<and> guest_word rm (kernel_page 1 + 0x30) = gdt_word kernel_code
   \<and> vcpu_get_seg v TR = tss_segment (kernel_page 2) \<and> guest_word rm (kernel_page 2 + 36) = kernel_page 0 + 0x1000
   \<and> (\<forall>off < 4096. host_of (rm_pager rm) (kernel_page 0 + of_nat off) \<noteq> 0)
   \<and> vcpu_get_seg v IDT = Segment_of (kernel_page 4) 0xFFF
   \<and> (\<forall>i < 48. idt_entry_at rm (kernel_page 4) i = make_idt_entry (kernel_page 3 + of_nat (9 * i))) \<and> code_at rm (kernel_page 3) isr
   \<and> vcpu_get_msr (host_kvm (boot_host bt)) v VCPU_MSR_LSTAR = Inr (kernel_page 5) \<and> code_at rm (kernel_page 5) entry
   \<and> cleanup_address vm = Inr 0x1000 \<and> code_at rm 0x1000 sig)"

lemma setup_proxy_os_step:
  assumes inv: "boot_inv bt vm v 1 7" and am: "memalign_ok (host_memalign (boot_host bt))" and kvm: "kvm_keeps (host_kvm (boot_host bt))"
    and s: "kernel_stack (vcpu_stack v) = Some s" "page_at (vm_rm vm) (kernel_page 0) s"
    and f: "flat_file bt ''/isr'' isr" "flat_file bt ''/entry'' entry" "flat_file bt ''/signal'' sig"
  obtains vm' v' where "setup_proxy_os bt vm = Some (Inr (0, vm'))" "vm_cpus vm' = [v']" "kept {} (vm_rm vm) (vm_rm vm')" "synced (host_kvm (boot_host bt)) v'"
    "vcpu_get_reg v' = vcpu_get_reg v" "vcpu_stack v' = vcpu_stack v" "vcpu_get_seg v' CS = vcpu_get_seg v CS" "kernel_side bt isr entry sig vm' v'"
proof -
  have bs: "length isr \<le> 4096" "length entry \<le> 4096" "length sig \<le> 4096"
    using f by (simp_all add: flat_file_def)
  have inv': "boot_inv bt vm v 1 (Suc (Suc 5))"
    using inv by simp
  obtain g t vm1 v1 where 1: "create_gdt bt vm = Some (Inr (Some g, vm1))" "boot_inv bt vm1 v1 3 5" "kept {} (vm_rm vm) (vm_rm vm1)"
    "vcpu_get_reg v1 = vcpu_get_reg v" "vcpu_stack v1 = vcpu_stack v"
    "vcpu_get_seg v1 = (vcpu_get_seg v)(GDT := Segment_of (kernel_page 1) 63, TR := tss_segment (kernel_page 2))"
    "page_at (vm_rm vm1) (kernel_page 1) g" "page_at (vm_rm vm1) (kernel_page 2) t"
    "guest_word (vm_rm vm1) (kernel_page 1 + of_nat 48) = gdt_word kernel_code" "guest_word (vm_rm vm1) (kernel_page 2 + of_nat 36) = kernel_page 0 + 0x1000"
    by (rule create_gdt_step [OF inv' am kvm s])
  have inv1: "boot_inv bt vm1 v1 3 (Suc (Suc 3))"
    using 1(2) by simp
  obtain i d vm2 v2 where 2: "create_idt bt vm1 = Some (Inr (0, vm2))" "boot_inv bt vm2 v2 5 3" "kept {} (vm_rm vm1) (vm_rm vm2)"
    "vcpu_get_reg v2 = vcpu_get_reg v1" "vcpu_stack v2 = vcpu_stack v1" "vcpu_get_seg v2 = (vcpu_get_seg v1)(IDT := Segment_of (kernel_page 4) 0xFFF)"
    "page_at (vm_rm vm2) (kernel_page 3) i" "page_at (vm_rm vm2) (kernel_page 4) d" "\<And>j. j < length isr \<Longrightarrow> page_byte (vm_rm vm2) i j = isr ! j"
    "\<And>j. j < 48 \<Longrightarrow> idt_entry_at (vm_rm vm2) (kernel_page 4) j = make_idt_entry (kernel_page 3 + of_nat (9 * j))"
    by (rule create_idt_step [OF inv1 am kvm f(1)]) (rule that)
  have inv2: "boot_inv bt vm2 v2 5 (Suc 2)"
    using 2(2) by simp
  obtain e vm3 v3 where 3: "create_sysenter bt vm2 = Some (Inr (0, vm3))" "boot_inv bt vm3 v3 6 2" "kept {} (vm_rm vm2) (vm_rm vm3)"
    "vcpu_get_reg v3 = vcpu_get_reg v2" "vcpu_stack v3 = vcpu_stack v2" "vcpu_get_seg v3 = vcpu_get_seg v2"
    "vcpu_get_msr (host_kvm (boot_host bt)) v3 VCPU_MSR_LSTAR = Inr (kernel_page 5)"
    "page_at (vm_rm vm3) (kernel_page 5) e" "\<And>j. j < length entry \<Longrightarrow> page_byte (vm_rm vm3) e j = entry ! j"
    by (rule create_sysenter_step [OF inv2 am kvm f(2)]) (rule that)
  have inv3: "boot_inv bt vm3 v3 6 (Suc 1)"
    using 3(2) by (simp add: numeral_2_eq_2)
  obtain c vm4 where 4: "create_sighandler bt vm3 = Some (Inr (0, vm4))" "vm_cpus vm4 = [v3]" "kept {} (vm_rm vm3) (vm_rm vm4)"
    "flat_region (vm_cleanup vm4) = Some c" "page_at (vm_rm vm4) 0x1000 c" "\<And>j. j < length sig \<Longrightarrow> page_byte (vm_rm vm4) c j = sig ! j"
    by (rule create_sighandler_step [OF inv3 am f(3)]) (rule that)
  note ok = boot_invD(3) [OF inv] boot_invD(3) [OF 1(2)] boot_invD(3) [OF 2(2)] boot_invD(3) [OF 3(2)]
  have k24: "kept {} (vm_rm vm2) (vm_rm vm4)" and k14: "kept {} (vm_rm vm1) (vm_rm vm4)" and k: "kept {} (vm_rm vm) (vm_rm vm4)"
    using kept_trans [OF 3(3) 4(3)] kept_trans [OF 2(3) kept_trans [OF 3(3) 4(3)]]
      kept_trans [OF 1(3) kept_trans [OF 2(3) kept_trans [OF 3(3) 4(3)]]] by simp_all
  have run: "setup_proxy_os bt vm = Some (Inr (0, vm4))"
    by (simp add: setup_proxy_os_def bindS_def assertS_def retS_def 1(1) 2(1) 3(1) 4(1))
  have s4: "page_at (vm_rm vm4) (kernel_page 0) s"
    by (rule page_at_kept(1) [OF ok(1) k s(2)])
  have "kernel_side bt isr entry sig vm4 v3"
    unfolding kernel_side_def Let_def
  proof (intro conjI allI impI)
    show "guest_word (vm_rm vm4) (kernel_page 1 + 0x30) = gdt_word kernel_code"
      using page_word_kept [OF ok(2) k14 1(7), of 48] 1(9) by (simp del: One_nat_def)
    show "guest_word (vm_rm vm4) (kernel_page 2 + 36) = kernel_page 0 + 0x1000"
      using page_word_kept [OF ok(2) k14 1(8), of 36] 1(10) by simp
    show "host_of (rm_pager (vm_rm vm4)) (kernel_page 0 + of_nat off) \<noteq> 0" if "off < 4096" for off
      using region_byte(2) [of "vm_rm vm4" s off] keptD(1) [OF k] s4 that by (simp add: page_at_def mem_ok_def mem_inv_def)
    show "idt_entry_at (vm_rm vm4) (kernel_page 4) j = make_idt_entry (kernel_page 3 + of_nat (9 * j))" if "j < 48" for j
      using idt_entry_kept [OF ok(3) k24 2(8), of j] 2(10) [OF that] that by simp
    show "code_at (vm_rm vm4) (kernel_page 3) isr" "code_at (vm_rm vm4) (kernel_page 5) entry"
      by (rule page_code_kept [OF ok(3) k24 2(7) bs(1) 2(9)] page_code_kept [OF ok(4) 4(3) 3(8) bs(2) 3(9)]; assumption)+
    show "code_at (vm_rm vm4) 0x1000 sig"
      by (rule page_code [OF 4(5) bs(3) 4(6)])
    show "cleanup_address vm4 = Inr 0x1000"
      using 4(4,5) by (simp add: cleanup_address_def page_at_def)
  qed (use 1(6) 2(6) 3(6,7) in \<open>simp_all del: One_nat_def\<close>)
  then show ?thesis
    using that [OF run 4(2) k] boot_invD(2) [OF 3(2)] 1(4-6) 2(4-6) 3(4-6) by simp
qed

text \<open>C5. \<^verbatim>\<open>elkvm_vm_create_raw\<close> with one CPU returns a machine whenever the host gives it memory, a CPU and the three flat files of at
  most a page.  Its memory is consistent and the root of the page tables is guest physical address 0, which is what \<^verbatim>\<open>CR3\<close> holds; the
  CPU is in long mode, the kernel has its special registers, and its stack pointer is the base of a mapped stack.  The descriptor tables the
  CPU points to lie in kernel pages and have the contents the interrupt path needs: entry 6 of the GDT is kernel code, the interrupt stack of
  the TSS is the end of the mapped kernel stack, and gate \<open>i\<close> of the IDT leads to byte \<open>9 * i\<close> of the loaded interrupt code.  The
  system call register points to the loaded entry code, and the clean-up code of signals is at \<^verbatim>\<open>0x1000\<close>.\<close>

theorem elkvm_vm_create_raw_boots:
  assumes "host_ready bt opts" "flat_file bt ''/isr'' isr" "flat_file bt ''/entry'' entry" "flat_file bt ''/signal'' sig"
  shows "\<exists>vm v. elkvm_vm_create_raw bt opts 1 debug = Some (Inr vm) \<and> vm_cpus vm = [v] \<and> mem_ok (vm_rm vm) \<and> root_first (rm_pager (vm_rm vm))
    \<and> long_mode v \<and> synced (host_kvm (boot_host bt)) v \<and> vcpu_get_reg v RSP = 0x7FFFFFE00000 \<and> stack_base (vcpu_stack v) = 0x7FFFFFE00000
    \<and> stack_inv (vm_rm vm) (vcpu_stack v) \<and> length (stack_regions (vcpu_stack v)) = 1 \<and> kernel_side bt isr entry sig vm v"
proof -
  have h: "host_ready bt (opts\<lparr>opt_debug := debug\<rparr>)" "memalign_ok (host_memalign (boot_host bt))" "kvm_keeps (host_kvm (boot_host bt))"
    using assms(1) by (simp_all add: host_ready_def)
  obtain s vm v where 1: "create_virtual_hardware bt (opts\<lparr>opt_debug := debug\<rparr>) 1 = Some (Inr vm)" "boot_inv bt vm v 1 7" "vcpu_get_reg v RSP = 0x7FFFFFE00000"
    "stack_base (vcpu_stack v) = 0x7FFFFFE00000" "length (stack_regions (vcpu_stack v)) = 1" "kernel_stack (vcpu_stack v) = Some s"
    "page_at (vm_rm vm) (kernel_page 0) s" "long_mode v"
    by (rule create_hardware_step [OF h(1)])
  obtain vm' v' where 2: "setup_proxy_os bt vm = Some (Inr (0, vm'))" "vm_cpus vm' = [v']" "kept {} (vm_rm vm) (vm_rm vm')" "synced (host_kvm (boot_host bt)) v'"
    "vcpu_get_reg v' = vcpu_get_reg v" "vcpu_stack v' = vcpu_stack v" "vcpu_get_seg v' CS = vcpu_get_seg v CS" "kernel_side bt isr entry sig vm' v'"
    by (rule setup_proxy_os_step [OF 1(2) h(2,3) 1(6,7) assms(2-4)])
  note B = boot_invD [OF 1(2)]
  have "elkvm_vm_create_raw bt opts 1 debug = Some (Inr vm')"
    unfolding elkvm_vm_create_raw_def Let_def 1(1) by (simp add: 2(1))
  then show ?thesis
    using 1(3-5,8) 2(2,4-8) long_mode_cong [OF 2(5,7)] keptD(1) [OF 2(3)] root_first_kept [OF 2(3) B(8)] kept_stack [OF B(3) 2(3) B(4)]
    by (intro exI [of _ vm'] exI [of _ v']) simp
qed

text \<open>A host for the witness: the kernel keeps the special registers and the model specific registers, and each flat file has a few bytes.\<close>

definition sample_kvm :: "(kvm_sregs \<times> (u32 \<Rightarrow> u64)) kvm_ops" where
  "sample_kvm = \<lparr>op_get_regs = (\<lambda>_. Inr zero_regs), op_set_regs = (\<lambda>_ k. Inr k), op_get_sregs = (\<lambda>(s, _). Inr s),
     op_set_sregs = (\<lambda>s (_, m). Inr (s, m)), op_get_msrs = (\<lambda>i (_, m). (1, m i)), op_set_msrs = (\<lambda>i d (s, m). (1, (s, m(i := d)))),
     op_set_guest_debug = (\<lambda>_ k. (0, k)), op_run = (\<lambda>k m. (-1, kv_run (kvm_vcpu sample_vcpu), m, k))\<rparr>"

definition sample_boot_file :: "int \<Rightarrow> u8 list" where
  "sample_boot_file fd = [0xFA, of_int fd, 0xCF]"

definition sample_boot_files :: host_files where
  "sample_boot_files = \<lparr>lseek_cur = (\<lambda>_. 0), lseek_set = (\<lambda>_ off. off), read_at = (\<lambda>fd off n. take n (drop (nat off) (sample_boot_file fd)))\<rparr>"

definition sample_boot :: "(kvm_sregs \<times> (u32 \<Rightarrow> u64), unit) boot" where
  "sample_boot =
     \<lparr>boot_host = \<lparr>host_memalign = sample_memalign, host_set_region = (\<lambda>_. 0), host_kvm = sample_kvm, host_fs = sample_boot_files,
        host_sigaction = (\<lambda>_ w. (0, w))\<rparr>,
      boot_elf = \<lparr>eh_open = (\<lambda>_. -1), eh_files = sample_boot_files, elf_version_ok = True, elf_begin = (\<lambda>_. None)\<rparr>,
      boot_create_vm = (\<lambda>_. 4), boot_mmap_size = (\<lambda>_. 0x3000),
      boot_vcpu = (\<lambda>_ _. (5, Some (kv_run (kvm_vcpu sample_vcpu)), (zero_sregs, \<lambda>_. 0))), boot_rlimit = (\<lambda>_. (0, (0, 0))),
      boot_open = (\<lambda>path. if path = ''/r/isr'' then Inr 6 else if path = ''/r/entry'' then Inr 7 else Inr 8), boot_fstat = (\<lambda>_. Inr 3),
      boot_words = (\<lambda>_. []), boot_cstr = (\<lambda>_. ''''), boot_mem = (\<lambda>_. 0), boot_world = (), res_path = ''/r''\<rparr>"

definition sample_opts :: elkvm_opts where
  "sample_opts = \<lparr>opt_argc = 0, opt_argv = 0, opt_environ = 0, opt_debug = False, opt_fd = 3, opt_run_struct_size = 0x3000\<rparr>"

lemma sample_boot_flat:
  "flat_file sample_boot ''/isr'' [0xFA, 6, 0xCF]" "flat_file sample_boot ''/entry'' [0xFA, 7, 0xCF]" "flat_file sample_boot ''/signal'' [0xFA, 8, 0xCF]"
proof -
  have f: "file_is sample_boot_files fd [0xFA, of_int fd, 0xCF]" for fd
    unfolding file_is_def sample_boot_files_def sample_boot_file_def by auto
  show "flat_file sample_boot ''/isr'' [0xFA, 6, 0xCF]" "flat_file sample_boot ''/entry'' [0xFA, 7, 0xCF]" "flat_file sample_boot ''/signal'' [0xFA, 8, 0xCF]"
    using f [of 6] f [of 7] f [of 8] by (simp_all add: flat_file_def sample_boot_def)
qed

lemma sample_boot_ready: "host_ready sample_boot sample_opts"
proof -
  have "kvm_keeps sample_kvm"
    by (simp add: kvm_keeps_def sample_kvm_def split_beta)
  moreover have "\<exists>h. sample_memalign [] ELKVM_SYSTEM_MEMGROW = Inr h"
    by (simp add: sample_memalign_def ELKVM_SYSTEM_MEMGROW_def)
  ultimately show ?thesis
    by (simp add: host_ready_def sample_boot_def sample_memalign_ok)
qed

theorem elkvm_vm_create_raw_boots_witness:
  "\<exists>vm v. elkvm_vm_create_raw sample_boot sample_opts 1 True = Some (Inr vm) \<and> vm_cpus vm = [v] \<and> mem_ok (vm_rm vm) \<and> long_mode v
     \<and> kernel_side sample_boot [0xFA, 6, 0xCF] [0xFA, 7, 0xCF] [0xFA, 8, 0xCF] vm v"
  using elkvm_vm_create_raw_boots [OF sample_boot_ready sample_boot_flat, of True] by blast

end
